(* ===== verification/Go_Prelude.thy ===== *)
theory Go_Prelude
  imports Main "HOL-Library.List_Lexorder" "HOL-Library.Char_ord" "HOL-Library.Word"
    "HOL-Library.AList"
begin

text \<open>
  Shared vocabulary of the development: Go's byte strings, instants and durations, the
  standard-library string functions the package calls, and generic lemmas on lists and
  maps that the component theories use.

  A Go \<open>string\<close> and a Go \<open>[]byte\<close> are byte sequences; an Isabelle \<open>char\<close> is one byte,
  so both are \<^typ>\<open>string\<close>. Go compares strings bytewise and lexicographically, which
  is the order of \<open>List_Lexorder\<close> over \<open>Char_ord\<close>.
\<close>

named_theorems go_defs \<open>definitions of Go standard-library functions\<close>

type_synonym bytes = string
type_synonym time = int        \<comment> \<open>\<open>time.Time\<close>: nanoseconds on one clock\<close>
type_synonym duration = int    \<comment> \<open>\<open>time.Duration\<close>: nanoseconds, an int64\<close>
type_synonym int64 = "64 word" \<comment> \<open>Go's \<open>int\<close> and \<open>int64\<close> on 64-bit platforms\<close>

abbreviation second :: duration where "second \<equiv> 1000000000"
abbreviation minute :: duration where "minute \<equiv> 60 * second"
abbreviation hour :: duration where "hour \<equiv> 60 * minute"

subsection \<open>Time\<close>

text \<open>\<open>time.Time.Sub\<close> saturates at the ends of the int64 range.\<close>

definition time_Sub :: "time \<Rightarrow> time \<Rightarrow> duration" where [go_defs]:
  "time_Sub t u = max (- (2 ^ 63)) (min (2 ^ 63 - 1) (t - u))"

lemma time_Sub_nonneg: "u \<le> t \<Longrightarrow> 0 \<le> time_Sub t u"
  by (simp add: time_Sub_def)

lemma time_Sub_le: "u \<le> t \<Longrightarrow> time_Sub t u \<le> t - u"
  by (auto simp: time_Sub_def)

lemma time_Sub_exact: "\<bar>t - u\<bar> < 2 ^ 63 \<Longrightarrow> time_Sub t u = t - u"
  by (auto simp: time_Sub_def)

subsection \<open>Lists\<close>

lemma in_set_takeE:
  assumes "x \<in> set (take i xs)"
  obtains k where "k < i" and "k < length xs" and "x = xs ! k"
  using assms by (auto simp: in_set_conv_nth)

lemma in_set_dropE:
  assumes "x \<in> set (drop i xs)"
  obtains k where "i \<le> k" and "k < length xs" and "x = xs ! k"
proof -
  from assms obtain j where "j < length xs - i" and "x = drop i xs ! j"
    by (auto simp: in_set_conv_nth)
  then show thesis by (intro that[of "i + j"]) auto
qed

lemma filter_split_at:
  assumes "\<forall>x \<in> set (take i xs). \<not> P x" and "\<forall>x \<in> set (drop i xs). P x"
  shows "filter P xs = drop i xs"
proof -
  have "filter P xs = filter P (take i xs) @ filter P (drop i xs)"
    by (metis append_take_drop_id filter_append)
  then show ?thesis using assms by (simp add: filter_id_conv filter_empty_conv)
qed

subsection \<open>Maps\<close>

text \<open>
  A Go map or \<open>sync.Map\<close> that is ranged over or counted is an association list without
  duplicate keys: \<^const>\<open>map_of\<close> reads it, \<^const>\<open>AList.update\<close> stores and
  \<^const>\<open>AList.delete\<close> deletes. The order of the list stands for the unspecified order of a
  \<open>range\<close> loop; a result that depends on it is stated for every order.
\<close>

type_synonym ('k, 'v) gomap = "('k \<times> 'v) list"

abbreviation keys :: "('k, 'v) gomap \<Rightarrow> 'k list" where
  "keys m \<equiv> map fst m"

abbreviation map_ok :: "('k, 'v) gomap \<Rightarrow> bool" where
  "map_ok m \<equiv> distinct (keys m)"

lemma map_ok_update [simp]: "map_ok m \<Longrightarrow> map_ok (AList.update k v m)"
  by (rule distinct_update)

lemma map_ok_delete [simp]: "map_ok m \<Longrightarrow> map_ok (AList.delete k m)"
  by (rule distinct_delete)

lemma map_ok_filter [simp]: "map_ok m \<Longrightarrow> map_ok (filter P m)"
  by (rule distinct_map_filter)

lemma map_of_filter:
  "map_ok m \<Longrightarrow> map_of (filter P m) k =
     (case map_of m k of None \<Rightarrow> None | Some v \<Rightarrow> if P (k, v) then Some v else None)"
  by (induction m) (auto split: option.split simp: map_of_eq_None_iff)

lemma map_of_update [simp]:
  "map_of (AList.update k v m) k' = (if k' = k then Some v else map_of m k')"
  by (simp add: update_conv')

lemma map_of_delete [simp]:
  "map_of (AList.delete k m) k' = (if k' = k then None else map_of m k')"
  by (simp add: delete_conv')

lemma set_updateD:
  "kv \<in> set (AList.update k v m) \<Longrightarrow> kv = (k, v) \<or> kv \<in> set m"
  by (induction m) (auto split: if_splits)

lemma set_update:
  "map_ok m \<Longrightarrow> set (AList.update k v m) = insert (k, v) {kv \<in> set m. fst kv \<noteq> k}"
  by (induction m) (auto simp: image_iff)

lemma set_delete: "set (AList.delete k m) = {kv \<in> set m. fst kv \<noteq> k}"
  by (auto simp: AList.delete_eq)

text \<open>Every value of a map satisfies a predicate; how updates keep that.\<close>

definition all_vals :: "('v \<Rightarrow> bool) \<Rightarrow> ('k, 'v) gomap \<Rightarrow> bool" where
  "all_vals P m \<longleftrightarrow> list_all P (map snd m)"

lemma all_vals_empty [simp]: "all_vals P []"
  by (simp add: all_vals_def)

lemma all_vals_iff: "all_vals P m \<longleftrightarrow> (\<forall>(k, v) \<in> set m. P v)"
  by (auto simp: all_vals_def list_all_iff)

lemma all_vals_update [simp]: "all_vals P m \<Longrightarrow> P v \<Longrightarrow> all_vals P (AList.update k v m)"
  by (auto simp: all_vals_iff dest!: set_updateD)

lemma all_vals_delete [simp]: "all_vals P m \<Longrightarrow> all_vals P (AList.delete k m)"
  by (auto simp: all_vals_iff set_delete)

lemma all_vals_filter [simp]: "all_vals P m \<Longrightarrow> all_vals P (filter Q m)"
  by (auto simp: all_vals_iff)

lemma all_vals_lookup: "all_vals P m \<Longrightarrow> map_of m k = Some v \<Longrightarrow> P v"
  by (auto simp: all_vals_iff dest: map_of_SomeD)

lemma all_vals_mono: "all_vals P m \<Longrightarrow> (\<And>v. P v \<Longrightarrow> Q v) \<Longrightarrow> all_vals Q m"
  by (auto simp: all_vals_iff)

text \<open>The same for predicates of keys and values.\<close>

definition all_entries :: "('k \<Rightarrow> 'v \<Rightarrow> bool) \<Rightarrow> ('k, 'v) gomap \<Rightarrow> bool" where
  "all_entries P m \<longleftrightarrow> list_all (\<lambda>(k, v). P k v) m"

lemma all_entries_empty [simp]: "all_entries P []"
  by (simp add: all_entries_def)

lemma all_entries_update [simp]: "all_entries P m \<Longrightarrow> P k v \<Longrightarrow> all_entries P (AList.update k v m)"
  by (auto simp: all_entries_def list_all_iff dest!: set_updateD)

lemma all_entries_delete [simp]: "all_entries P m \<Longrightarrow> all_entries P (AList.delete k m)"
  by (auto simp: all_entries_def list_all_iff set_delete)

lemma all_entries_lookup: "all_entries P m \<Longrightarrow> map_of m k = Some v \<Longrightarrow> P k v"
  by (auto simp: all_entries_def list_all_iff dest!: map_of_SomeD)

lemma all_entries_mono: "all_entries P m \<Longrightarrow> (\<And>k v. P k v \<Longrightarrow> Q k v) \<Longrightarrow> all_entries Q m"
  by (auto simp: all_entries_def list_all_iff)

subsection \<open>Clock\<close>

text \<open>
  \<open>time.Now\<close> as a stream of readings that an operation consumes in order. Go's monotonic
  clock makes the stream non-decreasing (\<^term>\<open>mono (ck :: nat \<Rightarrow> time)\<close>).
\<close>

type_synonym clock = "nat \<Rightarrow> time"

definition time_Now :: "clock \<Rightarrow> time \<times> clock" where
  "time_Now ck = (ck 0, \<lambda>i. ck (Suc i))"

lemma time_Now_simps [simp]: "fst (time_Now ck) = ck 0" "snd (time_Now ck) i = ck (Suc i)"
  by (simp_all add: time_Now_def)

lemma mono_tick: "mono ck \<Longrightarrow> mono (\<lambda>i. ck (Suc i))"
  by (simp add: mono_iff_le_Suc)

end
