(* ===== verification/Pagination.thy ===== *)
theory Pagination
  imports Go_Prelude "HOL-Library.Multiset"
begin

text \<open>
  Model of \<open>pagination.go\<close>: the opaque cursors (\<open>encodeCursor\<close>, \<open>decodeCursor\<close>, over
  \<open>base64.RawURLEncoding\<close>), the binary search \<open>sort.Search\<close> and \<open>paginate\<close>. The lemmas
  show that cursors round-trip, that the binary search finds the first match, that a page
  is the first \<open>defaultPageSize\<close> items after the cursor's key, and that following the
  cursors visits every item of a registry exactly once, in key order.
\<close>

subsection \<open>base64.RawURLEncoding\<close>

definition b64_alphabet :: string where
  "b64_alphabet = ''ABCDEFGHIJKLMNOPQRSTUVWXYZabcdefghijklmnopqrstuvwxyz0123456789-_''"

definition b64_char :: "nat \<Rightarrow> char" where
  "b64_char i = b64_alphabet ! i"

text \<open>The decode map of the encoding: the position of a character in the alphabet.\<close>

definition b64_index :: "char \<Rightarrow> nat option" where
  "b64_index c = map_of (zip b64_alphabet [0..<64]) c"

fun b64_sextets :: "nat list \<Rightarrow> nat list" where
  "b64_sextets [] = []"
| "b64_sextets [a] = [a div 4, a mod 4 * 16]"
| "b64_sextets [a, b] = [a div 4, a mod 4 * 16 + b div 16, b mod 16 * 4]"
| "b64_sextets (a # b # c # r) =
     [a div 4, a mod 4 * 16 + b div 16, b mod 16 * 4 + c div 64, c mod 64] @ b64_sextets r"

text \<open>
  Decoding works on quanta of four sextets. A final quantum of one sextet is an error; the
  unused low bits of a final quantum of two or three are ignored (the encoding is not
  strict).
\<close>

fun b64_octets :: "nat list \<Rightarrow> nat list option" where
  "b64_octets [] = Some []"
| "b64_octets [a] = None"
| "b64_octets [a, b] = Some [a * 4 + b div 16]"
| "b64_octets [a, b, c] = Some [a * 4 + b div 16, b mod 16 * 16 + c div 4]"
| "b64_octets (a # b # c # d # r) =
     map_option (\<lambda>os. [a * 4 + b div 16, b mod 16 * 16 + c div 4, c mod 4 * 64 + d] @ os)
       (b64_octets r)"

definition RawURLEncoding_EncodeToString :: "bytes \<Rightarrow> string" where
  "RawURLEncoding_EncodeToString bs = map b64_char (b64_sextets (map of_char bs))"

text \<open>\<open>DecodeString\<close> skips carriage returns and newlines and refuses any other character
  outside the alphabet.\<close>

definition RawURLEncoding_DecodeString :: "string \<Rightarrow> bytes option" where
  "RawURLEncoding_DecodeString s =
     (case those (map b64_index (filter (\<lambda>c. c \<noteq> CHR 0x0A \<and> c \<noteq> CHR 0x0D) s)) of
        None \<Rightarrow> None
      | Some ns \<Rightarrow> map_option (map char_of) (b64_octets ns))"

subsection \<open>Cursors\<close>

definition encodeCursor :: "string \<Rightarrow> string" where
  "encodeCursor key = RawURLEncoding_EncodeToString key"

definition decodeCursor :: "string \<Rightarrow> string option" where
  "decodeCursor cursor = RawURLEncoding_DecodeString cursor"

lemma b64_index_char: "i < 64 \<Longrightarrow> b64_index (b64_char i) = Some i"
proof -
  have "\<forall>i \<in> set [0..<64]. b64_index (b64_char i) = Some i"
    by code_simp
  then show "i < 64 \<Longrightarrow> b64_index (b64_char i) = Some i" by simp
qed

lemma b64_char_not_newline: "i < 64 \<Longrightarrow> b64_char i \<noteq> CHR 0x0A \<and> b64_char i \<noteq> CHR 0x0D"
proof -
  have "\<forall>i \<in> set [0..<64]. b64_char i \<noteq> CHR 0x0A \<and> b64_char i \<noteq> CHR 0x0D"
    by code_simp
  then show "i < 64 \<Longrightarrow> b64_char i \<noteq> CHR 0x0A \<and> b64_char i \<noteq> CHR 0x0D" by simp
qed

lemma b64_sextets_lt_64: "\<forall>b \<in> set bs. b < 256 \<Longrightarrow> \<forall>s \<in> set (b64_sextets bs). s < 64"
  by (induction bs rule: b64_sextets.induct) auto

lemma b64_octets_sextets: "\<forall>b \<in> set bs. b < 256 \<Longrightarrow> b64_octets (b64_sextets bs) = Some bs"
  by (induction bs rule: b64_sextets.induct) (auto simp: algebra_simps)

lemma those_map_Some: "\<forall>x \<in> set xs. f x = Some (g x) \<Longrightarrow> those (map f xs) = Some (map g xs)"
  by (induction xs) auto

lemma decode_encode: "RawURLEncoding_DecodeString (RawURLEncoding_EncodeToString bs) = Some bs"
proof -
  let ?ns = "b64_sextets (map of_char bs) :: nat list"
  have lt: "\<forall>s \<in> set ?ns. s < 64"
    by (rule b64_sextets_lt_64) (auto simp: of_char_def)
  have keep: "filter (\<lambda>c. c \<noteq> CHR 0x0A \<and> c \<noteq> CHR 0x0D) (map b64_char ?ns) = map b64_char ?ns"
    using lt b64_char_not_newline by (auto simp: filter_id_conv)
  have idx: "those (map b64_index (map b64_char ?ns)) = Some ?ns"
    using lt those_map_Some[of ?ns "b64_index \<circ> b64_char" "\<lambda>x. x"]
    by (simp add: b64_index_char)
  have "b64_octets ?ns = Some (map of_char bs)"
    by (rule b64_octets_sextets) (auto simp: of_char_def)
  then show ?thesis
    by (simp add: RawURLEncoding_DecodeString_def RawURLEncoding_EncodeToString_def keep idx
        del: map_map) (simp add: comp_def)
qed

lemma decodeCursor_encodeCursor [simp]: "decodeCursor (encodeCursor k) = Some k"
  by (simp add: decodeCursor_def encodeCursor_def decode_encode)

lemma encodeCursor_empty_iff [simp]: "encodeCursor k = [] \<longleftrightarrow> k = []"
  by (cases k rule: remdups_adj.cases)
    (auto simp: encodeCursor_def RawURLEncoding_EncodeToString_def elim: b64_sextets.elims)

subsection \<open>Binary search\<close>

text \<open>
  \<open>sort.Search(n, f)\<close>: the loop keeps \<open>f (i - 1) = false\<close> and \<open>f j = true\<close> and halves
  the interval \<open>[i, j)\<close>.
\<close>

function search_loop :: "(nat \<Rightarrow> bool) \<Rightarrow> nat \<Rightarrow> nat \<Rightarrow> nat" where
  "search_loop f i j =
     (if i < j
      then let h = (i + j) div 2
           in if \<not> f h then search_loop f (h + 1) j else search_loop f i h
      else i)"
  by pat_completeness auto
termination
  by (relation "measure (\<lambda>(f, i, j). j - i)") auto

declare search_loop.simps [simp del]

definition sort_Search :: "nat \<Rightarrow> (nat \<Rightarrow> bool) \<Rightarrow> nat" where
  "sort_Search n f = search_loop f 0 n"

lemma search_loop_bounds: "i \<le> j \<Longrightarrow> i \<le> search_loop f i j \<and> search_loop f i j \<le> j"
proof (induction f i j rule: search_loop.induct)
  case (1 f i j)
  show ?case
  proof (cases "i < j")
    case True
    then have "(i + j) div 2 < j" "i \<le> (i + j) div 2" by auto
    with True "1.IH" show ?thesis
      by (subst (1 2) search_loop.simps) (fastforce simp: Let_def)
  qed (use "1.prems" in \<open>simp add: search_loop.simps\<close>)
qed

lemma search_loop_first:
  assumes "\<forall>a b. a \<le> b \<and> b < n \<and> f a \<longrightarrow> f b" and "i \<le> j" and "j \<le> n"
    and "\<forall>k < i. \<not> f k" and "\<forall>k. j \<le> k \<and> k < n \<longrightarrow> f k"
  shows "(\<forall>k < search_loop f i j. \<not> f k) \<and> (\<forall>k. search_loop f i j \<le> k \<and> k < n \<longrightarrow> f k)"
  using assms
proof (induction f i j rule: search_loop.induct)
  case (1 f i j)
  note up = "1.prems"(1)[rule_format]
  show ?case
  proof (cases "i < j")
    case True
    let ?h = "(i + j) div 2"
    from True have h: "?h < j" "i \<le> ?h" by auto
    show ?thesis
    proof (cases "f ?h")
      case True
      then have ge: "\<forall>k. ?h \<le> k \<and> k < n \<longrightarrow> f k" using up by blast
      have "(\<forall>k < search_loop f i ?h. \<not> f k) \<and>
            (\<forall>k. search_loop f i ?h \<le> k \<and> k < n \<longrightarrow> f k)"
        by (rule "1.IH"(2)[OF \<open>i < j\<close> refl _ "1.prems"(1) _ _ "1.prems"(4) ge])
          (use True h "1.prems"(3) in linarith | use True in simp)+
      with True \<open>i < j\<close> show ?thesis by (subst (1 2) search_loop.simps) (simp add: Let_def)
    next
      case False
      have "?h < n" using h "1.prems"(3) by simp
      then have lt: "\<forall>k < ?h + 1. \<not> f k"
        using False up[of _ ?h] by (auto simp: less_Suc_eq_le)
      have "(\<forall>k < search_loop f (?h + 1) j. \<not> f k) \<and>
            (\<forall>k. search_loop f (?h + 1) j \<le> k \<and> k < n \<longrightarrow> f k)"
        by (rule "1.IH"(1)[OF \<open>i < j\<close> refl _ "1.prems"(1) _ "1.prems"(3) lt "1.prems"(5)])
          (use False h in linarith | use False in simp)+
      with False \<open>i < j\<close> show ?thesis by (subst (1 2) search_loop.simps) (simp add: Let_def)
    qed
  next
    case False
    with "1.prems" show ?thesis by (subst (1 2) search_loop.simps) auto
  qed
qed

lemma sort_Search_le: "sort_Search n f \<le> n"
  using search_loop_bounds[of 0 n f] by (simp add: sort_Search_def)

lemma sort_Search_first:
  assumes "\<forall>a b. a \<le> b \<and> b < n \<and> f a \<longrightarrow> f b"
  shows "(\<forall>k < sort_Search n f. \<not> f k) \<and> (\<forall>k. sort_Search n f \<le> k \<and> k < n \<longrightarrow> f k)"
  unfolding sort_Search_def by (rule search_loop_first[OF assms]) auto

subsection \<open>paginate\<close>

definition defaultPageSize :: nat where
  "defaultPageSize = 100"

text \<open>
  \<open>sort.Slice\<close> returns some permutation of its input that is sorted by key. The registries
  hold at most one item per key, and then there is exactly one such permutation
  (lemma \<open>sort_Slice_unique\<close>), the one \<^const>\<open>sort_key\<close> computes.
\<close>

definition paginate :: "'a list \<Rightarrow> string \<Rightarrow> ('a \<Rightarrow> string) \<Rightarrow> 'a list \<times> string" where
  "paginate items cursor key =
     (let items = sort_key key items;
          page = (\<lambda>start.
            let end = start + defaultPageSize
            in if length items \<le> end then (drop start items, [])
               else (drop start (take end items), encodeCursor (key (items ! (end - 1)))))
      in if cursor = [] then page 0
         else case decodeCursor cursor of
                None \<Rightarrow> ([], [])
              | Some after \<Rightarrow> page (sort_Search (length items) (\<lambda>i. after < key (items ! i))))"

lemma sort_Slice_unique:
  assumes "distinct (map key items)" and "mset xs = mset items" and "sorted (map key xs)"
  shows "xs = sort_key key items"
  by (rule sort_key_inj_key_eq[symmetric]) (use assms in \<open>auto simp: distinct_map\<close>)

text \<open>What a page promises: the items after a key, in key order.\<close>

definition items_after :: "('a \<Rightarrow> string) \<Rightarrow> string \<Rightarrow> 'a list \<Rightarrow> 'a list" where
  "items_after key after items = filter (\<lambda>x. after < key x) (sort_key key items)"

lemma drop_Search_eq_filter:
  fixes key :: "'a \<Rightarrow> string"
  assumes "sorted (map key xs)"
  shows "drop (sort_Search (length xs) (\<lambda>i. after < key (xs ! i))) xs
       = filter (\<lambda>x. after < key x) xs"
proof -
  let ?f = "\<lambda>i. after < key (xs ! i)"
  let ?s = "sort_Search (length xs) ?f"
  have "\<forall>a b. a \<le> b \<and> b < length xs \<and> ?f a \<longrightarrow> ?f b"
    using assms by (auto simp: sorted_iff_nth_mono intro: less_le_trans)
  from sort_Search_first[OF this]
  have "\<forall>k < ?s. \<not> ?f k" and "\<forall>k. ?s \<le> k \<and> k < length xs \<longrightarrow> ?f k"
    by blast+
  then have "\<forall>x \<in> set (take ?s xs). \<not> after < key x" and "\<forall>x \<in> set (drop ?s xs). after < key x"
    by (blast elim: in_set_takeE in_set_dropE)+
  then show ?thesis by (rule filter_split_at[symmetric])
qed

lemma paginate_first:
  "paginate items [] key =
     (take defaultPageSize (sort_key key items),
      if length items \<le> defaultPageSize then []
      else encodeCursor (key (sort_key key items ! (defaultPageSize - 1))))"
  by (simp add: paginate_def Let_def)

lemma paginate_after:
  assumes "cursor \<noteq> []" and "decodeCursor cursor = Some after"
  shows "paginate items cursor key =
     (take defaultPageSize (items_after key after items),
      if length (items_after key after items) \<le> defaultPageSize then []
      else encodeCursor (key (items_after key after items ! (defaultPageSize - 1))))"
proof -
  let ?xs = "sort_key key items"
  let ?s = "sort_Search (length ?xs) (\<lambda>i. after < key (?xs ! i))"
  have le: "?s \<le> length ?xs" by (rule sort_Search_le)
  have d: "items_after key after items = drop ?s ?xs"
    by (simp add: items_after_def drop_Search_eq_filter del: length_sort)
  have "paginate items cursor key =
     (if length ?xs \<le> ?s + defaultPageSize then (drop ?s ?xs, [])
      else (drop ?s (take (?s + defaultPageSize) ?xs),
            encodeCursor (key (?xs ! (?s + defaultPageSize - 1)))))"
    using assms by (simp add: paginate_def Let_def del: length_sort)
  then show ?thesis
    using le by (auto simp: d drop_take defaultPageSize_def le_diff_conv add.commute
        simp del: length_sort)
qed

lemma paginate_bad_cursor:
  "cursor \<noteq> [] \<Longrightarrow> decodeCursor cursor = None \<Longrightarrow> paginate items cursor key = ([], [])"
  by (simp add: paginate_def Let_def)

lemmas paginate_cases = paginate_first paginate_after paginate_bad_cursor

lemma paginate_page_size: "length (fst (paginate items cursor key)) \<le> defaultPageSize"
  by (cases "cursor = []"; cases "decodeCursor cursor") (simp_all add: paginate_cases)

text \<open>A returned cursor is empty or the cursor of an item.\<close>

lemma paginate_next: "snd (paginate items cursor key) \<in> insert [] (encodeCursor ` key ` set items)"
proof -
  have first: "sort_key key items ! (defaultPageSize - 1) \<in> set items"
    if "\<not> length items \<le> defaultPageSize"
    using that nth_mem[of "defaultPageSize - 1" "sort_key key items"] by (simp add: defaultPageSize_def)
  have rest: "items_after key after items ! (defaultPageSize - 1) \<in> set items"
    if "\<not> length (items_after key after items) \<le> defaultPageSize" for after
  proof -
    have "items_after key after items ! (defaultPageSize - 1) \<in> set (items_after key after items)"
      using that by (simp add: defaultPageSize_def)
    then show ?thesis by (simp add: items_after_def)
  qed
  show ?thesis
    by (cases "cursor = []"; cases "decodeCursor cursor") (use first rest in \<open>simp_all add: paginate_cases\<close>)
qed

subsection \<open>Following the cursors\<close>

text \<open>A client that asks for the first page and then for each next cursor until it is empty.\<close>

fun follow_cursors :: "nat \<Rightarrow> 'a list \<Rightarrow> string \<Rightarrow> ('a \<Rightarrow> string) \<Rightarrow> 'a list option" where
  "follow_cursors 0 items cursor key = None"
| "follow_cursors (Suc fuel) items cursor key =
     (case paginate items cursor key of (page, nxt) \<Rightarrow>
        if nxt = [] then Some page
        else map_option (\<lambda>rest. page @ rest) (follow_cursors fuel items nxt key))"

lemma filter_gt_nth:
  fixes k :: "'a \<Rightarrow> 'b :: linorder"
  assumes "sorted (map k xs)" and "distinct (map k xs)" and "n < length xs"
  shows "filter (\<lambda>x. k (xs ! n) < k x) xs = drop (Suc n) xs"
proof (rule filter_split_at)
  show "\<forall>x \<in> set (take (Suc n) xs). \<not> k (xs ! n) < k x"
  proof
    fix x assume "x \<in> set (take (Suc n) xs)"
    then obtain j where j: "j < Suc n" "j < length xs" "x = xs ! j" by (rule in_set_takeE)
    then show "\<not> k (xs ! n) < k x"
      using sorted_nth_mono[OF assms(1), of j n] assms(3) by (simp add: not_less)
  qed
  show "\<forall>x \<in> set (drop (Suc n) xs). k (xs ! n) < k x"
  proof
    fix x assume "x \<in> set (drop (Suc n) xs)"
    then obtain j where j: "Suc n \<le> j" "j < length xs" "x = xs ! j" by (rule in_set_dropE)
    then have "k (xs ! n) \<le> k (xs ! j)" and "k (xs ! n) \<noteq> k (xs ! j)"
      using sorted_nth_mono[OF assms(1), of n j] nth_eq_iff_index_eq[OF assms(2), of n j] by auto
    then show "k (xs ! n) < k x" using j(3) by simp
  qed
qed

lemma items_after_next:
  assumes "distinct (map key items)" and "n < length (items_after key after items)"
  shows "items_after key (key (items_after key after items ! n)) items
       = drop (Suc n) (items_after key after items)"
proof -
  let ?r = "items_after key after items"
  let ?k = "key (?r ! n)"
  have "?r ! n \<in> set ?r" using assms(2) by simp
  then have gt: "after < ?k" by (simp add: items_after_def)
  have "items_after key ?k items = filter (\<lambda>x. ?k < key x) ?r"
    using gt by (auto simp: items_after_def intro!: filter_cong)
  also have "\<dots> = drop (Suc n) ?r"
    by (rule filter_gt_nth)
      (use assms in \<open>auto simp: items_after_def sorted_filter distinct_map inj_on_def\<close>)
  finally show ?thesis .
qed

lemma follow_cursors_after:
  assumes "distinct (map key items)" and "after \<noteq> []"
    and "length (items_after key after items) < fuel"
  shows "follow_cursors fuel items (encodeCursor after) key = Some (items_after key after items)"
  using assms(2,3)
proof (induction fuel arbitrary: after)
  case (Suc fuel)
  let ?r = "items_after key after items"
  show ?case
  proof (cases "length ?r \<le> defaultPageSize")
    case False
    let ?k = "key (?r ! (defaultPageSize - 1))"
    have n: "defaultPageSize - 1 < length ?r" using False by (simp add: defaultPageSize_def)
    then have "?r ! (defaultPageSize - 1) \<in> set ?r" by simp
    then have "after < ?k" by (simp add: items_after_def)
    then have k: "?k \<noteq> []" by auto
    have rest: "items_after key ?k items = drop defaultPageSize ?r"
      using items_after_next[OF assms(1) n] by (simp add: defaultPageSize_def)
    have "follow_cursors fuel items (encodeCursor ?k) key = Some (drop defaultPageSize ?r)"
      using Suc.IH[OF k] Suc.prems(2) False rest by (simp add: defaultPageSize_def)
    with k False Suc.prems(1) show ?thesis by (simp add: paginate_after)
  qed (use Suc.prems in \<open>simp add: paginate_after\<close>)
qed simp


lemma nth_distinct_key_nonempty:
  fixes key :: "'a \<Rightarrow> string"
  assumes "distinct (map key xs)" and "sorted (map key xs)" and "0 < n" and "n < length xs"
  shows "key (xs ! n) \<noteq> []"
proof -
  have "0 < length xs" using assms(4) by linarith
  then have "key (xs ! 0) \<le> key (xs ! n)" and "key (xs ! 0) \<noteq> key (xs ! n)"
    using assms sorted_nth_mono[OF assms(2), of 0 n] nth_eq_iff_index_eq[OF assms(1), of 0 n]
    by auto
  then have "key (xs ! 0) < key (xs ! n)" by simp
  then show ?thesis by auto
qed

lemma follow_cursors_all:
  assumes "distinct (map key items)"
  shows "follow_cursors (Suc (length items)) items [] key = Some (sort_key key items)"
proof (cases "length items \<le> defaultPageSize")
  case False
  let ?xs = "sort_key key items"
  let ?k = "key (?xs ! (defaultPageSize - 1))"
  have len: "length ?xs = length items" by simp
  have n: "defaultPageSize - 1 < length ?xs" "0 < defaultPageSize - 1"
    using False by (simp_all add: defaultPageSize_def)
  have dist: "distinct (map key ?xs)" and srt: "sorted (map key ?xs)"
    using assms by (auto simp: distinct_map)
  have k: "?k \<noteq> []" by (rule nth_distinct_key_nonempty[OF dist srt n(2,1)])
  have rest: "items_after key ?k items = drop defaultPageSize ?xs"
    using filter_gt_nth[OF srt dist n(1)] by (simp add: items_after_def defaultPageSize_def)
  have "length (items_after key ?k items) < length items"
    using False unfolding rest by (simp add: defaultPageSize_def)
  from follow_cursors_after[OF assms k this]
  have "follow_cursors (length items) items (encodeCursor ?k) key
      = Some (drop defaultPageSize ?xs)" by (simp only: rest)
  with k False show ?thesis by (simp add: paginate_first)
qed (simp add: paginate_first)

subsection \<open>Properties\<close>

text \<open>
  C7. Paging is complete and stable: when no two items share a key, a client that starts
  without a cursor and follows every returned cursor ends after finitely many pages and has
  received every item exactly once, in key order, whatever order the registry map was
  ranged over.
\<close>

theorem pagination_visits_every_item_once:
  assumes "distinct (map key items)" and "mset items' = mset items"
  shows "follow_cursors (Suc (length items)) items' [] key = Some (sort_key key items)"
proof -
  have len: "length items' = length items" using assms(2) by (rule mset_eq_length)
  have "mset (map key items') = mset (map key items)" using assms(2) by simp
  then have d: "distinct (map key items')"
    using assms(1) by (metis mset_eq_imp_distinct_iff)
  have "sort_key key items' = sort_key key items"
    by (rule sort_Slice_unique[OF assms(1)]) (use assms(2) in simp_all)
  with follow_cursors_all[OF d] len show ?thesis by simp
qed

theorem pagination_visits_every_item_once_witness:
  "distinct (map id [''b'', ''a'']) \<and> mset [''a'', ''b''] = mset [''b'', ''a''] \<and>
   follow_cursors 3 [''a'', ''b''] [] id = Some [''a'', ''b'']"
proof -
  have h: "distinct (map id [''b'', ''a''])" "mset [''a'', ''b''] = mset [''b'', ''a'']"
    by simp_all
  have "sort_key id [''b'', ''a''] = [''a'', ''b'']" by code_simp
  with h pagination_visits_every_item_once[OF h] show ?thesis by (simp add: eval_nat_numeral)
qed

text \<open>
  A cursor is the encoding of a key: decoding gives the key back, for every byte string,
  and only the empty key gives the empty cursor, the end marker.
\<close>

theorem cursor_roundtrip:
  "decodeCursor (encodeCursor k) = Some k \<and> (encodeCursor k = [] \<longleftrightarrow> k = [])"
  by simp

text \<open>
  A page with a decodable cursor is the first hundred items whose keys are strictly
  greater than the cursor's key, in key order, and the next cursor names its last item and
  is absent exactly when nothing is left; a malformed cursor gives an empty last page; no
  page is longer than \<open>defaultPageSize\<close>.
\<close>

theorem paginate_page:
  assumes "cursor \<noteq> []"
  shows "case decodeCursor cursor of
      None \<Rightarrow> paginate items cursor key = ([], [])
    | Some after \<Rightarrow>
        paginate items cursor key =
          (take defaultPageSize (items_after key after items),
           if length (items_after key after items) \<le> defaultPageSize then []
           else encodeCursor (key (items_after key after items ! (defaultPageSize - 1)))) \<and>
        length (fst (paginate items cursor key)) \<le> defaultPageSize"
  using assms paginate_page_size
  by (auto simp: paginate_bad_cursor paginate_after split: option.split)

theorem paginate_page_witness:
  "encodeCursor ''a'' \<noteq> [] \<and>
   fst (paginate [''c'', ''a'', ''b''] (encodeCursor ''a'') id) = [''b'', ''c'']"
proof -
  have h: "encodeCursor ''a'' \<noteq> []" by simp
  have "items_after id ''a'' [''c'', ''a'', ''b''] = [''b'', ''c'']" by code_simp
  with h paginate_page[OF h, of "[''c'', ''a'', ''b'']" id] show ?thesis
    by (simp add: defaultPageSize_def)
qed

end
