(* ===== verification/Go_Strings.thy ===== *)
theory Go_Strings
  imports Go_Prelude "HOL-Library.Sublist"
begin

text \<open>
  The functions of Go's \<open>strings\<close> package that the library calls, on byte strings. Where Go
  works on runes, the string is cut into the byte chunks that \<open>utf8.DecodeRune\<close> consumes
  (\<open>runes\<close>): a valid UTF-8 sequence is one chunk, any other byte is a chunk of its own.
\<close>

subsection \<open>UTF-8 chunks\<close>

definition byte_in :: "nat \<Rightarrow> nat \<Rightarrow> char \<Rightarrow> bool" where
  "byte_in lo hi c \<longleftrightarrow> lo \<le> of_char c \<and> of_char c \<le> (hi :: nat)"

abbreviation cont_byte :: "char \<Rightarrow> bool" where
  "cont_byte \<equiv> byte_in 0x80 0xBF"

text \<open>The number of bytes \<open>utf8.DecodeRune\<close> consumes at the head of a non-empty string.\<close>

definition width2 :: "char \<Rightarrow> string \<Rightarrow> bool" where
  "width2 b s \<longleftrightarrow> byte_in 0xC2 0xDF b \<and> (case s of c1 # _ \<Rightarrow> cont_byte c1 | _ \<Rightarrow> False)"

definition width3 :: "char \<Rightarrow> string \<Rightarrow> bool" where
  "width3 b s \<longleftrightarrow> (case s of c1 # c2 # _ \<Rightarrow> cont_byte c2 \<and>
      (byte_in 0xE0 0xE0 b \<and> byte_in 0xA0 0xBF c1 \<or>
       byte_in 0xE1 0xEC b \<and> cont_byte c1 \<or>
       byte_in 0xED 0xED b \<and> byte_in 0x80 0x9F c1 \<or>
       byte_in 0xEE 0xEF b \<and> cont_byte c1) | _ \<Rightarrow> False)"

definition width4 :: "char \<Rightarrow> string \<Rightarrow> bool" where
  "width4 b s \<longleftrightarrow> (case s of c1 # c2 # c3 # _ \<Rightarrow> cont_byte c2 \<and> cont_byte c3 \<and>
      (byte_in 0xF0 0xF0 b \<and> byte_in 0x90 0xBF c1 \<or>
       byte_in 0xF1 0xF3 b \<and> cont_byte c1 \<or>
       byte_in 0xF4 0xF4 b \<and> byte_in 0x80 0x8F c1) | _ \<Rightarrow> False)"

text \<open>The bytes after the first that belong to the same rune.\<close>

definition rune_tail :: "char \<Rightarrow> string \<Rightarrow> nat" where
  "rune_tail b s = (if width2 b s then 1 else if width3 b s then 2 else if width4 b s then 3 else 0)"

function runes :: "string \<Rightarrow> string list" where
  "runes [] = []"
| "runes (b # s) = (b # take (rune_tail b s) s) # runes (drop (rune_tail b s) s)"
  by pat_completeness auto
termination
  by (relation "measure length") auto

lemma concat_runes [simp]: "concat (runes s) = s"
  by (induction s rule: runes.induct) auto

subsection \<open>White space\<close>

text \<open>\<open>unicode.IsSpace\<close> on the chunk of a rune.\<close>

fun is_space :: "string \<Rightarrow> bool" where
  "is_space [a] \<longleftrightarrow> byte_in 0x09 0x0D a \<or> a = CHR '' ''"
| "is_space [a, b] \<longleftrightarrow> a = CHR 0xC2 \<and> (b = CHR 0x85 \<or> b = CHR 0xA0)"
| "is_space [a, b, c] \<longleftrightarrow>
     a = CHR 0xE1 \<and> b = CHR 0x9A \<and> c = CHR 0x80 \<or>
     a = CHR 0xE2 \<and> b = CHR 0x80 \<and>
       (byte_in 0x80 0x8A c \<or> c = CHR 0xA8 \<or> c = CHR 0xA9 \<or> c = CHR 0xAF) \<or>
     a = CHR 0xE2 \<and> b = CHR 0x81 \<and> c = CHR 0x9F \<or>
     a = CHR 0xE3 \<and> b = CHR 0x80 \<and> c = CHR 0x80"
| "is_space _ \<longleftrightarrow> False"

fun fields_of :: "string \<Rightarrow> string list \<Rightarrow> string list" where
  "fields_of w [] = (if w = [] then [] else [w])"
| "fields_of w (r # rs) =
     (if is_space r then (if w = [] then fields_of [] rs else w # fields_of [] rs)
      else fields_of (w @ r) rs)"

definition strings_Fields :: "string \<Rightarrow> string list" where
  "strings_Fields s = fields_of [] (runes s)"

definition strings_TrimSpace :: "string \<Rightarrow> string" where
  "strings_TrimSpace s =
     concat (rev (dropWhile is_space (rev (dropWhile is_space (runes s)))))"

subsection \<open>Searching, replacing, joining and splitting\<close>

abbreviation strings_HasPrefix :: "string \<Rightarrow> string \<Rightarrow> bool" where
  "strings_HasPrefix s p \<equiv> prefix p s"

abbreviation strings_HasSuffix :: "string \<Rightarrow> string \<Rightarrow> bool" where
  "strings_HasSuffix s p \<equiv> suffix p s"

abbreviation strings_Contains :: "string \<Rightarrow> string \<Rightarrow> bool" where
  "strings_Contains s p \<equiv> sublist p s"

text \<open>\<open>strings.ReplaceAll\<close> for a non-empty pattern, the only kind the library uses.\<close>

function strings_ReplaceAll :: "string \<Rightarrow> string \<Rightarrow> string \<Rightarrow> string" where
  "strings_ReplaceAll [] old new = []"
| "strings_ReplaceAll (c # s) old new =
     (if old \<noteq> [] \<and> prefix old (c # s)
      then new @ strings_ReplaceAll (drop (length old - 1) s) old new
      else c # strings_ReplaceAll s old new)"
  by pat_completeness auto
termination
  by (relation "measure (\<lambda>(s, _, _). length s)") auto

fun strings_Join :: "string list \<Rightarrow> string \<Rightarrow> string" where
  "strings_Join [] sep = []"
| "strings_Join [x] sep = x"
| "strings_Join (x # y # xs) sep = x @ sep @ strings_Join (y # xs) sep"

text \<open>\<open>strings.SplitN(s, sep, 2)\<close> and the head of \<open>strings.Split(s, sep)\<close> for a one-byte
  separator.\<close>

definition split_at_byte :: "char \<Rightarrow> string \<Rightarrow> string \<times> string option" where
  "split_at_byte sep s =
     (takeWhile (\<lambda>c. c \<noteq> sep) s,
      case dropWhile (\<lambda>c. c \<noteq> sep) s of [] \<Rightarrow> None | _ # rest \<Rightarrow> Some rest)"

text \<open>
  \<open>strings.ToLower\<close>: ASCII strings are mapped bytewise. A string with another byte goes
  through the Unicode case tables, which are the argument \<open>ul\<close> of the model.
\<close>

definition is_ascii :: "char \<Rightarrow> bool" where
  "is_ascii c \<longleftrightarrow> of_char c < (0x80 :: nat)"

definition lower_byte :: "char \<Rightarrow> char" where
  "lower_byte c = (if byte_in 0x41 0x5A c then char_of (of_char c + 32 :: nat) else c)"

definition strings_ToLower :: "(string \<Rightarrow> string) \<Rightarrow> string \<Rightarrow> string" where
  "strings_ToLower ul s = (if list_all is_ascii s then map lower_byte s else ul s)"

lemma replace_id: "\<not> sublist old s \<Longrightarrow> strings_ReplaceAll s old new = s"
  by (induction s old new rule: strings_ReplaceAll.induct)
    (auto simp: sublist_Cons_right)

lemma replace_byte:
  "strings_ReplaceAll s [a] new = concat (map (\<lambda>c. if c = a then new else [c]) s)"
  by (induction s) auto

subsection \<open>Chunking is local\<close>

lemma rune_tail_le: "rune_tail b s \<le> length s"
  by (auto simp: rune_tail_def width2_def width3_def width4_def split: list.splits)

text \<open>A byte below 0x80 is never a continuation byte, so it always starts a chunk.\<close>

lemma ascii_not_cont: "is_ascii c \<Longrightarrow> 0x80 \<le> lo \<Longrightarrow> \<not> byte_in lo hi c"
  by (auto simp: is_ascii_def byte_in_def)

lemma rune_tail_append_ascii:
  assumes "is_ascii a"
  shows "rune_tail b (s @ a # t) = rune_tail b s"
proof -
  note na = ascii_not_cont[OF assms]
  show ?thesis
  proof (cases s)
    case Nil
    then show ?thesis
      by (auto simp: rune_tail_def width2_def width3_def width4_def na split: list.splits)
  next
    case (Cons c1 s1)
    then show ?thesis
    proof (cases s1)
      case Nil
      with Cons show ?thesis
        by (auto simp: rune_tail_def width2_def width3_def width4_def na split: list.splits)
    next
      case (Cons c2 s2)
      with \<open>s = c1 # s1\<close> show ?thesis
        by (cases s2)
          (auto simp: rune_tail_def width2_def width3_def width4_def na split: list.splits)
    qed
  qed
qed

lemma runes_append_ascii: "is_ascii a \<Longrightarrow> runes (s @ a # t) = runes s @ runes (a # t)"
  by (induction s rule: runes.induct)
    (simp_all add: rune_tail_append_ascii rune_tail_le)

lemma rune_tail_ascii [simp]: "is_ascii a \<Longrightarrow> rune_tail a s = 0"
  by (auto simp: rune_tail_def width2_def width3_def width4_def byte_in_def is_ascii_def
      split: list.splits)

lemma runes_ascii: "list_all is_ascii s \<Longrightarrow> runes s = map (\<lambda>c. [c]) s"
  by (induction s) auto

text \<open>Any run of consecutive chunks is cut into the same chunks on its own.\<close>

lemma width_take:
  "width2 b (take m s) \<longleftrightarrow> 1 \<le> m \<and> width2 b s"
  "width3 b (take m s) \<longleftrightarrow> 2 \<le> m \<and> width3 b s"
  "width4 b (take m s) \<longleftrightarrow> 3 \<le> m \<and> width4 b s"
  by (auto simp: width2_def width3_def width4_def take_Cons split: list.splits nat.splits)

lemma rune_tail_take: "rune_tail b s \<le> m \<Longrightarrow> rune_tail b (take m s) = rune_tail b s"
  by (auto simp: rune_tail_def width_take split: if_splits)

lemma runes_append_suffix: "runes s = as @ cs \<Longrightarrow> runes (concat cs) = cs"
proof (induction s arbitrary: as rule: runes.induct)
  case (2 b s)
  then show ?case by (cases as) auto
qed simp

lemma runes_append_prefix: "runes s = rs @ bs \<Longrightarrow> runes (concat rs) = rs"
proof (induction s arbitrary: rs rule: runes.induct)
  case (2 b s)
  show ?case
  proof (cases rs)
    case (Cons r rs')
    let ?k = "rune_tail b s"
    from Cons "2.prems" have r: "r = b # take ?k s" and rest: "runes (drop ?k s) = rs' @ bs"
      by auto
    let ?t = "take ?k s @ concat rs'"
    have "s = take ?k s @ concat (runes (drop ?k s))" by simp
    also have "\<dots> = ?t @ concat bs" unfolding rest by simp
    finally have "?t = take (length ?t) s" by (metis append_eq_conv_conj)
    moreover have "?k \<le> length ?t" using rune_tail_le[of b s] by simp
    ultimately have k: "rune_tail b ?t = ?k" by (metis rune_tail_take)
    have "length (take ?k s) = ?k" using rune_tail_le[of b s] by simp
    with k "2.IH"[OF rest] show ?thesis by (simp add: Cons r)
  qed simp
qed simp

lemma runes_append_infix: "runes s = as @ rs @ bs \<Longrightarrow> runes (concat rs) = rs"
  by (metis runes_append_prefix runes_append_suffix)

subsection \<open>Fields of a joined list of words\<close>

text \<open>A word as \<open>strings.Fields\<close> produces it: not empty and without white space.\<close>

definition field_word :: "string \<Rightarrow> bool" where
  "field_word w \<longleftrightarrow> w \<noteq> [] \<and> list_all (\<lambda>r. \<not> is_space r) (runes w)"

lemma fields_of_word:
  "list_all (\<lambda>r. \<not> is_space r) rs \<Longrightarrow> fields_of w (rs @ ts) = fields_of (w @ concat rs) ts"
  by (induction rs arbitrary: w) auto

lemma fields_of_words:
  assumes "runes s = as @ cs @ rs" and "list_all (\<lambda>r. \<not> is_space r) cs"
  shows "\<forall>v \<in> set (fields_of (concat cs) rs). field_word v"
  using assms
proof (induction rs arbitrary: as cs)
  case Nil
  then show ?case using runes_append_infix[of s as cs "[]"] by (auto simp: field_word_def)
next
  case (Cons r rs)
  have cs: "runes (concat cs) = cs" by (rule runes_append_infix[OF Cons.prems(1)])
  show ?case
  proof (cases "is_space r")
    case True
    have "\<forall>v \<in> set (fields_of (concat []) rs). field_word v"
      by (rule Cons.IH[of "as @ cs @ [r]"]) (use Cons.prems in auto)
    with True cs Cons.prems(2) show ?thesis by (auto simp: field_word_def)
  next
    case False
    have "\<forall>v \<in> set (fields_of (concat (cs @ [r])) rs). field_word v"
      by (rule Cons.IH[of as]) (use Cons.prems False in auto)
    with False show ?thesis by simp
  qed
qed

lemma Fields_words: "\<forall>w \<in> set (strings_Fields s). field_word w"
  using fields_of_words[of s "[]" "[]" "runes s"] by (simp add: strings_Fields_def)

lemma Fields_Join:
  assumes "list_all field_word ws"
  shows "strings_Fields (strings_Join ws '' '') = ws"
  using assms
proof (induction ws "'' ''" rule: strings_Join.induct)
  case (2 w)
  then show ?case
    using fields_of_word[of "runes w" "[]" "[]"] by (auto simp: strings_Fields_def field_word_def)
next
  case (3 w v ws)
  have sp: "is_ascii CHR '' ''" "is_space '' ''" by code_simp+
  have "runes (w @ CHR '' '' # strings_Join (v # ws) '' '')
      = runes w @ '' '' # runes (strings_Join (v # ws) '' '')"
    using sp(1) by (simp add: runes_append_ascii)
  with "3" sp(2) show ?case
    by (simp add: strings_Fields_def field_word_def fields_of_word)
qed (simp add: strings_Fields_def)

text \<open>Concrete strings are evaluated with \<open>code_simp\<close>; \<open>simp\<close> leaves these functions alone.\<close>

declare strings_ReplaceAll.simps [simp del] runes.simps [simp del] is_space.simps [simp del]

end
