(* ===== verification/Errors.thy ===== *)
theory Errors
  imports Go_Strings "HOL-Library.Multiset"
begin

text \<open>
  Model of the package's error values (\<open>errors.go\<close>, the error types of \<open>types.go\<close> and
  \<open>auth.go\<close>, \<open>recoverPanic\<close> of \<open>safego.go\<close>, \<open>wrapTransportClosed\<close> of \<open>transport.go\<close>)
  and of the sanitizer that keeps sensitive text out of production error messages.
\<close>

subsection \<open>Error values\<close>

text \<open>
  The dynamic types behind Go's \<open>error\<close> interface. \<open>Sentinel\<close> is a package-level
  \<open>errors.New\<close> value, compared by identity; \<open>PlainErr\<close> is an error built on the spot;
  \<open>WrapErr m e\<close> is \<open>fmt.Errorf("m: %w", e)\<close> and \<open>ErrDetail e m\<close> is
  \<open>fmt.Errorf("%w: m", e)\<close>.
\<close>

datatype mcp_error =
    Sentinel string
  | PlainErr string
  | WrapErr string mcp_error
  | ErrDetail mcp_error string
  | ParameterError string string string "mcp_error option" \<comment> \<open>Method, Parameter, Message, Cause\<close>
  | NotFoundError string string                            \<comment> \<open>Type, Identifier\<close>
  | AlreadyExistsError string string                       \<comment> \<open>Type, Identifier\<close>
  | ResponseError int string                               \<comment> \<open>Code, Message\<close>
  | OAuthError string string                               \<comment> \<open>Code, Description\<close>

fun show_nat :: "nat \<Rightarrow> string" where
  "show_nat n = (if n < 10 then [char_of (48 + n)] else show_nat (n div 10) @ [char_of (48 + n mod 10)])"

declare show_nat.simps [simp del]

definition show_int :: "int \<Rightarrow> string" where
  "show_int i = (if i < 0 then ''-'' @ show_nat (nat (- i)) else show_nat (nat i))"

definition quoted :: "string \<Rightarrow> string" where
  "quoted s = CHR 0x27 # s @ [CHR 0x27]"

text \<open>The \<open>Error()\<close> methods.\<close>

fun error_string :: "mcp_error \<Rightarrow> string" where
  "error_string (Sentinel m) = m"
| "error_string (PlainErr m) = m"
| "error_string (WrapErr m e) = m @ '': '' @ error_string e"
| "error_string (ErrDetail e m) = error_string e @ '': '' @ m"
| "error_string (ParameterError method param msg cause) =
     (if param \<noteq> [] then ''mcp: invalid '' @ param @ '' parameter for '' @ method @ '': '' @ msg
      else ''mcp: invalid parameters for '' @ method @ '': '' @ msg)"
| "error_string (NotFoundError t i) = ''mcp: '' @ t @ '' '' @ quoted i @ '' not found''"
| "error_string (AlreadyExistsError t i) = ''mcp: '' @ t @ '' '' @ quoted i @ '' already exists''"
| "error_string (ResponseError code msg) = ''MCP error '' @ show_int code @ '': '' @ msg"
| "error_string (OAuthError code descr) =
     (if descr \<noteq> [] then code @ '': '' @ descr else code)"

text \<open>\<open>errors.Is\<close> against a sentinel.\<close>

fun errors_Is :: "mcp_error \<Rightarrow> string \<Rightarrow> bool" where
  "errors_Is (Sentinel m) t \<longleftrightarrow> m = t"
| "errors_Is (WrapErr m e) t \<longleftrightarrow> errors_Is e t"
| "errors_Is (ErrDetail e m) t \<longleftrightarrow> errors_Is e t"
| "errors_Is (ParameterError method param msg (Some e)) t \<longleftrightarrow> errors_Is e t"
| "errors_Is _ t \<longleftrightarrow> False"

text \<open>\<open>errors.As\<close> with a target of type \<open>*ResponseError\<close>: the first in the chain.\<close>

fun errors_As_ResponseError :: "mcp_error \<Rightarrow> (int \<times> string) option" where
  "errors_As_ResponseError (ResponseError code msg) = Some (code, msg)"
| "errors_As_ResponseError (WrapErr m e) = errors_As_ResponseError e"
| "errors_As_ResponseError (ErrDetail e m) = errors_As_ResponseError e"
| "errors_As_ResponseError (ParameterError method param msg (Some e)) = errors_As_ResponseError e"
| "errors_As_ResponseError _ = None"

definition ErrTransportClosed :: string where
  "ErrTransportClosed = ''mcp: transport closed''"

definition ErrUnsupported :: string where
  "ErrUnsupported = ''mcp: operation or capability not supported''"

definition NewParameterError :: "string \<Rightarrow> string \<Rightarrow> string \<Rightarrow> mcp_error option \<Rightarrow> mcp_error" where
  "NewParameterError method parameter message cause = ParameterError method parameter message cause"

definition NewParameterErrorFromJSON :: "string \<Rightarrow> mcp_error \<Rightarrow> mcp_error" where
  "NewParameterErrorFromJSON method cause =
     ParameterError method [] ''JSON unmarshaling failed'' (Some cause)"

definition NewNotFoundError :: "string \<Rightarrow> string \<Rightarrow> mcp_error" where
  "NewNotFoundError resourceType identifier = NotFoundError resourceType identifier"

definition NewAlreadyExistsError :: "string \<Rightarrow> string \<Rightarrow> mcp_error" where
  "NewAlreadyExistsError resourceType identifier = AlreadyExistsError resourceType identifier"

subsection \<open>Transport errors and recovered panics\<close>

definition transportClosedError :: "string \<Rightarrow> mcp_error" where
  "transportClosedError op = WrapErr op (Sentinel ErrTransportClosed)"

definition io_EOF :: string where "io_EOF = ''EOF''"
definition io_ErrClosedPipe :: string where "io_ErrClosedPipe = ''io: read/write on closed pipe''"
definition net_ErrClosed :: string where "net_ErrClosed = ''use of closed network connection''"

definition wrapTransportClosed :: "string \<Rightarrow> mcp_error option \<Rightarrow> mcp_error option" where
  "wrapTransportClosed op err =
     (case err of
        None \<Rightarrow> None
      | Some e \<Rightarrow>
          if errors_Is e ErrTransportClosed then Some e
          else if errors_Is e io_EOF \<or> errors_Is e io_ErrClosedPipe \<or> errors_Is e net_ErrClosed
          then Some (transportClosedError op)
          else if strings_Contains (error_string e) ''use of closed network connection''
          then Some (transportClosedError op)
          else Some e)"

text \<open>A panic value is an \<open>error\<close> or any other value, printed with \<open>%v\<close>.\<close>

datatype panic_value = PanicError mcp_error | PanicOther string

definition recoverPanic :: "panic_value option \<Rightarrow> mcp_error option" where
  "recoverPanic r =
     (case r of
        None \<Rightarrow> None
      | Some (PanicError e) \<Rightarrow> Some (WrapErr ''panic'' e)
      | Some (PanicOther v) \<Rightarrow> Some (PlainErr (''panic: '' @ v)))"

subsection \<open>Sanitizing\<close>

type_synonym ErrorVerbosityMode = string

definition ErrorVerbosityProduction :: ErrorVerbosityMode where
  "ErrorVerbosityProduction = ''production''"

definition ErrorVerbosityDevelopment :: ErrorVerbosityMode where
  "ErrorVerbosityDevelopment = ''development''"

text \<open>The \<open>init\<close> function: the value of \<open>MCP_ERROR_VERBOSITY\<close> selects the mode.\<close>

definition init_errorVerbosity :: "string \<Rightarrow> ErrorVerbosityMode" where
  "init_errorVerbosity mode =
     (if mode \<noteq> [] \<and> (mode = ''development'' \<or> mode = ''dev'') then ErrorVerbosityDevelopment
      else ErrorVerbosityProduction)"

definition path_word :: "string \<Rightarrow> bool" where
  "path_word word \<longleftrightarrow> strings_Contains word ''/'' \<and>
     (strings_HasPrefix word ''/'' \<or> strings_Contains word '':/'')"

definition removePaths :: "string \<Rightarrow> string" where
  "removePaths msg =
     strings_Join (map (\<lambda>word. if path_word word then ''[redacted]'' else word)
       (strings_Fields msg)) '' ''"

definition replacements :: "(string \<times> string) list" where
  "replacements =
     [(''panic:'', ''error:''), (''goroutine'', []), (''runtime.'', []), (''.go:'', []),
      (''database/sql:'', ''database error''), (''crypto/'', ''cryptographic error''),
      (''internal error:'', ''error:''), (''unexpected type'', ''invalid data'')]"

text \<open>
  The code ranges over a Go map, whose iteration order is unspecified: \<open>order\<close> is the order
  of this call, some permutation of \<^const>\<open>replacements\<close>.
\<close>

definition removeInternalDetails :: "(string \<times> string) list \<Rightarrow> string \<Rightarrow> string" where
  "removeInternalDetails order msg =
     strings_TrimSpace (fold (\<lambda>(old, new) m. strings_ReplaceAll m old new) order msg)"

definition sensitivePatterns :: "string list" where
  "sensitivePatterns =
     [''password'', ''token'', ''secret'', ''key:'', ''auth:'', ''credential'', ''session'',
      ''sql:'', ''query:'', ''connection string'', ''database'']"

definition containsSensitiveInfo :: "(string \<Rightarrow> string) \<Rightarrow> string \<Rightarrow> bool" where
  "containsSensitiveInfo ul msg =
     list_ex (\<lambda>pattern. strings_Contains (strings_ToLower ul msg) pattern) sensitivePatterns"

definition SanitizeErrorMessage ::
  "ErrorVerbosityMode \<Rightarrow> (string \<Rightarrow> string) \<Rightarrow> (string \<times> string) list \<Rightarrow> string \<Rightarrow> string" where
  "SanitizeErrorMessage mode ul order message =
     (if mode = ErrorVerbosityDevelopment then message
      else let message = removePaths message;
               message = removeInternalDetails order message
           in if containsSensitiveInfo ul message then ''internal server error'' else message)"

definition SanitizeError ::
  "ErrorVerbosityMode \<Rightarrow> (string \<Rightarrow> string) \<Rightarrow> (string \<times> string) list \<Rightarrow>
   mcp_error option \<Rightarrow> mcp_error option" where
  "SanitizeError mode ul order err =
     (case err of
        None \<Rightarrow> None
      | Some e \<Rightarrow>
          if mode = ErrorVerbosityDevelopment then Some e
          else let msg = error_string e;
                   msg = removePaths msg;
                   msg = removeInternalDetails order msg
               in if containsSensitiveInfo ul msg then Some (PlainErr ''internal server error'')
                  else Some (PlainErr msg))"

definition WrapSanitizedError ::
  "ErrorVerbosityMode \<Rightarrow> (string \<Rightarrow> string) \<Rightarrow> (string \<times> string) list \<Rightarrow>
   mcp_error option \<Rightarrow> string \<Rightarrow> mcp_error option" where
  "WrapSanitizedError mode ul order err message =
     (case err of None \<Rightarrow> None
      | Some e \<Rightarrow> SanitizeError mode ul order (Some (WrapErr message e)))"

subsection \<open>No sensitive text leaves the sanitizer\<close>

lemma ToLower_generic [simp]:
  "strings_ToLower ul ''internal server error'' = ''internal server error''"
proof -
  have "list_all is_ascii ''internal server error''" by code_simp
  moreover have "map lower_byte ''internal server error'' = ''internal server error''" by code_simp
  ultimately show ?thesis by (simp add: strings_ToLower_def)
qed

lemma generic_message_not_sensitive: "\<not> containsSensitiveInfo ul ''internal server error''"
  unfolding containsSensitiveInfo_def ToLower_generic by code_simp

lemma SanitizeError_message:
  assumes "mode \<noteq> ErrorVerbosityDevelopment"
  shows "SanitizeError mode ul order (Some e) =
     Some (PlainErr (SanitizeErrorMessage mode ul order (error_string e)))"
  using assms by (simp add: SanitizeError_def SanitizeErrorMessage_def Let_def)

lemma sanitized_not_sensitive:
  assumes "mode \<noteq> ErrorVerbosityDevelopment"
  shows "\<not> containsSensitiveInfo ul (SanitizeErrorMessage mode ul order message)"
  using assms by (simp add: SanitizeErrorMessage_def Let_def generic_message_not_sensitive)

subsection \<open>Paths\<close>

lemma redacted_word: "field_word ''[redacted]''" "\<not> path_word ''[redacted]''"
  by code_simp+

lemma Fields_removePaths:
  "strings_Fields (removePaths msg) =
     map (\<lambda>word. if path_word word then ''[redacted]'' else word) (strings_Fields msg)"
  unfolding removePaths_def using Fields_words redacted_word(1)
  by (intro Fields_Join) (auto simp: list_all_iff)

lemma removePaths_no_path: "\<forall>w \<in> set (strings_Fields (removePaths msg)). \<not> path_word w"
  unfolding Fields_removePaths using redacted_word(2) by auto

text \<open>
  The internal details are removed after the paths, so removing \<open>goroutine\<close> can turn a word
  that was no absolute path into one. Every other replacement leaves the two words of the
  example alone.
\<close>

lemma replace_fixpoint:
  "(old, new) \<in> set replacements \<Longrightarrow> strings_ReplaceAll ''/etc/passwd'' old new = ''/etc/passwd''"
proof -
  have "list_all (\<lambda>(old, new). strings_ReplaceAll ''/etc/passwd'' old new = ''/etc/passwd'')
      replacements" by code_simp
  then show "(old, new) \<in> set replacements \<Longrightarrow>
      strings_ReplaceAll ''/etc/passwd'' old new = ''/etc/passwd''"
    by (auto simp: list_all_iff)
qed

lemma replace_step:
  "(old, new) \<in> set replacements \<Longrightarrow>
   strings_ReplaceAll ''goroutine/etc/passwd'' old new =
     (if old = ''goroutine'' then ''/etc/passwd'' else ''goroutine/etc/passwd'')"
proof -
  have "list_all (\<lambda>(old, new). strings_ReplaceAll ''goroutine/etc/passwd'' old new =
      (if old = ''goroutine'' then ''/etc/passwd'' else ''goroutine/etc/passwd'')) replacements"
    by code_simp
  then show "(old, new) \<in> set replacements \<Longrightarrow> strings_ReplaceAll ''goroutine/etc/passwd'' old new =
     (if old = ''goroutine'' then ''/etc/passwd'' else ''goroutine/etc/passwd'')"
    by (auto simp: list_all_iff)
qed

lemma fold_replace_fixpoint:
  "set order \<subseteq> set replacements \<Longrightarrow>
   fold (\<lambda>(old, new) m. strings_ReplaceAll m old new) order ''/etc/passwd'' = ''/etc/passwd''"
  by (induction order) (auto simp: replace_fixpoint)

lemma fold_replace_leak:
  "set order \<subseteq> set replacements \<Longrightarrow> (''goroutine'', []) \<in> set order \<Longrightarrow>
   fold (\<lambda>(old, new) m. strings_ReplaceAll m old new) order ''goroutine/etc/passwd''
     = ''/etc/passwd''"
  by (induction order) (auto simp: replace_step fold_replace_fixpoint split: if_splits)

lemma sanitizer_leak_example:
  assumes "mset order = mset replacements"
  shows "SanitizeErrorMessage ErrorVerbosityProduction ul order ''goroutine/etc/passwd''
       = ''/etc/passwd''"
proof -
  have "set order = set replacements" using assms by (rule mset_eq_setD)
  moreover have "(''goroutine'', []) \<in> set replacements" by (simp add: replacements_def)
  ultimately have details: "removeInternalDetails order ''goroutine/etc/passwd'' = ''/etc/passwd''"
    unfolding removeInternalDetails_def by (subst fold_replace_leak) (auto, code_simp)
  have path: "removePaths ''goroutine/etc/passwd'' = ''goroutine/etc/passwd''" by code_simp
  have "list_all is_ascii ''/etc/passwd''" "map lower_byte ''/etc/passwd'' = ''/etc/passwd''"
    by code_simp+
  then have lower: "strings_ToLower ul ''/etc/passwd'' = ''/etc/passwd''"
    by (simp add: strings_ToLower_def)
  have "\<not> containsSensitiveInfo ul ''/etc/passwd''"
    unfolding containsSensitiveInfo_def lower by code_simp
  moreover have "ErrorVerbosityProduction \<noteq> ErrorVerbosityDevelopment" by code_simp
  ultimately show ?thesis by (simp add: SanitizeErrorMessage_def path details Let_def)
qed

subsection \<open>Properties\<close>



text \<open>
  No word of \<open>removePaths\<close>' result looks like an absolute path or a URL, and the
  words that do not look like one are kept, in order.
\<close>

theorem removePaths_redacts:
  "strings_Fields (removePaths msg) =
     map (\<lambda>word. if path_word word then ''[redacted]'' else word) (strings_Fields msg) \<and>
   list_all (\<lambda>word. \<not> path_word word) (strings_Fields (removePaths msg))"
  unfolding list_all_iff by (rule conjI[OF Fields_removePaths removePaths_no_path])

text \<open>
  The whole sanitizer does not keep that promise: whatever the order of the
  replacements, the production message for \<open>goroutine/etc/passwd\<close> is the absolute path
  \<open>/etc/passwd\<close>, because internal details are removed after paths.
\<close>

theorem sanitizer_can_expose_path:
  assumes "mset order = mset replacements"
  shows "path_word (SanitizeErrorMessage ErrorVerbosityProduction ul order ''goroutine/etc/passwd'')"
  unfolding sanitizer_leak_example[OF assms] by code_simp

theorem sanitizer_can_expose_path_witness:
  "path_word (SanitizeErrorMessage ErrorVerbosityProduction id replacements ''goroutine/etc/passwd'')"
  by (rule sanitizer_can_expose_path) (rule refl)

end
