(* ===== verification/Go_Float.thy ===== *)
theory Go_Float
  imports Go_Prelude Complex_Main "HOL-Library.Log_Nat" "HOL-Library.Signed_Division"
begin

text \<open>
  Go's \<open>float64\<close> arithmetic as the rate limiters and the connection statistics use it. A
  finite float is the rational number it denotes, and an operation is the exact rational
  operation followed by \<open>fl64\<close>, IEEE 754 rounding to nearest with ties to even (53
  significant bits, gradual underflow). No value of these components comes near the overflow
  threshold \<open>2 ^ 1024\<close>, so infinities appear only where the code divides by zero, and the
  definitions that do so say what happens there.

  The locale \<open>rounding\<close> states the laws the limiters rely on; \<open>fl64\<close> interprets it.
\<close>

subsection \<open>Rounding\<close>

text \<open>The largest \<open>e\<close> with \<open>2 ^ e \<le> x\<close>, for positive \<open>x\<close>.\<close>

definition ilog2 :: "rat \<Rightarrow> int" where
  "ilog2 x =
     (case quotient_of x of (p, q) \<Rightarrow>
        let e = bitlen p - bitlen q in if 2 powi e \<le> x then e else e - 1)"

definition round_even :: "rat \<Rightarrow> int" where
  "round_even r =
     (let f = \<lfloor>r\<rfloor>; d = r - of_int f
      in if d < 1 / 2 then f else if 1 / 2 < d then f + 1 else if even f then f else f + 1)"

definition ulp_exp :: "rat \<Rightarrow> int" where
  "ulp_exp x = max (ilog2 x - 52) (- 1074)"

definition fl_pos :: "rat \<Rightarrow> rat" where
  "fl_pos x = of_int (round_even (x / 2 powi ulp_exp x)) * 2 powi ulp_exp x"

definition fl64 :: "rat \<Rightarrow> rat" where
  "fl64 x = (if x = 0 then 0 else if 0 < x then fl_pos x else - fl_pos (- x))"

subsection \<open>Exponents\<close>

lemma powi2_pos [simp]: "0 < (2 :: rat) powi e"
  by (simp add: zero_less_power_int)

lemma powi2_mono: "a \<le> b \<Longrightarrow> (2 :: rat) powi a \<le> 2 powi b"
  by (simp add: power_int_increasing)

lemma powi2_less_iff [simp]: "(2 :: rat) powi a < 2 powi b \<longleftrightarrow> a < b"
  by (metis leD leI one_less_numeral_iff power_int_strict_increasing powi2_mono semiring_norm(76))

lemma powi2_Ints: "0 \<le> e \<Longrightarrow> (2 :: rat) powi e = of_int (2 ^ nat e)"
  by (simp add: power_int_def)

lemma bitlen_bounds_rat:
  assumes "0 < p"
  shows "(2 :: rat) powi (bitlen p - 1) \<le> of_int p" and "of_int p < (2 :: rat) powi bitlen p"
proof -
  have n: "0 \<le> bitlen p - 1" using assms by (auto simp: bitlen_alt_def)
  have "(of_int (2 ^ nat (bitlen p - 1)) :: rat) \<le> of_int p"
       "(of_int p :: rat) < of_int (2 ^ nat (bitlen p))"
    using bitlen_bounds[OF assms] by (auto simp only: of_int_le_iff of_int_less_iff)
  with n show "(2 :: rat) powi (bitlen p - 1) \<le> of_int p" "of_int p < (2 :: rat) powi bitlen p"
    by (simp_all add: powi2_Ints)
qed

lemma ilog2_bounds:
  assumes "0 < x"
  shows "2 powi ilog2 x \<le> x" and "x < 2 powi (ilog2 x + 1)"
proof -
  obtain p q where pq: "quotient_of x = (p, q)" by (cases "quotient_of x")
  have q: "0 < q" using pq by (rule quotient_of_denom_pos)
  have x: "x = of_int p / of_int q" using pq by (rule quotient_of_div)
  with assms q have p: "0 < p" by (simp add: zero_less_divide_iff)
  have q': "(0 :: rat) < of_int q" using q by simp
  have "x * of_int q = of_int p" using x q' by simp
  let ?e = "bitlen p - bitlen q"
  have up: "x < 2 powi (?e + 1)"
  proof -
    have "x * 2 powi (bitlen q - 1) \<le> x * of_int q"
      using bitlen_bounds_rat(1)[OF q] assms by (intro mult_left_mono) auto
    also have "\<dots> < 2 powi bitlen p"
      using bitlen_bounds_rat(2)[OF p] \<open>x * of_int q = of_int p\<close> by simp
    also have "\<dots> = 2 powi (?e + 1) * 2 powi (bitlen q - 1)"
      by (simp flip: power_int_add)
    finally show ?thesis by simp
  qed
  have low: "2 powi (?e - 1) \<le> x"
  proof -
    have "(2 :: rat) powi (?e - 1) * of_int q \<le> 2 powi (?e - 1) * 2 powi bitlen q"
      using bitlen_bounds_rat(2)[OF q] by (intro mult_left_mono) auto
    also have "\<dots> = 2 powi (bitlen p - 1)" by (simp flip: power_int_add)
    also have "\<dots> \<le> x * of_int q"
      using bitlen_bounds_rat(1)[OF p] \<open>x * of_int q = of_int p\<close> by simp
    finally show ?thesis using q' by simp
  qed
  show "2 powi ilog2 x \<le> x" and "x < 2 powi (ilog2 x + 1)"
    using up low by (auto simp: ilog2_def pq Let_def)
qed

lemma ilog2_unique:
  assumes "2 powi e \<le> x" and "x < 2 powi (e + 1)"
  shows "ilog2 x = e"
proof -
  have "0 < x" using assms(1) powi2_pos by (rule less_le_trans[rotated])
  note b = ilog2_bounds[OF this]
  have "(2 :: rat) powi e < 2 powi (ilog2 x + 1)" using assms(1) b(2) by linarith
  moreover have "(2 :: rat) powi ilog2 x < 2 powi (e + 1)" using assms(2) b(1) by linarith
  ultimately show ?thesis by simp
qed

lemma ilog2_le:
  assumes "0 < x" and "x < 2 powi (e + 1)"
  shows "ilog2 x \<le> e"
proof -
  have "(2 :: rat) powi ilog2 x < 2 powi (e + 1)"
    using ilog2_bounds(1)[OF assms(1)] assms(2) by linarith
  then show ?thesis by simp
qed

lemma ilog2_ge:
  assumes "2 powi e \<le> x"
  shows "e \<le> ilog2 x"
proof -
  have "0 < x" using assms powi2_pos by (rule less_le_trans[rotated])
  then have "(2 :: rat) powi e < 2 powi (ilog2 x + 1)"
    using ilog2_bounds(2)[of x] assms by linarith
  then show ?thesis by simp
qed

lemma ilog2_mono: "0 < x \<Longrightarrow> x \<le> y \<Longrightarrow> ilog2 x \<le> ilog2 y"
  using ilog2_bounds(1)[of x] ilog2_ge[of "ilog2 x" y] by linarith

subsection \<open>Rounding to an integer\<close>

lemma round_even_of_int [simp]: "round_even (of_int k) = k"
  by (simp add: round_even_def)

lemma round_even_cases: "round_even r = \<lfloor>r\<rfloor> \<or> round_even r = \<lfloor>r\<rfloor> + 1"
  by (simp add: round_even_def Let_def)

lemma round_even_error: "\<bar>of_int (round_even r) - r\<bar> \<le> 1 / 2"
proof -
  have b: "of_int \<lfloor>r\<rfloor> \<le> r" "r < of_int \<lfloor>r\<rfloor> + 1" by linarith+
  consider "r - of_int \<lfloor>r\<rfloor> < 1 / 2" | "1 / 2 < r - of_int \<lfloor>r\<rfloor>" | "r - of_int \<lfloor>r\<rfloor> = 1 / 2"
    by linarith
  then show ?thesis
    by cases (use b in \<open>auto simp: round_even_def Let_def abs_le_iff simp del: of_int_floor_le\<close>)
qed

lemma round_even_mono:
  assumes "r \<le> s"
  shows "round_even r \<le> round_even s"
proof (cases "\<lfloor>r\<rfloor> = \<lfloor>s\<rfloor>")
  case True
  with assms show ?thesis by (auto simp: round_even_def Let_def)
next
  case False
  with assms have "\<lfloor>r\<rfloor> + 1 \<le> \<lfloor>s\<rfloor>" using floor_mono[of r s] by linarith
  then show ?thesis using round_even_cases[of r] round_even_cases[of s] by linarith
qed

lemma round_even_le: "r \<le> of_int k \<Longrightarrow> round_even r \<le> k"
  using round_even_mono[of r "of_int k"] by simp

lemma round_even_ge: "of_int k \<le> r \<Longrightarrow> k \<le> round_even r"
  using round_even_mono[of "of_int k" r] by simp

subsection \<open>The rounding laws\<close>

locale rounding =
  fixes fl :: "rat \<Rightarrow> rat"
  assumes fl_mono: "x \<le> y \<Longrightarrow> fl x \<le> fl y"
    and fl_idem: "fl (fl x) = fl x"
    and fl_zero: "fl 0 = 0"
begin

lemma fl_nonneg: "0 \<le> x \<Longrightarrow> 0 \<le> fl x"
  using fl_mono[of 0 x] by (simp add: fl_zero)

lemma fl_nonpos: "x \<le> 0 \<Longrightarrow> fl x \<le> 0"
  using fl_mono[of x 0] by (simp add: fl_zero)

text \<open>Rounding does not cross a representable bound.\<close>

lemma fl_le_rep: "x \<le> fl b \<Longrightarrow> fl x \<le> fl b"
  using fl_mono[of x "fl b"] by (simp add: fl_idem)

lemma fl_ge_rep: "fl b \<le> x \<Longrightarrow> fl b \<le> fl x"
  using fl_mono[of "fl b" x] by (simp add: fl_idem)

end

lemma fl_pos_exact:
  assumes "x = of_int k * 2 powi e" and "ulp_exp x \<le> e"
  shows "fl_pos x = x"
proof -
  have "2 powi e = 2 powi (e - ulp_exp x) * (2 :: rat) powi ulp_exp x"
    by (simp flip: power_int_add)
  then have "x / 2 powi ulp_exp x = of_int (k * 2 ^ nat (e - ulp_exp x))"
    using assms by (simp add: powi2_Ints field_simps)
  then have "of_int (round_even (x / 2 powi ulp_exp x)) = x / 2 powi ulp_exp x"
    by (simp only: round_even_of_int)
  then show ?thesis by (simp add: fl_pos_def)
qed

lemma fl_pos_nonneg: "0 < x \<Longrightarrow> 0 \<le> fl_pos x"
  using round_even_ge[of 0 "x / 2 powi ulp_exp x"] by (simp add: fl_pos_def)

lemma scaled_lt:
  assumes "0 < x"
  shows "x / 2 powi ulp_exp x < 2 powi 53"
proof -
  have "x < 2 powi (ilog2 x + 1)" by (rule ilog2_bounds(2)[OF assms])
  also have "\<dots> \<le> 2 powi (53 + ulp_exp x)" by (rule powi2_mono) (simp add: ulp_exp_def)
  also have "\<dots> = 2 powi 53 * (2 :: rat) powi ulp_exp x" by (rule power_int_add) simp
  finally show ?thesis by (simp only: pos_divide_less_eq[OF powi2_pos])
qed

lemma fl_pos_idem:
  assumes "0 < x" and "0 < fl_pos x"
  shows "fl_pos (fl_pos x) = fl_pos x"
proof -
  let ?e = "ulp_exp x" and ?k = "round_even (x / 2 powi ulp_exp x)"
  have y: "fl_pos x = of_int ?k * 2 powi ?e" by (simp add: fl_pos_def)
  have k53: "?k \<le> 2 ^ 53"
    by (rule round_even_le) (use scaled_lt[OF assms(1)] in simp)
  show ?thesis
  proof (cases "?k = 2 ^ 53")
    case True
    have "fl_pos x = 2 powi 53 * 2 powi ?e" using True by (simp add: y)
    then have p: "fl_pos x = of_int 1 * 2 powi (53 + ?e)" by (simp add: power_int_add)
    have "ilog2 (fl_pos x) = 53 + ?e" by (rule ilog2_unique) (simp_all add: p)
    then have "ulp_exp (fl_pos x) \<le> 53 + ?e" by (simp add: ulp_exp_def)
    then show ?thesis by (rule fl_pos_exact[OF p])
  next
    case False
    with k53 have "?k \<le> 2 ^ 53 - 1" by linarith
    then have "(of_int ?k :: rat) \<le> of_int (2 ^ 53 - 1)" by (simp only: of_int_le_iff)
    also have "\<dots> < 2 powi 53" by simp
    finally have "fl_pos x < 2 powi 53 * 2 powi ?e"
      unfolding y by (rule mult_strict_right_mono) simp
    also have "\<dots> = 2 powi (52 + ?e + 1)"
      using power_int_add[of "2 :: rat" 53 ?e] by (simp add: add.commute)
    finally have "fl_pos x < 2 powi (52 + ?e + 1)" .
    from ilog2_le[OF assms(2) this] have "ulp_exp (fl_pos x) \<le> ?e"
      by (simp add: ulp_exp_def)
    then show ?thesis by (rule fl_pos_exact[OF y])
  qed
qed

lemma fl_pos_mono:
  assumes "0 < x" and "x \<le> y"
  shows "fl_pos x \<le> fl_pos y"
proof (cases "ulp_exp x = ulp_exp y")
  case True
  have "x / 2 powi ulp_exp y \<le> y / 2 powi ulp_exp y"
    using assms(2) by (intro divide_right_mono) auto
  then show ?thesis by (simp add: fl_pos_def True round_even_mono)
next
  case False
  have "ilog2 x \<le> ilog2 y" by (rule ilog2_mono[OF assms])
  with False have e: "ulp_exp x < ulp_exp y" "ulp_exp y = ilog2 y - 52" "ilog2 x + 1 \<le> ilog2 y"
    by (auto simp: ulp_exp_def max_def split: if_splits)
  let ?m = "2 powi ilog2 y :: rat"
  have bound: "?m = of_int (2 ^ nat (ilog2 y - e)) * 2 powi e" if "e \<le> ilog2 y" for e
    using that powi2_Ints[of "ilog2 y - e"] power_int_add[of "2 :: rat" "ilog2 y - e" e] by simp
  have xe: "ulp_exp x \<le> ilog2 y" using e by linarith
  have "x \<le> ?m"
    using ilog2_bounds(2)[OF assms(1)] powi2_mono[OF e(3)] by linarith
  then have "x / 2 powi ulp_exp x \<le> of_int (2 ^ nat (ilog2 y - ulp_exp x))"
    unfolding bound[OF xe] by (simp add: pos_divide_le_eq)
  then have "fl_pos x \<le> ?m"
    unfolding fl_pos_def bound[OF xe] by (intro mult_right_mono) (simp_all only: of_int_le_iff
        round_even_le less_imp_le[OF powi2_pos])
  moreover have "?m \<le> fl_pos y"
  proof -
    have ye: "ulp_exp y \<le> ilog2 y" using e by linarith
    have "?m \<le> y" using assms by (intro ilog2_bounds(1)) linarith
    then have "of_int (2 ^ nat (ilog2 y - ulp_exp y)) \<le> y / 2 powi ulp_exp y"
      unfolding bound[OF ye] by (simp add: pos_le_divide_eq)
    then show ?thesis
      unfolding fl_pos_def bound[OF ye] by (intro mult_right_mono) (simp_all only: of_int_le_iff
          round_even_ge less_imp_le[OF powi2_pos])
  qed
  ultimately show ?thesis by linarith
qed

interpretation fl64: rounding fl64
proof
  fix x y :: rat
  show "fl64 0 = 0" by (simp add: fl64_def)
  show "fl64 (fl64 x) = fl64 x"
    using fl_pos_idem[of x] fl_pos_idem[of "- x"] fl_pos_nonneg[of x] fl_pos_nonneg[of "- x"]
    by (auto simp: fl64_def)
  show "fl64 x \<le> fl64 y" if "x \<le> y"
    using that fl_pos_mono[of x y] fl_pos_mono[of "- y" "- x"]
      fl_pos_nonneg[of y] fl_pos_nonneg[of "- x"]
    by (cases x "0 :: rat" rule: linorder_cases; cases y "0 :: rat" rule: linorder_cases)
      (auto simp: fl64_def)
qed

subsection \<open>Conversions\<close>

text \<open>\<open>float64(i)\<close>, \<open>time.Duration.Seconds\<close> and the conversion of a float to a 64-bit
  integer type. The last truncates towards zero; outside the range of the type Go leaves the
  result to the implementation, and on amd64 it is the smallest int64.\<close>

definition float_of_int :: "int \<Rightarrow> rat" where
  "float_of_int i = fl64 (of_int i)"

definition Duration_Seconds :: "duration \<Rightarrow> rat" where
  "Duration_Seconds d =
     fl64 (float_of_int (d sdiv second) + fl64 (float_of_int (d smod second) / 1000000000))"

definition trunc :: "rat \<Rightarrow> int" where
  "trunc x = (if 0 \<le> x then \<lfloor>x\<rfloor> else \<lceil>x\<rceil>)"

definition int64_of_float :: "rat \<Rightarrow> int" where
  "int64_of_float x =
     (if - (2 ^ 63) \<le> trunc x \<and> trunc x < 2 ^ 63 then trunc x else - (2 ^ 63))"

lemma ulp_exp_mono: "0 < x \<Longrightarrow> x \<le> y \<Longrightarrow> ulp_exp x \<le> ulp_exp y"
  using ilog2_mono[of x y] by (simp add: ulp_exp_def)

lemma ulp_exp_le_0:
  assumes "0 < x" and "x < 2 ^ 53"
  shows "ulp_exp x \<le> 0"
  using ilog2_le[of x 52] assms by (simp add: ulp_exp_def)

text \<open>Integers below \<open>2 ^ 53\<close> are represented exactly.\<close>

lemma float_of_int_exact:
  assumes "\<bar>i\<bar> < 2 ^ 53"
  shows "float_of_int i = of_int i"
proof -
  have exact: "fl_pos (of_int k) = of_int k" if "0 < k" "k < 2 ^ 53" for k
  proof (rule fl_pos_exact[where e = 0])
    have "(of_int k :: rat) < of_int (2 ^ 53)" using that(2) by (simp only: of_int_less_iff)
    then show "ulp_exp (of_int k) \<le> 0" using that(1) by (intro ulp_exp_le_0) simp_all
  qed simp
  show ?thesis
    using assms exact[of i] exact[of "- i"] by (auto simp: float_of_int_def fl64_def abs_if split: if_splits)
qed

text \<open>Taking an integer away from a larger float below \<open>2 ^ 53\<close> is exact.\<close>

lemma fl64_sub_exact:
  assumes "fl64 x = x" and "0 \<le> n" and "of_int n \<le> x" and "x < 2 ^ 53"
  shows "fl64 (x - of_int n) = x - of_int n"
proof (cases "x - of_int n = 0")
  case False
  with assms have pos: "0 < x - of_int n" and x: "0 < x" by (simp_all add: order_less_le)
  let ?e = "ulp_exp x"
  have e: "?e \<le> 0" by (rule ulp_exp_le_0[OF x assms(4)])
  have "x = of_int (round_even (x / 2 powi ?e)) * 2 powi ?e"
    using assms(1) x by (simp add: fl64_def fl_pos_def)
  moreover have "(of_int n :: rat) = of_int (n * 2 ^ nat (- ?e)) * 2 powi ?e"
  proof -
    have "(2 :: rat) powi (- ?e) * 2 powi ?e = 1" by (simp flip: power_int_add)
    then show ?thesis using powi2_Ints[of "- ?e"] e by simp
  qed
  ultimately have r: "x - of_int n =
      of_int (round_even (x / 2 powi ?e) - n * 2 ^ nat (- ?e)) * 2 powi ?e"
    by (simp only: of_int_diff left_diff_distrib)
  have "ulp_exp (x - of_int n) \<le> ?e"
    by (rule ulp_exp_mono[OF pos]) (use assms(2) in simp)
  from fl_pos_exact[OF r this] show ?thesis using pos by (simp add: fl64_def)
qed (use fl64.fl_zero in simp)

text \<open>Rounding a value at most \<open>b\<close> adds at most half a unit in the last place of \<open>b\<close>.\<close>

lemma fl64_le_add:
  assumes "0 \<le> x" and "x \<le> b" and "1 \<le> b"
  shows "fl64 x \<le> x + b / 2 ^ 53"
proof (cases "x = 0")
  case False
  with assms have x: "0 < x" by simp
  let ?u = "2 powi ulp_exp x :: rat"
  have "of_int (round_even (x / ?u)) \<le> x / ?u + 1 / 2"
    using round_even_error[of "x / ?u"] by linarith
  then have "of_int (round_even (x / ?u)) * ?u \<le> (x / ?u + 1 / 2) * ?u"
    by (rule mult_right_mono) simp
  then have fl: "fl_pos x \<le> x + ?u / 2" by (simp add: fl_pos_def distrib_right)
  have b: "2 powi ilog2 b \<le> b" using assms(3) by (intro ilog2_bounds(1)) simp
  have "0 \<le> ilog2 b" using ilog2_ge[of 0 b] assms(3) by simp
  then have "?u \<le> 2 powi (ilog2 b - 52)"
    using ilog2_mono[OF x assms(2)] by (intro powi2_mono) (simp add: ulp_exp_def)
  also have "\<dots> = 2 powi ilog2 b / 2 ^ 52" by (simp add: power_int_diff)
  finally have "?u / 2 \<le> b / 2 ^ 53" using b by simp
  with fl x show ?thesis by (simp add: fl64_def)
qed (use assms fl64.fl_zero in simp)

text \<open>The relative error of rounding up, for zero and for values in the normal range.\<close>

abbreviation fl_eps :: rat where
  "fl_eps \<equiv> 1 / 2 ^ 53"

lemma fl64_rel_le:
  assumes "x = 0 \<or> 1 / 2 ^ 100 \<le> x"
  shows "fl64 x \<le> x * (1 + fl_eps)"
proof (cases "x = 0")
  case False
  have "(2 :: rat) powi (- 100) = 1 / 2 ^ 100" by (simp add: power_int_minus_divide)
  with False assms have ge: "2 powi (- 100) \<le> x" by linarith
  then have x: "0 < x" using powi2_pos by (rule less_le_trans[rotated])
  have "- 100 \<le> ilog2 x" using ge by (rule ilog2_ge)
  then have u: "ulp_exp x = ilog2 x - 52" by (simp add: ulp_exp_def)
  let ?u = "2 powi ulp_exp x :: rat"
  have "?u = 2 powi ilog2 x / 2 ^ 52" by (simp add: u power_int_diff)
  then have half: "?u / 2 \<le> x / 2 ^ 53" using ilog2_bounds(1)[OF x] by simp
  have "of_int (round_even (x / ?u)) \<le> x / ?u + 1 / 2"
    using round_even_error[of "x / ?u"] by linarith
  then have "of_int (round_even (x / ?u)) * ?u \<le> (x / ?u + 1 / 2) * ?u"
    by (rule mult_right_mono) simp
  then have "fl_pos x \<le> x + ?u / 2" by (simp add: fl_pos_def distrib_right)
  with half x show ?thesis by (simp add: fl64_def distrib_left)
qed (simp add: fl64.fl_zero)

lemma Duration_Seconds_nonneg:
  assumes "0 \<le> d"
  shows "0 \<le> Duration_Seconds d"
proof -
  have "0 \<le> d sdiv second" "0 \<le> d smod second"
    using assms by (simp_all add: signed_divide_int_def signed_modulo_int_def sgn_if)
  then show ?thesis
    unfolding Duration_Seconds_def float_of_int_def by (intro fl64.fl_nonneg add_nonneg_nonneg
        divide_nonneg_nonneg) simp_all
qed

lemma Duration_Seconds_le:
  assumes "0 \<le> d" and "d < 2 ^ 63"
  shows "Duration_Seconds d \<le> of_int d / 1000000000 * (1 + fl_eps) ^ 2"
proof -
  let ?s = "d sdiv second" and ?n = "d smod second"
  have s: "?s = d div second" "?n = d mod second"
    using assms(1) by (simp_all add: signed_divide_int_def signed_modulo_int_def sgn_if
        minus_div_mult_eq_mod split: if_splits)
  have "?s < 2 ^ 53" "0 \<le> ?s" "0 \<le> ?n" "?n < second" using assms unfolding s by auto
  then have e: "float_of_int ?s = of_int ?s" "float_of_int ?n = of_int ?n"
    by (simp_all add: float_of_int_exact)
  let ?f = "of_int ?n / 1000000000 :: rat"
  have f: "?f = 0 \<or> 1 / 2 ^ 100 \<le> ?f" "0 \<le> ?f"
    using \<open>0 \<le> ?n\<close> by (cases "?n = 0", simp_all)
  have d: "of_int d / 1000000000 = of_int ?s + ?f"
  proof -
    have "d = second * ?s + ?n" unfolding s by simp
    then have "(of_int d :: rat) = 1000000000 * of_int ?s + of_int ?n"
      by (metis of_int_add of_int_mult of_int_numeral)
    then show ?thesis by simp
  qed
  have "Duration_Seconds d \<le> fl64 ((of_int ?s + ?f) * (1 + fl_eps))"
    unfolding Duration_Seconds_def e
    using fl64_rel_le[OF f(1)] \<open>0 \<le> ?s\<close> by (intro fl64.fl_mono) (simp add: distrib_right)
  also have "\<dots> \<le> (of_int ?s + ?f) * (1 + fl_eps) * (1 + fl_eps)"
  proof (rule fl64_rel_le)
    show "(of_int ?s + ?f) * (1 + fl_eps) = 0 \<or> 1 / 2 ^ 100 \<le> (of_int ?s + ?f) * (1 + fl_eps)"
      unfolding d[symmetric] using assms(1) by (cases "d = 0", simp_all)
  qed
  finally show ?thesis unfolding d by (simp add: power2_eq_square mult.assoc)
qed

lemma sdiv_smod_nonneg: "0 \<le> d \<Longrightarrow> d sdiv second = d div second \<and> d smod second = d mod second"
  by (simp add: signed_divide_int_def signed_modulo_int_def sgn_if minus_div_mult_eq_mod
      split: if_splits)

lemma Duration_Seconds_mono:
  assumes "0 \<le> d" and "d \<le> d'" and "d' < 2 ^ 63"
  shows "Duration_Seconds d \<le> Duration_Seconds d'"
proof -
  have s: "d sdiv second = d div second" "d smod second = d mod second"
    "d' sdiv second = d' div second" "d' smod second = d' mod second"
    using assms sdiv_smod_nonneg[of d] sdiv_smod_nonneg[of d'] by simp_all
  have le: "d div second \<le> d' div second" using assms(2) by (rule zdiv_mono1) simp
  have e: "float_of_int (d div second) = of_int (d div second)"
    "float_of_int (d' div second) = of_int (d' div second)"
    "float_of_int (d mod second) = of_int (d mod second)"
    "float_of_int (d' mod second) = of_int (d' mod second)"
    using assms by (simp_all add: float_of_int_exact)
  have nn: "0 \<le> fl64 (of_int (d' mod second) / 1000000000)"
    by (intro fl64.fl_nonneg) simp
  show ?thesis
  proof (cases "d div second = d' div second")
    case True
    then have "d mod second \<le> d' mod second"
      using assms(2) by (metis add_le_cancel_left mult_div_mod_eq)
    then show ?thesis
      unfolding Duration_Seconds_def s e True
      by (intro fl64.fl_mono add_left_mono fl64.fl_mono divide_right_mono) simp_all
  next
    case False
    with le have "d div second + 1 \<le> d' div second" by simp
    then have "(of_int (d div second) + 1 :: rat) \<le> of_int (d' div second)"
      by (metis of_int_1 of_int_add of_int_le_iff)
    moreover have "(of_int (d mod second) :: rat) \<le> of_int second"
      by (simp only: of_int_le_iff pos_mod_bound less_imp_le)
    then have "fl64 (of_int (d mod second) / 1000000000) \<le> fl64 1"
      by (intro fl64.fl_mono) simp
    moreover have "fl64 1 = 1" using float_of_int_exact[of 1] by (simp add: float_of_int_def)
    ultimately show ?thesis
      unfolding Duration_Seconds_def s e using nn by (intro fl64.fl_mono) linarith
  qed
qed

end
