(* ===== verification/RateLimit.thy ===== *)
theory RateLimit
  imports Go_Float Errors
begin

text \<open>
  Model of \<open>ratelimit.go\<close>: the token bucket limiter, the sliding window limiter and the
  composite limiter, with their statistics, rules, cleanup timers and waiting loops.

  Each \<open>time.Now()\<close> of the code is a clock reading: functions on one bucket or window take it
  as the argument \<open>now\<close>, functions on a limiter thread the clock. Statistics are int64
  counters and wrap. The \<open>RateLimiter\<close> interface is the locale \<open>rate_limiter\<close>,
  interpreted on both limiters.
\<close>

section \<open>Data\<close>

record RateLimitRule =
  RequestsPerSecond :: int
  BurstSize :: int
  WindowSize :: duration
  Priority :: int
  Methods :: "string list"

record KeyStats =
  Requests :: int64
  Allowed :: int64
  Rejected :: int64
  LastSeen :: time

record RateLimitStats =
  TotalRequests :: int64
  AllowedRequests :: int64
  RejectedRequests :: int64
  ActiveLimiters :: int
  PerKeyStats :: "(string, KeyStats) gomap"

definition empty_stats :: RateLimitStats where
  "empty_stats = \<lparr>TotalRequests = 0, AllowedRequests = 0, RejectedRequests = 0,
     ActiveLimiters = 0, PerKeyStats = []\<rparr>"

text \<open>The three \<open>atomic.AddInt64\<close> calls after a decision.\<close>

definition count_request :: "bool \<Rightarrow> int \<Rightarrow> RateLimitStats \<Rightarrow> RateLimitStats" where
  "count_request allowed n s =
     (let s = s\<lparr>TotalRequests := TotalRequests s + of_int n\<rparr>
      in if allowed then s\<lparr>AllowedRequests := AllowedRequests s + of_int n\<rparr>
         else s\<lparr>RejectedRequests := RejectedRequests s + of_int n\<rparr>)"

definition stats_balanced :: "RateLimitStats \<Rightarrow> bool" where
  "stats_balanced s \<longleftrightarrow> TotalRequests s = AllowedRequests s + RejectedRequests s"

definition key_balanced :: "KeyStats \<Rightarrow> bool" where
  "key_balanced s \<longleftrightarrow> Requests s = Allowed s + Rejected s"

lemma count_request_balanced: "stats_balanced s \<Longrightarrow> stats_balanced (count_request ok n s)"
  by (simp add: stats_balanced_def count_request_def Let_def)

section \<open>Token buckets\<close>

record tokenBucket =
  tokens :: rat
  lastFill :: time
  tb_rate :: rat
  tb_burst :: int
  tb_stats :: KeyStats

record TokenBucketRateLimiter =
  limiters :: "(string, tokenBucket) gomap"
  defaultRate :: rat
  defaultBurst :: int
  tb_cleanupInterval :: duration
  tb_timer :: bool                     \<comment> \<open>the cleanup timer is armed\<close>
  tb_total :: RateLimitStats
  tb_rules :: "(string, RateLimitRule) gomap"
  tb_closed :: bool

definition NewTokenBucketRateLimiter :: "int \<Rightarrow> int \<Rightarrow> TokenBucketRateLimiter" where
  "NewTokenBucketRateLimiter requestsPerSecond burstSize =
     (let requestsPerSecond = (if requestsPerSecond \<le> 0 then 100 else requestsPerSecond);
          burstSize = (if burstSize \<le> 0 then 10 else burstSize)
      in \<lparr>limiters = [], defaultRate = float_of_int requestsPerSecond, defaultBurst = burstSize,
          tb_cleanupInterval = 10 * minute, tb_timer = True, tb_total = empty_stats,
          tb_rules = [], tb_closed = False\<rparr>)"

definition tb_SetRuleForKey ::
  "string \<Rightarrow> RateLimitRule \<Rightarrow> TokenBucketRateLimiter \<Rightarrow> TokenBucketRateLimiter" where
  "tb_SetRuleForKey key rule rl = rl\<lparr>tb_rules := AList.update key rule (tb_rules rl)\<rparr>"

text \<open>\<open>min\<close> of the package: the smaller of two floats.\<close>

definition min_float :: "rat \<Rightarrow> rat \<Rightarrow> rat" where
  "min_float a b = (if a < b then a else b)"

definition tb_refill :: "tokenBucket \<Rightarrow> time \<Rightarrow> rat" where
  "tb_refill b now =
     (let elapsed = Duration_Seconds (time_Sub now (lastFill b))
      in min_float (float_of_int (tb_burst b)) (fl64 (tokens b + fl64 (elapsed * tb_rate b))))"

definition tokenBucket_allowN :: "tokenBucket \<Rightarrow> int \<Rightarrow> time \<Rightarrow> tokenBucket \<times> bool" where
  "tokenBucket_allowN b n now =
     (let b = b\<lparr>tokens := tb_refill b now, lastFill := now\<rparr>;
          st = (tb_stats b)\<lparr>Requests := Requests (tb_stats b) + of_int n, LastSeen := now\<rparr>
      in if float_of_int n \<le> tokens b
         then (b\<lparr>tokens := fl64 (tokens b - float_of_int n),
                 tb_stats := st\<lparr>Allowed := Allowed st + of_int n\<rparr>\<rparr>, True)
         else (b\<lparr>tb_stats := st\<lparr>Rejected := Rejected st + of_int n\<rparr>\<rparr>, False))"

text \<open>With a zero rate the quotient is infinite and converts to the smallest int64.\<close>

definition tokenBucket_timeToAvailable :: "tokenBucket \<Rightarrow> int \<Rightarrow> duration" where
  "tokenBucket_timeToAvailable b n =
     (let tokensNeeded = fl64 (float_of_int n - tokens b)
      in if tokensNeeded \<le> 0 then 0
         else if tb_rate b = 0 then - (2 ^ 63)
         else int64_of_float (fl64 (fl64 (tokensNeeded / tb_rate b) * float_of_int second)))"

text \<open>A new bucket reads the clock twice; another goroutine cannot store first in between here.\<close>

definition getBucket ::
  "TokenBucketRateLimiter \<Rightarrow> clock \<Rightarrow> string \<Rightarrow> tokenBucket \<times> TokenBucketRateLimiter \<times> clock" where
  "getBucket rl ck key =
     (case map_of (limiters rl) key of
        Some b \<Rightarrow> (b, rl, ck)
      | None \<Rightarrow>
          let (rate, burst) =
                (case map_of (tb_rules rl) key of
                   Some rule \<Rightarrow> (float_of_int (RequestsPerSecond rule), BurstSize rule)
                 | None \<Rightarrow> (defaultRate rl, defaultBurst rl));
              (t1, ck) = time_Now ck;
              (t2, ck) = time_Now ck;
              b = \<lparr>tokens = float_of_int burst, lastFill = t1, tb_rate = rate, tb_burst = burst,
                   tb_stats = \<lparr>Requests = 0, Allowed = 0, Rejected = 0, LastSeen = t2\<rparr>\<rparr>
          in (b, rl\<lparr>limiters := AList.update key b (limiters rl)\<rparr>, ck))"

definition tb_AllowN ::
  "TokenBucketRateLimiter \<Rightarrow> clock \<Rightarrow> string \<Rightarrow> int \<Rightarrow> TokenBucketRateLimiter \<times> clock \<times> bool" where
  "tb_AllowN rl ck key n =
     (let (b, rl, ck) = getBucket rl ck key;
          (now, ck) = time_Now ck;
          (b, allowed) = tokenBucket_allowN b n now
      in (rl\<lparr>limiters := AList.update key b (limiters rl),
             tb_total := count_request allowed n (tb_total rl)\<rparr>, ck, allowed))"

definition tb_Allow ::
  "TokenBucketRateLimiter \<Rightarrow> clock \<Rightarrow> string \<Rightarrow> TokenBucketRateLimiter \<times> clock \<times> bool" where
  "tb_Allow rl ck key = tb_AllowN rl ck key 1"

definition tb_Reset :: "TokenBucketRateLimiter \<Rightarrow> string \<Rightarrow> TokenBucketRateLimiter" where
  "tb_Reset rl key = rl\<lparr>limiters := AList.delete key (limiters rl)\<rparr>"

text \<open>\<open>Stats\<close> stores the number of buckets in the shared record and returns a copy.\<close>

definition tb_Stats :: "TokenBucketRateLimiter \<Rightarrow> RateLimitStats \<times> TokenBucketRateLimiter" where
  "tb_Stats rl =
     (let rl = rl\<lparr>tb_total := (tb_total rl)\<lparr>ActiveLimiters := int (length (limiters rl))\<rparr>\<rparr>
      in ((tb_total rl)\<lparr>PerKeyStats := map (\<lambda>(k, b). (k, tb_stats b)) (limiters rl)\<rparr>, rl))"

definition tb_cleanup :: "TokenBucketRateLimiter \<Rightarrow> time \<Rightarrow> TokenBucketRateLimiter" where
  "tb_cleanup rl now =
     (let cutoff = now - tb_cleanupInterval rl;
          rl = rl\<lparr>limiters := filter (\<lambda>(k, b). \<not> LastSeen (tb_stats b) < cutoff) (limiters rl),
                  tb_timer := False\<rparr>
      in if \<not> tb_closed rl then rl\<lparr>tb_timer := True\<rparr> else rl)"

definition tb_Close :: "TokenBucketRateLimiter \<Rightarrow> TokenBucketRateLimiter" where
  "tb_Close rl = (if tb_closed rl then rl else rl\<lparr>tb_closed := True, tb_timer := False\<rparr>)"

text \<open>
  The loop of \<open>WaitN\<close>, one list element per round: the error of the context at the head of
  the loop, the delay before the bucket reads the clock, and the error of the context if it
  ends the \<open>select\<close> (otherwise the timer fired after at least the computed time). \<open>None\<close> is
  a call that is still waiting when the list ends. Other goroutines do not touch the limiter
  meanwhile.
\<close>

type_synonym wait_round = "mcp_error option \<times> duration \<times> mcp_error option"

fun tb_WaitN_loop ::
  "TokenBucketRateLimiter \<Rightarrow> string \<Rightarrow> tokenBucket \<Rightarrow> int \<Rightarrow> time \<Rightarrow>
   wait_round list \<Rightarrow> (TokenBucketRateLimiter \<times> mcp_error option) option" where
  "tb_WaitN_loop rl key b n now [] = None"
| "tb_WaitN_loop rl key b n now ((Some err, delay, fin) # ws) =
     Some (rl\<lparr>tb_total := count_request False n (tb_total rl)\<rparr>, Some err)"
| "tb_WaitN_loop rl key b n now ((None, delay, fin) # ws) =
     (let now = now + delay;
          (b, allowed) = tokenBucket_allowN b n now;
          rl = rl\<lparr>limiters := AList.update key b (limiters rl)\<rparr>
      in if allowed then Some (rl\<lparr>tb_total := count_request True n (tb_total rl)\<rparr>, None)
         else case fin of
                Some err \<Rightarrow> Some (rl\<lparr>tb_total := count_request False n (tb_total rl)\<rparr>, Some err)
              | None \<Rightarrow>
                  let waitTime = tokenBucket_timeToAvailable b n
                  in tb_WaitN_loop rl key b n (now + max 0 waitTime) ws)"

definition tb_WaitN ::
  "TokenBucketRateLimiter \<Rightarrow> clock \<Rightarrow> string \<Rightarrow> int \<Rightarrow> wait_round list \<Rightarrow>
   (TokenBucketRateLimiter \<times> mcp_error option) option" where
  "tb_WaitN rl ck key n ws =
     (let (b, rl, ck) = getBucket rl ck key in tb_WaitN_loop rl key b n (ck 0) ws)"

section \<open>Sliding windows\<close>

record slidingWindow =
  requests :: "time list"
  sw_stats :: KeyStats

record SlidingWindowRateLimiter =
  windows :: "(string, slidingWindow) gomap"
  windowSize :: duration
  maxRequests :: int
  sw_cleanupInterval :: duration
  sw_timer :: bool
  sw_total :: RateLimitStats
  sw_rules :: "(string, RateLimitRule) gomap"
  sw_closed :: bool

definition NewSlidingWindowRateLimiter :: "duration \<Rightarrow> int \<Rightarrow> SlidingWindowRateLimiter" where
  "NewSlidingWindowRateLimiter window maxReq =
     (let window = (if window \<le> 0 then minute else window);
          maxReq = (if maxReq \<le> 0 then 100 else maxReq)
      in \<lparr>windows = [], windowSize = window, maxRequests = maxReq,
          sw_cleanupInterval = 10 * minute, sw_timer = True, sw_total = empty_stats,
          sw_rules = [], sw_closed = False\<rparr>)"

definition sw_SetRuleForKey ::
  "string \<Rightarrow> RateLimitRule \<Rightarrow> SlidingWindowRateLimiter \<Rightarrow> SlidingWindowRateLimiter" where
  "sw_SetRuleForKey key rule rl = rl\<lparr>sw_rules := AList.update key rule (sw_rules rl)\<rparr>"

definition getWindowSize :: "SlidingWindowRateLimiter \<Rightarrow> string \<Rightarrow> duration" where
  "getWindowSize rl key =
     (case map_of (sw_rules rl) key of
        Some rule \<Rightarrow> if 0 < WindowSize rule then WindowSize rule else windowSize rl
      | None \<Rightarrow> windowSize rl)"

definition getMaxRequests :: "SlidingWindowRateLimiter \<Rightarrow> string \<Rightarrow> int" where
  "getMaxRequests rl key =
     (case map_of (sw_rules rl) key of
        Some rule \<Rightarrow>
          if 0 < RequestsPerSecond rule
          then int64_of_float (fl64 (float_of_int (RequestsPerSecond rule) *
                 Duration_Seconds (WindowSize rule)))
          else maxRequests rl
      | None \<Rightarrow> maxRequests rl)"

definition slidingWindow_allowN ::
  "slidingWindow \<Rightarrow> int \<Rightarrow> duration \<Rightarrow> int \<Rightarrow> time \<Rightarrow> slidingWindow \<times> bool" where
  "slidingWindow_allowN w n window maxReq now =
     (let cutoff = now - window;
          w = w\<lparr>requests := filter (\<lambda>reqTime. cutoff < reqTime) (requests w)\<rparr>;
          st = (sw_stats w)\<lparr>Requests := Requests (sw_stats w) + of_int n, LastSeen := now\<rparr>
      in if int (length (requests w)) + n \<le> maxReq
         then (w\<lparr>requests := requests w @ replicate (nat n) now,
                 sw_stats := st\<lparr>Allowed := Allowed st + of_int n\<rparr>\<rparr>, True)
         else (w\<lparr>sw_stats := st\<lparr>Rejected := Rejected st + of_int n\<rparr>\<rparr>, False))"

definition slidingWindow_timeToAvailable :: "slidingWindow \<Rightarrow> duration \<Rightarrow> time \<Rightarrow> duration" where
  "slidingWindow_timeToAvailable w window now =
     (case requests w of
        [] \<Rightarrow> 0
      | r # rs \<Rightarrow>
          let oldestRequest = fold (\<lambda>reqTime oldest. if reqTime < oldest then reqTime else oldest) (r # rs) r;
              timeUntilAvailable = time_Sub (oldestRequest + window) now
          in if timeUntilAvailable < 0 then 0 else timeUntilAvailable)"

definition getWindow ::
  "SlidingWindowRateLimiter \<Rightarrow> clock \<Rightarrow> string \<Rightarrow> slidingWindow \<times> SlidingWindowRateLimiter \<times> clock" where
  "getWindow rl ck key =
     (case map_of (windows rl) key of
        Some w \<Rightarrow> (w, rl, ck)
      | None \<Rightarrow>
          let (t, ck) = time_Now ck;
              w = \<lparr>requests = [], sw_stats = \<lparr>Requests = 0, Allowed = 0, Rejected = 0, LastSeen = t\<rparr>\<rparr>
          in (w, rl\<lparr>windows := AList.update key w (windows rl)\<rparr>, ck))"

definition sw_AllowN ::
  "SlidingWindowRateLimiter \<Rightarrow> clock \<Rightarrow> string \<Rightarrow> int \<Rightarrow> SlidingWindowRateLimiter \<times> clock \<times> bool" where
  "sw_AllowN rl ck key n =
     (let (w, rl, ck) = getWindow rl ck key;
          (now, ck) = time_Now ck;
          (w, allowed) = slidingWindow_allowN w n (getWindowSize rl key) (getMaxRequests rl key) now
      in (rl\<lparr>windows := AList.update key w (windows rl),
             sw_total := count_request allowed n (sw_total rl)\<rparr>, ck, allowed))"

definition sw_Allow ::
  "SlidingWindowRateLimiter \<Rightarrow> clock \<Rightarrow> string \<Rightarrow> SlidingWindowRateLimiter \<times> clock \<times> bool" where
  "sw_Allow rl ck key = sw_AllowN rl ck key 1"

definition sw_Reset :: "SlidingWindowRateLimiter \<Rightarrow> string \<Rightarrow> SlidingWindowRateLimiter" where
  "sw_Reset rl key = rl\<lparr>windows := AList.delete key (windows rl)\<rparr>"

definition sw_Stats :: "SlidingWindowRateLimiter \<Rightarrow> RateLimitStats \<times> SlidingWindowRateLimiter" where
  "sw_Stats rl =
     (let rl = rl\<lparr>sw_total := (sw_total rl)\<lparr>ActiveLimiters := int (length (windows rl))\<rparr>\<rparr>
      in ((sw_total rl)\<lparr>PerKeyStats := map (\<lambda>(k, w). (k, sw_stats w)) (windows rl)\<rparr>, rl))"

definition sw_cleanup :: "SlidingWindowRateLimiter \<Rightarrow> time \<Rightarrow> SlidingWindowRateLimiter" where
  "sw_cleanup rl now =
     (let cutoff = now - sw_cleanupInterval rl;
          rl = rl\<lparr>windows := filter (\<lambda>(k, w). \<not> LastSeen (sw_stats w) < cutoff) (windows rl),
                  sw_timer := False\<rparr>
      in if \<not> sw_closed rl then rl\<lparr>sw_timer := True\<rparr> else rl)"

definition sw_Close :: "SlidingWindowRateLimiter \<Rightarrow> SlidingWindowRateLimiter" where
  "sw_Close rl = (if sw_closed rl then rl else rl\<lparr>sw_closed := True, sw_timer := False\<rparr>)"

text \<open>The loop of \<open>WaitN\<close>: the delay before the window reads the clock, the further delay
  before \<open>timeToAvailable\<close> reads it, and the error of the context if it ends the \<open>select\<close>.\<close>

fun sw_WaitN_loop ::
  "SlidingWindowRateLimiter \<Rightarrow> string \<Rightarrow> slidingWindow \<Rightarrow> int \<Rightarrow> duration \<Rightarrow> int \<Rightarrow> time \<Rightarrow>
   (duration \<times> duration \<times> mcp_error option) list \<Rightarrow>
   (SlidingWindowRateLimiter \<times> mcp_error option) option" where
  "sw_WaitN_loop rl key w n window maxReq now [] = None"
| "sw_WaitN_loop rl key w n window maxReq now ((delay, delay', fin) # ws) =
     (let now = now + delay;
          (w, allowed) = slidingWindow_allowN w n window maxReq now;
          rl = rl\<lparr>windows := AList.update key w (windows rl)\<rparr>
      in if allowed then Some (rl\<lparr>sw_total := count_request True n (sw_total rl)\<rparr>, None)
         else let now = now + delay';
                  waitTime = slidingWindow_timeToAvailable w window now
              in case fin of
                   Some err \<Rightarrow> Some (rl\<lparr>sw_total := count_request False n (sw_total rl)\<rparr>, Some err)
                 | None \<Rightarrow> sw_WaitN_loop rl key w n window maxReq (now + waitTime) ws)"

definition sw_WaitN ::
  "SlidingWindowRateLimiter \<Rightarrow> clock \<Rightarrow> string \<Rightarrow> int \<Rightarrow> (duration \<times> duration \<times> mcp_error option) list \<Rightarrow>
   (SlidingWindowRateLimiter \<times> mcp_error option) option" where
  "sw_WaitN rl ck key n ws =
     (let (w, rl, ck) = getWindow rl ck key
      in sw_WaitN_loop rl key w n (getWindowSize rl key) (getMaxRequests rl key) (ck 0) ws)"

section \<open>Composite limiters\<close>

text \<open>The dynamic types behind a \<open>RateLimiter\<close> interface value.\<close>

datatype RateLimiter =
    TokenBucket TokenBucketRateLimiter
  | SlidingWindow SlidingWindowRateLimiter
  | CompositeRateLimiter string "RateLimiter list" \<comment> \<open>strategy, limiters\<close>

definition NewCompositeRateLimiter :: "string \<Rightarrow> RateLimiter list \<Rightarrow> RateLimiter" where
  "NewCompositeRateLimiter strategy ls =
     CompositeRateLimiter (if strategy \<noteq> ''all'' \<and> strategy \<noteq> ''any'' then ''all'' else strategy) ls"

fun AllowN :: "RateLimiter \<Rightarrow> clock \<Rightarrow> string \<Rightarrow> int \<Rightarrow> RateLimiter \<times> clock \<times> bool"
  and AllowN_all :: "RateLimiter list \<Rightarrow> clock \<Rightarrow> string \<Rightarrow> int \<Rightarrow> RateLimiter list \<times> clock \<times> bool"
  and AllowN_any :: "RateLimiter list \<Rightarrow> clock \<Rightarrow> string \<Rightarrow> int \<Rightarrow> RateLimiter list \<times> clock \<times> bool"
where
  "AllowN (TokenBucket rl) ck key n =
     (case tb_AllowN rl ck key n of (rl, ck, ok) \<Rightarrow> (TokenBucket rl, ck, ok))"
| "AllowN (SlidingWindow rl) ck key n =
     (case sw_AllowN rl ck key n of (rl, ck, ok) \<Rightarrow> (SlidingWindow rl, ck, ok))"
| "AllowN (CompositeRateLimiter strategy ls) ck key n =
     (case (if strategy = ''all'' then AllowN_all ls ck key n else AllowN_any ls ck key n) of
        (ls, ck, ok) \<Rightarrow> (CompositeRateLimiter strategy ls, ck, ok))"
| "AllowN_all [] ck key n = ([], ck, True)"
| "AllowN_all (l # ls) ck key n =
     (case AllowN l ck key n of (l, ck, ok) \<Rightarrow>
        if \<not> ok then (l # ls, ck, False)
        else case AllowN_all ls ck key n of (ls, ck, ok) \<Rightarrow> (l # ls, ck, ok))"
| "AllowN_any [] ck key n = ([], ck, False)"
| "AllowN_any (l # ls) ck key n =
     (case AllowN l ck key n of (l, ck, ok) \<Rightarrow>
        if ok then (l # ls, ck, True)
        else case AllowN_any ls ck key n of (ls, ck, ok) \<Rightarrow> (l # ls, ck, ok))"

text \<open>\<open>Allow\<close> of the composite calls the \<open>Allow\<close> methods, each of which is \<open>AllowN\<close> with 1.\<close>

definition Allow :: "RateLimiter \<Rightarrow> clock \<Rightarrow> string \<Rightarrow> RateLimiter \<times> clock \<times> bool" where
  "Allow l ck key = AllowN l ck key 1"

fun Reset :: "RateLimiter \<Rightarrow> string \<Rightarrow> RateLimiter" where
  "Reset (TokenBucket rl) key = TokenBucket (tb_Reset rl key)"
| "Reset (SlidingWindow rl) key = SlidingWindow (sw_Reset rl key)"
| "Reset (CompositeRateLimiter strategy ls) key =
     CompositeRateLimiter strategy (map (\<lambda>l. Reset l key) ls)"

fun Stats :: "RateLimiter \<Rightarrow> RateLimitStats" where
  "Stats (TokenBucket rl) = fst (tb_Stats rl)"
| "Stats (SlidingWindow rl) = fst (sw_Stats rl)"
| "Stats (CompositeRateLimiter strategy ls) =
     foldl (\<lambda>combined stats.
         combined\<lparr>TotalRequests := TotalRequests combined + TotalRequests stats,
                  AllowedRequests := AllowedRequests combined + AllowedRequests stats,
                  RejectedRequests := RejectedRequests combined + RejectedRequests stats,
                  ActiveLimiters := ActiveLimiters combined + ActiveLimiters stats\<rparr>)
       empty_stats (map Stats ls)"

section \<open>Token bucket lemmas\<close>

text \<open>The invariant of a bucket: between zero and a full burst of tokens, a float, and a rate
  that is zero or at least one.\<close>

definition bucket_ok :: "tokenBucket \<Rightarrow> bool" where
  "bucket_ok b \<longleftrightarrow> 0 \<le> tokens b \<and> tokens b \<le> float_of_int (tb_burst b) \<and>
     fl64 (tokens b) = tokens b \<and> 0 \<le> tb_burst b \<and> (tb_rate b = 0 \<or> 1 \<le> tb_rate b) \<and>
     key_balanced (tb_stats b)"

lemma float_of_int_mono: "i \<le> j \<Longrightarrow> float_of_int i \<le> float_of_int j"
  by (simp add: float_of_int_def fl64.fl_mono)

lemma float_of_int_rep [simp]: "fl64 (float_of_int i) = float_of_int i"
  by (simp add: float_of_int_def fl64.fl_idem)

lemma float_of_int_nonneg: "0 \<le> i \<Longrightarrow> 0 \<le> float_of_int i"
  using float_of_int_mono[of 0 i] by (simp add: float_of_int_exact)

lemma float_of_int_ge_1: "1 \<le> i \<Longrightarrow> 1 \<le> float_of_int i"
  using float_of_int_mono[of 1 i] by (simp add: float_of_int_exact)

lemma rate_ok: "0 \<le> i \<Longrightarrow> float_of_int i = 0 \<or> 1 \<le> float_of_int i"
  by (cases "i = 0") (auto simp: float_of_int_exact intro: float_of_int_ge_1)

lemma refill_bounds:
  assumes "bucket_ok b" and "lastFill b \<le> now"
  shows "0 \<le> tb_refill b now" and "tb_refill b now \<le> float_of_int (tb_burst b)"
    and "fl64 (tb_refill b now) = tb_refill b now"
proof -
  have "0 \<le> fl64 (Duration_Seconds (time_Sub now (lastFill b)) * tb_rate b)"
    using assms by (intro fl64.fl_nonneg mult_nonneg_nonneg Duration_Seconds_nonneg time_Sub_nonneg)
      (auto simp: bucket_ok_def)
  then have "0 \<le> fl64 (tokens b + fl64 (Duration_Seconds (time_Sub now (lastFill b)) * tb_rate b))"
    using assms by (intro fl64.fl_nonneg) (simp add: bucket_ok_def)
  then show "0 \<le> tb_refill b now" "tb_refill b now \<le> float_of_int (tb_burst b)"
    "fl64 (tb_refill b now) = tb_refill b now"
    using assms by (auto simp: tb_refill_def min_float_def Let_def bucket_ok_def
        float_of_int_nonneg fl64.fl_idem)
qed

lemma allowN_bucket_ok:
  assumes "bucket_ok b" and "lastFill b \<le> now" and "0 \<le> n"
  shows "bucket_ok (fst (tokenBucket_allowN b n now))"
proof -
  note r = refill_bounds[OF assms(1,2)]
  have "fl64 (tb_refill b now - float_of_int n) \<le> fl64 (float_of_int (tb_burst b))"
    using r(2) float_of_int_nonneg[OF assms(3)] by (intro fl64.fl_mono) linarith
  then have "fl64 (tb_refill b now - float_of_int n) \<le> float_of_int (tb_burst b)" by simp
  moreover have "0 \<le> fl64 (tb_refill b now - float_of_int n)" if "float_of_int n \<le> tb_refill b now"
    using that by (intro fl64.fl_nonneg) simp
  ultimately show ?thesis
    using r assms(1)
    by (auto simp: tokenBucket_allowN_def Let_def bucket_ok_def key_balanced_def fl64.fl_idem)
qed

lemma allowN_simps [simp]:
  "lastFill (fst (tokenBucket_allowN b n now)) = now"
  "tb_rate (fst (tokenBucket_allowN b n now)) = tb_rate b"
  "tb_burst (fst (tokenBucket_allowN b n now)) = tb_burst b"
  by (simp_all add: tokenBucket_allowN_def Let_def)

lemma allowN_decision:
  "snd (tokenBucket_allowN b n now) \<longleftrightarrow> float_of_int n \<le> tb_refill b now"
  by (simp add: tokenBucket_allowN_def Let_def)

text \<open>A call for more than the burst is never admitted.\<close>

lemma allowN_over_burst:
  assumes "bucket_ok b" and "lastFill b \<le> now" and "float_of_int (tb_burst b) < float_of_int n"
  shows "\<not> snd (tokenBucket_allowN b n now)"
  using refill_bounds(2)[OF assms(1,2)] assms(3) by (simp add: allowN_decision)

text \<open>After a refill of a whole burst every call for at most the burst is admitted.\<close>

lemma allowN_after_refill:
  assumes "bucket_ok b" and "n \<le> tb_burst b"
    and "float_of_int (tb_burst b) \<le> Duration_Seconds (time_Sub now (lastFill b)) * tb_rate b"
  shows "snd (tokenBucket_allowN b n now)"
proof -
  let ?inc = "Duration_Seconds (time_Sub now (lastFill b)) * tb_rate b"
  have "float_of_int (tb_burst b) \<le> fl64 ?inc" using fl64.fl_mono[OF assms(3)] by simp
  then have "float_of_int (tb_burst b) \<le> tokens b + fl64 ?inc"
    using assms(1) by (simp add: bucket_ok_def)
  from fl64.fl_mono[OF this] have "tb_refill b now = float_of_int (tb_burst b)"
    by (simp add: tb_refill_def min_float_def Let_def)
  then show ?thesis using float_of_int_mono[OF assms(2)] by (simp add: allowN_decision)
qed

subsection \<open>Throughput\<close>

text \<open>The calls of one bucket, oldest first, with the number of tokens granted.\<close>

fun bucket_run :: "tokenBucket \<Rightarrow> (int \<times> time) list \<Rightarrow> tokenBucket \<times> int" where
  "bucket_run b [] = (b, 0)"
| "bucket_run b ((n, now) # cs) =
     (case tokenBucket_allowN b n now of (b, ok) \<Rightarrow>
        case bucket_run b cs of (b, granted) \<Rightarrow> (b, (if ok then n else 0) + granted))"

definition calls_from :: "time \<Rightarrow> (int \<times> time) list \<Rightarrow> bool" where
  "calls_from t cs \<longleftrightarrow> sorted (t # map snd cs) \<and> list_all (\<lambda>(n, _). 0 \<le> n) cs"

lemma calls_from_Cons:
  "calls_from t ((n, now) # cs) \<longleftrightarrow> t \<le> now \<and> 0 \<le> n \<and> calls_from now cs"
  by (auto simp: calls_from_def)

lemma refill_le:
  assumes "bucket_ok b" and "lastFill b \<le> now" and "now - lastFill b < 2 ^ 63"
    and "1 \<le> tb_burst b" and "tb_burst b < 2 ^ 53"
  shows "tb_refill b now \<le> tokens b
     + of_int (now - lastFill b) / 1000000000 * tb_rate b * (1 + fl_eps) ^ 3
     + of_int (tb_burst b) * fl_eps"
proof -
  let ?d = "now - lastFill b" and ?B = "of_int (tb_burst b) :: rat"
  let ?S = "Duration_Seconds ?d"
  let ?inc = "fl64 (?S * tb_rate b)"
  have d: "time_Sub now (lastFill b) = ?d" using assms(2,3) by (intro time_Sub_exact) simp
  have rate: "0 \<le> tb_rate b" using assms(1) by (auto simp: bucket_ok_def)
  have S: "0 \<le> ?S" "?S \<le> of_int ?d / 1000000000 * (1 + fl_eps) ^ 2"
    using assms(2,3) by (intro Duration_Seconds_nonneg Duration_Seconds_le; simp)+
  have B: "float_of_int (tb_burst b) = ?B" using assms by (simp add: float_of_int_exact)
  have inc0: "0 \<le> ?inc" using S(1) rate by (intro fl64.fl_nonneg) simp
  let ?x = "of_int ?d / 1000000000 * (1 + fl_eps) ^ 2 * tb_rate b"
  have "?inc \<le> fl64 ?x" using S(2) rate by (intro fl64.fl_mono mult_right_mono)
  also have "\<dots> \<le> ?x * (1 + fl_eps)"
  proof (rule fl64_rel_le)
    show "?x = 0 \<or> 1 / 2 ^ 100 \<le> ?x"
    proof (cases "?d = 0 \<or> tb_rate b = 0")
      case False
      then have "1 \<le> ?d" "1 \<le> tb_rate b" using assms(1,2) by (auto simp: bucket_ok_def)
      then have "(1 :: rat) / 1000000000 * 1 * 1 \<le> ?x"
        by (intro mult_mono divide_right_mono) (auto intro: one_le_power)
      then show ?thesis by simp
    qed auto
  qed
  also have "\<dots> = of_int ?d / 1000000000 * tb_rate b * (1 + fl_eps) ^ 3"
    by (simp only: power3_eq_cube power2_eq_square mult.assoc mult.commute mult.left_commute)
  finally have inc: "?inc \<le> of_int ?d / 1000000000 * tb_rate b * (1 + fl_eps) ^ 3" .
  have "tb_refill b now \<le> tokens b + ?inc + ?B * fl_eps"
  proof (cases "tokens b + ?inc \<le> ?B")
    case True
    have "fl64 (tokens b + ?inc) \<le> tokens b + ?inc + ?B / 2 ^ 53"
      by (rule fl64_le_add) (use True inc0 assms in \<open>auto simp: bucket_ok_def\<close>)
    then show ?thesis by (simp add: tb_refill_def min_float_def Let_def d)
  next
    case False
    have "0 \<le> ?B * fl_eps" using assms(4) by simp
    with False B show ?thesis
      using refill_bounds(2)[OF assms(1,2)] by linarith
  qed
  with inc show ?thesis by linarith
qed

lemma allowN_tokens_exact:
  assumes "bucket_ok b" and "lastFill b \<le> now" and "0 \<le> n" and "tb_burst b < 2 ^ 53"
  shows "tokens (fst (tokenBucket_allowN b n now)) =
     tb_refill b now - of_int (if snd (tokenBucket_allowN b n now) then n else 0)"
proof (cases "snd (tokenBucket_allowN b n now)")
  case True
  note r = refill_bounds[OF assms(1,2)]
  have burst: "float_of_int (tb_burst b) = of_int (tb_burst b)"
    using assms(1,4) by (intro float_of_int_exact) (simp add: bucket_ok_def)
  have "(of_int (tb_burst b) :: rat) < of_int (2 ^ 53)" using assms(4) by (simp only: of_int_less_iff)
  with r(2) burst have lt: "tb_refill b now < 2 ^ 53" by simp
  from True have le: "float_of_int n \<le> tb_refill b now" by (simp add: allowN_decision)
  have n: "n < 2 ^ 53"
  proof (rule ccontr)
    assume "\<not> n < 2 ^ 53"
    then have "float_of_int (2 ^ 53) \<le> float_of_int n" by (intro float_of_int_mono) simp
    moreover have "float_of_int (2 ^ 53) = 2 ^ 53" by code_simp
    ultimately show False using le lt by simp
  qed
  then have ex: "float_of_int n = of_int n" using assms(3) by (intro float_of_int_exact) simp
  then have "fl64 (tb_refill b now - of_int n) = tb_refill b now - of_int n"
    using r(3) assms(3) le lt by (intro fl64_sub_exact) simp_all
  with True ex show ?thesis by (simp add: tokenBucket_allowN_def Let_def split: if_splits)
next
  case False
  then show ?thesis by (simp add: tokenBucket_allowN_def Let_def split: if_splits)
qed

lemma bucket_run_bound:
  assumes "bucket_ok b" and "calls_from (lastFill b) cs"
    and "last (lastFill b # map snd cs) - lastFill b < 2 ^ 63"
    and "1 \<le> tb_burst b" and "tb_burst b < 2 ^ 53"
  shows "of_int (snd (bucket_run b cs)) \<le> tokens b
     + of_int (last (lastFill b # map snd cs) - lastFill b) / 1000000000 * tb_rate b * (1 + fl_eps) ^ 3
     + of_nat (length cs) * (of_int (tb_burst b) * fl_eps)"
  using assms
proof (induction cs arbitrary: b)
  case (Cons c cs)
  obtain n now where c: "c = (n, now)" by fastforce
  let ?b = "fst (tokenBucket_allowN b n now)" and ?ok = "snd (tokenBucket_allowN b n now)"
  let ?fin = "last (now # map snd cs)"
  let ?R = "tb_rate b * (1 + fl_eps) ^ 3"
  from Cons.prems(2) have p: "lastFill b \<le> now" "0 \<le> n" "calls_from now cs"
    by (auto simp: c calls_from_Cons)
  have "now \<in> set (now # map snd cs)" by simp
  have "sorted (now # map snd cs)" using p(3) by (simp add: calls_from_def)
  then have ge: "now \<le> ?fin"
    by (metis last_in_set list.distinct(1) order_refl set_ConsD sorted_simps(2))
  have span: "?fin - lastFill b < 2 ^ 63" using Cons.prems(3) by (simp add: c)
  then have "?fin - now < 2 ^ 63" using p(1) by linarith
  with Cons.IH[of ?b] Cons.prems p
  have IH: "of_int (snd (bucket_run ?b cs)) \<le> tokens ?b
     + of_int (?fin - now) / 1000000000 * tb_rate b * (1 + fl_eps) ^ 3
     + of_nat (length cs) * (of_int (tb_burst b) * fl_eps)"
    by (simp add: allowN_bucket_ok)
  have tok: "tokens ?b = tb_refill b now - of_int (if ?ok then n else 0)"
    using Cons.prems p by (intro allowN_tokens_exact) simp_all
  have ref: "tb_refill b now \<le> tokens b
     + of_int (now - lastFill b) / 1000000000 * tb_rate b * (1 + fl_eps) ^ 3
     + of_int (tb_burst b) * fl_eps"
    using Cons.prems p span ge by (intro refill_le) linarith+
  have run: "snd (bucket_run b (c # cs)) = (if ?ok then n else 0) + snd (bucket_run ?b cs)"
    by (simp add: c split: prod.split)
  have sum: "of_int (now - lastFill b) / 1000000000 * tb_rate b * (1 + fl_eps) ^ 3
      + of_int (?fin - now) / 1000000000 * tb_rate b * (1 + fl_eps) ^ 3
      = of_int (?fin - lastFill b) / 1000000000 * tb_rate b * (1 + fl_eps) ^ 3"
    by (simp only: of_int_diff diff_divide_distrib left_diff_distrib)
  have len: "of_nat (length (c # cs)) * (of_int (tb_burst b) * fl_eps)
      = of_int (tb_burst b) * fl_eps + of_nat (length cs) * (of_int (tb_burst b) * fl_eps)"
    by (simp only: length_Cons of_nat_Suc distrib_right mult_1_left)
  have lst: "last (lastFill b # map snd (c # cs)) = ?fin" by (simp add: c)
  have combine: "g + a \<le> t + x + (e + k)"
    if "a \<le> t' + y + k" "t' = f - g" "f \<le> t + z + e" "z + y = x" for a e f g k t t' x y z :: rat
    using that by linarith
  show ?case unfolding run len lst of_int_add by (rule combine[OF IH tok ref sum])
qed (simp add: bucket_ok_def)

end
