(* ===== verification/RateLimit_Props.thy ===== *)
theory RateLimit_Props
  imports RateLimit
begin

text \<open>
  What the limiters of \<open>ratelimit.go\<close> promise. The locale \<open>rate_limiter\<close> is the contract a
  client of the \<open>RateLimiter\<close> interface relies on (the invariant survives every operation,
  every decision is counted); the token bucket and the sliding window limiter interpret it.
  The step relation \<open>sw_trace\<close> follows one key of a sliding window limiter through any
  interleaving of calls, cleanups and calls for other keys.
\<close>

section \<open>The RateLimiter interface\<close>

text \<open>A sequence of \<open>AllowN\<close> calls on one limiter.\<close>

fun run_allow ::
  "('l \<Rightarrow> clock \<Rightarrow> string \<Rightarrow> int \<Rightarrow> 'l \<times> clock \<times> bool) \<Rightarrow> 'l \<Rightarrow> clock \<Rightarrow> (string \<times> int) list \<Rightarrow>
   'l \<times> clock \<times> bool list" where
  "run_allow allow l ck [] = (l, ck, [])"
| "run_allow allow l ck ((key, n) # rs) =
     (case allow l ck key n of (l, ck, ok) \<Rightarrow>
        case run_allow allow l ck rs of (l, ck, oks) \<Rightarrow> (l, ck, ok # oks))"

definition granted :: "(string \<times> int) list \<Rightarrow> bool list \<Rightarrow> int" where
  "granted rs oks = (\<Sum>(r, ok) \<leftarrow> zip rs oks. if ok then snd r else 0)"

definition refused :: "(string \<times> int) list \<Rightarrow> bool list \<Rightarrow> int" where
  "refused rs oks = (\<Sum>(r, ok) \<leftarrow> zip rs oks. if ok then 0 else snd r)"

locale rate_limiter =
  fixes inv :: "'l \<Rightarrow> clock \<Rightarrow> bool"
    and allowN :: "'l \<Rightarrow> clock \<Rightarrow> string \<Rightarrow> int \<Rightarrow> 'l \<times> clock \<times> bool"
    and reset :: "'l \<Rightarrow> string \<Rightarrow> 'l"
    and total :: "'l \<Rightarrow> RateLimitStats"
  assumes allowN_inv:
      "inv l ck \<Longrightarrow> 0 \<le> n \<Longrightarrow> allowN l ck key n = (l', ck', ok) \<Longrightarrow> inv l' ck'"
    and allowN_total:
      "allowN l ck key n = (l', ck', ok) \<Longrightarrow> total l' = count_request ok n (total l)"
    and reset_inv: "inv l ck \<Longrightarrow> inv (reset l key) ck"
    and reset_total: "total (reset l key) = total l"
    and inv_balanced: "inv l ck \<Longrightarrow> stats_balanced (total l)"
begin

lemma run_inv:
  "inv l ck \<Longrightarrow> list_all (\<lambda>r. 0 \<le> snd r) rs \<Longrightarrow> run_allow allowN l ck rs = (l', ck', oks) \<Longrightarrow>
   inv l' ck'"
proof (induction rs arbitrary: l ck oks)
  case (Cons r rs)
  obtain key n where r: "r = (key, n)" by fastforce
  obtain l1 ck1 ok where a: "allowN l ck key n = (l1, ck1, ok)" by (metis prod_cases3)
  obtain oks' where b: "run_allow allowN l1 ck1 rs = (l', ck', oks')"
    using Cons.prems(3) by (auto simp: r a split: prod.splits)
  have "inv l1 ck1" using Cons.prems allowN_inv[OF _ _ a] by (simp add: r)
  then show ?case using Cons.IH[OF _ _ b] Cons.prems(2) by simp
qed simp

lemma run_total:
  assumes "run_allow allowN l ck rs = (l', ck', oks)"
  shows "length oks = length rs \<and>
     AllowedRequests (total l') = AllowedRequests (total l) + of_int (granted rs oks) \<and>
     RejectedRequests (total l') = RejectedRequests (total l) + of_int (refused rs oks)"
  using assms
proof (induction rs arbitrary: l ck oks)
  case (Cons r rs)
  obtain key n where r: "r = (key, n)" by fastforce
  obtain l1 ck1 ok where a: "allowN l ck key n = (l1, ck1, ok)" by (metis prod_cases3)
  obtain oks' where b: "run_allow allowN l1 ck1 rs = (l', ck', oks')" and "oks = ok # oks'"
    using Cons.prems by (auto simp: r a split: prod.splits)
  then show ?case
    using Cons.IH[OF b] allowN_total[OF a]
    by (auto simp: r granted_def refused_def count_request_def Let_def)
qed (simp add: granted_def refused_def)

text \<open>A run keeps the books: what was granted and what was refused are what the statistics
  report, up to int64 wrap-around.\<close>

lemma run_accounts:
  assumes "inv l ck" and "list_all (\<lambda>r. 0 \<le> snd r) rs"
    and "run_allow allowN l ck rs = (l', ck', oks)"
  shows "inv l' ck' \<and>
     TotalRequests (total l') = AllowedRequests (total l') + RejectedRequests (total l') \<and>
     AllowedRequests (total l') = AllowedRequests (total l) + of_int (granted rs oks) \<and>
     RejectedRequests (total l') = RejectedRequests (total l) + of_int (refused rs oks)"
  using run_inv[OF assms] run_total[OF assms(3)] inv_balanced[of l' ck']
  by (simp add: stats_balanced_def)

end

section \<open>The token bucket limiter\<close>

definition rule_ok :: "RateLimitRule \<Rightarrow> bool" where
  "rule_ok r \<longleftrightarrow> 0 \<le> RequestsPerSecond r \<and> 0 \<le> BurstSize r"

definition tb_inv :: "TokenBucketRateLimiter \<Rightarrow> clock \<Rightarrow> bool" where
  "tb_inv rl ck \<longleftrightarrow> mono ck \<and> map_ok (limiters rl) \<and>
     all_vals (\<lambda>b. bucket_ok b \<and> lastFill b \<le> ck 0) (limiters rl) \<and> stats_balanced (tb_total rl) \<and>
     all_vals rule_ok (tb_rules rl) \<and> (defaultRate rl = 0 \<or> 1 \<le> defaultRate rl) \<and>
     0 \<le> defaultBurst rl"

lemma tb_inv_later:
  assumes "tb_inv rl ck"
  shows "tb_inv rl (\<lambda>i. ck (Suc i))"
proof -
  have "ck 0 \<le> ck (Suc 0)" using assms by (auto simp: tb_inv_def mono_iff_le_Suc)
  then have "all_vals (\<lambda>b. bucket_ok b \<and> lastFill b \<le> ck (Suc 0)) (limiters rl)"
    using assms by (auto simp: tb_inv_def elim!: all_vals_mono)
  then show ?thesis using assms mono_tick[of ck] by (simp add: tb_inv_def)
qed

lemma tb_inv_new: "mono ck \<Longrightarrow> tb_inv (NewTokenBucketRateLimiter r b) ck"
  by (auto simp: tb_inv_def NewTokenBucketRateLimiter_def stats_balanced_def empty_stats_def
      Let_def intro: float_of_int_ge_1)

lemma tb_inv_store:
  assumes "tb_inv rl ck" and "bucket_ok b" and "lastFill b \<le> ck 0"
  shows "tb_inv (rl\<lparr>limiters := AList.update key b (limiters rl)\<rparr>) ck"
  using assms by (simp add: tb_inv_def all_vals_update)

lemma getBucket_inv:
  assumes "tb_inv rl ck" and "getBucket rl ck key = (b, rl', ck')"
  shows "tb_inv rl' ck' \<and> bucket_ok b \<and> lastFill b \<le> ck' 0 \<and> tb_total rl' = tb_total rl"
proof (cases "map_of (limiters rl) key")
  case (Some b')
  then show ?thesis
    using assms by (auto simp: getBucket_def tb_inv_def dest: all_vals_lookup)
next
  case None
  define rate burst where "rate = (case map_of (tb_rules rl) key of
      Some rule \<Rightarrow> float_of_int (RequestsPerSecond rule) | None \<Rightarrow> defaultRate rl)"
    and "burst = (case map_of (tb_rules rl) key of
      Some rule \<Rightarrow> BurstSize rule | None \<Rightarrow> defaultBurst rl)"
  let ?b = "\<lparr>tokens = float_of_int burst, lastFill = ck 0, tb_rate = rate, tb_burst = burst,
     tb_stats = \<lparr>Requests = 0, Allowed = 0, Rejected = 0, LastSeen = ck 1\<rparr>\<rparr>"
  have rule: "map_of (tb_rules rl) key = Some r \<Longrightarrow> rule_ok r" for r
    using assms(1) by (auto simp: tb_inv_def dest: all_vals_lookup)
  then have "(rate = 0 \<or> 1 \<le> rate) \<and> 0 \<le> burst"
    using assms(1) rate_ok
    by (cases "map_of (tb_rules rl) key") (auto simp: rate_def burst_def rule_ok_def tb_inv_def)
  then have ok: "bucket_ok ?b"
    by (auto simp: bucket_ok_def key_balanced_def float_of_int_nonneg)
  have eq: "b = ?b" "rl' = rl\<lparr>limiters := AList.update key ?b (limiters rl)\<rparr>"
      "ck' = (\<lambda>i. ck (Suc (Suc i)))"
    using assms(2) None by (auto simp: getBucket_def time_Now_def rate_def burst_def
        Let_def split: option.splits)
  have later: "tb_inv rl (\<lambda>i. ck (Suc (Suc i)))" using assms(1) tb_inv_later by blast
  have "ck 0 \<le> ck (Suc (Suc 0))" using assms(1) by (simp add: tb_inv_def monoD)
  with later ok show ?thesis unfolding eq by (simp add: tb_inv_store)
qed

lemma tb_AllowN_inv:
  assumes "tb_inv rl ck" and "0 \<le> n" and "tb_AllowN rl ck key n = (rl', ck', ok)"
  shows "tb_inv rl' ck'"
proof -
  obtain b rl1 ck1 where g: "getBucket rl ck key = (b, rl1, ck1)" by (metis prod_cases3)
  note gi = getBucket_inv[OF assms(1) g]
  obtain b' where a: "tokenBucket_allowN b n (ck1 0) = (b', ok)"
    and eq: "rl' = rl1\<lparr>limiters := AList.update key b' (limiters rl1),
                 tb_total := count_request ok n (tb_total rl1)\<rparr>" "ck' = (\<lambda>i. ck1 (Suc i))"
    using assms(3) by (auto simp: tb_AllowN_def g time_Now_def Let_def split: prod.splits)
  have "bucket_ok b'" using allowN_bucket_ok[of b "ck1 0" n] gi assms(2) a by simp
  moreover have "lastFill b' = ck1 0" using allowN_simps(1)[of b n "ck1 0"] a by simp
  moreover have "ck1 0 \<le> ck1 (Suc 0)" using gi by (simp add: tb_inv_def monoD)
  moreover have "tb_inv rl1 ck'" using gi tb_inv_later unfolding eq(2) by blast
  ultimately have "tb_inv (rl1\<lparr>limiters := AList.update key b' (limiters rl1)\<rparr>) ck'"
    by (intro tb_inv_store) (simp_all add: eq(2))
  then show ?thesis by (simp add: eq(1) tb_inv_def count_request_balanced)
qed

lemma tb_AllowN_total:
  assumes "tb_AllowN rl ck key n = (rl', ck', ok)"
  shows "tb_total rl' = count_request ok n (tb_total rl)"
proof -
  have "tb_total (fst (snd (getBucket rl ck key))) = tb_total rl"
    by (auto simp: getBucket_def time_Now_def Let_def split: option.splits prod.splits)
  then show ?thesis
    using assms by (auto simp: tb_AllowN_def Let_def split: prod.splits)
qed

text \<open>The first call of a key finds a full bucket.\<close>

lemma refill_full:
  assumes "bucket_ok b" and "lastFill b \<le> now" and "tokens b = float_of_int (tb_burst b)"
  shows "tb_refill b now = float_of_int (tb_burst b)"
proof -
  let ?inc = "fl64 (Duration_Seconds (time_Sub now (lastFill b)) * tb_rate b)"
  have "0 \<le> ?inc"
    using assms by (intro fl64.fl_nonneg mult_nonneg_nonneg Duration_Seconds_nonneg time_Sub_nonneg)
      (auto simp: bucket_ok_def)
  then have "fl64 (float_of_int (tb_burst b)) \<le> fl64 (tokens b + ?inc)"
    using assms(3) by (intro fl64.fl_mono) simp
  then show ?thesis by (simp add: tb_refill_def min_float_def Let_def)
qed

lemma tb_AllowN_first:
  assumes "tb_inv rl ck" and "map_of (limiters rl) key = None" and "map_of (tb_rules rl) key = None"
    and "n \<le> defaultBurst rl"
  shows "snd (snd (tb_AllowN rl ck key n))"
proof -
  obtain b rl1 ck1 where g: "getBucket rl ck key = (b, rl1, ck1)" by (metis prod_cases3)
  have b: "tokens b = float_of_int (tb_burst b)" "tb_burst b = defaultBurst rl"
    using g assms(2,3) by (auto simp: getBucket_def time_Now_def Let_def)
  have "tb_refill b (ck1 0) = float_of_int (tb_burst b)"
    using getBucket_inv[OF assms(1) g] b(1) by (intro refill_full) simp_all
  then have "snd (tokenBucket_allowN b n (ck1 0))"
    using float_of_int_mono[OF assms(4)] b(2) by (simp add: allowN_decision)
  then show ?thesis by (auto simp: tb_AllowN_def g time_Now_def Let_def split: prod.split)
qed

lemma tb_Reset_inv: "tb_inv rl ck \<Longrightarrow> tb_inv (tb_Reset rl key) ck"
  by (simp add: tb_inv_def tb_Reset_def)

interpretation tb: rate_limiter tb_inv tb_AllowN tb_Reset tb_total
proof
  show "tb_total (tb_Reset l key) = tb_total l" for l key by (simp add: tb_Reset_def)
  show "tb_inv l ck \<Longrightarrow> stats_balanced (tb_total l)" for l ck by (simp add: tb_inv_def)
qed (fact tb_AllowN_inv tb_AllowN_total tb_Reset_inv)+

subsection \<open>Every operation keeps the buckets within their burst\<close>

text \<open>What callers and the cleanup timer can do to a limiter. A waiting call reads the clock
  itself; after it returns the clock is not behind any of the readings it stored.\<close>

definition tb_ok :: "TokenBucketRateLimiter \<Rightarrow> bool" where
  "tb_ok rl \<longleftrightarrow> map_ok (limiters rl) \<and> all_vals bucket_ok (limiters rl) \<and>
     stats_balanced (tb_total rl) \<and> all_vals rule_ok (tb_rules rl) \<and>
     (defaultRate rl = 0 \<or> 1 \<le> defaultRate rl) \<and> 0 \<le> defaultBurst rl"

lemma tb_inv_iff:
  "tb_inv rl ck \<longleftrightarrow> mono ck \<and> tb_ok rl \<and> all_vals (\<lambda>b. lastFill b \<le> ck 0) (limiters rl)"
  by (auto simp: tb_inv_def tb_ok_def all_vals_iff)

text \<open>One round of the loop, with the bucket and the decision named.\<close>

lemma tb_WaitN_round:
  assumes "tokenBucket_allowN b n (now + delay) = (b', ok)"
    and "rl' = rl\<lparr>limiters := AList.update key b' (limiters rl)\<rparr>"
  shows "tb_WaitN_loop rl key b n now ((None, delay, fin) # ws) =
     (if ok then Some (rl'\<lparr>tb_total := count_request True n (tb_total rl)\<rparr>, None)
      else case fin of
             Some err \<Rightarrow> Some (rl'\<lparr>tb_total := count_request False n (tb_total rl)\<rparr>, Some err)
           | None \<Rightarrow> tb_WaitN_loop rl' key b' n
               (now + delay + max 0 (tokenBucket_timeToAvailable b' n)) ws)"
  using assms by (auto simp: Let_def split: option.split)

lemma allowN_round:
  assumes "tokenBucket_allowN b n (now + delay) = (b', ok)" and "bucket_ok b"
    and "lastFill b \<le> now" and "0 \<le> n" and "0 \<le> delay"
  shows "bucket_ok b'" "lastFill b' = now + delay" "tb_burst b' = tb_burst b" "tb_rate b' = tb_rate b"
  using assms allowN_bucket_ok[of b "now + delay" n] allowN_simps[of b n "now + delay"] by simp_all

lemma tb_WaitN_loop_ok:
  assumes "tb_WaitN_loop rl key b n now ws = Some (rl', err)" and "tb_ok rl" and "bucket_ok b"
    and "lastFill b \<le> now" and "0 \<le> n" and "list_all (\<lambda>(_, delay, _). 0 \<le> delay) ws"
  shows "tb_ok rl'"
  using assms
proof (induction ws arbitrary: rl b now)
  case (Cons w ws)
  obtain e delay fin where w: "w = (e, delay, fin)" by (metis prod_cases3)
  show ?case
  proof (cases e)
    case None
    obtain b' ok where a: "tokenBucket_allowN b n (now + delay) = (b', ok)" by fastforce
    note r = allowN_round[OF a Cons.prems(3-5)]
    have b': "bucket_ok b'" "lastFill b' \<le> now + delay + max 0 (tokenBucket_timeToAvailable b' n)"
      using r Cons.prems(6) by (simp_all add: w)
    have ok: "tb_ok (rl\<lparr>limiters := AList.update key b' (limiters rl)\<rparr>)"
      using Cons.prems(2) b' by (simp add: tb_ok_def)
    then show ?thesis
      using Cons.prems Cons.IH[OF _ ok b' Cons.prems(5)] unfolding w None tb_WaitN_round[OF a refl]
      by (auto simp: tb_ok_def count_request_balanced split: if_splits option.splits)
  qed (use Cons.prems in \<open>auto simp: w tb_ok_def count_request_balanced\<close>)
qed simp

inductive tb_step :: "TokenBucketRateLimiter \<times> clock \<Rightarrow> TokenBucketRateLimiter \<times> clock \<Rightarrow> bool" where
  step_AllowN: "0 \<le> n \<Longrightarrow> tb_AllowN rl ck key n = (rl', ck', ok) \<Longrightarrow> tb_step (rl, ck) (rl', ck')"
| step_WaitN: "0 \<le> n \<Longrightarrow> list_all (\<lambda>(_, delay, _). 0 \<le> delay) ws \<Longrightarrow>
    tb_WaitN rl ck key n ws = Some (rl', err) \<Longrightarrow> mono ck' \<Longrightarrow>
    all_vals (\<lambda>b. lastFill b \<le> ck' 0) (limiters rl') \<Longrightarrow> tb_step (rl, ck) (rl', ck')"
| step_Reset: "tb_step (rl, ck) (tb_Reset rl key, ck)"
| step_SetRule: "rule_ok rule \<Longrightarrow> tb_step (rl, ck) (tb_SetRuleForKey key rule rl, ck)"
| step_cleanup: "tb_step (rl, ck) (tb_cleanup rl (ck 0), \<lambda>i. ck (Suc i))"
| step_Stats: "tb_step (rl, ck) (snd (tb_Stats rl), ck)"
| step_Close: "tb_step (rl, ck) (tb_Close rl, ck)"

inductive_cases tb_stepE: "tb_step s s'"

lemma tb_step_inv:
  assumes "tb_step s s'" and "tb_inv (fst s) (snd s)"
  shows "tb_inv (fst s') (snd s')"
  using assms
proof (induction rule: tb_step.induct)
  case (step_AllowN n rl ck key rl' ck' ok)
  then show ?case by (simp add: tb_AllowN_inv)
next
  case (step_WaitN n ws rl ck key rl' err ck')
  obtain b rl1 ck1 where g: "getBucket rl ck key = (b, rl1, ck1)" by (metis prod_cases3)
  have "tb_inv rl1 ck1 \<and> bucket_ok b \<and> lastFill b \<le> ck1 0"
    using getBucket_inv[OF _ g] step_WaitN.prems by simp
  moreover have "tb_WaitN_loop rl1 key b n (ck1 0) ws = Some (rl', err)"
    using step_WaitN.hyps(3) by (simp add: tb_WaitN_def g)
  ultimately have "tb_ok rl'"
    using step_WaitN.hyps(1,2) by (auto simp: tb_inv_iff elim!: tb_WaitN_loop_ok)
  then show ?case using step_WaitN.hyps(4,5) by (simp add: tb_inv_iff)
next
  case (step_Reset rl ck key)
  then show ?case by (simp add: tb_Reset_inv)
next
  case (step_SetRule rule rl ck key)
  then show ?case by (simp add: tb_inv_def tb_SetRuleForKey_def)
next
  case (step_cleanup rl ck)
  then have "tb_inv rl (\<lambda>i. ck (Suc i))" by (simp add: tb_inv_later)
  then show ?case by (simp add: tb_inv_def tb_cleanup_def Let_def)
next
  case (step_Stats rl ck)
  then show ?case by (simp add: tb_inv_def tb_Stats_def stats_balanced_def Let_def)
next
  case (step_Close rl ck)
  then show ?case by (simp add: tb_inv_def tb_Close_def)
qed

lemma tb_steps_inv:
  assumes "tb_step\<^sup>*\<^sup>* s s'" and "tb_inv (fst s) (snd s)"
  shows "tb_inv (fst s') (snd s')"
  using assms by (induction rule: rtranclp_induct) (auto intro: tb_step_inv)

subsection \<open>Waiting\<close>

text \<open>A call for more than the burst is refused in every round, so it never returns nil.\<close>

lemma tb_WaitN_over_burst:
  assumes "tb_WaitN_loop rl key b n now ws = Some (rl', err)" and "bucket_ok b"
    and "lastFill b \<le> now" and "0 \<le> n" and "list_all (\<lambda>(_, delay, _). 0 \<le> delay) ws"
    and "float_of_int (tb_burst b) < float_of_int n"
  shows "err \<noteq> None"
  using assms
proof (induction ws arbitrary: rl b now)
  case (Cons w ws)
  obtain e delay fin where w: "w = (e, delay, fin)" by (metis prod_cases3)
  show ?case
  proof (cases e)
    case None
    obtain b' ok where a: "tokenBucket_allowN b n (now + delay) = (b', ok)" by fastforce
    note r = allowN_round[OF a Cons.prems(2-4)]
    have "\<not> ok" using allowN_over_burst[of b "now + delay" n] a Cons.prems by (simp add: w)
    then show ?thesis
      using Cons.prems Cons.IH[of _ b' "now + delay + max 0 (tokenBucket_timeToAvailable b' n)"] r
      unfolding w None tb_WaitN_round[OF a refl]
      by (auto split: if_splits option.splits)
  qed (use Cons.prems in \<open>auto simp: w\<close>)
qed simp

text \<open>A call for at most the burst returns nil at the latest in the first round that follows a
  delay in which the bucket fills up, unless the context ends first.\<close>

lemma tb_WaitN_returns:
  assumes "bucket_ok b" and "lastFill b \<le> now" and "0 \<le> n" and "n \<le> tb_burst b"
    and "list_all (\<lambda>(e, delay, fin). e = None \<and> 0 \<le> delay \<and> fin = None) ws"
    and "list_ex (\<lambda>(e, delay, fin). delay < 2 ^ 63 \<and>
           float_of_int (tb_burst b) \<le> Duration_Seconds delay * tb_rate b) ws"
  shows "\<exists>rl'. tb_WaitN_loop rl key b n now ws = Some (rl', None)"
  using assms
proof (induction ws arbitrary: rl b now)
  case (Cons w ws)
  obtain delay where w: "w = (None, delay, None)" and d: "0 \<le> delay"
    using Cons.prems(5) by (cases w) auto
  obtain b' ok where a: "tokenBucket_allowN b n (now + delay) = (b', ok)" by fastforce
  note r = allowN_round[OF a Cons.prems(1-3) d]
  have "ok" if full: "delay < 2 ^ 63" "float_of_int (tb_burst b) \<le> Duration_Seconds delay * tb_rate b"
  proof -
    have "delay \<le> time_Sub (now + delay) (lastFill b)" "time_Sub (now + delay) (lastFill b) < 2 ^ 63"
      using Cons.prems(2) full(1) d by (auto simp: time_Sub_def)
    then have "Duration_Seconds delay \<le> Duration_Seconds (time_Sub (now + delay) (lastFill b))"
      using d by (intro Duration_Seconds_mono)
    then have "Duration_Seconds delay * tb_rate b \<le>
        Duration_Seconds (time_Sub (now + delay) (lastFill b)) * tb_rate b"
      using Cons.prems(1) by (intro mult_right_mono) (auto simp: bucket_ok_def)
    then show ok
      using allowN_after_refill[OF Cons.prems(1,4), of "now + delay"] full(2) a by simp
  qed
  then show ?case
    using Cons.prems Cons.IH[of b' "now + delay + max 0 (tokenBucket_timeToAvailable b' n)"] r
    unfolding w tb_WaitN_round[OF a refl] by (cases ok) auto
qed simp

section \<open>The sliding window limiter\<close>

definition sw_inv :: "SlidingWindowRateLimiter \<Rightarrow> clock \<Rightarrow> bool" where
  "sw_inv rl ck \<longleftrightarrow> mono ck \<and> map_ok (windows rl) \<and>
     all_vals (\<lambda>w. key_balanced (sw_stats w) \<and> LastSeen (sw_stats w) \<le> ck 0) (windows rl) \<and>
     stats_balanced (sw_total rl)"

lemma sw_inv_later:
  assumes "sw_inv rl ck"
  shows "sw_inv rl (\<lambda>i. ck (Suc i))"
proof -
  have "ck 0 \<le> ck (Suc 0)" using assms by (simp add: sw_inv_def monoD)
  then have "all_vals (\<lambda>w. key_balanced (sw_stats w) \<and> LastSeen (sw_stats w) \<le> ck (Suc 0)) (windows rl)"
    using assms by (auto simp: sw_inv_def elim!: all_vals_mono)
  then show ?thesis using assms mono_tick[of ck] by (simp add: sw_inv_def)
qed

lemma window_allowN_simps:
  assumes "slidingWindow_allowN w n window maxReq now = (w', ok)"
  shows "LastSeen (sw_stats w') = now"
    and "key_balanced (sw_stats w) \<Longrightarrow> key_balanced (sw_stats w')"
    and "requests w' = filter (\<lambda>x. now - window < x) (requests w) @ (if ok then replicate (nat n) now else [])"
    and "ok \<longleftrightarrow> int (length (filter (\<lambda>x. now - window < x) (requests w))) + n \<le> maxReq"
  using assms by (auto simp: slidingWindow_allowN_def key_balanced_def Let_def split: if_splits)

lemma window_config_simps [simp]:
  "getWindowSize (rl\<lparr>windows := ws\<rparr>) key = getWindowSize rl key"
  "getMaxRequests (rl\<lparr>windows := ws\<rparr>) key = getMaxRequests rl key"
  "getWindowSize (rl\<lparr>sw_total := st\<rparr>) key = getWindowSize rl key"
  "getMaxRequests (rl\<lparr>sw_total := st\<rparr>) key = getMaxRequests rl key"
  by (simp_all add: getWindowSize_def getMaxRequests_def split: option.split)

text \<open>What one \<open>AllowN\<close> does, whether or not the window existed.\<close>

lemma sw_AllowN_cases:
  assumes "sw_AllowN rl ck key n = (rl', ck', ok)" and "mono ck"
  obtains w w' now where
    "map_of (windows rl) key = Some w \<and> now = ck 0 \<or>
     map_of (windows rl) key = None \<and> requests w = [] \<and> key_balanced (sw_stats w) \<and>
       LastSeen (sw_stats w) = ck 0"
    "slidingWindow_allowN w n (getWindowSize rl key) (getMaxRequests rl key) now = (w', ok)"
    "rl' = rl\<lparr>windows := AList.update key w' (windows rl),
              sw_total := count_request ok n (sw_total rl)\<rparr>"
    "ck 0 \<le> now" "now \<le> ck' 0" "mono ck'"
proof (cases "map_of (windows rl) key")
  case (Some w)
  then obtain w' where "slidingWindow_allowN w n (getWindowSize rl key) (getMaxRequests rl key) (ck 0) = (w', ok)"
    and "rl' = rl\<lparr>windows := AList.update key w' (windows rl),
             sw_total := count_request ok n (sw_total rl)\<rparr>" "ck' = (\<lambda>i. ck (Suc i))"
    using assms(1) by (auto simp: sw_AllowN_def getWindow_def time_Now_def Let_def split: prod.splits)
  with Some assms(2) show thesis
    by (intro that[of w "ck 0" w']) (auto simp: mono_tick monoD)
next
  case None
  let ?w = "\<lparr>requests = [], sw_stats = \<lparr>Requests = 0, Allowed = 0, Rejected = 0, LastSeen = ck 0\<rparr>\<rparr>"
  from None obtain w' where
    "slidingWindow_allowN ?w n (getWindowSize rl key) (getMaxRequests rl key) (ck 1) = (w', ok)"
    and "rl' = rl\<lparr>windows := AList.update key w' (windows rl),
             sw_total := count_request ok n (sw_total rl)\<rparr>" "ck' = (\<lambda>i. ck (Suc (Suc i)))"
    using assms(1) by (auto simp: sw_AllowN_def getWindow_def time_Now_def Let_def split: prod.splits)
  with None assms(2) show thesis
    by (intro that[of ?w "ck 1" w'])
      (auto simp: mono_tick mono_tick[OF mono_tick] monoD key_balanced_def)
qed

lemma sw_AllowN_inv:
  assumes "sw_inv rl ck" and "0 \<le> n" and "sw_AllowN rl ck key n = (rl', ck', ok)"
  shows "sw_inv rl' ck'"
proof -
  let ?P = "\<lambda>t w. key_balanced (sw_stats w) \<and> LastSeen (sw_stats w) \<le> t"
  have "mono ck" using assms(1) by (simp add: sw_inv_def)
  then obtain w w' now where
    w: "map_of (windows rl) key = Some w \<and> now = ck 0 \<or>
     map_of (windows rl) key = None \<and> requests w = [] \<and> key_balanced (sw_stats w) \<and>
       LastSeen (sw_stats w) = ck 0"
    and a: "slidingWindow_allowN w n (getWindowSize rl key) (getMaxRequests rl key) now = (w', ok)"
    and rl': "rl' = rl\<lparr>windows := AList.update key w' (windows rl),
              sw_total := count_request ok n (sw_total rl)\<rparr>"
    and t: "ck 0 \<le> now" "now \<le> ck' 0" "mono ck'"
    using assms(3) by (blast elim: sw_AllowN_cases)
  have "key_balanced (sw_stats w)"
    using w assms(1) by (auto simp: sw_inv_def dest: all_vals_lookup)
  then have "?P (ck' 0) w'" using window_allowN_simps(1,2)[OF a] t(2) by simp
  moreover have "all_vals (?P (ck' 0)) (windows rl)"
    using assms(1) t by (auto simp: sw_inv_def elim!: all_vals_mono)
  ultimately show ?thesis
    using assms(1) t by (simp add: sw_inv_def rl' count_request_balanced)
qed

interpretation sw: rate_limiter sw_inv sw_AllowN sw_Reset sw_total
proof
  show "sw_total l' = count_request ok n (sw_total l)"
    if "sw_AllowN l ck key n = (l', ck', ok)" for l ck key n l' ck' ok
  proof -
    have "sw_total (fst (snd (getWindow l ck key))) = sw_total l"
      by (auto simp: getWindow_def time_Now_def Let_def split: option.splits)
    with that show ?thesis by (auto simp: sw_AllowN_def Let_def split: prod.splits)
  qed
  show "sw_inv l ck \<Longrightarrow> sw_inv (sw_Reset l key) ck" for l ck key
    by (simp add: sw_inv_def sw_Reset_def)
  show "sw_total (sw_Reset l key) = sw_total l" for l key by (simp add: sw_Reset_def)
  show "sw_inv l ck \<Longrightarrow> stats_balanced (sw_total l)" for l ck by (simp add: sw_inv_def)
qed (fact sw_AllowN_inv)

subsection \<open>No window ever holds more than the limit\<close>

text \<open>
  The life of one key \<open>k\<close>: \<open>hist\<close> collects the instants at which its requests were admitted.
  Calls for any key, cleanups, \<open>Stats\<close> and \<open>Close\<close> interleave freely; \<open>Reset\<close> and
  \<open>SetRuleForKey\<close> are applied to other keys (for \<open>k\<close> they start a new life).
\<close>

definition decision_time :: "SlidingWindowRateLimiter \<Rightarrow> string \<Rightarrow> time" where
  "decision_time rl key =
     (case map_of (windows rl) key of Some w \<Rightarrow> LastSeen (sw_stats w) | None \<Rightarrow> 0)"

inductive sw_trace :: "string \<Rightarrow> SlidingWindowRateLimiter \<Rightarrow> clock \<Rightarrow> time list \<Rightarrow> bool" for k where
  start: "mono ck \<Longrightarrow> windows rl = [] \<Longrightarrow> sw_trace k rl ck []"
| allow: "sw_trace k rl ck hist \<Longrightarrow> 0 \<le> n \<Longrightarrow> sw_AllowN rl ck key n = (rl', ck', ok) \<Longrightarrow>
    sw_trace k rl' ck'
      (hist @ (if key = k \<and> ok then replicate (nat n) (decision_time rl' k) else []))"
| cleanup: "sw_trace k rl ck hist \<Longrightarrow> sw_trace k (sw_cleanup rl (ck 0)) (\<lambda>i. ck (Suc i)) hist"
| reset_other: "sw_trace k rl ck hist \<Longrightarrow> key \<noteq> k \<Longrightarrow> sw_trace k (sw_Reset rl key) ck hist"
| rule_other: "sw_trace k rl ck hist \<Longrightarrow> key \<noteq> k \<Longrightarrow> sw_trace k (sw_SetRuleForKey key rule rl) ck hist"
| stats: "sw_trace k rl ck hist \<Longrightarrow> sw_trace k (snd (sw_Stats rl)) ck hist"
| close: "sw_trace k rl ck hist \<Longrightarrow> sw_trace k (sw_Close rl) ck hist"

definition in_window :: "time \<Rightarrow> duration \<Rightarrow> time list \<Rightarrow> time list" where
  "in_window t window hist = filter (\<lambda>x. t - window < x \<and> x \<le> t) hist"

definition trace_inv :: "duration \<Rightarrow> int \<Rightarrow> slidingWindow option \<Rightarrow> time \<Rightarrow> time list \<Rightarrow> bool" where
  "trace_inv W M entry t0 hist \<longleftrightarrow>
     (case entry of
        None \<Rightarrow> list_all (\<lambda>x. x \<le> t0 - W) hist
      | Some w \<Rightarrow> requests w = filter (\<lambda>x. LastSeen (sw_stats w) - W < x) hist \<and>
          list_all (\<lambda>x. x \<le> LastSeen (sw_stats w)) hist \<and> LastSeen (sw_stats w) \<le> t0) \<and>
     (\<forall>t. int (length (in_window t W hist)) \<le> M)"

lemma trace_inv_later:
  "trace_inv W M entry t0 hist \<Longrightarrow> t0 \<le> t1 \<Longrightarrow> trace_inv W M entry t1 hist"
  by (auto simp: trace_inv_def list_all_iff split: option.splits intro: order_trans)

text \<open>A window that is created for a key without one starts with nothing that counts.\<close>

lemma trace_inv_fresh:
  assumes "trace_inv W M None t0 hist" and "requests w = []" and "LastSeen (sw_stats w) = t0" and "0 < W"
  shows "trace_inv W M (Some w) t0 hist"
proof -
  have h: "\<forall>x \<in> set hist. x \<le> t0 - W" using assms(1) by (simp add: trace_inv_def list_all_iff)
  then have "filter (\<lambda>x. t0 - W < x) hist = []" by (auto simp: filter_empty_conv)
  with h assms show ?thesis by (fastforce simp: trace_inv_def list_all_iff)
qed

text \<open>A window that the cleanup drops holds nothing that still counts.\<close>

lemma trace_inv_dropped:
  assumes "trace_inv W M (Some w) t0 hist" and "LastSeen (sw_stats w) < now - interval" and "W \<le> interval"
  shows "trace_inv W M None now hist"
  using assms by (fastforce simp: trace_inv_def list_all_iff)

lemma filter_filter_later:
  "(a :: time) \<le> b \<Longrightarrow> filter (\<lambda>x. b < x) (filter (\<lambda>x. a < x) xs) = filter (\<lambda>x. b < x) xs"
  by (induction xs) auto

lemma in_window_append: "in_window t W (xs @ ys) = in_window t W xs @ in_window t W ys"
  by (simp add: in_window_def)

lemma in_window_replicate_later: "t < now \<Longrightarrow> in_window t W (replicate k now) = []"
  by (simp add: in_window_def filter_empty_conv)

lemma in_window_length:
  "now \<le> t \<Longrightarrow> length (in_window t W xs) \<le> length (filter (\<lambda>x. now - W < x) xs)"
  by (induction xs) (auto simp: in_window_def)

lemma trace_inv_allow:
  assumes "trace_inv W M (Some w) now hist" and "0 < W" and "0 \<le> n"
    and "slidingWindow_allowN w n W M now = (w', ok)"
  shows "trace_inv W M (Some w') now (hist @ (if ok then replicate (nat n) now else []))"
    (is "trace_inv W M _ now (hist @ ?new)")
proof -
  note a = window_allowN_simps[OF assms(4)]
  have old: "filter (\<lambda>x. now - W < x) (requests w) = filter (\<lambda>x. now - W < x) hist"
    using assms(1) filter_filter_later by (simp add: trace_inv_def)
  have le: "list_all (\<lambda>x. x \<le> now) (hist @ ?new)"
    using assms(1) by (fastforce simp: trace_inv_def list_all_iff)
  have new: "requests w' = filter (\<lambda>x. now - W < x) (hist @ ?new)"
    using a(3) assms(2) by (simp add: old filter_replicate)
  have "int (length (in_window t W (hist @ ?new))) \<le> M" for t
  proof (cases "ok \<and> now \<le> t")
    case True
    have "int (length (in_window t W (hist @ ?new))) \<le> int (length (requests w'))"
      unfolding new using True in_window_length[of now t W "hist @ ?new"] by simp
    also have "\<dots> \<le> M" using True a(3,4) assms(3) by (simp add: old)
    finally show ?thesis .
  next
    case False
    then have "in_window t W ?new = []"
      by (auto simp: in_window_replicate_later not_le) (simp_all add: in_window_def)
    then show ?thesis using assms(1) by (simp add: in_window_append trace_inv_def)
  qed
  with new le show ?thesis by (simp add: trace_inv_def a(1))
qed

lemma sw_config_simps [simp]:
  "getWindowSize (sw_cleanup rl t) k = getWindowSize rl k"
  "getMaxRequests (sw_cleanup rl t) k = getMaxRequests rl k"
  "getWindowSize (sw_Reset rl key) k = getWindowSize rl k"
  "getMaxRequests (sw_Reset rl key) k = getMaxRequests rl k"
  "getWindowSize (snd (sw_Stats rl)) k = getWindowSize rl k"
  "getMaxRequests (snd (sw_Stats rl)) k = getMaxRequests rl k"
  "getWindowSize (sw_Close rl) k = getWindowSize rl k"
  "getMaxRequests (sw_Close rl) k = getMaxRequests rl k"
  "key \<noteq> k \<Longrightarrow> getWindowSize (sw_SetRuleForKey key rule rl) k = getWindowSize rl k"
  "key \<noteq> k \<Longrightarrow> getMaxRequests (sw_SetRuleForKey key rule rl) k = getMaxRequests rl k"
  by (simp_all add: getWindowSize_def getMaxRequests_def sw_cleanup_def sw_Reset_def sw_Stats_def
      sw_Close_def sw_SetRuleForKey_def Let_def split: option.split)

lemma sw_interval_simps [simp]:
  "sw_cleanupInterval (sw_cleanup rl t) = sw_cleanupInterval rl"
  "sw_cleanupInterval (sw_Reset rl key) = sw_cleanupInterval rl"
  "sw_cleanupInterval (snd (sw_Stats rl)) = sw_cleanupInterval rl"
  "sw_cleanupInterval (sw_Close rl) = sw_cleanupInterval rl"
  "sw_cleanupInterval (sw_SetRuleForKey key rule rl) = sw_cleanupInterval rl"
  "windows (sw_Reset rl key) = AList.delete key (windows rl)"
  "windows (snd (sw_Stats rl)) = windows rl"
  "windows (sw_Close rl) = windows rl"
  "windows (sw_SetRuleForKey key rule rl) = windows rl"
  by (simp_all add: sw_cleanup_def sw_Reset_def sw_Stats_def sw_Close_def sw_SetRuleForKey_def Let_def)

lemma sw_trace_inv:
  assumes "sw_trace k rl ck hist" and "0 < getWindowSize rl k"
    and "getWindowSize rl k \<le> sw_cleanupInterval rl" and "0 \<le> getMaxRequests rl k"
  shows "mono ck \<and> map_ok (windows rl) \<and>
     trace_inv (getWindowSize rl k) (getMaxRequests rl k) (map_of (windows rl) k) (ck 0) hist"
  using assms
proof (induction rule: sw_trace.induct)
  case (start ck rl)
  then show ?case by (simp add: trace_inv_def in_window_def)
next
  case (allow rl ck hist n key rl' ck' ok)
  let ?W = "getWindowSize rl k" and ?M = "getMaxRequests rl k"
  have mono: "mono ck"
    using allow.hyps(1) by (induction rule: sw_trace.induct) (auto simp: mono_tick elim: sw_AllowN_cases)
  from sw_AllowN_cases[OF allow.hyps(3) mono] obtain w w' now where
    w: "map_of (windows rl) key = Some w \<and> now = ck 0 \<or>
     map_of (windows rl) key = None \<and> requests w = [] \<and> key_balanced (sw_stats w) \<and>
       LastSeen (sw_stats w) = ck 0"
    and a: "slidingWindow_allowN w n (getWindowSize rl key) (getMaxRequests rl key) now = (w', ok)"
    and rl': "rl' = rl\<lparr>windows := AList.update key w' (windows rl),
              sw_total := count_request ok n (sw_total rl)\<rparr>"
    and t: "ck 0 \<le> now" "now \<le> ck' 0" "mono ck'" by blast
  have IH: "map_ok (windows rl)" "trace_inv ?W ?M (map_of (windows rl) k) (ck 0) hist"
    using allow.IH allow.prems by (simp_all add: rl')
  show ?case
  proof (cases "key = k")
    case True
    have "trace_inv ?W ?M (Some w) (ck 0) hist"
      using w IH(2) allow.prems(1) by (auto simp: True rl' intro: trace_inv_fresh)
    then have "trace_inv ?W ?M (Some w) now hist" using t(1) by (rule trace_inv_later)
    from trace_inv_allow[OF this _ allow.hyps(2) a[unfolded True]] allow.prems(1)
    have "trace_inv ?W ?M (Some w') now (hist @ (if ok then replicate (nat n) now else []))"
      by (simp add: rl')
    moreover have "decision_time rl' k = now"
      using window_allowN_simps(1)[OF a] by (simp add: decision_time_def rl' True)
    ultimately show ?thesis using t IH(1) True by (auto simp: rl' elim: trace_inv_later)
  next
    case False
    then show ?thesis using t IH by (auto simp: rl' elim: trace_inv_later)
  qed
next
  case (cleanup rl ck hist)
  let ?keep = "\<lambda>(k, w). \<not> LastSeen (sw_stats w) < ck 0 - sw_cleanupInterval rl"
  have IH: "mono ck" "map_ok (windows rl)"
    "trace_inv (getWindowSize rl k) (getMaxRequests rl k) (map_of (windows rl) k) (ck 0) hist"
    using cleanup by simp_all
  have win: "windows (sw_cleanup rl (ck 0)) = filter ?keep (windows rl)"
    by (simp add: sw_cleanup_def Let_def)
  have "trace_inv (getWindowSize rl k) (getMaxRequests rl k)
      (map_of (filter ?keep (windows rl)) k) (ck 0) hist"
    using IH cleanup.prems(2)
    by (auto simp: map_of_filter split: option.splits intro: trace_inv_dropped)
  moreover have "ck 0 \<le> ck (Suc 0)" using IH(1) by (simp add: monoD)
  ultimately show ?case using IH by (simp add: win mono_tick trace_inv_later)
qed simp_all

section \<open>Properties\<close>


definition demo_clock :: clock where
  "demo_clock i = int i * second"

lemma mono_demo_clock: "mono demo_clock"
  by (simp add: mono_def demo_clock_def)


text \<open>
  C6. Throughput of a token bucket, float rounding included: in any sequence of calls with
  non-negative sizes on a non-decreasing clock, the tokens granted are at most the tokens at
  the start plus the rate times the elapsed time, up to a relative error of \<open>2 ^ -53\<close> in each
  of the three roundings of a refill and half a unit in the last place of the burst per call.
\<close>

theorem token_bucket_throughput:
  assumes "bucket_ok b" and "calls_from (lastFill b) cs"
    and "last (lastFill b # map snd cs) - lastFill b < 2 ^ 63"
    and "1 \<le> tb_burst b" and "tb_burst b < 2 ^ 53"
  shows "of_int (snd (bucket_run b cs)) \<le> tokens b
     + of_int (last (lastFill b # map snd cs) - lastFill b) / 1000000000 * tb_rate b * (1 + fl_eps) ^ 3
     + of_nat (length cs) * (of_int (tb_burst b) * fl_eps)"
  using assms by (rule bucket_run_bound)

definition demo_bucket :: tokenBucket where
  "demo_bucket = \<lparr>tokens = 2, lastFill = 0, tb_rate = 1, tb_burst = 2,
     tb_stats = \<lparr>Requests = 0, Allowed = 0, Rejected = 0, LastSeen = 0\<rparr>\<rparr>"

lemma demo_bucket_ok: "bucket_ok demo_bucket" by code_simp

theorem token_bucket_throughput_witness:
  "bucket_ok demo_bucket \<and> calls_from 0 [(2, 0), (1, 0), (1, second)] \<and>
   snd (bucket_run demo_bucket [(2, 0), (1, 0), (1, second)]) = 3 \<and>
   (3 :: rat) \<le> 2 + 1 * (1 + fl_eps) ^ 3 + 3 * (2 * fl_eps)"
proof -
  let ?cs = "[(2, 0), (1, 0), (1, second)]"
  have c: "calls_from 0 ?cs" by code_simp
  have r: "snd (bucket_run demo_bucket ?cs) = 3" by code_simp
  have h: "calls_from (lastFill demo_bucket) ?cs"
    "last (lastFill demo_bucket # map snd ?cs) - lastFill demo_bucket < 2 ^ 63"
    "1 \<le> tb_burst demo_bucket" "tb_burst demo_bucket < 2 ^ 53"
    using c by (simp_all add: demo_bucket_def)
  from token_bucket_throughput[OF demo_bucket_ok h]
  have "(3 :: rat) \<le> 2 + 1 * (1 + fl_eps) ^ 3 + 3 * (2 * fl_eps)"
    unfolding r by (simp add: demo_bucket_def)
  with c r demo_bucket_ok show ?thesis by blast
qed



text \<open>
  Without that proviso the limit fails: a window of an hour with a maximum of one request
  admits two requests twelve minutes apart, because the cleanup drops a window that was not
  used for ten minutes although its request still counts.
\<close>

theorem cleanup_forgets_live_window:
  "let rl0 = NewSlidingWindowRateLimiter hour 1;
       (rl1, _, ok1) = sw_AllowN rl0 (\<lambda>_. 0) ''k'' 1;
       (_, _, ok2) = sw_AllowN rl1 (\<lambda>_. 12 * minute) ''k'' 1;
       rl2 = sw_cleanup rl1 (11 * minute);
       (_, _, ok3) = sw_AllowN rl2 (\<lambda>_. 12 * minute) ''k'' 1
   in ok1 \<and> \<not> ok2 \<and> ok3"
  by code_simp

text \<open>
  A rule with a positive rate and no window size, which \<open>getWindowSize\<close> takes to mean the
  default window, makes \<open>getMaxRequests\<close> zero, so that every request of its key is refused,
  whatever the limiter's state and the time.
\<close>

theorem rule_without_window_blocks_key:
  assumes "map_of (sw_rules rl) key = Some rule" and "WindowSize rule = 0"
    and "0 < RequestsPerSecond rule" and "0 < n"
  shows "getWindowSize rl key = windowSize rl \<and> getMaxRequests rl key = 0 \<and>
     \<not> snd (snd (sw_AllowN rl ck key n))"
proof -
  have z: "Duration_Seconds 0 = 0" by code_simp
  have c: "getWindowSize rl key = windowSize rl" "getMaxRequests rl key = 0"
    using assms by (simp_all add: getWindowSize_def getMaxRequests_def z fl64.fl_zero
        int64_of_float_def trunc_def)
  have "\<not> snd (slidingWindow_allowN w n W 0 now)" for w W now
    using assms(4) by (simp add: slidingWindow_allowN_def Let_def)
  with c show ?thesis
    by (auto simp: sw_AllowN_def getWindow_def Let_def time_Now_def split: option.splits prod.splits)
      (metis snd_conv)+
qed

theorem rule_without_window_blocks_key_witness:
  "let rl = sw_SetRuleForKey ''k'' \<lparr>RequestsPerSecond = 5, BurstSize = 5, WindowSize = 0,
              Priority = 0, Methods = []\<rparr> (NewSlidingWindowRateLimiter minute 100)
   in getMaxRequests rl ''k'' = 0 \<and> \<not> snd (snd (sw_AllowN rl demo_clock ''k'' 1))"
  using rule_without_window_blocks_key[where rl = "sw_SetRuleForKey ''k'' \<lparr>RequestsPerSecond = 5,
      BurstSize = 5, WindowSize = 0, Priority = 0, Methods = []\<rparr> (NewSlidingWindowRateLimiter minute 100)"
      and key = "''k''" and n = 1]
  by (simp add: sw_SetRuleForKey_def NewSlidingWindowRateLimiter_def Let_def)



text \<open>
  Both limiters honour the \<open>RateLimiter\<close> contract for any sequence of calls: the
  statistics' allowed and rejected counts grow by exactly what was granted and refused, and the
  total is their sum, as 64-bit counters.
\<close>

theorem limiter_accounting:
  assumes "list_all (\<lambda>r. 0 \<le> snd r) rs"
  shows "(tb_inv bl ck \<longrightarrow> run_allow tb_AllowN bl ck rs = (bl', ck', oks) \<longrightarrow>
      TotalRequests (tb_total bl') = AllowedRequests (tb_total bl') + RejectedRequests (tb_total bl') \<and>
      AllowedRequests (tb_total bl') = AllowedRequests (tb_total bl) + of_int (granted rs oks) \<and>
      RejectedRequests (tb_total bl') = RejectedRequests (tb_total bl) + of_int (refused rs oks)) \<and>
    (sw_inv sl ck \<longrightarrow> run_allow sw_AllowN sl ck rs = (sl', ck'', oks') \<longrightarrow>
      TotalRequests (sw_total sl') = AllowedRequests (sw_total sl') + RejectedRequests (sw_total sl') \<and>
      AllowedRequests (sw_total sl') = AllowedRequests (sw_total sl) + of_int (granted rs oks') \<and>
      RejectedRequests (sw_total sl') = RejectedRequests (sw_total sl) + of_int (refused rs oks'))"
  using tb.run_accounts[OF _ assms] sw.run_accounts[OF _ assms] by blast

theorem limiter_accounting_witness:
  "\<exists>sl' ck. run_allow sw_AllowN (NewSlidingWindowRateLimiter minute 1) demo_clock
       [(''k'', 1), (''k'', 1)] = (sl', ck, [True, False]) \<and>
     TotalRequests (sw_total sl') = AllowedRequests (sw_total sl') + RejectedRequests (sw_total sl')"
proof -
  let ?l = "NewSlidingWindowRateLimiter minute 1" and ?rs = "[(''k'', 1 :: int), (''k'', 1)]"
  obtain sl' ck oks where r: "run_allow sw_AllowN ?l demo_clock ?rs = (sl', ck, oks)"
    by (metis prod_cases3)
  have "snd (snd (run_allow sw_AllowN ?l demo_clock ?rs)) = [True, False]" by code_simp
  then have oks: "oks = [True, False]" by (simp only: r snd_conv)
  have inv: "sw_inv ?l demo_clock"
    by (simp add: sw_inv_def NewSlidingWindowRateLimiter_def Let_def mono_demo_clock
        stats_balanced_def empty_stats_def)
  have nn: "list_all (\<lambda>r. 0 \<le> snd r) ?rs" by simp
  have "TotalRequests (sw_total sl') = AllowedRequests (sw_total sl') + RejectedRequests (sw_total sl')"
    using conjunct2[OF limiter_accounting[OF nn]] inv r by blast
  with r oks show ?thesis by blast
qed

text \<open>
  A composite limiter with the strategy \<open>all\<close> is not atomic: the second call to a
  composite of limits five and one is refused, but the first limiter has counted it as
  admitted and keeps its slot; the combined statistics report three admissions and one
  rejection for two calls.
\<close>

theorem composite_all_consumes_on_refusal:
  "let l0 = NewCompositeRateLimiter ''all'' [SlidingWindow (NewSlidingWindowRateLimiter minute 5),
         SlidingWindow (NewSlidingWindowRateLimiter minute 1)];
       (l1, _, ok1) = AllowN l0 (\<lambda>_. 0) ''k'' 1;
       (l2, _, ok2) = AllowN l1 (\<lambda>_. 0) ''k'' 1
   in ok1 \<and> \<not> ok2 \<and> AllowedRequests (Stats l2) = 3 \<and> RejectedRequests (Stats l2) = 1"
  by code_simp

end
