(* ===== verification/ConnPool.thy ===== *)
theory ConnPool
  imports Errors
begin

text \<open>
  Model of \<open>connection_pool.go\<close>: the pool of reusable connections, the wrapper a client holds,
  the cleanup routine and the graceful shutdown.

  Connections and wrappers are Go pointers shared between the pool and its clients, so they
  live in a heap: \<open>heap a\<close> is the \<open>PooledConnection\<close> at address \<open>a\<close>, \<open>wrappers\<close> lists the
  wrappers handed out. \<open>closed_conns\<close> records the addresses whose underlying connection was
  closed, in order. Every operation runs under the pool's mutex, so an execution is a
  sequence of operations (\<open>pool_op\<close>), in any order the clients and the cleanup ticker choose.
  The transport's \<open>Dial\<close> and the connections' \<open>Ping\<close> and \<open>Close\<close> are inputs of the
  operations that call them.
\<close>

section \<open>Data\<close>

record ConnectionPoolConfig =
  MaxConnections :: int
  MaxIdleTime :: duration
  MaxConnectionAge :: duration
  ConnectionTimeout :: duration
  HealthCheckTimeout :: duration
  CleanupInterval :: duration
  EnableHealthChecks :: bool

definition DefaultConnectionPoolConfig :: ConnectionPoolConfig where
  "DefaultConnectionPoolConfig = \<lparr>MaxConnections = 10, MaxIdleTime = 5 * minute,
     MaxConnectionAge = hour, ConnectionTimeout = 30 * second, HealthCheckTimeout = 5 * second,
     CleanupInterval = minute, EnableHealthChecks = True\<rparr>"

record PooledConnection =
  raw_conn :: "nat option"          \<comment> \<open>the connection of the transport, \<open>None\<close> for nil\<close>
  lastUsed :: time
  inUse :: bool
  healthy :: bool
  createdAt :: time

record pooledConnectionWrapper =
  w_conn :: nat
  w_closed :: bool

record ConnectionPool =
  pool_config :: ConnectionPoolConfig
  connections :: "nat list"
  activeCount :: int
  cleanupTicker :: bool              \<comment> \<open>the ticker exists\<close>
  done_closes :: nat                 \<comment> \<open>how often \<open>cleanupDone\<close> was closed\<close>
  pool_closed :: bool
  heap :: "nat \<Rightarrow> PooledConnection"
  next_addr :: nat
  wrappers :: "pooledConnectionWrapper list"
  closed_conns :: "nat list"

record ConnectionPoolStats =
  TotalConnections :: int
  ActiveConnections :: int
  IdleConnections :: int
  HealthyConnections :: int
  StatsMaxConnections :: int

definition no_conn :: PooledConnection where
  "no_conn = \<lparr>raw_conn = None, lastUsed = 0, inUse = False, healthy = False, createdAt = 0\<rparr>"

definition NewConnectionPool :: "ConnectionPoolConfig option \<Rightarrow> ConnectionPool" where
  "NewConnectionPool config =
     (let cfg = (case config of None \<Rightarrow> DefaultConnectionPoolConfig | Some c \<Rightarrow> c)
      in \<lparr>pool_config = cfg, connections = [], activeCount = 0,
          cleanupTicker = 0 < CleanupInterval cfg, done_closes = 0, pool_closed = False,
          heap = (\<lambda>_. no_conn), next_addr = 0, wrappers = [], closed_conns = []\<rparr>)"

section \<open>Operations\<close>

definition set_conn :: "nat \<Rightarrow> (PooledConnection \<Rightarrow> PooledConnection) \<Rightarrow> ConnectionPool \<Rightarrow> ConnectionPool" where
  "set_conn a f p = p\<lparr>heap := (heap p)(a := f (heap p a))\<rparr>"

text \<open>\<open>ping\<close> is \<open>None\<close> for a connection that does not implement \<open>ConnectionPinger\<close>. The readings
  of \<open>time.Since\<close> in the log arguments are consumed too.\<close>

definition isConnectionHealthy ::
  "ConnectionPoolConfig \<Rightarrow> (nat \<Rightarrow> bool option) \<Rightarrow> PooledConnection \<Rightarrow> clock \<Rightarrow> bool \<times> clock" where
  "isConnectionHealthy cfg ping c ck =
     (case raw_conn c of
        None \<Rightarrow> (False, ck)
      | Some raw \<Rightarrow>
          let (t, ck) = time_Now ck
          in if MaxIdleTime cfg < time_Sub t (lastUsed c) then (False, snd (time_Now ck))
             else let (t, ck) = time_Now ck
                  in if MaxConnectionAge cfg < time_Sub t (createdAt c) then (False, snd (time_Now ck))
                     else (case ping raw of Some ok \<Rightarrow> ok | None \<Rightarrow> True, ck))"

text \<open>The search of \<open>Get\<close> for an idle healthy connection.\<close>

fun get_idle ::
  "(nat \<Rightarrow> bool option) \<Rightarrow> ConnectionPool \<Rightarrow> clock \<Rightarrow> nat list \<Rightarrow> ConnectionPool \<times> clock \<times> nat option" where
  "get_idle ping p ck [] = (p, ck, None)"
| "get_idle ping p ck (a # as) =
     (if \<not> inUse (heap p a) \<and> healthy (heap p a)
      then let (ok, ck') =
                 (if EnableHealthChecks (pool_config p)
                  then isConnectionHealthy (pool_config p) ping (heap p a) ck else (True, ck))
           in if \<not> ok then get_idle ping (set_conn a (\<lambda>c. c\<lparr>healthy := False\<rparr>) p) ck' as
              else let (now, ck') = time_Now ck'
                   in ((set_conn a (\<lambda>c. c\<lparr>inUse := True, lastUsed := now\<rparr>) p)
                         \<lparr>activeCount := activeCount p + 1\<rparr>, ck', Some a)
      else get_idle ping p ck as)"

definition hand_out :: "nat \<Rightarrow> ConnectionPool \<Rightarrow> ConnectionPool \<times> nat" where
  "hand_out a p = (p\<lparr>wrappers := wrappers p @ [\<lparr>w_conn = a, w_closed = False\<rparr>]\<rparr>, length (wrappers p))"

definition Get ::
  "(nat \<Rightarrow> bool option) \<Rightarrow> mcp_error + nat \<Rightarrow> clock \<Rightarrow> ConnectionPool \<Rightarrow> ConnectionPool \<times> (mcp_error + nat)" where
  "Get ping dial ck p =
     (if pool_closed p then (p, Inl (Sentinel ErrTransportClosed))
      else case get_idle ping p ck (connections p) of
        (p, ck, Some a) \<Rightarrow> (case hand_out a p of (p, w) \<Rightarrow> (p, Inr w))
      | (p, ck, None) \<Rightarrow>
          if int (length (connections p)) < MaxConnections (pool_config p)
          then case dial of
                 Inl err \<Rightarrow> (p, Inl (WrapErr ''failed to create new connection'' err))
               | Inr raw \<Rightarrow>
                   let now = fst (time_Now ck);
                       a = next_addr p;
                       p = p\<lparr>heap := (heap p)(a := \<lparr>raw_conn = Some raw, lastUsed = now,
                               inUse = True, healthy = True, createdAt = now\<rparr>),
                             next_addr := a + 1, connections := connections p @ [a],
                             activeCount := activeCount p + 1\<rparr>
                   in (case hand_out a p of (p, w) \<Rightarrow> (p, Inr w))
          else (p, Inl (PlainErr (''connection pool exhausted (max: '' @
                 show_int (MaxConnections (pool_config p)) @ '')''))))"

definition Return :: "nat \<Rightarrow> time \<Rightarrow> ConnectionPool \<Rightarrow> ConnectionPool" where
  "Return a now p =
     (if inUse (heap p a)
      then (set_conn a (\<lambda>c. c\<lparr>inUse := False, lastUsed := now\<rparr>) p)\<lparr>activeCount := activeCount p - 1\<rparr>
      else p)"

text \<open>\<open>close_err\<close> is what the \<open>Close\<close> of each underlying connection returns; the collected
  errors are the result, empty for nil.\<close>

definition pool_Close :: "(nat \<Rightarrow> mcp_error option) \<Rightarrow> ConnectionPool \<Rightarrow> ConnectionPool \<times> mcp_error list" where
  "pool_Close close_err p =
     (if pool_closed p then (p, [])
      else let p = p\<lparr>pool_closed := True\<rparr>;
               p = (if cleanupTicker p then p\<lparr>done_closes := done_closes p + 1\<rparr> else p);
               errs = List.map_filter close_err (connections p);
               p = p\<lparr>closed_conns := closed_conns p @ connections p, connections := [], activeCount := 0\<rparr>
           in (p, errs))"

definition pool_Stats :: "ConnectionPool \<Rightarrow> ConnectionPoolStats" where
  "pool_Stats p = \<lparr>TotalConnections = int (length (connections p)), ActiveConnections = activeCount p,
     IdleConnections = int (length (filter (\<lambda>a. \<not> inUse (heap p a)) (connections p))),
     HealthyConnections = int (length (filter (\<lambda>a. healthy (heap p a)) (connections p))),
     StatsMaxConnections = MaxConnections (pool_config p)\<rparr>"

definition should_remove :: "duration \<Rightarrow> time \<Rightarrow> PooledConnection \<Rightarrow> bool" where
  "should_remove maxIdle now c \<longleftrightarrow>
     \<not> healthy c \<or> (\<not> inUse c \<and> maxIdle < time_Sub now (lastUsed c))"

definition pool_cleanup :: "time \<Rightarrow> ConnectionPool \<Rightarrow> ConnectionPool" where
  "pool_cleanup now p =
     (if pool_closed p then p
      else let drops = (\<lambda>a. should_remove (MaxIdleTime (pool_config p)) now (heap p a) \<and>
                              \<not> inUse (heap p a))
           in p\<lparr>closed_conns := closed_conns p @ filter drops (connections p),
                connections := filter (\<lambda>a. \<not> drops a) (connections p)\<rparr>)"

text \<open>The wrapper. \<open>io\<close> is what the underlying connection answers; \<open>None\<close> in the result of
  \<open>Read\<close> or \<open>Write\<close> stands for a successful call.\<close>

definition wrapper_Read :: "nat \<Rightarrow> mcp_error option \<Rightarrow> ConnectionPool \<Rightarrow> mcp_error option" where
  "wrapper_Read w io p = (if w_closed (wrappers p ! w) then Some (Sentinel ErrTransportClosed) else io)"

definition wrapper_Write :: "nat \<Rightarrow> mcp_error option \<Rightarrow> ConnectionPool \<Rightarrow> ConnectionPool \<times> mcp_error option" where
  "wrapper_Write w io p =
     (if w_closed (wrappers p ! w) then (p, Some (Sentinel ErrTransportClosed))
      else (if io \<noteq> None then set_conn (w_conn (wrappers p ! w)) (\<lambda>c. c\<lparr>healthy := False\<rparr>) p else p, io))"

definition wrapper_Close :: "nat \<Rightarrow> time \<Rightarrow> ConnectionPool \<Rightarrow> ConnectionPool" where
  "wrapper_Close w now p =
     (if w_closed (wrappers p ! w) then p
      else Return (w_conn (wrappers p ! w)) now
             (p\<lparr>wrappers := (wrappers p)[w := (wrappers p ! w)\<lparr>w_closed := True\<rparr>]\<rparr>))"

section \<open>Executions\<close>

datatype pool_op =
    OpGet "nat \<Rightarrow> bool option" "mcp_error + nat" clock
  | OpWrite nat "mcp_error option"
  | OpCloseWrapper nat time
  | OpCleanup time
  | OpClose "nat \<Rightarrow> mcp_error option"

text \<open>Clients act on wrappers that were handed out; other indices denote nothing.\<close>

fun exec :: "pool_op \<Rightarrow> ConnectionPool \<Rightarrow> ConnectionPool" where
  "exec (OpGet ping dial ck) p = fst (Get ping dial ck p)"
| "exec (OpWrite w io) p = (if w < length (wrappers p) then fst (wrapper_Write w io p) else p)"
| "exec (OpCloseWrapper w now) p = (if w < length (wrappers p) then wrapper_Close w now p else p)"
| "exec (OpCleanup now) p = pool_cleanup now p"
| "exec (OpClose close_err) p = fst (pool_Close close_err p)"

definition execs :: "pool_op list \<Rightarrow> ConnectionPool \<Rightarrow> ConnectionPool" where
  "execs ops p = fold exec ops p"

text \<open>
  \<open>GracefulShutdown\<close>: before each tick, and before the deadline, other goroutines perform some
  operations. \<open>None\<close> is a shutdown that still waits.
\<close>

datatype shutdown_event = Tick "pool_op list" | Deadline "pool_op list"

fun GracefulShutdown ::
  "(nat \<Rightarrow> mcp_error option) \<Rightarrow> shutdown_event list \<Rightarrow> ConnectionPool \<Rightarrow> (ConnectionPool \<times> mcp_error list) option" where
  "GracefulShutdown ce [] p = None"
| "GracefulShutdown ce (Deadline ops # es) p = Some (pool_Close ce (execs ops p))"
| "GracefulShutdown ce (Tick ops # es) p =
     (let p = execs ops p
      in if pool_closed p then Some (p, [])
         else if activeCount p = 0 then Some (pool_Close ce p)
         else GracefulShutdown ce es p)"

text \<open>\<open>PooledTransport\<close> delegates to its pool.\<close>

definition PooledTransport_Dial ::
  "(nat \<Rightarrow> bool option) \<Rightarrow> mcp_error + nat \<Rightarrow> clock \<Rightarrow> ConnectionPool \<Rightarrow> ConnectionPool \<times> (mcp_error + nat)" where
  "PooledTransport_Dial ping dial ck t = Get ping dial ck t"

definition PooledTransport_Close ::
  "(nat \<Rightarrow> mcp_error option) \<Rightarrow> ConnectionPool \<Rightarrow> ConnectionPool \<times> mcp_error list" where
  "PooledTransport_Close ce t = pool_Close ce t"

definition PooledTransport_Stats :: "ConnectionPool \<Rightarrow> ConnectionPoolStats" where
  "PooledTransport_Stats t = pool_Stats t"

section \<open>Invariant\<close>

definition open_conns :: "ConnectionPool \<Rightarrow> nat list" where
  "open_conns p = map w_conn (filter (\<lambda>w. \<not> w_closed w) (wrappers p))"

text \<open>
  The invariant over the parts it depends on: the pooled addresses \<open>C\<close>, the closed ones \<open>D\<close>,
  those behind an open wrapper \<open>O\<close>, the allocation counter, the limit, whether the ticker
  exists and the pool is closed, how often \<open>cleanupDone\<close> was closed, the active count and the
  in-use flags.
\<close>

definition inv_of ::
  "nat list \<Rightarrow> nat list \<Rightarrow> nat list \<Rightarrow> nat \<Rightarrow> int \<Rightarrow> bool \<Rightarrow> bool \<Rightarrow> nat \<Rightarrow> int \<Rightarrow> (nat \<Rightarrow> bool) \<Rightarrow> bool" where
  "inv_of C D O' nxt limit ticker closed dones active used \<longleftrightarrow>
     distinct (C @ D) \<and> distinct O' \<and> (\<forall>a \<in> set (C @ D @ O'). a < nxt) \<and>
     int (length C) \<le> max 0 limit \<and> dones = (if closed \<and> ticker then 1 else 0) \<and>
     (if closed then C = [] \<and> active \<le> 0 \<and> (\<forall>a \<in> set O'. used a)
      else set O' = {a \<in> set C. used a} \<and> active = int (length O'))"

definition pool_inv :: "ConnectionPool \<Rightarrow> bool" where
  "pool_inv p \<longleftrightarrow> inv_of (connections p) (closed_conns p) (open_conns p) (next_addr p)
     (MaxConnections (pool_config p)) (cleanupTicker p) (pool_closed p) (done_closes p) (activeCount p)
     (\<lambda>a. inUse (heap p a))"

lemma inv_take:
  "inv_of C D O' n m t False d act u \<Longrightarrow> a \<in> set C \<Longrightarrow> \<not> u a \<Longrightarrow>
   inv_of C D (O' @ [a]) n m t False d (act + 1) (\<lambda>x. x = a \<or> u x)"
  by (auto simp: inv_of_def)

lemma inv_add:
  "inv_of C D O' n m t False d act u \<Longrightarrow> int (length C) < m \<Longrightarrow>
   inv_of (C @ [n]) D (O' @ [n]) (Suc n) m t False d (act + 1) (\<lambda>x. x = n \<or> u x)"
  by (auto simp: inv_of_def less_Suc_eq)

lemma inv_release:
  assumes "inv_of C D O' n m t closed d act u" and "a \<in> set O'"
  shows "inv_of C D (remove1 a O') n m t closed d (act - 1) (\<lambda>x. x \<noteq> a \<and> u x)"
proof -
  have "length O' = Suc (length (remove1 a O'))"
    using assms(2) by (simp add: length_remove1) (metis Suc_pred length_pos_if_in_set)
  with assms show ?thesis by (auto simp: inv_of_def set_remove1_eq)
qed

lemma inv_drop:
  assumes "inv_of C D O' n m t False d act u" and "\<forall>a. drops a \<longrightarrow> \<not> u a"
  shows "inv_of (filter (\<lambda>a. \<not> drops a) C) (D @ filter drops C) O' n m t False d act u"
proof -
  have "int (length (filter (\<lambda>a. \<not> drops a) C)) \<le> int (length C)" by simp
  then have "int (length (filter (\<lambda>a. \<not> drops a) C)) \<le> max 0 m"
    using assms(1) unfolding inv_of_def by linarith
  with assms show ?thesis by (auto simp: inv_of_def)
qed

lemma inv_close:
  "inv_of C D O' n m t False d act u \<Longrightarrow>
   inv_of [] (D @ C) O' n m t True (if t then Suc d else d) 0 u"
  by (auto simp: inv_of_def)

lemma pool_inv_new: "pool_inv (NewConnectionPool config)"
  by (simp add: pool_inv_def inv_of_def NewConnectionPool_def open_conns_def Let_def)

lemma set_conn_simps [simp]:
  "connections (set_conn a f p) = connections p" "wrappers (set_conn a f p) = wrappers p"
  "closed_conns (set_conn a f p) = closed_conns p" "next_addr (set_conn a f p) = next_addr p"
  "pool_closed (set_conn a f p) = pool_closed p" "pool_config (set_conn a f p) = pool_config p"
  "done_closes (set_conn a f p) = done_closes p" "cleanupTicker (set_conn a f p) = cleanupTicker p"
  "activeCount (set_conn a f p) = activeCount p" "open_conns (set_conn a f p) = open_conns p"
  "heap (set_conn a f p) = (heap p)(a := f (heap p a))"
  by (simp_all add: set_conn_def open_conns_def)

text \<open>The search changes the health flags of idle connections it passes and takes at most one.\<close>

lemma get_idle_spec:
  assumes "get_idle ping p ck as = (p', ck', r)"
  shows "connections p' = connections p \<and> wrappers p' = wrappers p \<and> closed_conns p' = closed_conns p \<and>
     next_addr p' = next_addr p \<and> pool_closed p' = pool_closed p \<and> pool_config p' = pool_config p \<and>
     done_closes p' = done_closes p \<and> cleanupTicker p' = cleanupTicker p \<and>
     (\<forall>x. healthy (heap p' x) \<longrightarrow> healthy (heap p x)) \<and>
     (case r of
        None \<Rightarrow> activeCount p' = activeCount p \<and> (\<forall>x. inUse (heap p' x) = inUse (heap p x))
      | Some a \<Rightarrow> a \<in> set as \<and> \<not> inUse (heap p a) \<and> healthy (heap p' a) \<and>
          activeCount p' = activeCount p + 1 \<and> (\<forall>x. inUse (heap p' x) = (x = a \<or> inUse (heap p x))))"
  using assms
proof (induction ping p ck as arbitrary: p' ck' r rule: get_idle.induct)
  case (2 ping p ck a as)
  show ?case
  proof (cases "\<not> inUse (heap p a) \<and> healthy (heap p a)")
    case True
    obtain ok ck1 where h: "(if EnableHealthChecks (pool_config p)
        then isConnectionHealthy (pool_config p) ping (heap p a) ck else (True, ck)) = (ok, ck1)"
      by fastforce
    show ?thesis
    proof (cases ok)
      case False
      let ?q = "set_conn a (\<lambda>c. c\<lparr>healthy := False\<rparr>) p"
      have "get_idle ping ?q ck1 as = (p', ck', r)" using "2.prems" True h False by simp
      from "2.IH"(1)[OF True h[symmetric] refl False this] show ?thesis
        by (auto split: option.splits if_splits)
    next
      case ok: True
      then show ?thesis
        using "2.prems" True h by (auto simp: time_Now_def set_conn_def split: if_splits)
    qed
  next
    case False
    then have "get_idle ping p ck as = (p', ck', r)" using "2.prems" by auto
    from "2.IH"(2)[OF False this] show ?thesis by (auto split: option.splits)
  qed
qed auto

lemma hand_out_simps [simp]:
  "hand_out a p = (p\<lparr>wrappers := wrappers p @ [\<lparr>w_conn = a, w_closed = False\<rparr>]\<rparr>, length (wrappers p))"
  "open_conns (p\<lparr>wrappers := wrappers p @ [\<lparr>w_conn = a, w_closed = False\<rparr>]\<rparr>) = open_conns p @ [a]"
  by (simp_all add: hand_out_def open_conns_def)

lemma open_conns_cong: "wrappers p = wrappers q \<Longrightarrow> open_conns p = open_conns q"
  by (simp add: open_conns_def)

text \<open>The three outcomes of \<open>Get\<close> on an open pool.\<close>

lemma Get_cases:
  assumes "Get ping dial ck p = (p', res)"
  obtains
    (closed) "pool_closed p" "p' = p" "res = Inl (Sentinel ErrTransportClosed)"
  | (reused) q ck1 a where "\<not> pool_closed p" "get_idle ping p ck (connections p) = (q, ck1, Some a)"
      "p' = q\<lparr>wrappers := wrappers q @ [\<lparr>w_conn = a, w_closed = False\<rparr>]\<rparr>" "res = Inr (length (wrappers p))"
  | (failed) q ck1 err where "\<not> pool_closed p" "get_idle ping p ck (connections p) = (q, ck1, None)"
      "p' = q" "res = Inl err"
  | (dialled) q ck1 raw a where "\<not> pool_closed p" "get_idle ping p ck (connections p) = (q, ck1, None)"
      "int (length (connections q)) < MaxConnections (pool_config q)" "a = next_addr q"
      "p' = q\<lparr>heap := (heap q)(a := \<lparr>raw_conn = Some raw, lastUsed = ck1 0, inUse = True, healthy = True,
              createdAt = ck1 0\<rparr>), next_addr := a + 1, connections := connections q @ [a],
              activeCount := activeCount q + 1, wrappers := wrappers q @ [\<lparr>w_conn = a, w_closed = False\<rparr>]\<rparr>"
      "res = Inr (length (wrappers p))"
proof -
  obtain q ck1 r where g: "get_idle ping p ck (connections p) = (q, ck1, r)" by (metis prod_cases3)
  note sp = get_idle_spec[OF g]
  show thesis
  proof (cases "pool_closed p")
    case True
    then have "(p, Inl (Sentinel ErrTransportClosed)) = (p', res)" using assms by (simp add: Get_def)
    with True show thesis by (intro closed) blast+
  next
    case False
    show thesis
    proof (cases r)
      case (Some a)
      have w: "wrappers q = wrappers p" using sp by simp
      have "Get ping dial ck p = (q\<lparr>wrappers := wrappers q @ [\<lparr>w_conn = a, w_closed = False\<rparr>]\<rparr>,
          Inr (length (wrappers p)))"
        using False g Some w by (simp add: Get_def)
      then show thesis using assms False g Some by (intro reused[of q ck1 a]) simp_all
    next
      case None
      show thesis
      proof (cases "int (length (connections q)) < MaxConnections (pool_config q) \<and> (\<exists>raw. dial = Inr raw)")
        case True
        then obtain raw where "dial = Inr raw" by blast
        moreover have "wrappers q = wrappers p" using sp by simp
        ultimately show thesis
          using True assms False g None
          by (intro dialled[of q ck1 "next_addr q" raw]) (auto simp: Get_def time_Now_def Let_def)
      next
        case stuck: False
        have "p' = q" "\<exists>err. res = Inl err"
          using stuck assms False g None by (auto simp: Get_def split: if_splits sum.splits)
        then show thesis using False g None failed by blast
      qed
    qed
  qed
qed

lemma Get_inv:
  assumes "pool_inv p" and "Get ping dial ck p = (p', res)"
  shows "pool_inv p'"
  using assms(2)
proof (cases rule: Get_cases)
  case closed
  then show ?thesis using assms(1) by simp
next
  case (reused q ck1 a)
  note sp = get_idle_spec[OF reused(2), simplified]
  have o: "open_conns q = open_conns p" using sp by (intro open_conns_cong) simp
  have u: "(\<lambda>x. inUse (heap q x)) = (\<lambda>x. x = a \<or> inUse (heap p x))" using sp by auto
  have p': "open_conns p' = open_conns p @ [a]" unfolding reused(3) by (simp add: o)
  show ?thesis
    using inv_take[of "connections p" _ _ _ _ _ _ _ "\<lambda>x. inUse (heap p x)" a] assms(1) sp reused(1)
    unfolding pool_inv_def p' by (simp add: reused(3) u)
next
  case (failed q ck1 err)
  note sp = get_idle_spec[OF failed(2), simplified]
  have "open_conns q = open_conns p" using sp by (intro open_conns_cong) simp
  then show ?thesis using assms(1) sp unfolding failed(3) by (simp add: pool_inv_def)
next
  case (dialled q ck1 raw a)
  note sp = get_idle_spec[OF dialled(2), simplified]
  have "open_conns q = open_conns p" using sp by (intro open_conns_cong) simp
  then have o: "open_conns p' = open_conns p @ [a]" unfolding dialled(5) by (simp add: open_conns_def)
  have u: "(\<lambda>x. inUse (heap p' x)) = (\<lambda>x. x = next_addr p \<or> inUse (heap p x))"
    using sp dialled(4) unfolding dialled(5) by auto
  have "inv_of (connections p @ [next_addr p]) (closed_conns p) (open_conns p @ [next_addr p])
     (Suc (next_addr p)) (MaxConnections (pool_config p)) (cleanupTicker p) False (done_closes p)
     (activeCount p + 1) (\<lambda>x. x = next_addr p \<or> inUse (heap p x))"
    using assms(1) dialled(1,3) sp by (intro inv_add) (simp_all add: pool_inv_def)
  then show ?thesis
    using sp dialled(1,4) unfolding pool_inv_def o u by (simp add: dialled(5))
qed

lemma open_conns_close:
  assumes "w < length (wrappers p)" and "\<not> w_closed (wrappers p ! w)" and "distinct (open_conns p)"
  shows "open_conns (p\<lparr>wrappers := (wrappers p)[w := (wrappers p ! w)\<lparr>w_closed := True\<rparr>]\<rparr>)
       = remove1 (w_conn (wrappers p ! w)) (open_conns p)"
    and "w_conn (wrappers p ! w) \<in> set (open_conns p)"
proof -
  let ?ws = "wrappers p" and ?c = "w_conn (wrappers p ! w)"
  let ?o = "\<lambda>ws. map w_conn (filter (\<lambda>w. \<not> w_closed w) ws)"
  have split: "?ws = take w ?ws @ ?ws ! w # drop (Suc w) ?ws" using assms(1) by (rule id_take_nth_drop)
  have upd: "?ws[w := v] = take w ?ws @ v # drop (Suc w) ?ws" for v using assms(1) by (rule upd_conv_take_nth_drop)
  have o: "open_conns p = ?o (take w ?ws) @ ?c # ?o (drop (Suc w) ?ws)"
    unfolding open_conns_def by (subst split) (use assms(2) in simp)
  then have "?c \<notin> set (?o (take w ?ws))" using assms(3) by auto
  with o show "open_conns (p\<lparr>wrappers := ?ws[w := (?ws ! w)\<lparr>w_closed := True\<rparr>]\<rparr>) = remove1 ?c (open_conns p)"
    by (simp add: open_conns_def upd remove1_append)
  show "?c \<in> set (open_conns p)" using o by simp
qed

lemma wrapper_Close_inv:
  assumes "pool_inv p" and "w < length (wrappers p)"
  shows "pool_inv (wrapper_Close w now p)"
proof (cases "w_closed (wrappers p ! w)")
  case False
  let ?c = "w_conn (wrappers p ! w)"
  let ?q = "p\<lparr>wrappers := (wrappers p)[w := (wrappers p ! w)\<lparr>w_closed := True\<rparr>]\<rparr>"
  have d: "distinct (open_conns p)" using assms(1) by (simp add: pool_inv_def inv_of_def)
  note oc = open_conns_close[OF assms(2) False d]
  have used: "inUse (heap p ?c)"
    using oc(2) assms(1) by (cases "pool_closed p") (simp_all add: pool_inv_def inv_of_def)
  have u: "(\<lambda>x. inUse (((heap p)(?c := (heap p ?c)\<lparr>inUse := False, lastUsed := now\<rparr>)) x))
      = (\<lambda>x. x \<noteq> ?c \<and> inUse (heap p x))" by auto
  have heap: "heap (wrapper_Close w now p) = (heap p)(?c := (heap p ?c)\<lparr>inUse := False, lastUsed := now\<rparr>)"
    using used False by (simp add: wrapper_Close_def Return_def)
  have "open_conns (wrapper_Close w now p) = remove1 ?c (open_conns p)"
    using oc(1) used False by (simp add: wrapper_Close_def Return_def open_conns_def set_conn_def)
  then show ?thesis
    using inv_release[OF assms(1)[unfolded pool_inv_def] oc(2)] used False
    unfolding pool_inv_def heap u by (simp add: wrapper_Close_def Return_def)
qed (use assms in \<open>simp add: wrapper_Close_def\<close>)

lemma wrapper_Write_inv:
  assumes "pool_inv p"
  shows "pool_inv (fst (wrapper_Write w io p))"
proof -
  let ?c = "w_conn (wrappers p ! w)"
  have "(\<lambda>x. inUse (((heap p)(?c := (heap p ?c)\<lparr>healthy := False\<rparr>)) x)) = (\<lambda>x. inUse (heap p x))" by auto
  then show ?thesis using assms by (simp add: wrapper_Write_def pool_inv_def)
qed

lemma pool_cleanup_inv:
  assumes "pool_inv p"
  shows "pool_inv (pool_cleanup now p)"
  using assms inv_drop[of "connections p" "closed_conns p" "open_conns p" _ _ _ _ _ "\<lambda>a. inUse (heap p a)"
    "\<lambda>a. should_remove (MaxIdleTime (pool_config p)) now (heap p a) \<and> \<not> inUse (heap p a)"]
  by (cases "pool_closed p") (simp_all add: pool_cleanup_def pool_inv_def Let_def open_conns_def)

lemma pool_Close_inv:
  assumes "pool_inv p"
  shows "pool_inv (fst (pool_Close ce p))"
  using assms inv_close[of "connections p" "closed_conns p" "open_conns p" "next_addr p" _
      "cleanupTicker p" _ _ "\<lambda>a. inUse (heap p a)"]
  by (cases "pool_closed p"; cases "cleanupTicker p")
    (simp_all add: pool_Close_def pool_inv_def Let_def open_conns_def)

lemma exec_inv: "pool_inv p \<Longrightarrow> pool_inv (exec op p)"
  by (cases op) (auto simp: wrapper_Close_inv wrapper_Write_inv pool_cleanup_inv pool_Close_inv
      intro: Get_inv[OF _ prod.collapse[symmetric]])

lemma execs_inv: "pool_inv p \<Longrightarrow> pool_inv (execs ops p)"
  unfolding execs_def by (induction ops arbitrary: p) (simp_all add: exec_inv)

section \<open>Health\<close>

text \<open>Addresses are never reused and no operation makes an unhealthy connection healthy.\<close>

lemma exec_next_addr: "next_addr p \<le> next_addr (exec op p)"
proof (cases op)
  case (OpGet ping dial ck)
  obtain p' res where g: "Get ping dial ck p = (p', res)" by fastforce
  from g have "next_addr p \<le> next_addr p'"
    by (cases rule: Get_cases) (auto dest!: get_idle_spec)
  with g OpGet show ?thesis by simp
next
  case (OpClose ce)
  then show ?thesis by (simp add: pool_Close_def Let_def)
qed (simp_all add: wrapper_Write_def wrapper_Close_def Return_def pool_cleanup_def Let_def)

lemma exec_unhealthy:
  assumes "\<not> healthy (heap p a)" and "a < next_addr p"
  shows "\<not> healthy (heap (exec op p) a)"
proof (cases op)
  case (OpGet ping dial ck)
  obtain p' res where g: "Get ping dial ck p = (p', res)" by fastforce
  from g have "\<not> healthy (heap p' a)"
  proof (cases rule: Get_cases)
    case (dialled q ck1 raw a')
    then show ?thesis using get_idle_spec[OF dialled(2)] assms by auto
  qed (use assms in \<open>auto dest!: get_idle_spec\<close>)
  with g OpGet show ?thesis by simp
next
  case (OpClose ce)
  then show ?thesis using assms by (simp add: pool_Close_def Let_def)
qed (use assms in \<open>auto simp: wrapper_Write_def wrapper_Close_def Return_def pool_cleanup_def Let_def\<close>)

lemma execs_unhealthy:
  "\<not> healthy (heap p a) \<Longrightarrow> a < next_addr p \<Longrightarrow>
   \<not> healthy (heap (execs ops p) a) \<and> a < next_addr (execs ops p)"
  unfolding execs_def
proof (induction ops arbitrary: p)
  case (Cons op ops)
  show ?case
    using Cons.IH[OF exec_unhealthy[OF Cons.prems] less_le_trans[OF Cons.prems(2) exec_next_addr]]
    by simp
qed simp

lemma Get_healthy:
  assumes "Get ping dial ck p = (p', Inr w)"
  shows "w < length (wrappers p') \<and> healthy (heap p' (w_conn (wrappers p' ! w)))"
  using assms
proof (cases rule: Get_cases)
  case (reused q ck1 a)
  then show ?thesis using get_idle_spec[OF reused(2)] by auto
next
  case (dialled q ck1 raw a)
  then show ?thesis using get_idle_spec[OF dialled(2)] by auto
qed auto

section \<open>Properties\<close>

text \<open>
  C3. After any sequence of operations on a new pool: no two open wrappers share a connection;
  no connection is closed twice, nor the channel \<open>cleanupDone\<close> (which would panic); the number
  of connections stays within the limit; and as long as the pool is open, the active count is
  the number of open wrappers and every open wrapper's connection is still pooled, in use and
  not closed by a cleanup.
\<close>

theorem pool_exclusive_connections:
  "let p = execs ops (NewConnectionPool config)
   in distinct (open_conns p) \<and> distinct (closed_conns p) \<and> done_closes p \<le> 1 \<and>
      int (length (connections p)) \<le> max 0 (MaxConnections (pool_config p)) \<and>
      (pool_closed p \<or>
        activeCount p = int (length (open_conns p)) \<and>
        set (open_conns p) = {a \<in> set (connections p). inUse (heap p a)} \<and>
        set (open_conns p) \<inter> set (closed_conns p) = {})"
  using execs_inv[OF pool_inv_new, of ops config]
  by (cases "pool_closed (execs ops (NewConnectionPool config))")
    (auto simp: pool_inv_def inv_of_def Let_def)

text \<open>
  A connection whose write failed is never handed out again: after a failed write on an
  open wrapper of a pool in any reachable state, and any further operations, a successful
  \<open>Get\<close> returns a wrapper of another connection.
\<close>

theorem failed_connection_never_reused:
  assumes "p = execs ops (NewConnectionPool config)" and "w < length (wrappers p)"
    and "\<not> w_closed (wrappers p ! w)" and "q = fst (wrapper_Write w (Some err) p)"
    and "Get ping dial ck (execs ops' q) = (q', Inr w')"
  shows "w_conn (wrappers q' ! w') \<noteq> w_conn (wrappers p ! w)"
proof
  let ?a = "w_conn (wrappers p ! w)"
  assume eq: "w_conn (wrappers q' ! w') = ?a"
  have inv: "pool_inv p" unfolding assms(1) by (rule execs_inv[OF pool_inv_new])
  have "?a \<in> set (open_conns p)" using assms(2,3) by (auto simp: open_conns_def)
  with inv have "?a < next_addr p" by (simp add: pool_inv_def inv_of_def)
  then have q: "\<not> healthy (heap q ?a)" "?a < next_addr q"
    using assms(3) by (simp_all add: assms(4) wrapper_Write_def)
  from execs_unhealthy[OF this, of ops'] have "\<not> healthy (heap (exec (OpGet ping dial ck) (execs ops' q)) ?a)"
    by (intro exec_unhealthy) simp_all
  with Get_healthy[OF assms(5)] eq assms(5) show False by simp
qed

definition demo_ops :: "pool_op list" where
  "demo_ops = [OpGet (\<lambda>_. None) (Inr 7) (\<lambda>_. 0)]"

theorem failed_connection_never_reused_witness:
  "let p = execs demo_ops (NewConnectionPool None);
       q = fst (wrapper_Write 0 (Some (Sentinel io_EOF)) p);
       q' = fst (Get (\<lambda>_. None) (Inr 8) (\<lambda>_. 1) (execs [OpCloseWrapper 0 1] q))
   in \<not> w_closed (wrappers p ! 0) \<and> w_conn (wrappers q' ! 1) \<noteq> w_conn (wrappers p ! 0)"
proof -
  let ?p = "execs demo_ops (NewConnectionPool None)"
  let ?q = "fst (wrapper_Write 0 (Some (Sentinel io_EOF)) ?p)"
  let ?r = "Get (\<lambda>_. None) (Inr 8) (\<lambda>_. 1) (execs [OpCloseWrapper 0 1] ?q)"
  have o: "0 < length (wrappers ?p)" "\<not> w_closed (wrappers ?p ! 0)" "snd ?r = Inr 1" by code_simp+
  then have "?r = (fst ?r, Inr 1)" by (metis prod.collapse)
  from failed_connection_never_reused[OF refl o(1,2) refl this] o(2) show ?thesis by (simp add: Let_def)
qed

lemma GracefulShutdown_closed:
  "GracefulShutdown ce es p = Some (p', errs) \<Longrightarrow> pool_closed p'"
proof (induction ce es p rule: GracefulShutdown.induct)
  case (2 ce ops es p)
  then show ?case by (auto simp: pool_Close_def Let_def split: if_splits)
next
  case (3 ce ops es p)
  show ?case
    using "3.prems" "3.IH"[OF refl] by (auto simp: pool_Close_def Let_def split: if_splits)
qed simp

lemma GracefulShutdown_inv:
  "GracefulShutdown ce es p = Some (p', errs) \<Longrightarrow> pool_inv p \<Longrightarrow> pool_inv p'"
proof (induction ce es p rule: GracefulShutdown.induct)
  case (2 ce ops es p)
  then show ?case using pool_Close_inv[OF execs_inv, of p ce ops] by simp
next
  case (3 ce ops es p)
  show ?case
    using "3.prems" "3.IH"[OF refl] pool_Close_inv[OF execs_inv, of p ce ops] execs_inv[of p ops]
    by (auto simp: Let_def split: if_splits)
qed simp

lemma GracefulShutdown_returns:
  "list_ex (\<lambda>e. case e of Deadline _ \<Rightarrow> True | Tick _ \<Rightarrow> False) es \<Longrightarrow> GracefulShutdown ce es p \<noteq> None"
  by (induction ce es p rule: GracefulShutdown.induct) (auto simp: Let_def)

lemma GracefulShutdown_idle:
  assumes "pool_inv p" and "activeCount (execs ops p) = 0" and "\<not> pool_closed (execs ops p)"
  shows "open_conns (fst (pool_Close ce (execs ops p))) = []"
  using execs_inv[OF assms(1), of ops] assms(2,3)
  by (auto simp: pool_inv_def inv_of_def pool_Close_def Let_def open_conns_def)



text \<open>
  \<open>Close\<close> resets the active count although wrappers may still be open, and \<open>Return\<close> still
  decrements it: a client that closes its connection after the pool was closed makes the pool
  report minus one active connection.
\<close>

theorem active_count_negative_after_close:
  "ActiveConnections (pool_Stats (execs (demo_ops @ [OpClose (\<lambda>_. None), OpCloseWrapper 0 1])
     (NewConnectionPool None))) = - 1"
  by code_simp

end
