(* ===== verification/Cache.thy ===== *)
theory Cache
  imports Go_Prelude
begin

text \<open>
  Model of \<open>InMemoryCache\<close> in \<open>middleware_advanced.go\<close>. A \<open>Get\<close> that meets an expired entry
  starts a goroutine that deletes the entry later; these goroutines are the list \<open>pending\<close>,
  and an execution is a sequence of operations (\<open>cache_op\<close>) in which they run at any time.
  The locale \<open>ttl_cache\<close> is the contract of the \<open>Cache\<close> interface that a caching client
  relies on; \<open>InMemoryCache\<close> interprets it.
\<close>

record cacheItem =
  item_value :: bytes
  expiresAt :: time
  item_size :: int

record InMemoryCache =
  items :: "(string, cacheItem) gomap"
  cache_size :: int
  maxSize :: int
  cache_timer :: bool
  cache_closed :: bool
  pending :: "(string \<times> cacheItem) list"

definition startCleanup :: "InMemoryCache \<Rightarrow> InMemoryCache" where
  "startCleanup c = (if cache_closed c then c else c\<lparr>cache_timer := True\<rparr>)"

definition NewInMemoryCache :: "int \<Rightarrow> InMemoryCache" where
  "NewInMemoryCache maxSz = startCleanup \<lparr>items = [], cache_size = 0, maxSize = maxSz,
     cache_timer = False, cache_closed = False, pending = []\<rparr>"

text \<open>The expired entry is left in the map; its deletion becomes pending.\<close>

definition cache_Get :: "InMemoryCache \<Rightarrow> string \<Rightarrow> time \<Rightarrow> InMemoryCache \<times> bytes option" where
  "cache_Get c key now =
     (case map_of (items c) key of
        None \<Rightarrow> (c, None)
      | Some item \<Rightarrow>
          if expiresAt item < now then (c\<lparr>pending := pending c @ [(key, item)]\<rparr>, None)
          else (c, Some (item_value item)))"

text \<open>The body of such a goroutine.\<close>

definition run_pending :: "nat \<Rightarrow> InMemoryCache \<Rightarrow> InMemoryCache" where
  "run_pending i c =
     (if i < length (pending c)
      then let (key, item) = pending c ! i
           in c\<lparr>items := AList.delete key (items c), cache_size := cache_size c - item_size item,
                pending := take i (pending c) @ drop (Suc i) (pending c)\<rparr>
      else c)"

definition sizes :: "(string, cacheItem) gomap \<Rightarrow> int" where
  "sizes m = (\<Sum>kv \<leftarrow> m. item_size (snd kv))"

definition evictLRU :: "time \<Rightarrow> InMemoryCache \<Rightarrow> InMemoryCache" where
  "evictLRU now c =
     c\<lparr>items := filter (\<lambda>(k, item). \<not> expiresAt item < now) (items c),
       cache_size := cache_size c - sizes (filter (\<lambda>(k, item). expiresAt item < now) (items c))\<rparr>"

text \<open>\<open>Set\<close> reads the clock once more when it evicts.\<close>

definition cache_Set :: "InMemoryCache \<Rightarrow> string \<Rightarrow> bytes \<Rightarrow> duration \<Rightarrow> time \<Rightarrow> time \<Rightarrow> InMemoryCache" where
  "cache_Set c key value ttl t_evict now =
     (let itemSize = int (length value);
          c = (if maxSize c < cache_size c + itemSize then evictLRU t_evict c else c);
          c = (case map_of (items c) key of
                 Some existing \<Rightarrow> c\<lparr>cache_size := cache_size c - item_size existing\<rparr>
               | None \<Rightarrow> c);
          item = \<lparr>item_value = value, expiresAt = now + ttl, item_size = itemSize\<rparr>
      in c\<lparr>items := AList.update key item (items c), cache_size := cache_size c + itemSize\<rparr>)"

definition cache_Delete :: "InMemoryCache \<Rightarrow> string \<Rightarrow> InMemoryCache" where
  "cache_Delete c key =
     (case map_of (items c) key of
        Some item \<Rightarrow> c\<lparr>items := AList.delete key (items c), cache_size := cache_size c - item_size item\<rparr>
      | None \<Rightarrow> c)"

definition cache_Clear :: "InMemoryCache \<Rightarrow> InMemoryCache" where
  "cache_Clear c = c\<lparr>items := [], cache_size := 0\<rparr>"

definition cache_Size :: "InMemoryCache \<Rightarrow> int" where
  "cache_Size c = cache_size c"

text \<open>The function of the cleanup timer: it evicts and reschedules itself.\<close>

definition cleanup_timer_fires :: "time \<Rightarrow> InMemoryCache \<Rightarrow> InMemoryCache" where
  "cleanup_timer_fires now c = startCleanup (evictLRU now (c\<lparr>cache_timer := False\<rparr>))"

definition cache_Close :: "InMemoryCache \<Rightarrow> InMemoryCache" where
  "cache_Close c = (if cache_closed c then c else c\<lparr>cache_closed := True, cache_timer := False\<rparr>)"

section \<open>Executions\<close>

datatype cache_op =
    CGet string time
  | CSet string bytes duration time time
  | CDelete string
  | CClear
  | CTimer time
  | CPending nat
  | CClose

fun cache_exec :: "cache_op \<Rightarrow> InMemoryCache \<Rightarrow> InMemoryCache" where
  "cache_exec (CGet key now) c = fst (cache_Get c key now)"
| "cache_exec (CSet key value ttl te now) c = cache_Set c key value ttl te now"
| "cache_exec (CDelete key) c = cache_Delete c key"
| "cache_exec CClear c = cache_Clear c"
| "cache_exec (CTimer now) c = cleanup_timer_fires now c"
| "cache_exec (CPending i) c = run_pending i c"
| "cache_exec CClose c = cache_Close c"

text \<open>An execution in which every pending deletion still finds the entry it was started for.\<close>

fun undisturbed :: "cache_op list \<Rightarrow> InMemoryCache \<Rightarrow> bool" where
  "undisturbed [] c \<longleftrightarrow> True"
| "undisturbed (op # ops) c \<longleftrightarrow>
     (case op of
        CPending i \<Rightarrow> i < length (pending c) \<longrightarrow>
          map_of (items c) (fst (pending c ! i)) = Some (snd (pending c ! i))
      | _ \<Rightarrow> True) \<and> undisturbed ops (cache_exec op c)"

definition cache_inv :: "InMemoryCache \<Rightarrow> bool" where
  "cache_inv c \<longleftrightarrow> map_ok (items c) \<and> cache_size c = sizes (items c) \<and>
     all_vals (\<lambda>item. item_size item = int (length (item_value item))) (items c)"

lemma sizes_simps [simp]: "sizes [] = 0" "sizes (kv # m) = item_size (snd kv) + sizes m"
  by (simp_all add: sizes_def)

lemma sizes_filter_split:
  "sizes (filter (\<lambda>(k, it). P it) m) + sizes (filter (\<lambda>(k, it). \<not> P it) m) = sizes m"
  by (induction m) auto

lemma sizes_delete:
  "map_ok m \<Longrightarrow> sizes (AList.delete k m) =
     sizes m - (case map_of m k of Some item \<Rightarrow> item_size item | None \<Rightarrow> 0)"
proof (induction m)
  case (Cons kv m)
  show ?case
  proof (cases "k = fst kv")
    case True
    then have "AList.delete k m = m" using Cons.prems by (intro delete_id) simp
    with True show ?thesis by (cases kv) (simp add: AList.delete_eq)
  next
    case False
    then show ?thesis using Cons by (cases kv) (simp add: AList.delete_eq)
  qed
qed simp

lemma sizes_update:
  "map_ok m \<Longrightarrow> sizes (AList.update k item m) =
     sizes m - (case map_of m k of Some it \<Rightarrow> item_size it | None \<Rightarrow> 0) + item_size item"
  by (induction m) (auto split: option.split)

lemma cache_inv_evict:
  assumes "cache_inv c"
  shows "cache_inv (evictLRU now c)"
proof -
  have "sizes (items c) - sizes (filter (\<lambda>(k, item). expiresAt item < now) (items c))
      = sizes (filter (\<lambda>(k, item). \<not> expiresAt item < now) (items c))"
    using sizes_filter_split[of "\<lambda>item. expiresAt item < now" "items c"] by linarith
  with assms show ?thesis by (simp add: cache_inv_def evictLRU_def)
qed

lemma cache_inv_Set: "cache_inv c \<Longrightarrow> cache_inv (cache_Set c key value ttl te now)"
proof -
  assume inv: "cache_inv c"
  define c' where "c' = (if maxSize c < cache_size c + int (length value) then evictLRU te c else c)"
  have "cache_inv c'" using inv cache_inv_evict by (simp add: c'_def)
  then show ?thesis
    unfolding cache_Set_def Let_def c'_def[symmetric]
    by (cases "map_of (items c') key") (simp_all add: cache_inv_def sizes_update)
qed

lemma cache_exec_inv:
  assumes "cache_inv c" and "undisturbed [op] c"
  shows "cache_inv (cache_exec op c)"
proof (cases op)
  case (CPending i)
  then show ?thesis
    using assms by (auto simp: run_pending_def cache_inv_def sizes_delete split: prod.split)
next
  case (CTimer now)
  have "cache_inv (c\<lparr>cache_timer := False\<rparr>)" using assms(1) by (simp add: cache_inv_def)
  from cache_inv_evict[OF this, of now] CTimer show ?thesis
    by (simp add: cleanup_timer_fires_def startCleanup_def cache_inv_def)
qed (use assms cache_inv_Set in \<open>auto simp: cache_inv_def cache_Get_def cache_Delete_def cache_Clear_def
      cache_Close_def sizes_delete split: option.split\<close>)

lemma cache_execs_inv:
  "cache_inv c \<Longrightarrow> undisturbed ops c \<Longrightarrow> cache_inv (fold cache_exec ops c)"
proof (induction ops arbitrary: c)
  case (Cons op ops)
  then have "cache_inv (cache_exec op c)" by (intro cache_exec_inv) simp_all
  then show ?case using Cons by simp
qed simp

section \<open>The Cache contract\<close>

text \<open>What a reader sees: the value stored last, until its time is over. \<open>get\<close> is a lookup at
  an instant; storing at an instant not later than the lookup does not disturb other keys.\<close>

locale ttl_cache =
  fixes ok :: "'c \<Rightarrow> bool"
    and get :: "'c \<Rightarrow> string \<Rightarrow> time \<Rightarrow> bytes option"
    and set :: "'c \<Rightarrow> string \<Rightarrow> bytes \<Rightarrow> duration \<Rightarrow> time \<Rightarrow> time \<Rightarrow> 'c"
    and delete :: "'c \<Rightarrow> string \<Rightarrow> 'c"
  assumes set_ok: "ok c \<Longrightarrow> ok (set c k v ttl te now)"
    and get_set: "ok c \<Longrightarrow> te \<le> t \<Longrightarrow> get (set c k v ttl te now) k' t =
       (if k' = k then (if now + ttl < t then None else Some v) else get c k' t)"
    and delete_ok: "ok c \<Longrightarrow> ok (delete c k)"
    and get_delete: "ok c \<Longrightarrow> get (delete c k) k' t = (if k' = k then None else get c k' t)"
begin

text \<open>A sequence of stores to other keys keeps a stored value readable until it expires.\<close>

lemma get_after_other_sets:
  assumes "ok c" and "\<forall>(k', v', ttl', te', now') \<in> List.set ws. k' \<noteq> k \<and> te' \<le> t"
    and "te \<le> t" and "t \<le> now + ttl"
  shows "get (fold (\<lambda>(k, v, ttl, te, now) c. set c k v ttl te now) ws (set c k v ttl te now)) k t = Some v"
proof -
  let ?step = "\<lambda>(k, v, ttl, te, now) c. set c k v ttl te now"
  have "ok c' \<Longrightarrow> \<forall>(k', v', ttl', te', now') \<in> List.set ws. k' \<noteq> k \<and> te' \<le> t \<Longrightarrow>
      get (fold ?step ws c') k t = get c' k t" for c'
    by (induction ws arbitrary: c') (auto simp: set_ok get_set)
  with assms show ?thesis by (simp add: set_ok get_set)
qed

end

definition lookup_at :: "InMemoryCache \<Rightarrow> string \<Rightarrow> time \<Rightarrow> bytes option" where
  "lookup_at c key now = snd (cache_Get c key now)"

lemma lookup_at_evict:
  assumes "map_ok (items c)" and "te \<le> t"
  shows "lookup_at (evictLRU te c) k t = lookup_at c k t"
  using assms by (auto simp: lookup_at_def cache_Get_def evictLRU_def map_of_filter split: option.splits)

lemma lookup_at_Set:
  assumes "map_ok (items c)" and "te \<le> t"
  shows "lookup_at (cache_Set c k v ttl te now) k' t =
     (if k' = k then (if now + ttl < t then None else Some v) else lookup_at c k' t)"
proof -
  define c' where "c' = (if maxSize c < cache_size c + int (length v) then evictLRU te c else c)"
  have c': "lookup_at c' k' t = lookup_at c k' t"
    using assms by (simp add: c'_def lookup_at_evict)
  have "lookup_at (cache_Set c k v ttl te now) k' t =
     (if k' = k then (if now + ttl < t then None else Some v) else lookup_at c' k' t)"
    unfolding cache_Set_def Let_def c'_def[symmetric]
    by (auto simp: lookup_at_def cache_Get_def split: option.split)
  with c' show ?thesis by simp
qed

interpretation mem: ttl_cache "\<lambda>c. map_ok (items c)" lookup_at cache_Set cache_Delete
proof
  show "map_ok (items (cache_Set c k v ttl te now))" if "map_ok (items c)" for c k v ttl te now
    using that by (auto simp: cache_Set_def evictLRU_def Let_def split: option.split)
  show "map_ok (items (cache_Delete c k))" if "map_ok (items c)" for c k
    using that by (auto simp: cache_Delete_def split: option.split)
  show "lookup_at (cache_Delete c k) k' t = (if k' = k then None else lookup_at c k' t)" for c k k' t
    by (auto simp: lookup_at_def cache_Get_def cache_Delete_def split: option.split)
qed (fact lookup_at_Set)

section \<open>Properties\<close>

text \<open>
  As long as every delayed deletion still finds the entry it was started for, the size the
  cache reports is the sum of the lengths of the stored values, after any operations.
\<close>

theorem cache_size_exact:
  assumes "undisturbed ops (NewInMemoryCache maxSz)"
  shows "let c = fold cache_exec ops (NewInMemoryCache maxSz)
    in cache_Size c = (\<Sum>kv \<leftarrow> items c. int (length (item_value (snd kv))))"
proof -
  let ?c = "fold cache_exec ops (NewInMemoryCache maxSz)"
  have "cache_inv (NewInMemoryCache maxSz)"
    by (simp add: cache_inv_def NewInMemoryCache_def startCleanup_def)
  then have inv: "cache_inv ?c" using assms by (rule cache_execs_inv)
  then have "map (\<lambda>kv. item_size (snd kv)) (items ?c)
      = map (\<lambda>kv. int (length (item_value (snd kv)))) (items ?c)"
    by (auto simp: cache_inv_def all_vals_iff)
  with inv show ?thesis by (simp add: cache_inv_def cache_Size_def sizes_def Let_def)
qed

theorem cache_size_exact_witness:
  "undisturbed [CSet ''k'' ''abc'' 5 0 0, CGet ''k'' 9, CPending 0] (NewInMemoryCache 10) \<and>
   (let c = fold cache_exec [CSet ''k'' ''abc'' 5 0 0, CGet ''k'' 9, CPending 0] (NewInMemoryCache 10)
    in cache_Size c = (\<Sum>kv \<leftarrow> items c. int (length (item_value (snd kv)))))"
proof -
  have u: "undisturbed [CSet ''k'' ''abc'' 5 0 0, CGet ''k'' 9, CPending 0] (NewInMemoryCache 10)"
    by code_simp
  from u cache_size_exact[OF u] show ?thesis by blast
qed

text \<open>
  The contract of the cache: a value is readable after it was stored and after any stores
  to other keys, until its time to live is over.
\<close>

theorem cache_value_readable:
  assumes "map_ok (items c)" and "\<forall>(k', v', ttl', te', now') \<in> set ws. k' \<noteq> k \<and> te' \<le> t"
    and "te \<le> t" and "t \<le> now + ttl"
  shows "snd (cache_Get (fold (\<lambda>(k, v, ttl, te, now) c. cache_Set c k v ttl te now) ws
           (cache_Set c k v ttl te now)) k t) = Some v"
  using mem.get_after_other_sets[OF assms] by (simp add: lookup_at_def)

theorem cache_value_readable_witness:
  "snd (cache_Get (cache_Set (cache_Set (NewInMemoryCache 2) ''k'' ''abc'' 5 0 0) ''j'' ''de'' 5 1 1) ''k'' 4)
     = Some ''abc''"
  using cache_value_readable[of "NewInMemoryCache 2" "[(''j'', ''de'', 5, 1, 1)]" "''k''" 4 0 0 5 "''abc''"]
  by (simp add: NewInMemoryCache_def startCleanup_def)

text \<open>
  Delayed deletions that run late break the books and the contents: after two reads of the
  same expired entry the reported size becomes negative; and a deletion started for an expired
  entry removes the fresh entry that was stored in its place.
\<close>

theorem late_deletion_breaks_cache:
  "cache_Size (fold cache_exec [CSet ''k'' ''abc'' 5 0 0, CGet ''k'' 9, CGet ''k'' 9, CPending 0, CPending 0]
     (NewInMemoryCache 10)) = - 3 \<and>
   snd (cache_Get (fold cache_exec [CSet ''k'' ''abc'' 5 0 0, CGet ''k'' 9, CSet ''k'' ''new'' 5 9 9]
     (NewInMemoryCache 10)) ''k'' 10) = Some ''new'' \<and>
   snd (cache_Get (fold cache_exec [CSet ''k'' ''abc'' 5 0 0, CGet ''k'' 9, CSet ''k'' ''new'' 5 9 9, CPending 0]
     (NewInMemoryCache 10)) ''k'' 10) = None"
  by code_simp

text \<open>
  The maximum size is not a bound: \<open>evictLRU\<close> removes expired entries only, and \<open>Set\<close>
  stores whether or not there is room, so live entries grow past it.
\<close>

theorem cache_exceeds_max_size:
  assumes "0 \<le> maxSz" and "maxSz < int (length v)"
  shows "maxSz < cache_Size (cache_Set (NewInMemoryCache maxSz) k v ttl te now)"
  using assms by (simp add: cache_Set_def NewInMemoryCache_def startCleanup_def cache_Size_def
      evictLRU_def Let_def)

theorem cache_exceeds_max_size_witness:
  "2 < cache_Size (cache_Set (NewInMemoryCache 2) ''k'' ''abc'' 5 0 0)"
  by (rule cache_exceeds_max_size) simp_all

end
