(* ===== verification/Go_Json.thy ===== *)
theory Go_Json
  imports Errors
begin

text \<open>
  The part of \<open>encoding/json\<close> the package uses to decode requests: the grammar its scanner
  accepts (\<open>json.Valid\<close>), string unquoting with escapes, surrogate pairs and replacement of
  invalid UTF-8, the nesting limit, and the decoding of objects into structs: keys match a
  field exactly or else under case folding, later members override earlier ones, \<open>null\<close>
  leaves a field alone, and a value of the wrong kind is an error. The text of decoding errors
  is not modelled: every one is \<open>json_error\<close>.
\<close>

section \<open>Values\<close>

text \<open>Members of an object keep the text of their value, for \<open>json.RawMessage\<close> fields.\<close>

datatype JSON =
    JNull
  | JBool bool
  | JNum string
  | JStr string
  | JArr "JSON list"
  | JObj "(string \<times> string \<times> JSON) list"

definition json_error :: mcp_error where
  "json_error = PlainErr ''json''"

section \<open>Scanner\<close>

fun skip_ws :: "string \<Rightarrow> string" where
  "skip_ws [] = []"
| "skip_ws (c # s) = (if c \<in> {CHR '' '', CHR 0x09, CHR 0x0A, CHR 0x0D} then skip_ws s else c # s)"

definition is_digit :: "char \<Rightarrow> bool" where
  "is_digit c \<longleftrightarrow> CHR ''0'' \<le> c \<and> c \<le> CHR ''9''"

definition hex_val :: "char \<Rightarrow> nat option" where
  "hex_val c =
     (if is_digit c then Some (of_char c - 48)
      else if CHR ''a'' \<le> c \<and> c \<le> CHR ''f'' then Some (of_char c - 87)
      else if CHR ''A'' \<le> c \<and> c \<le> CHR ''F'' then Some (of_char c - 55)
      else None)"

fun hex4 :: "string \<Rightarrow> nat option" where
  "hex4 [a, b, c, d] =
     (case (hex_val a, hex_val b, hex_val c, hex_val d) of
        (Some a, Some b, Some c, Some d) \<Rightarrow> Some (((a * 16 + b) * 16 + c) * 16 + d)
      | _ \<Rightarrow> None)"
| "hex4 _ = None"

definition utf8_encode :: "nat \<Rightarrow> string" where
  "utf8_encode n =
     (if n < 128 then [char_of n]
      else if n < 2048 then [char_of (192 + n div 64), char_of (128 + n mod 64)]
      else if n < 65536
      then [char_of (224 + n div 4096), char_of (128 + n div 64 mod 64), char_of (128 + n mod 64)]
      else [char_of (240 + n div 262144), char_of (128 + n div 4096 mod 64),
            char_of (128 + n div 64 mod 64), char_of (128 + n mod 64)])"

definition replacement_char :: string where
  "replacement_char = utf8_encode 65533"

definition is_surrogate :: "nat \<Rightarrow> bool" where
  "is_surrogate n \<longleftrightarrow> 55296 \<le> n \<and> n < 57344"

text \<open>\<open>utf16.DecodeRune\<close> on a pair of code units.\<close>

definition decode_pair :: "nat \<Rightarrow> nat \<Rightarrow> nat option" where
  "decode_pair hi lo =
     (if 55296 \<le> hi \<and> hi < 56320 \<and> 56320 \<le> lo \<and> lo < 57344
      then Some ((hi - 55296) * 1024 + (lo - 56320) + 65536) else None)"

definition escape_char :: "char \<Rightarrow> char option" where
  "escape_char c =
     (if c \<in> {CHR 0x22, CHR 0x5C, CHR ''/''} then Some c
      else if c = CHR ''b'' then Some CHR 0x08
      else if c = CHR ''f'' then Some CHR 0x0C
      else if c = CHR ''n'' then Some CHR 0x0A
      else if c = CHR ''r'' then Some CHR 0x0D
      else if c = CHR ''t'' then Some CHR 0x09
      else None)"

text \<open>The characters of a string after the opening quote, up to the closing one; \<open>fuel\<close> is the
  length of the input.\<close>

fun string_body :: "nat \<Rightarrow> string \<Rightarrow> (string \<times> string) option" where
  "string_body 0 s = None"
| "string_body (Suc fuel) [] = None"
| "string_body (Suc fuel) (c # s) =
     (if c = CHR 0x22 then Some ([], s)
      else if of_char c < (32 :: nat) then None
      else if c \<noteq> CHR 0x5C then map_option (\<lambda>(t, r). (c # t, r)) (string_body fuel s)
      else case s of
             [] \<Rightarrow> None
           | e # s' \<Rightarrow>
               if e = CHR ''u''
               then (case hex4 (take 4 s') of
                       None \<Rightarrow> None
                     | Some n \<Rightarrow>
                         let r = drop 4 s'
                         in if is_surrogate n
                            then (case (if take 2 r = [CHR 0x5C, CHR ''u''] then hex4 (take 4 (drop 2 r)) else None) of
                                    Some m \<Rightarrow>
                                      (case decode_pair n m of
                                         Some cp \<Rightarrow> map_option (\<lambda>(t, q). (utf8_encode cp @ t, q)) (string_body fuel (drop 6 r))
                                       | None \<Rightarrow> map_option (\<lambda>(t, q). (replacement_char @ t, q)) (string_body fuel r))
                                  | None \<Rightarrow> map_option (\<lambda>(t, q). (replacement_char @ t, q)) (string_body fuel r))
                            else map_option (\<lambda>(t, q). (utf8_encode n @ t, q)) (string_body fuel r))
               else (case escape_char e of
                       None \<Rightarrow> None
                     | Some d \<Rightarrow> map_option (\<lambda>(t, q). (d # t, q)) (string_body fuel s')))"

text \<open>Invalid UTF-8 is replaced byte by byte.\<close>

definition fix_utf8 :: "string \<Rightarrow> string" where
  "fix_utf8 s = concat (map (\<lambda>r. case r of
       [c] \<Rightarrow> if of_char c < (128 :: nat) then r else replacement_char
     | _ \<Rightarrow> r) (runes s))"

definition parse_string :: "string \<Rightarrow> (string \<times> string) option" where
  "parse_string s = map_option (\<lambda>(t, r). (fix_utf8 t, r)) (string_body (length s) s)"

definition parse_digits :: "string \<Rightarrow> (string \<times> string) option" where
  "parse_digits s = (case takeWhile is_digit s of [] \<Rightarrow> None | ds \<Rightarrow> Some (ds, dropWhile is_digit s))"

definition parse_int_part :: "string \<Rightarrow> (string \<times> string) option" where
  "parse_int_part s =
     (case s of
        [] \<Rightarrow> None
      | c # r \<Rightarrow> if c = CHR ''0'' then Some ([c], r) else parse_digits s)"

definition parse_fraction :: "string \<Rightarrow> (string \<times> string) option" where
  "parse_fraction s =
     (case s of
        c # r \<Rightarrow> if c = CHR ''.'' then map_option (\<lambda>(ds, q). (c # ds, q)) (parse_digits r) else Some ([], s)
      | [] \<Rightarrow> Some ([], s))"

definition parse_exponent :: "string \<Rightarrow> (string \<times> string) option" where
  "parse_exponent s =
     (case s of
        c # r \<Rightarrow>
          if c = CHR ''e'' \<or> c = CHR ''E''
          then let (sg, r) = (case r of d # q \<Rightarrow> if d = CHR ''+'' \<or> d = CHR ''-'' then ([d], q) else ([], r)
                              | [] \<Rightarrow> ([], r))
               in map_option (\<lambda>(ds, q). (c # sg @ ds, q)) (parse_digits r)
          else Some ([], s)
      | [] \<Rightarrow> Some ([], s))"

definition parse_number :: "string \<Rightarrow> (string \<times> string) option" where
  "parse_number s =
     (let (sg, s) = (case s of c # r \<Rightarrow> if c = CHR ''-'' then ([c], r) else ([], s) | [] \<Rightarrow> ([], s))
      in case parse_int_part s of
           None \<Rightarrow> None
         | Some (i, s) \<Rightarrow>
             (case parse_fraction s of
                None \<Rightarrow> None
              | Some (f, s) \<Rightarrow>
                  map_option (\<lambda>(e, s). (sg @ i @ f @ e, s)) (parse_exponent s)))"

definition maxNestingDepth :: nat where
  "maxNestingDepth = 10000"

text \<open>
  Values, members and elements. The first argument bounds the depth of the recursion (twice the
  length of the input suffices: of two nested calls one consumes a character), the second is
  the nesting depth.
  Members and elements are parsed after their opening bracket; \<open>first\<close> tells whether a
  closing bracket may follow at once.
\<close>

fun parse_value :: "nat \<Rightarrow> nat \<Rightarrow> string \<Rightarrow> (JSON \<times> string) option"
  and parse_members :: "nat \<Rightarrow> nat \<Rightarrow> bool \<Rightarrow> string \<Rightarrow> ((string \<times> string \<times> JSON) list \<times> string) option"
  and parse_elements :: "nat \<Rightarrow> nat \<Rightarrow> bool \<Rightarrow> string \<Rightarrow> (JSON list \<times> string) option"
where
  "parse_value 0 d s = None"
| "parse_value (Suc n) d s =
     (case skip_ws s of
        [] \<Rightarrow> None
      | c # r \<Rightarrow>
          if c = CHR 0x7B
          then if maxNestingDepth < Suc d then None
               else map_option (\<lambda>(ms, q). (JObj ms, q)) (parse_members n (Suc d) True r)
          else if c = CHR 0x5B
          then if maxNestingDepth < Suc d then None
               else map_option (\<lambda>(vs, q). (JArr vs, q)) (parse_elements n (Suc d) True r)
          else if c = CHR 0x22 then map_option (\<lambda>(t, q). (JStr t, q)) (parse_string r)
          else if take 4 (c # r) = ''true'' then Some (JBool True, drop 3 r)
          else if take 5 (c # r) = ''false'' then Some (JBool False, drop 4 r)
          else if take 4 (c # r) = ''null'' then Some (JNull, drop 3 r)
          else map_option (\<lambda>(t, q). (JNum t, q)) (parse_number (c # r)))"
| "parse_members 0 d first s = None"
| "parse_members (Suc n) d first s =
     (case skip_ws s of
        [] \<Rightarrow> None
      | c # r \<Rightarrow>
          if first \<and> c = CHR 0x7D then Some ([], r)
          else if c \<noteq> CHR 0x22 then None
          else case parse_string r of
                 None \<Rightarrow> None
               | Some (k, r) \<Rightarrow>
                   (case skip_ws r of
                      [] \<Rightarrow> None
                    | c # r \<Rightarrow>
                        if c \<noteq> CHR '':'' then None
                        else let r = skip_ws r
                             in case parse_value n d r of
                                  None \<Rightarrow> None
                                | Some (v, q) \<Rightarrow>
                                    let m = (k, take (length r - length q) r, v)
                                    in (case skip_ws q of
                                          [] \<Rightarrow> None
                                        | c # q \<Rightarrow>
                                            if c = CHR 0x7D then Some ([m], q)
                                            else if c = CHR '','' 
                                            then map_option (\<lambda>(ms, q). (m # ms, q)) (parse_members n d False q)
                                            else None)))"
| "parse_elements 0 d first s = None"
| "parse_elements (Suc n) d first s =
     (case skip_ws s of
        [] \<Rightarrow> None
      | c # r \<Rightarrow>
          if first \<and> c = CHR 0x5D then Some ([], r)
          else case parse_value n d (c # r) of
                 None \<Rightarrow> None
               | Some (v, q) \<Rightarrow>
                   (case skip_ws q of
                      [] \<Rightarrow> None
                    | c # q \<Rightarrow>
                        if c = CHR 0x5D then Some ([v], q)
                        else if c = CHR '','' then map_option (\<lambda>(vs, q). (v # vs, q)) (parse_elements n d False q)
                        else None))"

definition json_parse :: "bytes \<Rightarrow> JSON option" where
  "json_parse data =
     (case parse_value (2 * length data + 2) 0 data of
        Some (v, rest) \<Rightarrow> if skip_ws rest = [] then Some v else None
      | None \<Rightarrow> None)"

definition json_Valid :: "bytes \<Rightarrow> bool" where
  "json_Valid data \<longleftrightarrow> json_parse data \<noteq> None"

section \<open>Decoding into structs\<close>

text \<open>
  \<open>foldName\<close>: keys are compared by the smallest rune of their case orbit. For field names of
  ASCII letters only the other case and, for \<open>s\<close> and \<open>k\<close>, the long s and the Kelvin sign fold
  to a letter of the name.
\<close>

fun fold_name :: "string \<Rightarrow> string" where
  "fold_name [] = []"
| "fold_name (a # s) =
     (if a = CHR 0xC5 \<and> take 1 s = [CHR 0xBF] then CHR ''s'' # fold_name (drop 1 s)
      else if a = CHR 0xE2 \<and> take 2 s = [CHR 0x84, CHR 0xAA] then CHR ''k'' # fold_name (drop 2 s)
      else lower_byte a # fold_name s)"

definition struct_field :: "string list \<Rightarrow> string \<Rightarrow> string option" where
  "struct_field fields key =
     (if key \<in> set fields then Some key
      else List.find (\<lambda>f. fold_name f = fold_name key) fields)"

text \<open>The values an object supplies for one field of a struct, in order.\<close>

definition field_values :: "string list \<Rightarrow> string \<Rightarrow> (string \<times> string \<times> JSON) list \<Rightarrow> (string \<times> JSON) list" where
  "field_values fields f ms = map snd (filter (\<lambda>(k, _, _). struct_field fields k = Some f) ms)"

text \<open>A decoder takes the field's present value and one JSON value; an error does not stop the
  decoding but is what \<open>Unmarshal\<close> returns in the end.\<close>

type_synonym 'a decoder = "'a \<Rightarrow> string \<times> JSON \<Rightarrow> mcp_error + 'a"

fun decode_all :: "'a decoder \<Rightarrow> 'a \<Rightarrow> (string \<times> JSON) list \<Rightarrow> mcp_error + 'a" where
  "decode_all dec x [] = Inr x"
| "decode_all dec x (v # vs) = (case dec x v of Inl e \<Rightarrow> Inl e | Inr y \<Rightarrow> decode_all dec y vs)"

definition dec_string :: "string decoder" where
  "dec_string x v = (case snd v of JStr s \<Rightarrow> Inr s | JNull \<Rightarrow> Inr x | _ \<Rightarrow> Inl json_error)"

definition dec_bool :: "bool decoder" where
  "dec_bool x v = (case snd v of JBool b \<Rightarrow> Inr b | JNull \<Rightarrow> Inr x | _ \<Rightarrow> Inl json_error)"

text \<open>\<open>json.RawMessage\<close> takes the text, also of \<open>null\<close>.\<close>

definition dec_raw :: "bytes option decoder" where
  "dec_raw x v = Inr (Some (fst v))"

definition dec_any :: "JSON decoder" where
  "dec_any x v = Inr (snd v)"

text \<open>A \<open>map[string]any\<close> field: \<open>null\<close> makes it nil, an object is merged into it.\<close>

definition dec_map :: "(string \<times> string \<times> JSON) list option decoder" where
  "dec_map x v =
     (case snd v of
        JObj ms \<Rightarrow> Inr (Some ((case x of None \<Rightarrow> [] | Some old \<Rightarrow> old) @ ms))
      | JNull \<Rightarrow> Inr None
      | _ \<Rightarrow> Inl json_error)"

text \<open>A pointer to a struct: \<open>null\<close> makes it nil, an object is decoded into the struct it points
  to, allocated as \<open>zero\<close> if it was nil.\<close>

definition dec_ptr :: "'a \<Rightarrow> ('a \<Rightarrow> (string \<times> string \<times> JSON) list \<Rightarrow> mcp_error + 'a) \<Rightarrow> 'a option decoder" where
  "dec_ptr zero dec x v =
     (case snd v of
        JObj ms \<Rightarrow> map_sum id Some (dec (case x of None \<Rightarrow> zero | Some y \<Rightarrow> y) ms)
      | JNull \<Rightarrow> Inr None
      | _ \<Rightarrow> Inl json_error)"

definition dec_struct :: "('a \<Rightarrow> (string \<times> string \<times> JSON) list \<Rightarrow> mcp_error + 'a) \<Rightarrow> 'a decoder" where
  "dec_struct dec x v =
     (case snd v of JObj ms \<Rightarrow> dec x ms | JNull \<Rightarrow> Inr x | _ \<Rightarrow> Inl json_error)"

text \<open>\<open>json.Unmarshal\<close> into a struct.\<close>

definition json_Unmarshal ::
  "('a \<Rightarrow> (string \<times> string \<times> JSON) list \<Rightarrow> mcp_error + 'a) \<Rightarrow> 'a \<Rightarrow> bytes \<Rightarrow> mcp_error + 'a" where
  "json_Unmarshal dec zero data =
     (case json_parse data of
        None \<Rightarrow> Inl json_error
      | Some v \<Rightarrow> dec_struct dec zero (data, v))"

lemma json_Unmarshal_invalid: "\<not> json_Valid data \<Longrightarrow> json_Unmarshal dec zero data = Inl json_error"
  by (simp add: json_Valid_def json_Unmarshal_def)

lemma json_Unmarshal_null: "json_parse data = Some JNull \<Longrightarrow> json_Unmarshal dec zero data = Inr zero"
  by (simp add: json_Unmarshal_def dec_struct_def)

section \<open>Objects with one string member\<close>

text \<open>A request with one string field, as an encoder writes it when nothing needs escaping.\<close>

definition json_quoted :: "string \<Rightarrow> string" where
  "json_quoted t = CHR 0x22 # t @ [CHR 0x22]"

definition one_string_object :: "string \<Rightarrow> string \<Rightarrow> bytes" where
  "one_string_object k t = CHR 0x7B # json_quoted k @ CHR '':'' # json_quoted t @ [CHR 0x7D]"

definition plain_char :: "char \<Rightarrow> bool" where
  "plain_char c \<longleftrightarrow> 32 \<le> (of_char c :: nat) \<and> of_char c < (128 :: nat) \<and> c \<noteq> CHR 0x22 \<and> c \<noteq> CHR 0x5C"

lemma string_body_plain:
  "list_all plain_char t \<Longrightarrow> length t < fuel \<Longrightarrow> string_body fuel (t @ CHR 0x22 # r) = Some (t, r)"
proof (induction t arbitrary: fuel)
  case Nil
  then show ?case by (cases fuel) simp_all
next
  case (Cons c t)
  then obtain f where f: "fuel = Suc f" "length t < f" by (cases fuel) auto
  from Cons.prems(1) have "list_all plain_char t" by simp
  from Cons.IH[OF this f(2)] Cons.prems(1) show ?case by (simp add: f(1) plain_char_def)
qed

lemma plain_char_ascii: "plain_char c \<Longrightarrow> is_ascii c"
  by (simp add: plain_char_def is_ascii_def)

lemma fix_utf8_plain:
  assumes "list_all plain_char t"
  shows "fix_utf8 t = t"
proof -
  have "list_all is_ascii t" using assms by (auto simp: list_all_iff plain_char_ascii)
  then have r: "runes t = map (\<lambda>c. [c]) t" by (rule runes_ascii)
  show ?thesis using assms unfolding fix_utf8_def r by (induction t) (simp_all add: plain_char_def)
qed

lemma parse_string_plain: "list_all plain_char t \<Longrightarrow> parse_string (t @ CHR 0x22 # r) = Some (t, r)"
  by (simp add: parse_string_def string_body_plain fix_utf8_plain)

lemma json_parse_one_string:
  assumes "list_all plain_char k" and "list_all plain_char t"
  shows "json_parse (one_string_object k t) = Some (JObj [(k, json_quoted t, JStr t)])"
proof -
  have v: "parse_value (Suc n) d (json_quoted t @ [CHR 0x7D]) = Some (JStr t, [CHR 0x7D])" for n d
    using assms(2) by (simp add: json_quoted_def parse_string_plain)
  have m: "parse_members (Suc (Suc n)) d True (json_quoted k @ CHR '':'' # json_quoted t @ [CHR 0x7D])
      = Some ([(k, json_quoted t, JStr t)], [])" for n d
    using assms(1) v[of n d] by (simp add: json_quoted_def parse_string_plain del: parse_value.simps)
  obtain n where n: "2 * length (one_string_object k t) + 2 = Suc (Suc (Suc n))"
    by (simp add: one_string_object_def)
  show ?thesis
    using m[of n 1] unfolding json_parse_def n
    by (simp add: one_string_object_def maxNestingDepth_def del: parse_members.simps)
qed

lemma TrimSpace_braces:
  "strings_TrimSpace (CHR 0x7B # s @ [CHR 0x7D]) = CHR 0x7B # s @ [CHR 0x7D]"
proof -
  have a: "is_ascii CHR 0x7B" "is_ascii CHR 0x7D" by (simp_all add: is_ascii_def)
  have "runes (CHR 0x7B # s @ [CHR 0x7D]) = [CHR 0x7B] # runes s @ [[CHR 0x7D]]"
    using runes_append_ascii[OF a(2), of s "[]"] a by (simp add: runes.simps)
  then show ?thesis by (simp add: strings_TrimSpace_def byte_in_def is_space.simps)
qed

section \<open>The parser always ends within its fuel\<close>

text \<open>Every parser leaves less than it was given.\<close>

lemma skip_ws_length: "length (skip_ws s) \<le> length s"
  by (induction s) auto

lemma string_body_shorter: "string_body n s = Some (t, r) \<Longrightarrow> length r < length s"
proof (induction n s arbitrary: t r rule: string_body.induct)
  case (3 fuel c s)
  have *: "length q < length p \<Longrightarrow> length p \<le> length s \<Longrightarrow> length q < Suc (length s)" for p q :: string
    by simp
  show ?case
    using 3
    by (auto simp: Let_def split: if_splits option.splits list.splits) (fastforce simp: Let_def)+
qed simp_all

lemma parse_string_shorter: "parse_string s = Some (t, r) \<Longrightarrow> length r < length s"
  by (auto simp: parse_string_def dest: string_body_shorter)

lemma parse_digits_shorter: "parse_digits s = Some (t, r) \<Longrightarrow> length r < length s"
proof -
  assume a: "parse_digits s = Some (t, r)"
  have l: "length (takeWhile is_digit s) + length (dropWhile is_digit s) = length s"
    by (metis length_append takeWhile_dropWhile_id)
  from a show ?thesis using l by (auto simp: parse_digits_def split: list.splits)
qed

lemma parse_int_part_shorter: "parse_int_part s = Some (t, r) \<Longrightarrow> length r < length s"
  by (auto simp: parse_int_part_def dest: parse_digits_shorter split: list.splits if_splits)

lemma parse_fraction_shorter: "parse_fraction s = Some (t, r) \<Longrightarrow> length r \<le> length s"
  by (auto simp: parse_fraction_def dest!: parse_digits_shorter split: list.splits if_splits)

lemma parse_exponent_shorter: "parse_exponent s = Some (t, r) \<Longrightarrow> length r \<le> length s"
  by (auto simp: parse_exponent_def Let_def dest!: parse_digits_shorter split: list.splits if_splits)

lemma parse_number_shorter: "parse_number s = Some (t, r) \<Longrightarrow> length r < length s"
  by (fastforce simp: parse_number_def Let_def
      dest: parse_int_part_shorter parse_fraction_shorter parse_exponent_shorter split: list.splits if_splits option.splits)

lemma skip_ws_Cons: "skip_ws s = c # r \<Longrightarrow> length r < length s"
  using skip_ws_length[of s] by simp

lemma parse_membersE:
  assumes "parse_members (Suc n) d first s = Some (ms, q)"
  obtains "skip_ws s = CHR 0x7D # q"
  | r k r1 r2 v q1 c q2 where "skip_ws s = CHR 0x22 # r" "parse_string r = Some (k, r1)"
      "skip_ws r1 = CHR '':'' # r2" "parse_value n d (skip_ws r2) = Some (v, q1)" "skip_ws q1 = c # q2"
      "c = CHR 0x7D \<and> q = q2 \<or> (\<exists>ms'. parse_members n d False q2 = Some (ms', q))"
  using assms by (auto simp: Let_def split: list.splits if_splits option.splits)

lemma parse_elementsE:
  assumes "parse_elements (Suc n) d first s = Some (vs, q)"
  obtains "skip_ws s = CHR 0x5D # q"
  | v q1 c q2 where "parse_value n d (skip_ws s) = Some (v, q1)" "skip_ws q1 = c # q2"
      "c = CHR 0x5D \<and> q = q2 \<or> (\<exists>vs'. parse_elements n d False q2 = Some (vs', q))"
  using assms by (auto simp: Let_def split: list.splits if_splits option.splits)

lemma parse_shorter:
  "parse_value n d s = Some (v, q) \<Longrightarrow> length q < length s"
  "parse_members n d first s = Some (ms, q) \<Longrightarrow> length q < length s"
  "parse_elements n d first s = Some (vs, q) \<Longrightarrow> length q < length s"
proof (induction n arbitrary: d s v q first ms vs)
  case (Suc n)
  {
    case 1
    then show ?case
      using skip_ws_length[of s]
      by (auto split: list.splits if_splits dest!: parse_string_shorter parse_number_shorter Suc.IH)
  next
    case 2
    then show ?case
    proof (cases rule: parse_membersE)
      case (2 r k r1 r2 v q1 c q2)
      with skip_ws_Cons[OF 2(1)] parse_string_shorter[OF 2(2)] skip_ws_Cons[OF 2(3)] Suc.IH(1)[OF 2(4)]
        skip_ws_length[of r2] skip_ws_Cons[OF 2(5)]
      show ?thesis by (auto dest!: Suc.IH(2))
    qed (use skip_ws_Cons in blast)
  next
    case 3
    then show ?case
    proof (cases rule: parse_elementsE)
      case (2 v q1 c q2)
      with Suc.IH(1)[OF 2(1)] skip_ws_length[of s] skip_ws_Cons[OF 2(2)]
      show ?thesis by (auto dest!: Suc.IH(3))
    qed (use skip_ws_Cons in blast)
  }
qed simp_all

text \<open>With fuel for twice the input left, one more step of fuel changes nothing.\<close>

lemma parse_fuel_Suc:
  "2 * length s + 1 \<le> n \<Longrightarrow> parse_value (Suc n) d s = parse_value n d s"
  "2 * length s + 1 \<le> n \<Longrightarrow> parse_members (Suc n) d first s = parse_members n d first s"
  "2 * length s + 2 \<le> n \<Longrightarrow> parse_elements (Suc n) d first s = parse_elements n d first s"
proof (induction n arbitrary: d s first)
  case (Suc n)
  {
    case 1
    then have "skip_ws s = c # r \<Longrightarrow> parse_members (Suc n) e f r = parse_members n e f r \<and>
        parse_elements (Suc n) e f r = parse_elements n e f r" for c r e f
      using skip_ws_Cons[of s c r] by (intro conjI Suc.IH) auto
    then show ?case
      unfolding parse_value.simps(2) by (auto simp del: parse_members.simps parse_elements.simps split: list.split)
  next
    case 2
    have val: "skip_ws s = c # r \<Longrightarrow> parse_string r = Some (k, r1) \<Longrightarrow> skip_ws r1 = c' # r2 \<Longrightarrow>
        parse_value (Suc n) d (skip_ws r2) = parse_value n d (skip_ws r2)" for c r k r1 c' r2
      using 2 skip_ws_Cons[of s c r] parse_string_shorter[of r k r1] skip_ws_Cons[of r1 c' r2] skip_ws_length[of r2]
      by (intro Suc.IH) simp
    have mem: "skip_ws s = c # r \<Longrightarrow> parse_string r = Some (k, r1) \<Longrightarrow> skip_ws r1 = c' # r2 \<Longrightarrow>
        parse_value n d (skip_ws r2) = Some (v, q) \<Longrightarrow> skip_ws q = c'' # q' \<Longrightarrow>
        parse_members (Suc n) d False q' = parse_members n d False q'" for c r k r1 c' r2 v q c'' q'
      using 2 skip_ws_Cons[of s c r] parse_string_shorter[of r k r1] skip_ws_Cons[of r1 c' r2] skip_ws_length[of r2]
        parse_shorter(1)[of n d "skip_ws r2" v q] skip_ws_Cons[of q c'' q']
      by (intro Suc.IH) simp
    show ?case
    proof (cases "\<exists>c r k r1 c' r2. skip_ws s = c # r \<and> parse_string r = Some (k, r1) \<and> skip_ws r1 = c' # r2")
      case True
      then obtain c r k r1 c' r2 where s: "skip_ws s = c # r" "parse_string r = Some (k, r1)" "skip_ws r1 = c' # r2"
        by blast
      show ?thesis
      proof (cases "parse_value n d (skip_ws r2)")
        case None
        then show ?thesis
          unfolding parse_members.simps(2)[of "Suc n" d first s] parse_members.simps(2)[of n d first s] s list.case option.case prod.case Let_def val[OF s] by simp
      next
        case (Some p)
        obtain v q where p: "p = (v, q)" by (cases p)
        show ?thesis
          unfolding parse_members.simps(2)[of "Suc n" d first s] parse_members.simps(2)[of n d first s] s list.case option.case prod.case Let_def val[OF s] Some p
          by (cases "skip_ws q") (simp_all add: mem[OF s Some[unfolded p]] del: parse_members.simps)
      qed
    next
      case False
      then show ?thesis
        unfolding parse_members.simps(2)[of "Suc n" d first s] parse_members.simps(2)[of n d first s] by (auto split: list.split option.split)
    qed
  next
    case 3
    have val: "skip_ws s = c # r \<Longrightarrow> parse_value (Suc n) d (c # r) = parse_value n d (c # r)" for c r
      using 3 skip_ws_Cons[of s c r] by (intro Suc.IH) simp
    have el: "skip_ws s = c # r \<Longrightarrow> parse_value n d (c # r) = Some (v, q) \<Longrightarrow> skip_ws q = c'' # q' \<Longrightarrow>
        parse_elements (Suc n) d False q' = parse_elements n d False q'" for c r v q c'' q'
      using 3 skip_ws_Cons[of s c r] parse_shorter(1)[of n d "c # r" v q] skip_ws_Cons[of q c'' q']
      by (intro Suc.IH) simp
    show ?case
      unfolding parse_elements.simps(2)[of "Suc n" d first s] parse_elements.simps(2)[of n d first s]
      by (auto simp: val el simp del: parse_value.simps parse_elements.simps split: list.split option.split)
  }
qed simp_all

lemma parse_fuel_mono:
  assumes "2 * length s + 2 \<le> n"
  shows "parse_value (n + k) d s = parse_value n d s"
  using assms by (induction k) (simp_all add: parse_fuel_Suc(1) del: parse_value.simps)

text \<open>
  The parser never runs out of fuel: the bound \<open>json_parse\<close> uses, twice the length of the
  input plus two, gives the same answer as every larger bound, so a refusal is a refusal of
  the text, and what is left after a value is always shorter than what was given.
\<close>

theorem json_parse_terminates:
  assumes "2 * length data + 2 \<le> n"
  shows "json_parse data =
    (case parse_value n 0 data of
       Some (v, rest) \<Rightarrow> if skip_ws rest = [] then Some v else None
     | None \<Rightarrow> None)"
proof -
  from assms obtain k where "n = 2 * length data + 2 + k" using le_Suc_ex by blast
  with parse_fuel_mono[OF order_refl, of data k 0] show ?thesis by (simp only: json_parse_def)
qed

theorem json_parse_terminates_witness:
  "json_parse ''[true]'' =
    (case parse_value 1000 0 ''[true]'' of
       Some (v, rest) \<Rightarrow> if skip_ws rest = [] then Some v else None
     | None \<Rightarrow> None)"
  by (rule json_parse_terminates) simp

end
