(* ===== verification/Params.thy ===== *)
theory Params
  imports Go_Json
begin

text \<open>
  Model of the request types of \<open>types.go\<close>, their decoding from JSON, \<open>ParameterValidator\<close> and
  the two unmarshal helpers, the plain one and the one that reuses pooled objects.
\<close>

section \<open>Methods\<close>

definition MethodInitialize :: string where "MethodInitialize = ''initialize''"
definition MethodPing :: string where "MethodPing = ''ping''"
definition MethodRootsList :: string where "MethodRootsList = ''roots/list''"
definition MethodCompletionComplete :: string where "MethodCompletionComplete = ''completion/complete''"
definition MethodLoggingSetLevel :: string where "MethodLoggingSetLevel = ''logging/setLevel''"
definition MethodSamplingCreateMessage :: string where
  "MethodSamplingCreateMessage = ''sampling/createMessage''"
definition MethodElicitationCreate :: string where "MethodElicitationCreate = ''elicitation/create''"
definition MethodResourcesList :: string where "MethodResourcesList = ''resources/list''"
definition MethodResourcesTemplatesList :: string where
  "MethodResourcesTemplatesList = ''resources/templates/list''"
definition MethodResourcesSubscribe :: string where "MethodResourcesSubscribe = ''resources/subscribe''"
definition MethodResourcesUnsubscribe :: string where
  "MethodResourcesUnsubscribe = ''resources/unsubscribe''"
definition MethodResourcesRead :: string where "MethodResourcesRead = ''resources/read''"
definition MethodPromptsList :: string where "MethodPromptsList = ''prompts/list''"
definition MethodPromptsGet :: string where "MethodPromptsGet = ''prompts/get''"
definition MethodToolsList :: string where "MethodToolsList = ''tools/list''"
definition MethodToolsCall :: string where "MethodToolsCall = ''tools/call''"
definition MethodNotificationCancelled :: string where
  "MethodNotificationCancelled = ''notifications/cancelled''"
definition MethodProgress :: string where "MethodProgress = ''notifications/progress''"
definition MethodLogging :: string where "MethodLogging = ''notifications/message''"
definition MethodElicitationComplete :: string where
  "MethodElicitationComplete = ''notifications/elicitation/complete''"
definition MethodResourceUpdated :: string where
  "MethodResourceUpdated = ''notifications/resources/updated''"
definition MethodResourceListChanged :: string where
  "MethodResourceListChanged = ''notifications/resources/list_changed''"
definition MethodPromptListChanged :: string where
  "MethodPromptListChanged = ''notifications/prompts/list_changed''"
definition MethodToolListChanged :: string where
  "MethodToolListChanged = ''notifications/tools/list_changed''"

lemmas method_defs = MethodInitialize_def MethodPing_def MethodRootsList_def
  MethodCompletionComplete_def MethodLoggingSetLevel_def MethodSamplingCreateMessage_def
  MethodElicitationCreate_def MethodResourcesList_def MethodResourcesTemplatesList_def
  MethodResourcesSubscribe_def MethodResourcesUnsubscribe_def MethodResourcesRead_def
  MethodPromptsList_def MethodPromptsGet_def MethodToolsList_def MethodToolsCall_def
  MethodNotificationCancelled_def MethodProgress_def MethodLogging_def
  MethodElicitationComplete_def MethodResourceUpdated_def MethodResourceListChanged_def
  MethodPromptListChanged_def MethodToolListChanged_def

section \<open>Request types\<close>

type_synonym json_members = "(string \<times> string \<times> JSON) list"

record Implementation =
  impl_Name :: string
  impl_Version :: string

record ElicitationCapabilities =
  cap_Form :: "unit option"
  cap_URL :: "unit option"

record TaskRequestCapabilities =
  task_Sampling :: "unit option option"
  task_Elicitation :: "unit option option"

record TaskCapabilities =
  task_List :: "unit option"
  task_Cancel :: "unit option"
  task_Requests :: "TaskRequestCapabilities option"

record ClientCapabilities =
  Experimental :: "json_members option"
  Roots :: "bool option"             \<comment> \<open>\<open>ListChanged\<close> of the roots capability\<close>
  Sampling :: "unit option"
  Elicitation :: "ElicitationCapabilities option"
  Tasks :: "TaskCapabilities option"

record InitializeRequest =
  ProtocolVersion :: string
  ClientInfo :: Implementation
  Capabilities :: ClientCapabilities

record CallToolRequest =
  call_Name :: string
  call_Arguments :: "bytes option"
  call_Meta :: "json_members option"

record GetPromptRequest =
  get_Name :: string
  get_Arguments :: "json_members option"

record CompleteRequest =
  complete_Ref :: JSON
  complete_ArgName :: string
  complete_ArgValue :: string

text \<open>\<open>CallToolRequest.ProgressToken\<close>: the last member of that name, as in a Go map.\<close>

definition ProgressToken :: "CallToolRequest \<Rightarrow> JSON" where
  "ProgressToken r =
     (case call_Meta r of
        None \<Rightarrow> JNull
      | Some ms \<Rightarrow>
          (case map_of (rev ms) ''progressToken'' of Some (_, v) \<Rightarrow> v | None \<Rightarrow> JNull))"

section \<open>Decoding\<close>

definition sum_bind :: "mcp_error + 'a \<Rightarrow> ('a \<Rightarrow> mcp_error + 'b) \<Rightarrow> mcp_error + 'b" where
  "sum_bind r f = (case r of Inl e \<Rightarrow> Inl e | Inr x \<Rightarrow> f x)"

lemma sum_bind_simps [simp]: "sum_bind (Inl e) f = Inl e" "sum_bind (Inr x) f = f x"
  by (simp_all add: sum_bind_def)

lemma sum_bind_eq_Inr: "sum_bind r f = Inr y \<longleftrightarrow> (\<exists>x. r = Inr x \<and> f x = Inr y)"
  by (cases r) auto

text \<open>Decoding one field of a struct: its decoder run over the values of that field.\<close>

definition field :: "string list \<Rightarrow> json_members \<Rightarrow> string \<Rightarrow> 'a decoder \<Rightarrow> 'a \<Rightarrow> mcp_error + 'a" where
  "field names ms f dec x = decode_all dec x (field_values names f ms)"

definition dec_empty :: "unit option decoder" where
  "dec_empty = dec_ptr () (\<lambda>x ms. Inr x)"

definition dec_Implementation :: "Implementation \<Rightarrow> json_members \<Rightarrow> mcp_error + Implementation" where
  "dec_Implementation x ms =
     (let F = [''name'', ''version'']
      in sum_bind (field F ms ''name'' dec_string (impl_Name x)) (\<lambda>n.
         sum_bind (field F ms ''version'' dec_string (impl_Version x)) (\<lambda>v.
         Inr \<lparr>impl_Name = n, impl_Version = v\<rparr>)))"

definition dec_Elicitation :: "ElicitationCapabilities \<Rightarrow> json_members \<Rightarrow> mcp_error + ElicitationCapabilities" where
  "dec_Elicitation x ms =
     (let F = [''form'', ''url'']
      in sum_bind (field F ms ''form'' dec_empty (cap_Form x)) (\<lambda>f.
         sum_bind (field F ms ''url'' dec_empty (cap_URL x)) (\<lambda>u.
         Inr \<lparr>cap_Form = f, cap_URL = u\<rparr>)))"

definition dec_TaskRequests :: "TaskRequestCapabilities \<Rightarrow> json_members \<Rightarrow> mcp_error + TaskRequestCapabilities" where
  "dec_TaskRequests x ms =
     (let F = [''sampling'', ''elicitation'']
      in sum_bind (field F ms ''sampling''
           (dec_ptr None (\<lambda>x ms. field [''createMessage''] ms ''createMessage'' dec_empty x)) (task_Sampling x)) (\<lambda>s.
         sum_bind (field F ms ''elicitation''
           (dec_ptr None (\<lambda>x ms. field [''create''] ms ''create'' dec_empty x)) (task_Elicitation x)) (\<lambda>e.
         Inr \<lparr>task_Sampling = s, task_Elicitation = e\<rparr>)))"

definition dec_Tasks :: "TaskCapabilities \<Rightarrow> json_members \<Rightarrow> mcp_error + TaskCapabilities" where
  "dec_Tasks x ms =
     (let F = [''list'', ''cancel'', ''requests'']
      in sum_bind (field F ms ''list'' dec_empty (task_List x)) (\<lambda>l.
         sum_bind (field F ms ''cancel'' dec_empty (task_Cancel x)) (\<lambda>c.
         sum_bind (field F ms ''requests''
           (dec_ptr \<lparr>task_Sampling = None, task_Elicitation = None\<rparr> dec_TaskRequests) (task_Requests x)) (\<lambda>r.
         Inr \<lparr>task_List = l, task_Cancel = c, task_Requests = r\<rparr>))))"

definition no_ClientCapabilities :: ClientCapabilities where
  "no_ClientCapabilities = \<lparr>Experimental = None, Roots = None, Sampling = None, Elicitation = None,
     Tasks = None\<rparr>"

definition dec_ClientCapabilities :: "ClientCapabilities \<Rightarrow> json_members \<Rightarrow> mcp_error + ClientCapabilities" where
  "dec_ClientCapabilities x ms =
     (let F = [''experimental'', ''roots'', ''sampling'', ''elicitation'', ''tasks'']
      in sum_bind (field F ms ''experimental'' dec_map (Experimental x)) (\<lambda>ex.
         sum_bind (field F ms ''roots''
           (dec_ptr False (\<lambda>x ms. field [''listChanged''] ms ''listChanged'' dec_bool x)) (Roots x)) (\<lambda>ro.
         sum_bind (field F ms ''sampling'' dec_empty (Sampling x)) (\<lambda>sa.
         sum_bind (field F ms ''elicitation''
           (dec_ptr \<lparr>cap_Form = None, cap_URL = None\<rparr> dec_Elicitation) (Elicitation x)) (\<lambda>el.
         sum_bind (field F ms ''tasks''
           (dec_ptr \<lparr>task_List = None, task_Cancel = None, task_Requests = None\<rparr> dec_Tasks) (Tasks x)) (\<lambda>ta.
         Inr \<lparr>Experimental = ex, Roots = ro, Sampling = sa, Elicitation = el, Tasks = ta\<rparr>))))))"

definition zero_InitializeRequest :: InitializeRequest where
  "zero_InitializeRequest = \<lparr>ProtocolVersion = [], ClientInfo = \<lparr>impl_Name = [], impl_Version = []\<rparr>,
     Capabilities = no_ClientCapabilities\<rparr>"

definition dec_InitializeRequest :: "InitializeRequest \<Rightarrow> json_members \<Rightarrow> mcp_error + InitializeRequest" where
  "dec_InitializeRequest x ms =
     (let F = [''protocolVersion'', ''clientInfo'', ''capabilities'']
      in sum_bind (field F ms ''protocolVersion'' dec_string (ProtocolVersion x)) (\<lambda>v.
         sum_bind (field F ms ''clientInfo'' (dec_struct dec_Implementation) (ClientInfo x)) (\<lambda>i.
         sum_bind (field F ms ''capabilities'' (dec_struct dec_ClientCapabilities) (Capabilities x)) (\<lambda>c.
         Inr \<lparr>ProtocolVersion = v, ClientInfo = i, Capabilities = c\<rparr>))))"

definition zero_CallToolRequest :: CallToolRequest where
  "zero_CallToolRequest = \<lparr>call_Name = [], call_Arguments = None, call_Meta = None\<rparr>"

definition dec_CallToolRequest :: "CallToolRequest \<Rightarrow> json_members \<Rightarrow> mcp_error + CallToolRequest" where
  "dec_CallToolRequest x ms =
     (let F = [''name'', ''arguments'', ''_meta'']
      in sum_bind (field F ms ''name'' dec_string (call_Name x)) (\<lambda>n.
         sum_bind (field F ms ''arguments'' dec_raw (call_Arguments x)) (\<lambda>a.
         sum_bind (field F ms ''_meta'' dec_map (call_Meta x)) (\<lambda>m.
         Inr \<lparr>call_Name = n, call_Arguments = a, call_Meta = m\<rparr>))))"

definition zero_GetPromptRequest :: GetPromptRequest where
  "zero_GetPromptRequest = \<lparr>get_Name = [], get_Arguments = None\<rparr>"

definition dec_GetPromptRequest :: "GetPromptRequest \<Rightarrow> json_members \<Rightarrow> mcp_error + GetPromptRequest" where
  "dec_GetPromptRequest x ms =
     (let F = [''name'', ''arguments'']
      in sum_bind (field F ms ''name'' dec_string (get_Name x)) (\<lambda>n.
         sum_bind (field F ms ''arguments'' dec_map (get_Arguments x)) (\<lambda>a.
         Inr \<lparr>get_Name = n, get_Arguments = a\<rparr>)))"

definition zero_CompleteRequest :: CompleteRequest where
  "zero_CompleteRequest = \<lparr>complete_Ref = JNull, complete_ArgName = [], complete_ArgValue = []\<rparr>"

definition dec_CompleteRequest :: "CompleteRequest \<Rightarrow> json_members \<Rightarrow> mcp_error + CompleteRequest" where
  "dec_CompleteRequest x ms =
     (let F = [''ref'', ''argument'']; G = [''name'', ''value'']
      in sum_bind (field F ms ''ref'' dec_any (complete_Ref x)) (\<lambda>r.
         sum_bind (field F ms ''argument''
           (dec_struct (\<lambda>(n, v) ms.
              sum_bind (field G ms ''name'' dec_string n) (\<lambda>n.
              sum_bind (field G ms ''value'' dec_string v) (\<lambda>v. Inr (n, v)))))
           (complete_ArgName x, complete_ArgValue x)) (\<lambda>(n, v).
         Inr \<lparr>complete_Ref = r, complete_ArgName = n, complete_ArgValue = v\<rparr>)))"

text \<open>The requests that consist of one string: the list requests with their cursor, the resource
  requests with their URI and \<open>logging/setLevel\<close> with its level.\<close>

definition dec_one_string :: "string \<Rightarrow> string \<Rightarrow> json_members \<Rightarrow> mcp_error + string" where
  "dec_one_string name x ms = field [name] ms name dec_string x"

section \<open>Validation\<close>

record ValidationConfig =
  MaxRequestSize :: int
  MaxResponseSize :: int
  ValidateRequired :: bool
  ValidateFormat :: bool

definition DefaultValidationConfig :: ValidationConfig where
  "DefaultValidationConfig = \<lparr>MaxRequestSize = 1024 * 1024, MaxResponseSize = 10 * 1024 * 1024,
     ValidateRequired = True, ValidateFormat = True\<rparr>"

definition NewParameterValidator :: "ValidationConfig option \<Rightarrow> ValidationConfig" where
  "NewParameterValidator config = (case config of None \<Rightarrow> DefaultValidationConfig | Some c \<Rightarrow> c)"

definition ValidateRequestSize :: "bytes \<Rightarrow> int \<Rightarrow> mcp_error option" where
  "ValidateRequestSize data maxSize =
     (if maxSize < int (length data)
      then Some (ParameterError [] [] (''request size '' @ show_int (int (length data)) @
             '' exceeds maximum '' @ show_int maxSize @ '' bytes'') None)
      else None)"

text \<open>The fields are ranged over in the order of the list.\<close>

fun ValidateRequiredFields :: "string \<Rightarrow> (string \<times> string) list \<Rightarrow> mcp_error option" where
  "ValidateRequiredFields method [] = None"
| "ValidateRequiredFields method ((f, value) # fs) =
     (if value = [] then Some (NewParameterError method f ''required field is empty'' None)
      else ValidateRequiredFields method fs)"

definition ValidateRequest :: "ValidationConfig \<Rightarrow> string \<Rightarrow> bytes \<Rightarrow> mcp_error option" where
  "ValidateRequest v method requestData =
     (case ValidateRequestSize requestData (MaxRequestSize v) of
        Some e \<Rightarrow> Some e
      | None \<Rightarrow>
          if \<not> json_Valid requestData then Some (NewParameterError method [] ''invalid JSON format'' None)
          else None)"

text \<open>\<open>swap\<close> is the order in which the map of the two required fields is ranged over.\<close>

definition ValidateInitializeRequest :: "bool \<Rightarrow> ValidationConfig \<Rightarrow> InitializeRequest \<Rightarrow> mcp_error option" where
  "ValidateInitializeRequest swap v params =
     (if \<not> ValidateRequired v then None
      else let fs = [(''protocolVersion'', ProtocolVersion params),
                     (''clientInfo.name'', impl_Name (ClientInfo params))]
           in ValidateRequiredFields MethodInitialize (if swap then rev fs else fs))"

text \<open>A range loop over the runes of a string; a byte outside ASCII is part of a rune that no
  comparison of these functions accepts.\<close>

definition identifier_char :: "char \<Rightarrow> bool" where
  "identifier_char r \<longleftrightarrow> (CHR ''a'' \<le> r \<and> r \<le> CHR ''z'') \<or> (CHR ''A'' \<le> r \<and> r \<le> CHR ''Z'') \<or>
     (CHR ''0'' \<le> r \<and> r \<le> CHR ''9'') \<or> r \<in> set ''_-.''"

definition isValidIdentifier :: "string \<Rightarrow> bool" where
  "isValidIdentifier s \<longleftrightarrow> s \<noteq> [] \<and> list_all identifier_char s"

definition uri_char :: "char \<Rightarrow> bool" where
  "uri_char r \<longleftrightarrow> (CHR ''a'' \<le> r \<and> r \<le> CHR ''z'') \<or> (CHR ''A'' \<le> r \<and> r \<le> CHR ''Z'') \<or>
     (CHR ''0'' \<le> r \<and> r \<le> CHR ''9'') \<or> r \<in> set ''/:.-_?&=#''"

definition isValidURI :: "string \<Rightarrow> bool" where
  "isValidURI s \<longleftrightarrow> s \<noteq> [] \<and> list_all uri_char s"

definition ValidateCallToolRequest :: "ValidationConfig \<Rightarrow> CallToolRequest \<Rightarrow> mcp_error option" where
  "ValidateCallToolRequest v params =
     (if \<not> ValidateRequired v then None
      else case ValidateRequiredFields MethodToolsCall [(''name'', call_Name params)] of
             Some e \<Rightarrow> Some e
           | None \<Rightarrow>
               if ValidateFormat v \<and> \<not> isValidIdentifier (call_Name params)
               then Some (NewParameterError MethodToolsCall ''name'' ''invalid tool name format'' None)
               else None)"

definition ValidateGetPromptRequest :: "ValidationConfig \<Rightarrow> GetPromptRequest \<Rightarrow> mcp_error option" where
  "ValidateGetPromptRequest v params =
     (if \<not> ValidateRequired v then None
      else case ValidateRequiredFields MethodPromptsGet [(''name'', get_Name params)] of
             Some e \<Rightarrow> Some e
           | None \<Rightarrow>
               if ValidateFormat v \<and> \<not> isValidIdentifier (get_Name params)
               then Some (NewParameterError MethodPromptsGet ''name'' ''invalid prompt name format'' None)
               else None)"

definition ValidateReadResourceRequest :: "ValidationConfig \<Rightarrow> string \<Rightarrow> mcp_error option" where
  "ValidateReadResourceRequest v uri =
     (if \<not> ValidateRequired v then None
      else case ValidateRequiredFields MethodResourcesRead [(''uri'', uri)] of
             Some e \<Rightarrow> Some e
           | None \<Rightarrow>
               if ValidateFormat v \<and> \<not> isValidURI uri
               then Some (NewParameterError MethodResourcesRead ''uri'' ''invalid URI format'' None)
               else None)"

definition ValidateResourceSubscription :: "ValidationConfig \<Rightarrow> string \<Rightarrow> string \<Rightarrow> mcp_error option" where
  "ValidateResourceSubscription v method uri =
     (if \<not> ValidateRequired v then None
      else case ValidateRequiredFields method [(''uri'', uri)] of
             Some e \<Rightarrow> Some e
           | None \<Rightarrow>
               if ValidateFormat v \<and> \<not> isValidURI uri
               then Some (NewParameterError method ''uri'' ''invalid URI format'' None)
               else None)"

section \<open>Unmarshal helpers\<close>

text \<open>An optional validator; \<open>None\<close> is a nil validator.\<close>

definition validate_opt :: "(ValidationConfig \<Rightarrow> mcp_error option) \<Rightarrow> ValidationConfig option \<Rightarrow> mcp_error option" where
  "validate_opt check u = (case u of None \<Rightarrow> None | Some v \<Rightarrow> check v)"

text \<open>The common shape of the helpers: validate the text, decode into \<open>zero\<close>, validate the result.\<close>

definition unmarshal_and_validate ::
  "string \<Rightarrow> ('a \<Rightarrow> json_members \<Rightarrow> mcp_error + 'a) \<Rightarrow> 'a \<Rightarrow> (ValidationConfig \<Rightarrow> 'a \<Rightarrow> mcp_error option) \<Rightarrow>
   ValidationConfig option \<Rightarrow> bytes \<Rightarrow> mcp_error + 'a" where
  "unmarshal_and_validate method dec zero check u data =
     (case validate_opt (\<lambda>v. ValidateRequest v method data) u of
        Some e \<Rightarrow> Inl e
      | None \<Rightarrow>
          (case json_Unmarshal dec zero data of
             Inl e \<Rightarrow> Inl (NewParameterErrorFromJSON method e)
           | Inr params \<Rightarrow>
               (case validate_opt (\<lambda>v. check v params) u of
                  Some e \<Rightarrow> Inl e
                | None \<Rightarrow> Inr params)))"

definition UnmarshalAndValidateInitialize ::
  "bool \<Rightarrow> ValidationConfig option \<Rightarrow> bytes \<Rightarrow> mcp_error + InitializeRequest" where
  "UnmarshalAndValidateInitialize swap u data =
     unmarshal_and_validate MethodInitialize dec_InitializeRequest zero_InitializeRequest
       (ValidateInitializeRequest swap) u data"

definition UnmarshalAndValidateCallTool :: "ValidationConfig option \<Rightarrow> bytes \<Rightarrow> mcp_error + CallToolRequest" where
  "UnmarshalAndValidateCallTool u data =
     unmarshal_and_validate MethodToolsCall dec_CallToolRequest zero_CallToolRequest
       ValidateCallToolRequest u data"

definition UnmarshalAndValidateGetPrompt :: "ValidationConfig option \<Rightarrow> bytes \<Rightarrow> mcp_error + GetPromptRequest" where
  "UnmarshalAndValidateGetPrompt u data =
     unmarshal_and_validate MethodPromptsGet dec_GetPromptRequest zero_GetPromptRequest
       ValidateGetPromptRequest u data"

definition UnmarshalAndValidateReadResource :: "ValidationConfig option \<Rightarrow> bytes \<Rightarrow> mcp_error + string" where
  "UnmarshalAndValidateReadResource u data =
     unmarshal_and_validate MethodResourcesRead (dec_one_string ''uri'') []
       ValidateReadResourceRequest u data"

text \<open>An object pool: \<open>Get\<close> returns a new object or one that was put back, whatever its contents,
  after the reset function; which one \<open>sync.Pool\<close> picks is the argument \<open>i\<close>.\<close>

type_synonym 'a ObjectPool = "'a list"

definition ObjectPool_Get :: "('a \<Rightarrow> 'a) \<Rightarrow> 'a \<Rightarrow> nat \<Rightarrow> 'a ObjectPool \<Rightarrow> 'a \<times> 'a ObjectPool" where
  "ObjectPool_Get reset new i pool =
     (if i < length pool then (reset (pool ! i), take i pool @ drop (Suc i) pool)
      else (reset new, pool))"

definition ObjectPool_Put :: "'a \<Rightarrow> 'a ObjectPool \<Rightarrow> 'a ObjectPool" where
  "ObjectPool_Put obj pool = obj # pool"

definition initializeRequest_reset :: "InitializeRequest \<Rightarrow> InitializeRequest" where
  "initializeRequest_reset r = zero_InitializeRequest"

definition callToolRequest_reset :: "CallToolRequest \<Rightarrow> CallToolRequest" where
  "callToolRequest_reset r = zero_CallToolRequest"

text \<open>On an error the object goes back to the pool, in the state decoding left it in (\<open>dirty\<close>).\<close>

definition unmarshal_pooled ::
  "string \<Rightarrow> ('a \<Rightarrow> json_members \<Rightarrow> mcp_error + 'a) \<Rightarrow> ('a \<Rightarrow> 'a) \<Rightarrow> 'a \<Rightarrow> (ValidationConfig \<Rightarrow> 'a \<Rightarrow> mcp_error option) \<Rightarrow>
   nat \<Rightarrow> 'a \<Rightarrow> ValidationConfig option \<Rightarrow> bytes \<Rightarrow> 'a ObjectPool \<Rightarrow> (mcp_error + 'a) \<times> 'a ObjectPool" where
  "unmarshal_pooled method dec reset new check i dirty u data pool =
     (case validate_opt (\<lambda>v. ValidateRequest v method data) u of
        Some e \<Rightarrow> (Inl e, pool)
      | None \<Rightarrow>
          (case ObjectPool_Get reset new i pool of (params, pool) \<Rightarrow>
             (case json_Unmarshal dec params data of
                Inl e \<Rightarrow> (Inl (NewParameterErrorFromJSON method e), ObjectPool_Put dirty pool)
              | Inr params \<Rightarrow>
                  (case validate_opt (\<lambda>v. check v params) u of
                     Some e \<Rightarrow> (Inl e, ObjectPool_Put params pool)
                   | None \<Rightarrow> (Inr params, pool)))))"

definition UnmarshalAndValidateInitializePooled ::
  "bool \<Rightarrow> nat \<Rightarrow> InitializeRequest \<Rightarrow> ValidationConfig option \<Rightarrow> bytes \<Rightarrow> InitializeRequest ObjectPool \<Rightarrow>
   (mcp_error + InitializeRequest) \<times> InitializeRequest ObjectPool" where
  "UnmarshalAndValidateInitializePooled swap =
     unmarshal_pooled MethodInitialize dec_InitializeRequest initializeRequest_reset
       zero_InitializeRequest (ValidateInitializeRequest swap)"

definition UnmarshalAndValidateCallToolPooled ::
  "nat \<Rightarrow> CallToolRequest \<Rightarrow> ValidationConfig option \<Rightarrow> bytes \<Rightarrow> CallToolRequest ObjectPool \<Rightarrow>
   (mcp_error + CallToolRequest) \<times> CallToolRequest ObjectPool" where
  "UnmarshalAndValidateCallToolPooled =
     unmarshal_pooled MethodToolsCall dec_CallToolRequest callToolRequest_reset
       zero_CallToolRequest ValidateCallToolRequest"

lemma unmarshal_pooled_eq:
  assumes "\<And>x. reset x = zero"
  shows "fst (unmarshal_pooled method dec reset new check i dirty u data pool)
       = unmarshal_and_validate method dec zero check u data"
proof -
  have g: "ObjectPool_Get reset new i pool = (zero, snd (ObjectPool_Get reset new i pool))"
    by (simp add: ObjectPool_Get_def assms)
  show ?thesis
    unfolding unmarshal_pooled_def unmarshal_and_validate_def
    by (subst g) (simp split: option.split sum.split)
qed

lemma ValidateRequest_None:
  "ValidateRequest v method data = None \<longleftrightarrow> int (length data) \<le> MaxRequestSize v \<and> json_Valid data"
  by (auto simp: ValidateRequest_def ValidateRequestSize_def)

lemma ValidateRequiredFields_None:
  "ValidateRequiredFields m fs = None \<longleftrightarrow> (\<forall>(f, value) \<in> set fs. value \<noteq> [])"
  by (induction m fs rule: ValidateRequiredFields.induct) auto

lemma ValidateCallTool_None:
  "ValidateCallToolRequest v p = None \<longleftrightarrow>
     (ValidateRequired v \<longrightarrow> call_Name p \<noteq> [] \<and> (ValidateFormat v \<longrightarrow> isValidIdentifier (call_Name p)))"
  by (auto simp: ValidateCallToolRequest_def)

lemma ValidateGetPrompt_None:
  "ValidateGetPromptRequest v p = None \<longleftrightarrow>
     (ValidateRequired v \<longrightarrow> get_Name p \<noteq> [] \<and> (ValidateFormat v \<longrightarrow> isValidIdentifier (get_Name p)))"
  by (auto simp: ValidateGetPromptRequest_def)

lemma ValidateReadResource_None:
  "ValidateReadResourceRequest v uri = None \<longleftrightarrow>
     (ValidateRequired v \<longrightarrow> uri \<noteq> [] \<and> (ValidateFormat v \<longrightarrow> isValidURI uri))"
  by (auto simp: ValidateReadResourceRequest_def)

lemma ValidateSubscription_None:
  "ValidateResourceSubscription v method uri = None \<longleftrightarrow>
     (ValidateRequired v \<longrightarrow> uri \<noteq> [] \<and> (ValidateFormat v \<longrightarrow> isValidURI uri))"
  by (auto simp: ValidateResourceSubscription_def)

lemma ValidateInitialize_None:
  "ValidateInitializeRequest swap v p = None \<longleftrightarrow>
     (ValidateRequired v \<longrightarrow> ProtocolVersion p \<noteq> [] \<and> impl_Name (ClientInfo p) \<noteq> [])"
  by (auto simp: ValidateInitializeRequest_def ValidateRequiredFields_None Let_def)

lemmas validators_None = ValidateRequest_None ValidateCallTool_None ValidateGetPrompt_None
  ValidateReadResource_None ValidateSubscription_None ValidateInitialize_None

section \<open>Properties\<close>

text \<open>
  C13. Object pooling is invisible: whatever objects earlier requests left in the pool and
  whichever of them is reused, the pooled helpers return what the plain helpers return.
\<close>

theorem pooled_unmarshal_equals_plain:
  "fst (UnmarshalAndValidateInitializePooled swap i dirty u data pool)
     = UnmarshalAndValidateInitialize swap u data \<and>
   fst (UnmarshalAndValidateCallToolPooled i' dirty' u data pool')
     = UnmarshalAndValidateCallTool u data"
  by (simp add: UnmarshalAndValidateInitializePooled_def UnmarshalAndValidateInitialize_def
      UnmarshalAndValidateCallToolPooled_def UnmarshalAndValidateCallTool_def
      unmarshal_pooled_eq initializeRequest_reset_def callToolRequest_reset_def)

end
