(* ===== verification/Middleware.thy ===== *)
theory Middleware
  imports Errors
begin

text \<open>
  Model of the middleware interfaces of \<open>middleware.go\<close>, the chain
  (\<open>MiddlewareChain.Apply\<close> in \<open>middleware_integration.go\<close>) with its bubble sort, and the
  group (\<open>MiddlewareGroup.Apply\<close> in \<open>middleware_registry.go\<close>).

  A handler takes a context, a request and the state of the world it works on, and returns the
  new state with the response and the error, or panics. A middleware maps handlers to
  handlers and has a name and a priority.
\<close>

record MCPRequest =
  req_method :: string
  req_id :: string                  \<comment> \<open>the request id, printed; empty for a notification\<close>
  req_params :: "bytes option"      \<comment> \<open>\<open>None\<close> for nil\<close>

datatype 'r MCPResponse =
    successResponse 'r
  | errorResponse int string

fun resp_IsError :: "'r MCPResponse \<Rightarrow> bool" where
  "resp_IsError (successResponse r) = False"
| "resp_IsError (errorResponse code msg) = True"

text \<open>What a call gives: a response (\<open>None\<close> for nil) and an error, or a panic.\<close>

datatype 'a call = Ret "'a option" "mcp_error option" | Panic panic_value

type_synonym ('c, 's, 'r) MCPHandler = "'c \<Rightarrow> MCPRequest \<Rightarrow> 's \<Rightarrow> 's \<times> 'r MCPResponse call"

datatype ('c, 's, 'r) Middleware = Middleware
  (mw_Name: string)
  (mw_Priority: int)
  (mw_Apply: "('c, 's, 'r) MCPHandler \<Rightarrow> ('c, 's, 'r) MCPHandler")

section \<open>The chain\<close>

text \<open>The inner loop of the bubble sort: \<open>k\<close> comparisons from the front, the lower priority
  moves back.\<close>

fun bubble_pass :: "('a \<Rightarrow> int) \<Rightarrow> nat \<Rightarrow> 'a list \<Rightarrow> 'a list" where
  "bubble_pass pri (Suc k) (x # y # r) =
     (if pri x < pri y then y # bubble_pass pri k (x # r) else x # bubble_pass pri k (y # r))"
| "bubble_pass pri _ xs = xs"

text \<open>The outer loop: \<open>i\<close> runs from zero to the length minus two, with \<open>length - i - 1\<close>
  comparisons each; \<open>n\<close> is \<open>length - i - 1\<close>.\<close>

fun bubble_loop :: "('a \<Rightarrow> int) \<Rightarrow> nat \<Rightarrow> 'a list \<Rightarrow> 'a list" where
  "bubble_loop pri 0 xs = xs"
| "bubble_loop pri (Suc n) xs = bubble_loop pri n (bubble_pass pri (Suc n) xs)"

definition bubble_sort :: "('a \<Rightarrow> int) \<Rightarrow> 'a list \<Rightarrow> 'a list" where
  "bubble_sort pri xs = bubble_loop pri (length xs - 1) xs"

definition chain_Apply :: "('c, 's, 'r) Middleware list \<Rightarrow> ('c, 's, 'r) MCPHandler \<Rightarrow> ('c, 's, 'r) MCPHandler" where
  "chain_Apply mws handler =
     (if mws = [] then handler
      else foldr (\<lambda>m current. mw_Apply m current) (bubble_sort mw_Priority mws) handler)"

text \<open>\<open>MiddlewareGroup.Apply\<close>: sorted with the highest priority first (\<open>sort.Slice\<close> leaves the
  order of equal priorities open; here they keep theirs), and wrapped around the handler in
  that order, so the first one becomes the innermost.\<close>

definition group_Apply ::
  "bool \<Rightarrow> ('c, 's, 'r) Middleware list \<Rightarrow> ('c, 's, 'r) MCPHandler \<Rightarrow> ('c, 's, 'r) MCPHandler" where
  "group_Apply enabled mws handler =
     (if \<not> enabled then handler
      else fold (\<lambda>m current. mw_Apply m current) (sort_key (\<lambda>m. - mw_Priority m) mws) handler)"

subsection \<open>The sort is a stable sort by descending priority\<close>

lemma length_bubble_pass [simp]: "length (bubble_pass pri k xs) = length xs"
  by (induction pri k xs rule: bubble_pass.induct) auto

lemma mset_bubble_pass [simp]: "mset (bubble_pass pri k xs) = mset xs"
  by (induction pri k xs rule: bubble_pass.induct) auto

text \<open>Equal priorities are never swapped.\<close>

lemma filter_bubble_pass [simp]:
  "filter (\<lambda>x. pri x = p) (bubble_pass pri k xs) = filter (\<lambda>x. pri x = p) xs"
  by (induction pri k xs rule: bubble_pass.induct) auto

lemma drop_bubble_pass: "k < n \<Longrightarrow> drop n (bubble_pass pri k xs) = drop n xs"
proof (induction pri k xs arbitrary: n rule: bubble_pass.induct)
  case (1 pri k x y r)
  then obtain m where "n = Suc (Suc m)" "k < Suc m" by (cases n; cases "n - 1") auto
  with "1.IH" show ?case by auto
qed auto

text \<open>After a pass of \<open>k\<close> comparisons the element at position \<open>k\<close> is a lowest of those before.\<close>

lemma bubble_pass_min:
  "k < length xs \<Longrightarrow> \<forall>x \<in> set (take (Suc k) (bubble_pass pri k xs)). pri (bubble_pass pri k xs ! k) \<le> pri x"
proof (induction pri k xs rule: bubble_pass.induct)
  case (1 pri k x y r)
  let ?lo = "if pri x < pri y then x else y" and ?hi = "if pri x < pri y then y else x"
  have pass: "bubble_pass pri (Suc k) (x # y # r) = ?hi # bubble_pass pri k (?lo # r)" by simp
  have IH: "\<forall>z \<in> set (take (Suc k) (bubble_pass pri k (?lo # r))). pri (bubble_pass pri k (?lo # r) ! k) \<le> pri z"
    using "1.IH" "1.prems" by (cases "pri x < pri y") auto
  have "mset (take (Suc k) (bubble_pass pri k (?lo # r))) + mset (drop (Suc k) (bubble_pass pri k (?lo # r)))
      = mset (?lo # r)"
    by (metis append_take_drop_id mset_append mset_bubble_pass)
  moreover have "drop (Suc k) (bubble_pass pri k (?lo # r)) = drop (Suc k) (?lo # r)"
    by (rule drop_bubble_pass) simp
  ultimately have "mset (take (Suc k) (bubble_pass pri k (?lo # r))) = mset (take (Suc k) (?lo # r))"
    by (metis (no_types) add_right_cancel append_take_drop_id mset_append)
  then have "set (take (Suc k) (bubble_pass pri k (?lo # r))) = set (take (Suc k) (?lo # r))"
    by (rule mset_eq_setD)
  then have "?lo \<in> set (take (Suc k) (bubble_pass pri k (?lo # r)))" by simp
  with IH have "pri (bubble_pass pri k (?lo # r) ! k) \<le> pri ?lo" by blast
  also have "\<dots> \<le> pri ?hi" by simp
  finally show ?case using IH unfolding pass by simp
qed (auto simp: take_Suc_conv_app_nth split: list.split)

text \<open>The loop invariant: everything from position \<open>n + 1\<close> on is in order and not above what
  comes before.\<close>

definition settled :: "('a \<Rightarrow> int) \<Rightarrow> nat \<Rightarrow> 'a list \<Rightarrow> bool" where
  "settled pri n xs \<longleftrightarrow> sorted (map (\<lambda>x. - pri x) (drop n xs)) \<and>
     (\<forall>x \<in> set (take n xs). \<forall>y \<in> set (drop n xs). pri y \<le> pri x)"

lemma settled_pass:
  assumes "settled pri (Suc (Suc n)) xs" and "Suc n < length xs"
  shows "settled pri (Suc n) (bubble_pass pri (Suc n) xs)"
proof -
  let ?ys = "bubble_pass pri (Suc n) xs"
  have d: "drop (Suc (Suc n)) ?ys = drop (Suc (Suc n)) xs" by (rule drop_bubble_pass) simp
  have "mset (take (Suc (Suc n)) ?ys) + mset (drop (Suc (Suc n)) ?ys) = mset xs"
    by (metis append_take_drop_id mset_append mset_bubble_pass)
  then have "mset (take (Suc (Suc n)) ?ys) = mset (take (Suc (Suc n)) xs)"
    unfolding d by (metis (no_types) add_right_cancel append_take_drop_id mset_append)
  then have t: "set (take (Suc (Suc n)) ?ys) = set (take (Suc (Suc n)) xs)" by (rule mset_eq_setD)
  have ds: "drop (Suc n) ?ys = ?ys ! Suc n # drop (Suc (Suc n)) xs"
    using assms(2) d by (metis Cons_nth_drop_Suc length_bubble_pass)
  have ts: "take (Suc (Suc n)) ?ys = take (Suc n) ?ys @ [?ys ! Suc n]"
    using assms(2) by (simp add: take_Suc_conv_app_nth)
  have low: "\<forall>x \<in> set (take (Suc (Suc n)) ?ys). pri (?ys ! Suc n) \<le> pri x"
    by (rule bubble_pass_min[OF assms(2)])
  have "\<forall>x \<in> set (take (Suc (Suc n)) ?ys). \<forall>y \<in> set (drop (Suc (Suc n)) xs). pri y \<le> pri x"
    using assms(1) unfolding t settled_def by blast
  with low assms(1) show ?thesis unfolding settled_def ds ts by auto
qed

lemma bubble_loop_sorted:
  "settled pri (Suc n) xs \<Longrightarrow> n < length xs \<Longrightarrow> sorted (map (\<lambda>x. - pri x) (bubble_loop pri n xs))"
proof (induction pri n xs rule: bubble_loop.induct)
  case (1 pri xs)
  then show ?case by (cases xs) (auto simp: settled_def)
next
  case (2 pri n xs)
  then show ?case by (simp add: settled_pass)
qed

lemma mset_bubble_loop [simp]: "mset (bubble_loop pri n xs) = mset xs"
  by (induction pri n xs rule: bubble_loop.induct) auto

lemma filter_bubble_loop [simp]:
  "filter (\<lambda>x. pri x = p) (bubble_loop pri n xs) = filter (\<lambda>x. pri x = p) xs"
  by (induction pri n xs rule: bubble_loop.induct) auto

lemma bubble_sort_eq: "bubble_sort pri xs = sort_key (\<lambda>x. - pri x) xs"
proof (cases "xs = []")
  case False
  have "settled pri (Suc (length xs - 1)) xs" using False by (simp add: settled_def)
  then have "sorted (map (\<lambda>x. - pri x) (bubble_sort pri xs))"
    using False unfolding bubble_sort_def by (intro bubble_loop_sorted) simp_all
  moreover have "filter (\<lambda>x. - pri k = - pri x) zs = filter (\<lambda>x. pri x = pri k) zs" for k zs
    by (rule filter_cong) auto
  ultimately show ?thesis
    by (intro properties_for_sort_key[symmetric]) (simp_all only: bubble_sort_def mset_bubble_loop
        filter_bubble_loop)
qed (simp add: bubble_sort_def)

section \<open>Properties\<close>

text \<open>
  C14. The chain runs middleware in descending priority, and in the order of registration among
  equal priorities: it wraps the handler with the stable sort of the list by descending
  priority, the highest outermost.
\<close>

theorem chain_order:
  "chain_Apply mws handler =
     foldr (\<lambda>m current. mw_Apply m current) (sort_key (\<lambda>m. - mw_Priority m) mws) handler"
  by (simp add: chain_Apply_def bubble_sort_eq)

text \<open>
  The group wraps in the opposite order: where two middlewares have different priorities,
  the chain runs the higher one first and the group runs it last, although the interface
  documents a higher priority as earlier.
\<close>

theorem group_reverses_chain:
  assumes "mw_Priority low < mw_Priority high"
  shows "chain_Apply [low, high] handler = mw_Apply high (mw_Apply low handler) \<and>
     chain_Apply [high, low] handler = mw_Apply high (mw_Apply low handler) \<and>
     group_Apply True [low, high] handler = mw_Apply low (mw_Apply high handler) \<and>
     group_Apply True [high, low] handler = mw_Apply low (mw_Apply high handler)"
  using assms by (simp add: chain_Apply_def bubble_sort_eq group_Apply_def)

definition tag_middleware :: "string \<Rightarrow> int \<Rightarrow> ('c, string list, 'r) Middleware" where
  "tag_middleware name priority =
     Middleware name priority (\<lambda>next ctx req trace. next ctx req (trace @ [name]))"

theorem group_reverses_chain_witness:
  "let h = (\<lambda>ctx req trace. (trace, Ret None None :: unit MCPResponse call));
       low = tag_middleware ''low'' 1; high = tag_middleware ''high'' 2;
       r = \<lparr>req_method = ''ping'', req_id = ''1'', req_params = None\<rparr>
   in fst (chain_Apply [low, high] h (0 :: nat) r []) = [''high'', ''low''] \<and>
      fst (group_Apply True [low, high] h (0 :: nat) r []) = [''low'', ''high'']"
proof -
  let ?h = "\<lambda>(ctx :: nat) (req :: MCPRequest) trace. (trace, Ret None None :: unit MCPResponse call)"
  let ?low = "tag_middleware ''low'' 1 :: (nat, string list, unit) Middleware"
  let ?high = "tag_middleware ''high'' 2 :: (nat, string list, unit) Middleware"
  have "mw_Priority ?low < mw_Priority ?high" by (simp add: tag_middleware_def)
  from group_reverses_chain[OF this, of ?h]
  have "chain_Apply [?low, ?high] ?h = mw_Apply ?high (mw_Apply ?low ?h)"
    and "group_Apply True [?low, ?high] ?h = mw_Apply ?low (mw_Apply ?high ?h)" by blast+
  then show ?thesis by (simp only: Let_def) (simp add: tag_middleware_def)
qed

end
