(* ===== verification/Server.thy ===== *)
theory Server
  imports Params Pagination Middleware
begin

text \<open>
  Model of \<open>server.go\<close>: the registries of tools, prompts, resources and templates, the
  standard request handlers, \<open>handleRequest\<close> with its validation, panic recovery and
  cancellation, the notifications and requests a server sends to its client, and the adapter
  that runs the middleware chain.

  A handler the user registers is a function from the request to its outcome (a result, an
  error or a panic). The connection of \<open>golang.org/x/exp/jsonrpc2\<close> is represented by what the
  server does with it: whether there is one, the log of what was sent, and the peer's answers
  as arguments.
\<close>

section \<open>State\<close>

datatype 'a outcome = Returns 'a | Fails mcp_error | Panics panic_value

record Tool =
  tool_Name :: string
  tool_Description :: string
  tool_InputSchema :: "bytes option"
  tool_OutputSchema :: "bytes option"

record PromptArgument =
  arg_Name :: string
  arg_Description :: string
  arg_Required :: bool
  arg_Schema :: JSON

record Prompt =
  prompt_Name :: string
  prompt_Description :: string
  prompt_Arguments :: "PromptArgument list"

record Resource =
  res_URI :: string
  res_Name :: string
  res_Description :: string
  res_MimeType :: string

record ResourceTemplate =
  tmpl_Template :: string
  tmpl_Description :: string

type_synonym ToolHandlerFunc = "CallToolRequest \<Rightarrow> JSON outcome"
type_synonym GetPromptHandlerFunc = "GetPromptRequest \<Rightarrow> JSON outcome"
type_synonym ReadResourceHandlerFunc = "string \<Rightarrow> JSON list outcome"
type_synonym CompletionHandlerFunc = "CompleteRequest \<Rightarrow> JSON outcome"

record ServerTaskCapabilities =
  stask_List :: "unit option"
  stask_Cancel :: "unit option"
  stask_Requests :: "unit option option option"   \<comment> \<open>\<open>Requests.Tools.Call\<close>\<close>

record ServerCapabilities =
  scap_Experimental :: "json_members option"
  scap_Logging :: "unit option"
  scap_Completions :: "unit option"
  scap_Tools :: "bool option"                \<comment> \<open>\<open>ListChanged\<close>\<close>
  scap_Resources :: "(bool \<times> bool) option"   \<comment> \<open>\<open>Subscribe\<close>, \<open>ListChanged\<close>\<close>
  scap_Prompts :: "bool option"              \<comment> \<open>\<open>ListChanged\<close>\<close>
  scap_Tasks :: "ServerTaskCapabilities option"

text \<open>What the server sends: notifications with the part of their parameters that matters.\<close>

datatype notification =
    NoteListChanged
  | NoteResourceUpdated string
  | NoteProgress JSON JSON "JSON option"
  | NoteLogging string string JSON
  | NoteElicitationComplete string

record Server =
  srv_name :: string
  srv_version :: string
  capabilities :: ServerCapabilities
  instructions :: string
  validator :: ValidationConfig
  logLevel :: "int option"
  serverRequestTimeout :: duration
  tools :: "(string, Tool \<times> ToolHandlerFunc) gomap"
  resources :: "(string, Resource \<times> ReadResourceHandlerFunc) gomap"
  resourceTmpls :: "(string, ResourceTemplate \<times> ReadResourceHandlerFunc) gomap"
  prompts :: "(string, Prompt \<times> GetPromptHandlerFunc) gomap"
  subscriptions :: "(string, bool) gomap"
  connected :: bool
  clientCaps :: ClientCapabilities
  completion :: "CompletionHandlerFunc option"
  spawned :: "string list"                    \<comment> \<open>goroutines that will call \<open>notifyListChanged\<close>\<close>
  sent :: "(string \<times> notification) list"              \<comment> \<open>notifications sent on the connection\<close>

definition no_ServerCapabilities :: ServerCapabilities where
  "no_ServerCapabilities = \<lparr>scap_Experimental = None, scap_Logging = None, scap_Completions = None,
     scap_Tools = None, scap_Resources = None, scap_Prompts = None, scap_Tasks = None\<rparr>"

section \<open>Construction\<close>

type_synonym ServerOption = "Server \<Rightarrow> Server"

definition WithServerName :: "string \<Rightarrow> ServerOption" where
  "WithServerName name s = s\<lparr>srv_name := name\<rparr>"

definition WithServerVersion :: "string \<Rightarrow> ServerOption" where
  "WithServerVersion version s = s\<lparr>srv_version := version\<rparr>"

definition WithServerInstructions :: "string \<Rightarrow> ServerOption" where
  "WithServerInstructions instr s = s\<lparr>instructions := instr\<rparr>"

definition WithValidationConfig :: "ValidationConfig option \<Rightarrow> ServerOption" where
  "WithValidationConfig config s =
     (case config of None \<Rightarrow> s | Some c \<Rightarrow> s\<lparr>validator := NewParameterValidator (Some c)\<rparr>)"

definition WithServerRequestTimeout :: "duration \<Rightarrow> ServerOption" where
  "WithServerRequestTimeout d s = s\<lparr>serverRequestTimeout := d\<rparr>"

definition WithCapabilities :: "ServerCapabilities \<Rightarrow> ServerOption" where
  "WithCapabilities caps s = s\<lparr>capabilities := caps\<rparr>"

definition WithCompletionHandler :: "CompletionHandlerFunc \<Rightarrow> ServerOption" where
  "WithCompletionHandler h s = s\<lparr>completion := Some h\<rparr>"

text \<open>The inferred defaults come from the command line and the build information.\<close>

definition withInferredServerName :: "string \<Rightarrow> ServerOption" where
  "withInferredServerName inferred s = (if srv_name s = [] then s\<lparr>srv_name := inferred\<rparr> else s)"

definition withInferredServerVersion :: "string \<Rightarrow> ServerOption" where
  "withInferredServerVersion inferred s = (if srv_version s = [] then s\<lparr>srv_version := inferred\<rparr> else s)"

text \<open>\<open>registerDefaultHandlers\<close>: the handlers themselves are below; registering the logging and
  completion handlers also sets capabilities and the default level.\<close>

definition registerDefaultHandlers :: "Server \<Rightarrow> Server" where
  "registerDefaultHandlers s =
     (let s = s\<lparr>capabilities := (capabilities s)\<lparr>scap_Logging := Some ()\<rparr>\<rparr>;
          s = (if logLevel s = None then s\<lparr>logLevel := Some 0\<rparr> else s)
      in if completion s \<noteq> None then s\<lparr>capabilities := (capabilities s)\<lparr>scap_Completions := Some ()\<rparr>\<rparr> else s)"

definition NewServer :: "string \<Rightarrow> string \<Rightarrow> string \<Rightarrow> string \<Rightarrow> ServerOption list \<Rightarrow> Server" where
  "NewServer inferredName inferredVersion name version opts =
     (let s = \<lparr>srv_name = name, srv_version = version, capabilities = no_ServerCapabilities,
               instructions = [], validator = NewParameterValidator (Some DefaultValidationConfig),
               logLevel = None, serverRequestTimeout = 30 * second, tools = [], resources = [],
               resourceTmpls = [], prompts = [], subscriptions = [], connected = False,
               clientCaps = no_ClientCapabilities, completion = None, spawned = [], sent = []\<rparr>
      in registerDefaultHandlers
           (fold (\<lambda>opt s. opt s)
             ([withInferredServerName inferredName, withInferredServerVersion inferredVersion] @ opts) s))"

section \<open>Registration\<close>

definition RegisterTool :: "Tool \<Rightarrow> ToolHandlerFunc \<Rightarrow> Server \<Rightarrow> Server \<times> mcp_error option" where
  "RegisterTool tool handler s =
     (if map_of (tools s) (tool_Name tool) \<noteq> None
      then (s, Some (NewAlreadyExistsError ''tool'' (tool_Name tool)))
      else (s\<lparr>tools := AList.update (tool_Name tool) (tool, handler) (tools s),
              capabilities := (capabilities s)\<lparr>scap_Tools := Some True\<rparr>,
              spawned := spawned s @ [MethodToolListChanged]\<rparr>, None))"

definition RegisterPrompt :: "Prompt \<Rightarrow> GetPromptHandlerFunc \<Rightarrow> Server \<Rightarrow> Server \<times> mcp_error option" where
  "RegisterPrompt prompt handler s =
     (if map_of (prompts s) (prompt_Name prompt) \<noteq> None
      then (s, Some (NewAlreadyExistsError ''prompt'' (prompt_Name prompt)))
      else (s\<lparr>prompts := AList.update (prompt_Name prompt) (prompt, handler) (prompts s),
              capabilities := (capabilities s)\<lparr>scap_Prompts := Some True\<rparr>,
              spawned := spawned s @ [MethodPromptListChanged]\<rparr>, None))"

definition RegisterResource :: "Resource \<Rightarrow> ReadResourceHandlerFunc \<Rightarrow> Server \<Rightarrow> Server \<times> mcp_error option" where
  "RegisterResource resource handler s =
     (let resource = (if res_Name resource = [] then resource\<lparr>res_Name := res_URI resource\<rparr> else resource)
      in if map_of (resources s) (res_URI resource) \<noteq> None
         then (s, Some (NewAlreadyExistsError ''resource'' (res_URI resource)))
         else (s\<lparr>resources := AList.update (res_URI resource) (resource, handler) (resources s),
                 capabilities := (capabilities s)\<lparr>scap_Resources := Some (True, True)\<rparr>,
                 spawned := spawned s @ [MethodResourceListChanged]\<rparr>, None))"

definition RegisterResourceTemplate ::
  "ResourceTemplate \<Rightarrow> ReadResourceHandlerFunc \<Rightarrow> Server \<Rightarrow> Server \<times> mcp_error option" where
  "RegisterResourceTemplate template handler s =
     (if map_of (resourceTmpls s) (tmpl_Template template) \<noteq> None
      then (s, Some (NewAlreadyExistsError ''resource template'' (tmpl_Template template)))
      else (s\<lparr>resourceTmpls := AList.update (tmpl_Template template) (template, handler) (resourceTmpls s),
              capabilities := (capabilities s)\<lparr>scap_Resources := Some (True, True)\<rparr>,
              spawned := spawned s @ [MethodResourceListChanged]\<rparr>, None))"

section \<open>Notifications\<close>

text \<open>\<open>send_err\<close> is what \<open>conn.Notify\<close> returns.\<close>

definition notify :: "mcp_error option \<Rightarrow> string \<Rightarrow> notification \<Rightarrow> Server \<Rightarrow> Server \<times> mcp_error option" where
  "notify send_err method params s =
     (if \<not> connected s then (s, None) else (s\<lparr>sent := sent s @ [(method, params)]\<rparr>, send_err))"

text \<open>One of the goroutines started by the registrations runs; its error is only logged.\<close>

definition notifyListChanged :: "mcp_error option \<Rightarrow> nat \<Rightarrow> Server \<Rightarrow> Server" where
  "notifyListChanged send_err i s =
     (if i < length (spawned s)
      then fst (notify send_err (spawned s ! i) NoteListChanged
             (s\<lparr>spawned := take i (spawned s) @ drop (Suc i) (spawned s)\<rparr>))
      else s)"

definition ResourceUpdated :: "mcp_error option \<Rightarrow> string \<Rightarrow> Server \<Rightarrow> Server \<times> mcp_error option" where
  "ResourceUpdated send_err uri s =
     (case ValidateResourceSubscription (validator s) MethodResourceUpdated uri of
        Some e \<Rightarrow> (s, Some e)
      | None \<Rightarrow>
          if map_of (subscriptions s) uri \<noteq> Some True then (s, None)
          else notify send_err MethodResourceUpdated (NoteResourceUpdated uri) s)"

definition NotifyProgress :: "mcp_error option \<Rightarrow> JSON \<Rightarrow> JSON \<Rightarrow> JSON option \<Rightarrow> Server \<Rightarrow> Server \<times> mcp_error option" where
  "NotifyProgress send_err token progress tot s =
     notify send_err MethodProgress (NoteProgress token progress tot) s"

definition slogLevelForLoggingLevel :: "string \<Rightarrow> int option" where
  "slogLevelForLoggingLevel level =
     map_of [(''debug'', - 4), (''info'', 0), (''notice'', (0 + 4) div 2), (''warning'', 4), (''error'', 8),
             (''critical'', 8 + 4), (''alert'', 8 + 8), (''emergency'', 8 + 12)] level"

text \<open>\<open>data\<close> is the marshalled data, or the error of marshalling it.\<close>

definition NotifyLoggingMessage ::
  "mcp_error option \<Rightarrow> string \<Rightarrow> string \<Rightarrow> mcp_error + JSON \<Rightarrow> Server \<Rightarrow> Server \<times> mcp_error option" where
  "NotifyLoggingMessage send_err level logger data s =
     (case slogLevelForLoggingLevel level of
        None \<Rightarrow> (s, Some (NewParameterError MethodLogging ''level'' ''unsupported logging level'' None))
      | Some levelValue \<Rightarrow>
          (case logLevel s of
             None \<Rightarrow> (s, None)
           | Some minLevel \<Rightarrow>
               if levelValue < minLevel then (s, None)
               else case data of
                      Inl err \<Rightarrow> (s, Some (WrapErr ''marshal logging data'' err))
                    | Inr d \<Rightarrow> notify send_err MethodLogging (NoteLogging level logger d) s))"

definition NotifyElicitationComplete :: "mcp_error option \<Rightarrow> string \<Rightarrow> Server \<Rightarrow> Server \<times> mcp_error option" where
  "NotifyElicitationComplete send_err elicitationID s =
     (if elicitationID = []
      then (s, Some (NewParameterError MethodElicitationComplete ''elicitationId''
             ''missing required elicitation id'' None))
      else notify send_err MethodElicitationComplete (NoteElicitationComplete elicitationID) s)"

section \<open>Requests to the client\<close>

text \<open>The deadline of a server-initiated request: the caller's own if it is near enough, otherwise
  the configured timeout from \<open>now'\<close>, the reading of \<open>context.WithTimeout\<close>.\<close>

definition requestContext :: "Server \<Rightarrow> time option \<Rightarrow> time \<Rightarrow> time \<Rightarrow> time option" where
  "requestContext s deadline now now' =
     (let timeout = serverRequestTimeout s
      in if timeout \<le> 0 then deadline
         else case deadline of
                Some d \<Rightarrow> if time_Sub d now \<le> timeout then Some d else Some (min d (now' + timeout))
              | None \<Rightarrow> Some (now' + timeout))"

definition not_connected :: mcp_error where
  "not_connected = PlainErr ''mcp: client connection is not established''"

definition unsupported :: "string \<Rightarrow> mcp_error" where
  "unsupported what = ErrDetail (Sentinel ErrUnsupported) (''client does not support '' @ what)"

text \<open>\<open>reply\<close> is what awaiting the call gives, decoded.\<close>

definition CreateMessage :: "mcp_error + JSON \<Rightarrow> Server \<Rightarrow> mcp_error + JSON" where
  "CreateMessage reply s =
     (if \<not> connected s then Inl not_connected
      else if Sampling (clientCaps s) = None then Inl (unsupported ''sampling'')
      else case reply of
             Inl err \<Rightarrow> Inl (WrapErr ''sampling/createMessage'' err)
           | Inr r \<Rightarrow> Inr r)"

record ElicitRequest =
  el_Mode :: string
  el_Message :: string
  el_URL :: string
  el_ElicitationID :: string

definition elicit_mode :: "ElicitRequest \<Rightarrow> string" where
  "elicit_mode r =
     (if el_Mode r = []
      then if el_URL r \<noteq> [] \<or> el_ElicitationID r \<noteq> [] then ''url'' else ''form''
      else el_Mode r)"

text \<open>The client receives the request with its mode filled in.\<close>

definition Elicit :: "(ElicitRequest \<Rightarrow> mcp_error + JSON) \<Rightarrow> ElicitRequest \<Rightarrow> Server \<Rightarrow> mcp_error + JSON" where
  "Elicit reply request s =
     (if \<not> connected s then Inl not_connected
      else case Elicitation (clientCaps s) of
             None \<Rightarrow> Inl (unsupported ''elicitation'')
           | Some caps \<Rightarrow>
               let request = request\<lparr>el_Mode := elicit_mode request\<rparr>;
                   send = (case reply request of
                             Inl err \<Rightarrow> Inl (WrapErr ''elicitation/create'' err)
                           | Inr r \<Rightarrow> Inr r)
               in if el_Mode request = ''form''
                  then if cap_Form caps = None \<and> cap_URL caps \<noteq> None
                       then Inl (unsupported ''form elicitation'') else send
                  else if el_Mode request = ''url''
                  then if cap_URL caps = None then Inl (unsupported ''url elicitation'') else send
                  else Inl (NewParameterError MethodElicitationCreate ''mode''
                              ''unsupported elicitation mode'' None))"

definition ListRoots :: "mcp_error + JSON \<Rightarrow> Server \<Rightarrow> mcp_error + JSON" where
  "ListRoots reply s =
     (if \<not> connected s then Inl not_connected
      else if Roots (clientCaps s) = None then Inl (unsupported ''roots'')
      else case reply of
             Inl err \<Rightarrow> Inl (WrapErr ''roots/list'' err)
           | Inr r \<Rightarrow> Inr r)"

section \<open>Request handlers\<close>

datatype result =
    RInitialize string string string ServerCapabilities string \<comment> \<open>version, server name, server version, capabilities, instructions\<close>
  | REmpty
  | RTools "Tool list" string
  | RPrompts "Prompt list" string
  | RResources "Resource list" string
  | RTemplates "ResourceTemplate list" string
  | RCall JSON
  | RPrompt JSON
  | RContents "JSON list"
  | RComplete JSON

definition LATEST_PROTOCOL_VERSION :: string where
  "LATEST_PROTOCOL_VERSION = ''2025-11-25''"

type_synonym method_handler = "bytes option \<Rightarrow> Server \<Rightarrow> Server \<times> result outcome"

definition raw :: "bytes option \<Rightarrow> bytes" where
  "raw params = (case params of None \<Rightarrow> [] | Some b \<Rightarrow> b)"

definition missing_params :: "bytes option \<Rightarrow> bool" where
  "missing_params params \<longleftrightarrow> raw params = [] \<or> strings_TrimSpace (raw params) = ''null''"

definition unmarshalOptionalParams ::
  "string \<Rightarrow> bytes option \<Rightarrow> ('a \<Rightarrow> json_members \<Rightarrow> mcp_error + 'a) \<Rightarrow> 'a \<Rightarrow> mcp_error + 'a" where
  "unmarshalOptionalParams method params dec zero =
     (if missing_params params then Inr zero
      else case json_Unmarshal dec zero (raw params) of
             Inl err \<Rightarrow> Inl (NewParameterErrorFromJSON method err)
           | Inr x \<Rightarrow> Inr x)"

definition unmarshalRequiredParams ::
  "string \<Rightarrow> bytes option \<Rightarrow> ('a \<Rightarrow> json_members \<Rightarrow> mcp_error + 'a) \<Rightarrow> 'a \<Rightarrow> mcp_error + 'a" where
  "unmarshalRequiredParams method params dec zero =
     (if missing_params params
      then Inl (NewParameterError method ''params'' ''missing required params'' None)
      else case json_Unmarshal dec zero (raw params) of
             Inl err \<Rightarrow> Inl (NewParameterErrorFromJSON method err)
           | Inr x \<Rightarrow> Inr x)"

text \<open>The outcome of a user handler as the outcome of the request.\<close>

fun map_outcome :: "('a \<Rightarrow> 'b) \<Rightarrow> 'a outcome \<Rightarrow> 'b outcome" where
  "map_outcome f (Returns x) = Returns (f x)"
| "map_outcome f (Fails e) = Fails e"
| "map_outcome f (Panics v) = Panics v"

definition handle_initialize :: "bool \<Rightarrow> method_handler" where
  "handle_initialize swap params s =
     (case UnmarshalAndValidateInitialize swap (Some (validator s)) (raw params) of
        Inl e \<Rightarrow> (s, Fails e)
      | Inr p \<Rightarrow>
          (s\<lparr>clientCaps := Capabilities p\<rparr>,
           Returns (RInitialize LATEST_PROTOCOL_VERSION (srv_name s) (srv_version s) (capabilities s)
             (instructions s))))"

definition handle_ping :: method_handler where
  "handle_ping params s = (s, Returns REmpty)"

definition handle_setLevel :: method_handler where
  "handle_setLevel params s =
     (if missing_params params
      then (s, Fails (NewParameterError MethodLoggingSetLevel ''params'' ''missing required params'' None))
      else case ValidateRequest (validator s) MethodLoggingSetLevel (raw params) of
             Some e \<Rightarrow> (s, Fails e)
           | None \<Rightarrow>
               (case json_Unmarshal (dec_one_string ''level'') [] (raw params) of
                  Inl err \<Rightarrow> (s, Fails (NewParameterErrorFromJSON MethodLoggingSetLevel err))
                | Inr level \<Rightarrow>
                    (case slogLevelForLoggingLevel level of
                       None \<Rightarrow> (s, Fails (NewParameterError MethodLoggingSetLevel ''level''
                                          ''unsupported logging level'' None))
                     | Some l \<Rightarrow> (s\<lparr>logLevel := Some l\<rparr>, Returns REmpty))))"

definition jsonrpc2_ErrMethodNotFound :: mcp_error where
  "jsonrpc2_ErrMethodNotFound = Sentinel ''JSON RPC method not found''"

definition handle_complete :: method_handler where
  "handle_complete params s =
     (case completion s of
        None \<Rightarrow> (s, Fails jsonrpc2_ErrMethodNotFound)
      | Some h \<Rightarrow>
          if missing_params params
          then (s, Fails (NewParameterError MethodCompletionComplete ''params'' ''missing required params'' None))
          else case ValidateRequest (validator s) MethodCompletionComplete (raw params) of
                 Some e \<Rightarrow> (s, Fails e)
               | None \<Rightarrow>
                   (case json_Unmarshal dec_CompleteRequest zero_CompleteRequest (raw params) of
                      Inl err \<Rightarrow> (s, Fails (NewParameterErrorFromJSON MethodCompletionComplete err))
                    | Inr p \<Rightarrow> (s, map_outcome RComplete (h p))))"

definition handle_tools_list :: method_handler where
  "handle_tools_list params s =
     (case unmarshalOptionalParams MethodToolsList params (dec_one_string ''cursor'') [] of
        Inl e \<Rightarrow> (s, Fails e)
      | Inr cursor \<Rightarrow>
          (case paginate (map (fst \<circ> snd) (tools s)) cursor tool_Name of
             (page, nxt) \<Rightarrow> (s, Returns (RTools page nxt))))"

definition handle_tools_call :: method_handler where
  "handle_tools_call params s =
     (case UnmarshalAndValidateCallTool (Some (validator s)) (raw params) of
        Inl e \<Rightarrow> (s, Fails e)
      | Inr p \<Rightarrow>
          (case map_of (tools s) (call_Name p) of
             None \<Rightarrow> (s, Fails (NewNotFoundError ''tool'' (call_Name p)))
           | Some (tool, handler) \<Rightarrow> (s, map_outcome RCall (handler p))))"

definition handle_prompts_list :: method_handler where
  "handle_prompts_list params s =
     (case unmarshalOptionalParams MethodPromptsList params (dec_one_string ''cursor'') [] of
        Inl e \<Rightarrow> (s, Fails e)
      | Inr cursor \<Rightarrow>
          (case paginate (map (fst \<circ> snd) (prompts s)) cursor prompt_Name of
             (page, nxt) \<Rightarrow> (s, Returns (RPrompts page nxt))))"

definition handle_prompts_get :: method_handler where
  "handle_prompts_get params s =
     (case UnmarshalAndValidateGetPrompt (Some (validator s)) (raw params) of
        Inl e \<Rightarrow> (s, Fails e)
      | Inr p \<Rightarrow>
          (case map_of (prompts s) (get_Name p) of
             None \<Rightarrow> (s, Fails (NewNotFoundError ''prompt'' (get_Name p)))
           | Some (prompt, handler) \<Rightarrow> (s, map_outcome RPrompt (handler p))))"

definition handle_resources_list :: method_handler where
  "handle_resources_list params s =
     (case unmarshalOptionalParams MethodResourcesList params (dec_one_string ''cursor'') [] of
        Inl e \<Rightarrow> (s, Fails e)
      | Inr cursor \<Rightarrow>
          (case paginate (map (fst \<circ> snd) (resources s)) cursor res_URI of
             (page, nxt) \<Rightarrow> (s, Returns (RResources page nxt))))"

definition handle_resources_read :: method_handler where
  "handle_resources_read params s =
     (case UnmarshalAndValidateReadResource (Some (validator s)) (raw params) of
        Inl e \<Rightarrow> (s, Fails e)
      | Inr uri \<Rightarrow>
          (case map_of (resources s) uri of
             None \<Rightarrow>
               (case List.find (\<lambda>(k, tmpl, h). tmpl_Template tmpl = uri) (resourceTmpls s) of
                  None \<Rightarrow> (s, Fails (NewNotFoundError ''resource'' uri))
                | Some (k, tmpl, handler) \<Rightarrow> (s, map_outcome RContents (handler uri)))
           | Some (resource, handler) \<Rightarrow> (s, map_outcome RContents (handler uri))))"

definition handle_templates_list :: method_handler where
  "handle_templates_list params s =
     (case unmarshalOptionalParams MethodResourcesTemplatesList params (dec_one_string ''cursor'') [] of
        Inl e \<Rightarrow> (s, Fails e)
      | Inr cursor \<Rightarrow>
          (case paginate (map (fst \<circ> snd) (resourceTmpls s)) cursor tmpl_Template of
             (page, nxt) \<Rightarrow> (s, Returns (RTemplates page nxt))))"

definition handle_subscribe :: method_handler where
  "handle_subscribe params s =
     (case unmarshalRequiredParams MethodResourcesSubscribe params (dec_one_string ''uri'') [] of
        Inl e \<Rightarrow> (s, Fails e)
      | Inr uri \<Rightarrow>
          (case ValidateResourceSubscription (validator s) MethodResourcesSubscribe uri of
             Some e \<Rightarrow> (s, Fails e)
           | None \<Rightarrow> (s\<lparr>subscriptions := AList.update uri True (subscriptions s)\<rparr>, Returns REmpty)))"

definition handle_unsubscribe :: method_handler where
  "handle_unsubscribe params s =
     (case unmarshalRequiredParams MethodResourcesUnsubscribe params (dec_one_string ''uri'') [] of
        Inl e \<Rightarrow> (s, Fails e)
      | Inr uri \<Rightarrow>
          (case ValidateResourceSubscription (validator s) MethodResourcesUnsubscribe uri of
             Some e \<Rightarrow> (s, Fails e)
           | None \<Rightarrow> (s\<lparr>subscriptions := AList.delete uri (subscriptions s)\<rparr>, Returns REmpty)))"

text \<open>The map \<open>s.handlers\<close> as \<open>registerDefaultHandlers\<close> leaves it; nothing else writes it.\<close>

definition handlers :: "bool \<Rightarrow> (string \<times> method_handler) list" where
  "handlers swap =
     [(MethodInitialize, handle_initialize swap), (MethodPing, handle_ping),
      (MethodLoggingSetLevel, handle_setLevel), (MethodCompletionComplete, handle_complete),
      (MethodToolsList, handle_tools_list), (MethodToolsCall, handle_tools_call),
      (MethodPromptsList, handle_prompts_list), (MethodPromptsGet, handle_prompts_get),
      (MethodResourcesList, handle_resources_list), (MethodResourcesRead, handle_resources_read),
      (MethodResourcesTemplatesList, handle_templates_list),
      (MethodResourcesSubscribe, handle_subscribe), (MethodResourcesUnsubscribe, handle_unsubscribe)]"

section \<open>handleRequest\<close>

text \<open>The goroutine that runs the handler recovers its panics. \<open>cancel\<close> is the error of the context
  if the \<open>select\<close> takes the cancellation case; the handler still runs to its end.\<close>

definition handleRequest :: "bool \<Rightarrow> mcp_error option \<Rightarrow> MCPRequest \<Rightarrow> Server \<Rightarrow> Server \<times> (mcp_error + result)" where
  "handleRequest swap cancel req s =
     (case (case req_params req of None \<Rightarrow> None | Some ps \<Rightarrow> ValidateRequest (validator s) (req_method req) ps) of
        Some e \<Rightarrow> (s, Inl e)
      | None \<Rightarrow>
          (case map_of (handlers swap) (req_method req) of
             None \<Rightarrow> (s, Inl (NewNotFoundError ''method'' (req_method req)))
           | Some h \<Rightarrow>
               (case h (req_params req) s of (s, out) \<Rightarrow>
                  (s, case cancel of
                        Some e \<Rightarrow> Inl e
                      | None \<Rightarrow>
                          (case out of
                             Returns r \<Rightarrow> Inr r
                           | Fails e \<Rightarrow> Inl e
                           | Panics v \<Rightarrow>
                               Inl (WrapErr (''handler '' @ req_method req)
                                 (case recoverPanic (Some v) of Some e \<Rightarrow> e | None \<Rightarrow> PlainErr [])))))))"

text \<open>The base of the middleware chain and the adapter back to a plain handler.\<close>

definition mcpBaseHandler :: "bool \<Rightarrow> mcp_error option \<Rightarrow> ('c, Server, result) MCPHandler" where
  "mcpBaseHandler swap cancel ctx req s =
     (case handleRequest swap cancel req s of
        (s, Inr r) \<Rightarrow> (s, Ret (Some (successResponse r)) None)
      | (s, Inl err) \<Rightarrow>
          (case errors_As_ResponseError err of
             Some (code, msg) \<Rightarrow> (s, Ret (Some (errorResponse code msg)) None)
           | None \<Rightarrow> (s, Ret (Some (errorResponse (- 32603) (error_string err))) None)))"

text \<open>\<open>Use\<close> appends to the chain. \<open>middlewareHandler\<close> turns the chain's response back into a result
  (\<open>None\<close> for a nil result) or an error; a panic of a middleware goes through.\<close>

definition Use :: "('c, Server, result) Middleware \<Rightarrow> ('c, Server, result) Middleware list \<Rightarrow>
  ('c, Server, result) Middleware list" where
  "Use m mws = mws @ [m]"

definition middlewareHandler ::
  "('c, Server, result) Middleware list \<Rightarrow> bool \<Rightarrow> mcp_error option \<Rightarrow> 'c \<Rightarrow> MCPRequest \<Rightarrow> Server \<Rightarrow>
   Server \<times> (panic_value + (mcp_error + result option))" where
  "middlewareHandler mws swap cancel ctx req s =
     (if mws = []
      then (case handleRequest swap cancel req s of (s, r) \<Rightarrow> (s, Inr (map_sum id Some r)))
      else case chain_Apply mws (mcpBaseHandler swap cancel) ctx req s of
             (s, Panic v) \<Rightarrow> (s, Inl v)
           | (s, Ret resp (Some err)) \<Rightarrow> (s, Inr (Inl err))
           | (s, Ret None None) \<Rightarrow> (s, Inr (Inr None))
           | (s, Ret (Some (errorResponse code msg)) None) \<Rightarrow> (s, Inr (Inl (ResponseError code msg)))
           | (s, Ret (Some (successResponse r)) None) \<Rightarrow> (s, Inr (Inr (Some r))))"

text \<open>\<open>Serve\<close> sets the connection while it runs and clears it when it ends.\<close>

definition serve_begin :: "Server \<Rightarrow> Server" where
  "serve_begin s = s\<lparr>connected := True\<rparr>"

definition serve_end :: "Server \<Rightarrow> Server" where
  "serve_end s = s\<lparr>connected := False\<rparr>"

end
