(* ===== verification/Server_Props.thy ===== *)
theory Server_Props
  imports Server
begin

text \<open>
  What the server of \<open>server.go\<close> guarantees. The locale \<open>registry\<close> is the contract the four
  registries share (a name is bound at most once, and a binding is never replaced); each of
  them interprets it. The step relation \<open>srv_step\<close> is everything that can change a server
  between its construction and its end.
\<close>

section \<open>Registries\<close>

text \<open>
  A registry: \<open>entries\<close> reads its map, \<open>add\<close> registers an item under the name \<open>name_of\<close> gives
  it. The laws say when an item is added, that the map then holds it, and that a refused
  registration changes nothing.
\<close>

locale registry =
  fixes entries :: "'s \<Rightarrow> (string, 'd) gomap"
    and name_of :: "'d \<Rightarrow> string"
    and add :: "'d \<Rightarrow> 's \<Rightarrow> 's \<times> mcp_error option"
    and stored :: "'d \<Rightarrow> 'd"
  assumes add_new: "map_of (entries s) (name_of d) = None \<Longrightarrow>
      snd (add d s) = None \<and> entries (fst (add d s)) = AList.update (name_of d) (stored d) (entries s)"
    and add_dup: "map_of (entries s) (name_of d) \<noteq> None \<Longrightarrow> fst (add d s) = s \<and> snd (add d s) \<noteq> None"
    and stored_name: "name_of (stored d) = name_of d"
begin

definition keyed :: "'s \<Rightarrow> bool" where
  "keyed s \<longleftrightarrow> map_ok (entries s) \<and> list_all (\<lambda>(k, d). k = name_of d) (entries s)"

lemma add_keyed:
  assumes "keyed s"
  shows "keyed (fst (add d s))"
proof (cases "map_of (entries s) (name_of d)")
  case None
  with assms show ?thesis
    using add_new[OF None] by (auto simp: keyed_def list_all_iff stored_name dest!: set_updateD)
next
  case (Some x)
  then show ?thesis using add_dup[of s d] assms by simp
qed

text \<open>A binding survives every registration, and a successful one is visible at once.\<close>

lemma add_preserves: "map_of (entries s) n = Some x \<Longrightarrow> map_of (entries (fst (add d s))) n = Some x"
  by (cases "map_of (entries s) (name_of d)") (auto simp: add_new add_dup)

lemma add_error_iff: "snd (add d s) \<noteq> None \<longleftrightarrow> map_of (entries s) (name_of d) \<noteq> None"
proof (cases "map_of (entries s) (name_of d)")
  case None
  then show ?thesis using add_new[OF None] by simp
next
  case (Some x)
  then show ?thesis using add_dup[of s d] by simp
qed

lemma add_lookup:
  "snd (add d s) = None \<Longrightarrow> map_of (entries (fst (add d s))) (name_of d) = Some (stored d)"
  using add_error_iff[of d s] add_new[of s d] by simp

lemma keyed_names:
  assumes "keyed s"
  shows "map name_of (map snd (entries s)) = keys (entries s)"
  using assms by (auto simp: keyed_def list_all_iff)

lemma keyed_distinct: "keyed s \<Longrightarrow> distinct (map name_of (map snd (entries s)))"
  unfolding keyed_names by (simp add: keyed_def)

end

definition resource_named :: "Resource \<times> ReadResourceHandlerFunc \<Rightarrow> Resource \<times> ReadResourceHandlerFunc" where
  "resource_named d = (if res_Name (fst d) = [] then (fst d)\<lparr>res_Name := res_URI (fst d)\<rparr> else fst d, snd d)"

interpretation tools_reg: registry tools "\<lambda>d. tool_Name (fst d)" "\<lambda>d. RegisterTool (fst d) (snd d)" "\<lambda>d. d"
  by unfold_locales (auto simp: RegisterTool_def)

interpretation prompts_reg: registry prompts "\<lambda>d. prompt_Name (fst d)" "\<lambda>d. RegisterPrompt (fst d) (snd d)" "\<lambda>d. d"
  by unfold_locales (auto simp: RegisterPrompt_def)

interpretation resources_reg: registry resources "\<lambda>d. res_URI (fst d)" "\<lambda>d. RegisterResource (fst d) (snd d)"
  resource_named
  by unfold_locales (auto simp: RegisterResource_def resource_named_def Let_def)

interpretation templates_reg: registry resourceTmpls "\<lambda>d. tmpl_Template (fst d)"
  "\<lambda>d. RegisterResourceTemplate (fst d) (snd d)" "\<lambda>d. d"
  by unfold_locales (auto simp: RegisterResourceTemplate_def)

section \<open>Steps\<close>

inductive srv_step :: "Server \<Rightarrow> Server \<Rightarrow> bool" where
  st_request: "srv_step s (fst (handleRequest swap cancel req s))"
| st_tool: "srv_step s (fst (RegisterTool tool h s))"
| st_prompt: "srv_step s (fst (RegisterPrompt prompt h' s))"
| st_resource: "srv_step s (fst (RegisterResource resource h'' s))"
| st_template: "srv_step s (fst (RegisterResourceTemplate tmpl h'' s))"
| st_list_changed: "srv_step s (notifyListChanged send_err i s)"
| st_updated: "srv_step s (fst (ResourceUpdated send_err uri s))"
| st_progress: "srv_step s (fst (NotifyProgress send_err token progress tot s))"
| st_logging: "srv_step s (fst (NotifyLoggingMessage send_err level logger data s))"
| st_elicited: "srv_step s (fst (NotifyElicitationComplete send_err ident s))"
| st_serve: "srv_step s (serve_begin s)"
| st_stop: "srv_step s (serve_end s)"

inductive_cases srv_stepE: "srv_step s s'"

text \<open>The options the package exports; a user cannot write others, for the fields are not exported.\<close>

inductive package_option :: "ServerOption \<Rightarrow> bool" where
  "package_option (WithServerName n)"
| "package_option (WithServerVersion v)"
| "package_option (WithServerInstructions i)"
| "package_option (WithValidationConfig c)"
| "package_option (WithServerRequestTimeout d)"
| "package_option (WithCapabilities caps)"
| "package_option (WithCompletionHandler h)"

inductive reachable :: "Server \<Rightarrow> bool" where
  reach_new: "list_all package_option opts \<Longrightarrow> reachable (NewServer n v name version opts)"
| reach_step: "reachable s \<Longrightarrow> srv_step s s' \<Longrightarrow> reachable s'"

text \<open>What a request can change: the client's capabilities, the log level and the subscriptions.\<close>

lemmas handler_defs = handle_initialize_def handle_ping_def handle_setLevel_def handle_complete_def
  handle_tools_list_def handle_tools_call_def handle_prompts_list_def handle_prompts_get_def
  handle_resources_list_def handle_resources_read_def handle_templates_list_def
  handle_subscribe_def handle_unsubscribe_def

text \<open>\<open>framed s s'\<close>: only those three fields differ.\<close>

definition framed :: "Server \<Rightarrow> Server \<Rightarrow> bool" where
  "framed s s' \<longleftrightarrow> s' = s\<lparr>clientCaps := clientCaps s', logLevel := logLevel s', subscriptions := subscriptions s'\<rparr>"

lemma framed_refl [simp]: "framed s s"
  by (simp add: framed_def)

lemma framed_updates [simp]:
  "framed s (s\<lparr>clientCaps := c\<rparr>)" "framed s (s\<lparr>logLevel := l\<rparr>)" "framed s (s\<lparr>subscriptions := b\<rparr>)"
  by (simp_all add: framed_def)

lemma framedD:
  assumes "framed s s'"
  shows "tools s' = tools s" "prompts s' = prompts s" "resources s' = resources s"
    "resourceTmpls s' = resourceTmpls s" "sent s' = sent s" "connected s' = connected s"
    "validator s' = validator s" "spawned s' = spawned s" "capabilities s' = capabilities s"
  using assms unfolding framed_def by (cases s; cases s'; simp)+

lemma read_only_handlers [simp]:
  "fst (handle_ping params s) = s" "fst (handle_complete params s) = s"
  "fst (handle_tools_list params s) = s" "fst (handle_tools_call params s) = s"
  "fst (handle_prompts_list params s) = s" "fst (handle_prompts_get params s) = s"
  "fst (handle_resources_list params s) = s" "fst (handle_resources_read params s) = s"
  "fst (handle_templates_list params s) = s"
  by (simp_all add: handler_defs split: sum.split option.split prod.split)

lemma writing_handlers [simp]:
  "framed s (fst (handle_initialize swap params s))" "framed s (fst (handle_setLevel params s))"
  "framed s (fst (handle_subscribe params s))" "framed s (fst (handle_unsubscribe params s))"
  by (simp_all add: handler_defs split: sum.split option.split)

lemma handler_frame:
  assumes "(m, h) \<in> set (handlers swap)"
  shows "framed s (fst (h params s))"
  using assms by (simp add: handlers_def) (elim disjE; simp)

lemma handleRequest_frame: "framed s (fst (handleRequest swap cancel req s))"
  by (auto simp: handleRequest_def split: option.split prod.split
           dest!: map_of_SomeD handler_frame[where s = s and params = "req_params req"])

lemmas notify_defs = notify_def notifyListChanged_def ResourceUpdated_def NotifyProgress_def
  NotifyLoggingMessage_def NotifyElicitationComplete_def

text \<open>Notifications and serving leave the registries and the subscriptions alone.\<close>

definition same_registries :: "Server \<Rightarrow> Server \<Rightarrow> bool" where
  "same_registries s s' \<longleftrightarrow> tools s' = tools s \<and> prompts s' = prompts s \<and> resources s' = resources s \<and>
     resourceTmpls s' = resourceTmpls s"

lemma same_registries_framed: "framed s s' \<Longrightarrow> same_registries s s'"
  using framedD by (simp add: same_registries_def)

lemma same_registries_notify [simp]:
  "same_registries s (fst (notify send_err m p s))" "same_registries s (notifyListChanged send_err i s)"
  "same_registries s (fst (ResourceUpdated send_err uri s))"
  "same_registries s (fst (NotifyProgress send_err token progress tot s))"
  "same_registries s (fst (NotifyLoggingMessage send_err level logger data s))"
  "same_registries s (fst (NotifyElicitationComplete send_err ident s))"
  "same_registries s (serve_begin s)" "same_registries s (serve_end s)"
  by (simp_all add: same_registries_def notify_defs serve_begin_def serve_end_def
      split: option.split sum.split)

lemma register_other [simp]:
  "prompts (fst (RegisterTool t h s)) = prompts s" "resources (fst (RegisterTool t h s)) = resources s"
  "resourceTmpls (fst (RegisterTool t h s)) = resourceTmpls s"
  "tools (fst (RegisterPrompt p g s)) = tools s" "resources (fst (RegisterPrompt p g s)) = resources s"
  "resourceTmpls (fst (RegisterPrompt p g s)) = resourceTmpls s"
  "tools (fst (RegisterResource r f s)) = tools s" "prompts (fst (RegisterResource r f s)) = prompts s"
  "resourceTmpls (fst (RegisterResource r f s)) = resourceTmpls s"
  "tools (fst (RegisterResourceTemplate u f s)) = tools s"
  "prompts (fst (RegisterResourceTemplate u f s)) = prompts s"
  "resources (fst (RegisterResourceTemplate u f s)) = resources s"
  by (simp_all add: RegisterTool_def RegisterPrompt_def RegisterResource_def
      RegisterResourceTemplate_def Let_def)

text \<open>Every step either registers one item or leaves the registries alone.\<close>

lemma srv_step_cases:
  assumes "srv_step s s'"
  obtains (tool) d h where "s' = fst (RegisterTool d h s)"
  | (prompt) d h where "s' = fst (RegisterPrompt d h s)"
  | (resource) d h where "s' = fst (RegisterResource d h s)"
  | (template) d h where "s' = fst (RegisterResourceTemplate d h s)"
  | (same) "same_registries s s'"
  using assms by cases (blast intro: same_registries_framed handleRequest_frame same_registries_notify)+

text \<open>The bindings of all four registries.\<close>

definition bindings_kept :: "Server \<Rightarrow> Server \<Rightarrow> bool" where
  "bindings_kept s s' \<longleftrightarrow> map_of (tools s) \<subseteq>\<^sub>m map_of (tools s') \<and> map_of (prompts s) \<subseteq>\<^sub>m map_of (prompts s') \<and>
     map_of (resources s) \<subseteq>\<^sub>m map_of (resources s') \<and> map_of (resourceTmpls s) \<subseteq>\<^sub>m map_of (resourceTmpls s')"

lemma bindings_kept_step:
  assumes "srv_step s s'"
  shows "bindings_kept s s'"
  using assms
proof (cases rule: srv_step_cases)
  case (tool d h)
  then show ?thesis using tools_reg.add_preserves[of s _ _ "(d, h)"]
    by (auto simp: bindings_kept_def map_le_def)
next
  case (prompt d h)
  then show ?thesis using prompts_reg.add_preserves[of s _ _ "(d, h)"]
    by (auto simp: bindings_kept_def map_le_def)
next
  case (resource d h)
  then show ?thesis using resources_reg.add_preserves[of s _ _ "(d, h)"]
    by (auto simp: bindings_kept_def map_le_def)
next
  case (template d h)
  then show ?thesis using templates_reg.add_preserves[of s _ _ "(d, h)"]
    by (auto simp: bindings_kept_def map_le_def)
next
  case same
  then show ?thesis by (simp add: bindings_kept_def same_registries_def)
qed

lemma bindings_kept_steps: "srv_step\<^sup>*\<^sup>* s s' \<Longrightarrow> bindings_kept s s'"
proof (induction rule: rtranclp_induct)
  case base
  show ?case by (simp add: bindings_kept_def)
next
  case (step s' s'')
  with bindings_kept_step[OF step(2)] show ?case
    unfolding bindings_kept_def by (blast intro: map_le_trans)
qed

section \<open>The invariant of the registries\<close>

definition registries_ok :: "Server \<Rightarrow> bool" where
  "registries_ok s \<longleftrightarrow> tools_reg.keyed s \<and> prompts_reg.keyed s \<and> resources_reg.keyed s \<and> templates_reg.keyed s"

lemmas keyed_defs = tools_reg.keyed_def prompts_reg.keyed_def resources_reg.keyed_def
  templates_reg.keyed_def

lemma registries_ok_same: "same_registries s s' \<Longrightarrow> registries_ok s \<Longrightarrow> registries_ok s'"
  by (simp add: registries_ok_def keyed_defs same_registries_def)

lemma registries_ok_step:
  assumes "srv_step s s'" and "registries_ok s"
  shows "registries_ok s'"
  using assms(1)
proof (cases rule: srv_step_cases)
  case (tool d h)
  then show ?thesis using assms(2) tools_reg.add_keyed[of s "(d, h)"]
    by (simp add: registries_ok_def keyed_defs)
next
  case (prompt d h)
  then show ?thesis using assms(2) prompts_reg.add_keyed[of s "(d, h)"]
    by (simp add: registries_ok_def keyed_defs)
next
  case (resource d h)
  then show ?thesis using assms(2) resources_reg.add_keyed[of s "(d, h)"]
    by (simp add: registries_ok_def keyed_defs)
next
  case (template d h)
  then show ?thesis using assms(2) templates_reg.add_keyed[of s "(d, h)"]
    by (simp add: registries_ok_def keyed_defs)
next
  case same
  then show ?thesis using assms(2) by (rule registries_ok_same)
qed

lemma package_option_same: "package_option opt \<Longrightarrow> same_registries s (opt s)"
  by (induction rule: package_option.induct)
    (simp_all add: same_registries_def WithServerName_def WithServerVersion_def
      WithServerInstructions_def WithValidationConfig_def WithServerRequestTimeout_def
      WithCapabilities_def WithCompletionHandler_def split: option.split)

lemma fold_options_ok:
  "list_all package_option opts \<Longrightarrow> registries_ok s \<Longrightarrow> registries_ok (fold (\<lambda>opt s. opt s) opts s)"
  by (induction opts arbitrary: s) (auto intro: registries_ok_same package_option_same)

lemma registries_ok_defaults: "registries_ok s \<Longrightarrow> registries_ok (registerDefaultHandlers s)"
  by (rule registries_ok_same) (simp_all add: same_registries_def registerDefaultHandlers_def Let_def)

lemma registries_ok_new:
  assumes "list_all package_option opts"
  shows "registries_ok (NewServer n v name version opts)"
  unfolding NewServer_def Let_def
  by (rule registries_ok_defaults, simp, rule fold_options_ok[OF assms])
    (simp add: registries_ok_def keyed_defs withInferredServerName_def withInferredServerVersion_def)

lemma reachable_registries_ok: "reachable s \<Longrightarrow> registries_ok s"
  by (induction rule: reachable.induct) (auto intro: registries_ok_new registries_ok_step)

section \<open>Requests over the wire\<close>

definition request :: "string \<Rightarrow> bytes option \<Rightarrow> MCPRequest" where
  "request method params = \<lparr>req_method = method, req_id = ''1'', req_params = params\<rparr>"

lemma request_simps [simp]:
  "req_method (request m ps) = m" "req_params (request m ps) = ps"
  by (simp_all add: request_def)

text \<open>The outcome of a user's handler as \<open>handleRequest\<close> reports it.\<close>

definition reported :: "string \<Rightarrow> result outcome \<Rightarrow> mcp_error + result" where
  "reported method out =
     (case out of
        Returns r \<Rightarrow> Inr r
      | Fails e \<Rightarrow> Inl e
      | Panics v \<Rightarrow> Inl (WrapErr (''handler '' @ method)
                        (case recoverPanic (Some v) of Some e \<Rightarrow> e | None \<Rightarrow> PlainErr [])))"

lemma handleRequest_handler:
  assumes "case req_params req of None \<Rightarrow> True | Some ps \<Rightarrow> ValidateRequest (validator s) (req_method req) ps = None"
    and "map_of (handlers swap) (req_method req) = Some h"
  shows "handleRequest swap None req s =
    (fst (h (req_params req) s), reported (req_method req) (snd (h (req_params req) s)))"
  using assms by (cases "h (req_params req) s")
    (auto simp: handleRequest_def reported_def split: option.splits outcome.split)

lemma handleRequest_request:
  assumes "case ps of None \<Rightarrow> True | Some b \<Rightarrow> ValidateRequest (validator s) m b = None"
    and "map_of (handlers swap) m = Some h"
  shows "handleRequest swap None (request m ps) s = (fst (h ps s), reported m (snd (h ps s)))"
proof -
  have "case req_params (request m ps) of None \<Rightarrow> True
      | Some b \<Rightarrow> ValidateRequest (validator s) (req_method (request m ps)) b = None"
    "map_of (handlers swap) (req_method (request m ps)) = Some h"
    using assms by (simp_all split: option.splits)
  from handleRequest_handler[OF this] show ?thesis by simp
qed

lemma handlers_lookup:
  "map_of (handlers swap) MethodInitialize = Some (handle_initialize swap)"
  "map_of (handlers swap) MethodLoggingSetLevel = Some handle_setLevel"
  "map_of (handlers swap) MethodToolsList = Some handle_tools_list"
  "map_of (handlers swap) MethodToolsCall = Some handle_tools_call"
  "map_of (handlers swap) MethodPromptsGet = Some handle_prompts_get"
  "map_of (handlers swap) MethodResourcesRead = Some handle_resources_read"
  "map_of (handlers swap) MethodResourcesSubscribe = Some handle_subscribe"
  "map_of (handlers swap) MethodResourcesUnsubscribe = Some handle_unsubscribe"
  by (simp_all add: handlers_def method_defs)

text \<open>A handler that fails has changed nothing.\<close>

lemma handler_fails:
  assumes "(m, h) \<in> set (handlers swap)" and "\<forall>r. snd (h params s) \<noteq> Returns r"
  shows "fst (h params s) = s"
proof -
  have w: "(\<forall>r. snd (handle_initialize swap params s) \<noteq> Returns r) \<longrightarrow> fst (handle_initialize swap params s) = s"
    "(\<forall>r. snd (handle_setLevel params s) \<noteq> Returns r) \<longrightarrow> fst (handle_setLevel params s) = s"
    "(\<forall>r. snd (handle_subscribe params s) \<noteq> Returns r) \<longrightarrow> fst (handle_subscribe params s) = s"
    "(\<forall>r. snd (handle_unsubscribe params s) \<noteq> Returns r) \<longrightarrow> fst (handle_unsubscribe params s) = s"
    by (simp_all add: handler_defs split: sum.split option.split)
  show ?thesis using assms w by (simp add: handlers_def) (elim disjE; simp)
qed



section \<open>Listing\<close>

definition cursor_params :: "string \<Rightarrow> bytes option" where
  "cursor_params cursor = (if cursor = [] then None else Some (one_string_object ''cursor'' cursor))"

lemma encodeCursor_plain: "list_all plain_char (encodeCursor k)"
proof -
  have "list_all plain_char b64_alphabet" by code_simp
  moreover have "length b64_alphabet = 64" by code_simp
  ultimately have p: "plain_char (b64_char i)" if "i < 64" for i
    using that by (simp add: b64_char_def list_all_length)
  have "\<forall>i \<in> set (b64_sextets (map of_char k)). i < 64"
    by (rule b64_sextets_lt_64) (auto simp: of_char_def)
  with p show ?thesis
    by (auto simp: encodeCursor_def RawURLEncoding_EncodeToString_def list_all_iff)
qed

lemma one_string_present: "\<not> missing_params (Some (one_string_object k t))"
  using TrimSpace_braces[of "json_quoted k @ CHR '':'' # json_quoted t"]
  by (simp add: missing_params_def raw_def one_string_object_def)

lemma one_string_decoded:
  assumes "list_all plain_char k" and "list_all plain_char t"
  shows "json_Unmarshal (dec_one_string k) x (one_string_object k t) = Inr t"
  using json_parse_one_string[OF assms]
  by (simp add: json_Unmarshal_def dec_struct_def dec_one_string_def field_def field_values_def
      struct_field_def dec_string_def)

lemma unmarshal_cursor:
  assumes "list_all plain_char cursor"
  shows "unmarshalOptionalParams m (cursor_params cursor) (dec_one_string ''cursor'') [] = Inr cursor"
proof (cases "cursor = []")
  case True
  then show ?thesis by (simp add: cursor_params_def unmarshalOptionalParams_def missing_params_def raw_def)
next
  case False
  have "list_all plain_char ''cursor''" by code_simp
  from one_string_decoded[OF this assms] False one_string_present[of "''cursor''" cursor] show ?thesis
    by (simp add: unmarshalOptionalParams_def cursor_params_def raw_def)
qed

lemma cursor_params_valid:
  assumes "list_all plain_char cursor"
    and "int (length (one_string_object ''cursor'' cursor)) \<le> MaxRequestSize v"
  shows "case cursor_params cursor of None \<Rightarrow> True | Some ps \<Rightarrow> ValidateRequest v m ps = None"
proof -
  have "list_all plain_char ''cursor''" by code_simp
  from json_parse_one_string[OF this assms(1)] assms show ?thesis
    by (simp add: cursor_params_def ValidateRequest_None json_Valid_def)
qed

text \<open>Every cursor the server hands out for items with these names fits in a request.\<close>

definition cursors_fit :: "string list \<Rightarrow> Server \<Rightarrow> bool" where
  "cursors_fit names s \<longleftrightarrow>
     list_all (\<lambda>n. int (length (one_string_object ''cursor'' (encodeCursor n))) \<le> MaxRequestSize (validator s)) names"

text \<open>A client that sends the method without parameters and then with each returned cursor;
  \<open>page_of\<close> reads a page and the next cursor from a result.\<close>

fun list_walk :: "string \<Rightarrow> (result \<Rightarrow> ('a list \<times> string) option) \<Rightarrow> nat \<Rightarrow> string \<Rightarrow> Server \<Rightarrow> 'a list option" where
  "list_walk method page_of 0 cursor s = None"
| "list_walk method page_of (Suc fuel) cursor s =
     (case handleRequest False None (request method (cursor_params cursor)) s of
        (s, Inl e) \<Rightarrow> None
      | (s, Inr r) \<Rightarrow>
          (case page_of r of
             None \<Rightarrow> None
           | Some (page, nxt) \<Rightarrow>
               if nxt = [] then Some page
               else map_option (\<lambda>rest. page @ rest) (list_walk method page_of fuel nxt s)))"

text \<open>
  A listing method: its handler pages through the items of a registry, and \<open>page_of\<close> reads the
  page and the next cursor from its result.
\<close>

locale listing =
  fixes meth :: string
    and handler :: method_handler
    and items :: "Server \<Rightarrow> 'a list"
    and key :: "'a \<Rightarrow> string"
    and page_of :: "result \<Rightarrow> ('a list \<times> string) option"
  assumes registered: "map_of (handlers swap) meth = Some handler"
    and pages: "unmarshalOptionalParams meth params (dec_one_string ''cursor'') [] = Inr cursor \<Longrightarrow>
      \<exists>r. handler params s = (s, Returns r) \<and> page_of r = Some (paginate (items s) cursor key)"
begin

lemma request_page:
  assumes "list_all plain_char cursor"
    and "cursor = [] \<or> int (length (one_string_object ''cursor'' cursor)) \<le> MaxRequestSize (validator s)"
  shows "\<exists>r. handleRequest False None (request meth (cursor_params cursor)) s = (s, Inr r) \<and>
     page_of r = Some (paginate (items s) cursor key)"
proof -
  let ?req = "request meth (cursor_params cursor)"
  have v: "case req_params ?req of None \<Rightarrow> True | Some ps \<Rightarrow> ValidateRequest (validator s) (req_method ?req) ps = None"
    using cursor_params_valid[OF assms(1)] assms(2) by (auto simp: cursor_params_def)
  have h: "map_of (handlers False) (req_method ?req) = Some handler" by (simp add: registered)
  obtain r where "handler (cursor_params cursor) s = (s, Returns r)"
    "page_of r = Some (paginate (items s) cursor key)"
    using pages[OF unmarshal_cursor[OF assms(1)]] by blast
  then show ?thesis using handleRequest_handler[OF v h] by (simp add: reported_def)
qed

lemma walk_follows:
  assumes "cursors_fit (map key (items s)) s" and "cursor \<in> insert [] (encodeCursor ` key ` set (items s))"
  shows "list_walk meth page_of fuel cursor s = follow_cursors fuel (items s) cursor key"
  using assms(2)
proof (induction fuel arbitrary: cursor)
  case (Suc fuel)
  have c: "list_all plain_char cursor"
    "cursor = [] \<or> int (length (one_string_object ''cursor'' cursor)) \<le> MaxRequestSize (validator s)"
    using Suc.prems assms(1) encodeCursor_plain by (auto simp: cursors_fit_def list_all_iff)
  obtain page nxt where p: "paginate (items s) cursor key = (page, nxt)" by fastforce
  then have "nxt \<in> insert [] (encodeCursor ` key ` set (items s))"
    using paginate_next[of "items s" cursor key] by simp
  from Suc.IH[OF this] request_page[OF c] show ?case by (auto simp: p)
qed simp

lemma walk_complete:
  assumes "cursors_fit (map key (items s)) s" and "distinct (map key (items s))"
  shows "list_walk meth page_of (Suc (length (items s))) [] s = Some (sort_key key (items s))"
  using walk_follows[OF assms(1), of "[]"] follow_cursors_all[OF assms(2)] by (simp only: insertI1)

end

definition tools_page :: "result \<Rightarrow> (Tool list \<times> string) option" where
  "tools_page r = (case r of RTools page nxt \<Rightarrow> Some (page, nxt) | _ \<Rightarrow> None)"

definition prompts_page :: "result \<Rightarrow> (Prompt list \<times> string) option" where
  "prompts_page r = (case r of RPrompts page nxt \<Rightarrow> Some (page, nxt) | _ \<Rightarrow> None)"

definition resources_page :: "result \<Rightarrow> (Resource list \<times> string) option" where
  "resources_page r = (case r of RResources page nxt \<Rightarrow> Some (page, nxt) | _ \<Rightarrow> None)"

definition templates_page :: "result \<Rightarrow> (ResourceTemplate list \<times> string) option" where
  "templates_page r = (case r of RTemplates page nxt \<Rightarrow> Some (page, nxt) | _ \<Rightarrow> None)"

abbreviation tools_of :: "Server \<Rightarrow> Tool list" where
  "tools_of s \<equiv> map (fst \<circ> snd) (tools s)"

abbreviation prompts_of :: "Server \<Rightarrow> Prompt list" where
  "prompts_of s \<equiv> map (fst \<circ> snd) (prompts s)"

abbreviation resources_of :: "Server \<Rightarrow> Resource list" where
  "resources_of s \<equiv> map (fst \<circ> snd) (resources s)"

abbreviation templates_of :: "Server \<Rightarrow> ResourceTemplate list" where
  "templates_of s \<equiv> map (fst \<circ> snd) (resourceTmpls s)"

interpretation tools_listing: listing MethodToolsList handle_tools_list tools_of tool_Name tools_page
  by unfold_locales
    (auto simp: handlers_def method_defs handle_tools_list_def tools_page_def split: prod.split)

interpretation prompts_listing: listing MethodPromptsList handle_prompts_list prompts_of prompt_Name prompts_page
  by unfold_locales
    (auto simp: handlers_def method_defs handle_prompts_list_def prompts_page_def split: prod.split)

interpretation resources_listing: listing MethodResourcesList handle_resources_list resources_of res_URI resources_page
  by unfold_locales
    (auto simp: handlers_def method_defs handle_resources_list_def resources_page_def split: prod.split)

interpretation templates_listing: listing MethodResourcesTemplatesList handle_templates_list templates_of
  tmpl_Template templates_page
  by unfold_locales
    (auto simp: handlers_def method_defs handle_templates_list_def templates_page_def split: prod.split)

text \<open>The names under which the registries hold their items are distinct.\<close>

lemma listed_distinct:
  assumes "registries_ok s"
  shows "distinct (map tool_Name (tools_of s))" "distinct (map prompt_Name (prompts_of s))"
    "distinct (map res_URI (resources_of s))" "distinct (map tmpl_Template (templates_of s))"
  using assms tools_reg.keyed_distinct[of s] prompts_reg.keyed_distinct[of s]
    resources_reg.keyed_distinct[of s] templates_reg.keyed_distinct[of s]
  by (simp_all add: registries_ok_def comp_def)

text \<open>
  C1. What a client can discover is exactly what is registered: on every server reached by any
  sequence of registrations, requests and notifications, a client that sends one of the four
  list methods to \<open>handleRequest\<close> and follows the returned cursors receives every registered
  tool (prompt, resource, template) exactly once, in the order of the names, provided no name
  is so long that its cursor exceeds the size limit of a request.
\<close>

theorem listing_complete:
  assumes "reachable s"
    and "cursors_fit (map tool_Name (tools_of s) @ map prompt_Name (prompts_of s) @
           map res_URI (resources_of s) @ map tmpl_Template (templates_of s)) s"
  shows "list_walk MethodToolsList tools_page (Suc (length (tools s))) [] s = Some (sort_key tool_Name (tools_of s)) \<and>
    list_walk MethodPromptsList prompts_page (Suc (length (prompts s))) [] s = Some (sort_key prompt_Name (prompts_of s)) \<and>
    list_walk MethodResourcesList resources_page (Suc (length (resources s))) [] s = Some (sort_key res_URI (resources_of s)) \<and>
    list_walk MethodResourcesTemplatesList templates_page (Suc (length (resourceTmpls s))) [] s = Some (sort_key tmpl_Template (templates_of s))"
proof -
  note d = listed_distinct[OF reachable_registries_ok[OF assms(1)]]
  have "cursors_fit (map tool_Name (tools_of s)) s" "cursors_fit (map prompt_Name (prompts_of s)) s"
    "cursors_fit (map res_URI (resources_of s)) s" "cursors_fit (map tmpl_Template (templates_of s)) s"
    using assms(2) by (simp_all add: cursors_fit_def)
  with d show ?thesis
    using tools_listing.walk_complete[of s] prompts_listing.walk_complete[of s]
      resources_listing.walk_complete[of s] templates_listing.walk_complete[of s] by simp
qed

section \<open>Example server\<close>

definition echo_tool :: Tool where
  "echo_tool = \<lparr>tool_Name = ''echo'', tool_Description = [], tool_InputSchema = None, tool_OutputSchema = None\<rparr>"

definition echo :: ToolHandlerFunc where
  "echo p = Returns (JStr (call_Name p))"

definition new_server :: Server where
  "new_server = NewServer ''srv'' ''v1'' [] [] []"

definition echo_server :: Server where
  "echo_server = fst (RegisterTool echo_tool echo new_server)"

lemma new_server_simps [simp]:
  "tools new_server = []" "prompts new_server = []" "resources new_server = []"
  "resourceTmpls new_server = []" "validator new_server = DefaultValidationConfig"
  "subscriptions new_server = []" "clientCaps new_server = no_ClientCapabilities"
  "connected new_server = False" "logLevel new_server = Some 0" "sent new_server = []"
  by (simp_all add: new_server_def NewServer_def registerDefaultHandlers_def Let_def
      withInferredServerName_def withInferredServerVersion_def NewParameterValidator_def)

lemma echo_server_simps [simp]:
  "tools echo_server = [(''echo'', echo_tool, echo)]" "prompts echo_server = []"
  "resources echo_server = []" "resourceTmpls echo_server = []"
  "validator echo_server = DefaultValidationConfig"
  by (simp_all add: echo_server_def RegisterTool_def echo_tool_def)

lemma reachable_echo: "reachable echo_server"
proof -
  have "reachable new_server" unfolding new_server_def by (rule reach_new) simp
  then show ?thesis unfolding echo_server_def by (rule reach_step) (rule st_tool)
qed

theorem listing_complete_witness:
  "reachable echo_server \<and>
   cursors_fit (map tool_Name (tools_of echo_server) @ map prompt_Name (prompts_of echo_server) @
     map res_URI (resources_of echo_server) @ map tmpl_Template (templates_of echo_server)) echo_server \<and>
   list_walk MethodToolsList tools_page 2 [] echo_server = Some [echo_tool]"
proof -
  have "length (one_string_object ''cursor'' (encodeCursor ''echo'')) = 19" by code_simp
  then have f: "cursors_fit (map tool_Name (tools_of echo_server) @ map prompt_Name (prompts_of echo_server) @
     map res_URI (resources_of echo_server) @ map tmpl_Template (templates_of echo_server)) echo_server"
    by (simp add: cursors_fit_def echo_tool_def DefaultValidationConfig_def)
  with listing_complete[OF reachable_echo f] reachable_echo show ?thesis
    by (simp add: eval_nat_numeral)
qed

section \<open>Dispatch\<close>

text \<open>
  C2. The first registration of a tool wins for good: after a successful \<open>RegisterTool\<close>,
  whatever the server does next, a later registration of the same name is refused and changes
  nothing, and every valid \<open>tools/call\<close> for the name runs the handler registered first and
  reports its outcome: its result, its error, or an error that names the method when it panics.
\<close>

theorem first_registration_wins:
  assumes "snd (RegisterTool t h s) = None" and "srv_step\<^sup>*\<^sup>* (fst (RegisterTool t h s)) s'"
    and "UnmarshalAndValidateCallTool (Some (validator s')) params = Inr p"
    and "call_Name p = tool_Name t"
  shows "RegisterTool (t'\<lparr>tool_Name := tool_Name t\<rparr>) h' s'
      = (s', Some (NewAlreadyExistsError ''tool'' (tool_Name t))) \<and>
    handleRequest swap None (request MethodToolsCall (Some params)) s'
      = (s', reported MethodToolsCall (map_outcome RCall (h p)))"
proof -
  have "map_of (tools (fst (RegisterTool t h s))) (tool_Name t) = Some (t, h)"
    using tools_reg.add_lookup[of "(t, h)" s] assms(1) by simp
  then have b: "map_of (tools s') (tool_Name t) = Some (t, h)"
    using bindings_kept_steps[OF assms(2)] by (auto simp: bindings_kept_def map_le_def dom_def)
  have v: "ValidateRequest (validator s') MethodToolsCall params = None"
    using assms(3) by (simp add: UnmarshalAndValidateCallTool_def unmarshal_and_validate_def
        validate_opt_def split: option.splits)
  have "handleRequest swap None (request MethodToolsCall (Some params)) s' =
      (fst (handle_tools_call (Some params) s'), reported MethodToolsCall (snd (handle_tools_call (Some params) s')))"
    by (rule handleRequest_request) (simp_all add: v handlers_lookup)
  moreover have "snd (handle_tools_call (Some params) s') = map_outcome RCall (h p)"
    using assms(3,4) b by (simp add: handle_tools_call_def raw_def)
  ultimately show ?thesis using b by (simp add: RegisterTool_def)
qed

definition echo_call :: CallToolRequest where
  "echo_call = \<lparr>call_Name = ''echo'', call_Arguments = None, call_Meta = None\<rparr>"

lemma unmarshal_echo:
  "UnmarshalAndValidateCallTool (Some DefaultValidationConfig) (one_string_object ''name'' ''echo'') = Inr echo_call"
  by code_simp

theorem first_registration_wins_witness:
  "snd (RegisterTool echo_tool echo new_server) = None \<and> srv_step\<^sup>*\<^sup>* echo_server echo_server \<and>
   snd (handleRequest False None (request MethodToolsCall (Some (one_string_object ''name'' ''echo''))) echo_server)
     = Inr (RCall (JStr ''echo''))"
proof -
  have a: "snd (RegisterTool echo_tool echo new_server) = None" by (simp add: RegisterTool_def)
  have b: "srv_step\<^sup>*\<^sup>* (fst (RegisterTool echo_tool echo new_server)) echo_server"
    by (simp add: echo_server_def)
  have c: "UnmarshalAndValidateCallTool (Some (validator echo_server)) (one_string_object ''name'' ''echo'')
      = Inr echo_call" by (simp add: unmarshal_echo)
  have d: "call_Name echo_call = tool_Name echo_tool" by (simp add: echo_call_def echo_tool_def)
  show ?thesis using first_registration_wins[OF a b c d, of undefined undefined False] a
    by (simp add: reported_def echo_def echo_call_def)
qed

text \<open>
  Registration accepts names that calls refuse. With the default validation a tool whose name
  has a character outside letters, digits and \<open>_-.\<close> (a space, say) is registered and listed,
  but no \<open>tools/call\<close> request of any form reaches its handler: the responses do not depend on
  the handler.
\<close>

theorem tool_listed_but_not_callable:
  assumes "map_of (tools s) (tool_Name t) = None" and "\<not> isValidIdentifier (tool_Name t)"
    and "ValidateRequired (validator s)" and "ValidateFormat (validator s)"
  shows "snd (RegisterTool t h s) = None \<and> t \<in> set (tools_of (fst (RegisterTool t h s))) \<and>
    snd (handleRequest swap cancel (request MethodToolsCall params) (fst (RegisterTool t h s)))
      = snd (handleRequest swap cancel (request MethodToolsCall params) (fst (RegisterTool t h' s)))"
proof -
  let ?s = "fst (RegisterTool t h s)" and ?s' = "fst (RegisterTool t h' s)"
  have v: "validator ?s = validator s" "validator ?s' = validator s"
    by (simp_all add: RegisterTool_def)
  have reg: "tools (fst (RegisterTool t g s)) = AList.update (tool_Name t) (t, g) (tools s)" for g
    using assms(1) by (simp add: RegisterTool_def)
  have other: "map_of (tools ?s) n = map_of (tools ?s') n" if "n \<noteq> tool_Name t" for n
    using that by (simp add: reg)
  have "call_Name p \<noteq> tool_Name t"
    if "UnmarshalAndValidateCallTool (Some (validator s)) (raw params) = Inr p" for p
  proof -
    from that have "ValidateCallToolRequest (validator s) p = None"
      by (auto simp: UnmarshalAndValidateCallTool_def unmarshal_and_validate_def validate_opt_def
          split: option.splits sum.splits)
    with assms(2-4) show ?thesis by (auto simp: ValidateCallTool_None)
  qed
  then have "snd (handle_tools_call params ?s) = snd (handle_tools_call params ?s')"
    using other by (simp add: handle_tools_call_def v split: sum.split option.split)
  then have "snd (handleRequest swap cancel (request MethodToolsCall params) ?s)
      = snd (handleRequest swap cancel (request MethodToolsCall params) ?s')"
    by (auto simp: handleRequest_def handlers_lookup v split: option.split prod.split)
  moreover have "(tool_Name t, t, h) \<in> set (tools ?s)"
    by (rule map_of_SomeD) (simp add: reg)
  then have "t \<in> set (tools_of ?s)" by force
  ultimately show ?thesis using assms(1) by (simp add: RegisterTool_def)
qed

theorem tool_listed_but_not_callable_witness:
  "\<not> isValidIdentifier ''my tool'' \<and>
   snd (RegisterTool (echo_tool\<lparr>tool_Name := ''my tool''\<rparr>) echo new_server) = None"
proof -
  have a: "map_of (tools new_server) (tool_Name (echo_tool\<lparr>tool_Name := ''my tool''\<rparr>)) = None" by simp
  have b: "\<not> isValidIdentifier (tool_Name (echo_tool\<lparr>tool_Name := ''my tool''\<rparr>))"
    by (simp add: isValidIdentifier_def identifier_char_def)
  have c: "ValidateRequired (validator new_server)" "ValidateFormat (validator new_server)"
    by (simp_all add: DefaultValidationConfig_def)
  show ?thesis using tool_listed_but_not_callable[OF a b c, of echo] b by simp
qed

text \<open>
  The same holds of resource templates: with the default validation a template that contains
  a brace, as URI templates do, is registered, but no \<open>resources/read\<close> request reaches its
  handler, for the lookup compares the template with the URI and the validation refuses every
  URI with a brace.
\<close>

theorem template_never_read:
  assumes "CHR 0x7B \<in> set (tmpl_Template t)" and "ValidateRequired (validator s)" and "ValidateFormat (validator s)"
    and "map_of (resourceTmpls s) (tmpl_Template t) = None"
  shows "snd (RegisterResourceTemplate t h s) = None \<and>
    snd (handleRequest swap cancel (request MethodResourcesRead params) (fst (RegisterResourceTemplate t h s)))
      = snd (handleRequest swap cancel (request MethodResourcesRead params) s)"
proof -
  let ?s = "fst (RegisterResourceTemplate t h s)"
  have v: "validator ?s = validator s" and r: "resources ?s = resources s"
    by (simp_all add: RegisterResourceTemplate_def)
  have T: "resourceTmpls ?s = AList.update (tmpl_Template t) (t, h) (resourceTmpls s)"
    using assms(4) by (simp add: RegisterResourceTemplate_def)
  have find: "List.find (\<lambda>(k, tm, g). tmpl_Template tm = uri) (AList.update (tmpl_Template t) (t, h) m)
      = List.find (\<lambda>(k, tm, g). tmpl_Template tm = uri) m"
    if "uri \<noteq> tmpl_Template t" "map_of m (tmpl_Template t) = None" for uri and m :: "(string, ResourceTemplate \<times> ReadResourceHandlerFunc) gomap"
    using that by (induction m) (auto split: if_splits)
  have "uri \<noteq> tmpl_Template t"
    if "UnmarshalAndValidateReadResource (Some (validator s)) (raw params) = Inr uri" for uri
  proof -
    from that have "ValidateReadResourceRequest (validator s) uri = None"
      by (auto simp: UnmarshalAndValidateReadResource_def unmarshal_and_validate_def validate_opt_def
          split: option.splits sum.splits)
    with assms(2,3) have "list_all uri_char uri" by (simp add: ValidateReadResource_None isValidURI_def)
    moreover have "\<not> uri_char CHR 0x7B" by (simp add: uri_char_def)
    ultimately show ?thesis using assms(1) by (auto simp: list_all_iff)
  qed
  then have "snd (handle_resources_read params ?s) = snd (handle_resources_read params s)"
    using find[OF _ assms(4)]
    by (simp add: handle_resources_read_def v r T split: sum.split option.split prod.split)
  then have "snd (handleRequest swap cancel (request MethodResourcesRead params) ?s)
      = snd (handleRequest swap cancel (request MethodResourcesRead params) s)"
    by (auto simp: handleRequest_def handlers_lookup v split: option.split prod.split)
  then show ?thesis using assms(4) by (simp add: RegisterResourceTemplate_def)
qed

definition file_template :: ResourceTemplate where
  "file_template = \<lparr>tmpl_Template = ''file:///{path}'', tmpl_Description = []\<rparr>"

theorem template_never_read_witness:
  "CHR 0x7B \<in> set (tmpl_Template file_template) \<and>
   snd (handleRequest False None (request MethodResourcesRead (Some (one_string_object ''uri'' ''file:///{path}'')))
     (fst (RegisterResourceTemplate file_template (\<lambda>uri. Returns []) new_server)))
   = snd (handleRequest False None (request MethodResourcesRead (Some (one_string_object ''uri'' ''file:///{path}'')))
     new_server)"
proof -
  have a: "CHR 0x7B \<in> set (tmpl_Template file_template)" by (simp add: file_template_def)
  have b: "ValidateRequired (validator new_server)" "ValidateFormat (validator new_server)"
    by (simp_all add: DefaultValidationConfig_def)
  have c: "map_of (resourceTmpls new_server) (tmpl_Template file_template) = None" by simp
  show ?thesis using template_never_read[OF a b c] a by blast
qed

section \<open>Subscriptions\<close>

text \<open>The subscription map refines a set of URIs.\<close>

definition subscribed :: "Server \<Rightarrow> string set" where
  "subscribed s = {uri. map_of (subscriptions s) uri = Some True}"

text \<open>The parameters of a request decode to a URI the validator accepts.\<close>

definition names_uri :: "Server \<Rightarrow> bytes \<Rightarrow> string \<Rightarrow> bool" where
  "names_uri s params uri \<longleftrightarrow>
     ValidateRequest (validator s) MethodResourcesSubscribe params = None \<and>
     unmarshalRequiredParams MethodResourcesSubscribe (Some params) (dec_one_string ''uri'') [] = Inr uri \<and>
     ValidateResourceSubscription (validator s) MethodResourcesSubscribe uri = None"

lemma names_uri_unsubscribe:
  assumes "names_uri s params uri"
  shows "ValidateRequest (validator s) MethodResourcesUnsubscribe params = None"
    "unmarshalRequiredParams MethodResourcesUnsubscribe (Some params) (dec_one_string ''uri'') [] = Inr uri"
    "ValidateResourceSubscription (validator s) m uri = None"
  using assms by (auto simp: names_uri_def validators_None unmarshalRequiredParams_def
      split: if_splits sum.splits)

text \<open>
  C12. Subscriptions are a set of URIs: a valid \<open>resources/subscribe\<close> request adds its URI, a valid
  \<open>resources/unsubscribe\<close> request removes it, neither changes anything else of the server, and
  \<open>ResourceUpdated\<close> for a valid URI sends one notification exactly when the URI is in the set
  and a client is connected.
\<close>

theorem subscriptions_refine_set:
  assumes "names_uri s params uri"
  shows "\<exists>s' s''. handleRequest swap None (request MethodResourcesSubscribe (Some params)) s = (s', Inr REmpty) \<and>
      handleRequest swap None (request MethodResourcesUnsubscribe (Some params)) s = (s'', Inr REmpty) \<and>
      subscribed s' = insert uri (subscribed s) \<and> subscribed s'' = subscribed s - {uri} \<and>
      s'\<lparr>subscriptions := subscriptions s\<rparr> = s \<and> s''\<lparr>subscriptions := subscriptions s\<rparr> = s \<and>
      sent (fst (ResourceUpdated send_err uri s)) =
        sent s @ (if uri \<in> subscribed s \<and> connected s then [(MethodResourceUpdated, NoteResourceUpdated uri)] else [])"
proof -
  note n = names_uri_unsubscribe[OF assms]
  have a: "handleRequest swap None (request MethodResourcesSubscribe (Some params)) s =
      (s\<lparr>subscriptions := AList.update uri True (subscriptions s)\<rparr>, Inr REmpty)"
    using assms handleRequest_request[of s MethodResourcesSubscribe "Some params" swap handle_subscribe]
    by (simp add: names_uri_def handlers_lookup handle_subscribe_def reported_def)
  have b: "handleRequest swap None (request MethodResourcesUnsubscribe (Some params)) s =
      (s\<lparr>subscriptions := AList.delete uri (subscriptions s)\<rparr>, Inr REmpty)"
    using n handleRequest_request[of s MethodResourcesUnsubscribe "Some params" swap handle_unsubscribe]
    by (simp add: handlers_lookup handle_unsubscribe_def reported_def)
  have c: "sent (fst (ResourceUpdated send_err uri s)) =
      sent s @ (if uri \<in> subscribed s \<and> connected s then [(MethodResourceUpdated, NoteResourceUpdated uri)] else [])"
    by (simp add: ResourceUpdated_def n notify_def subscribed_def)
  show ?thesis
    unfolding a b c by (auto simp: subscribed_def update_conv' delete_conv')
qed

theorem subscriptions_refine_set_witness:
  "names_uri new_server (one_string_object ''uri'' ''file:///a'') ''file:///a'' \<and>
   subscribed (fst (handleRequest False None (request MethodResourcesSubscribe
     (Some (one_string_object ''uri'' ''file:///a''))) new_server)) = {''file:///a''}"
proof -
  have "ValidateRequest DefaultValidationConfig MethodResourcesSubscribe (one_string_object ''uri'' ''file:///a'') = None"
    by code_simp
  moreover have "unmarshalRequiredParams MethodResourcesSubscribe (Some (one_string_object ''uri'' ''file:///a''))
      (dec_one_string ''uri'') [] = Inr ''file:///a''" by code_simp
  moreover have "ValidateResourceSubscription DefaultValidationConfig MethodResourcesSubscribe ''file:///a'' = None"
    by code_simp
  ultimately have h: "names_uri new_server (one_string_object ''uri'' ''file:///a'') ''file:///a''"
    by (simp add: names_uri_def)
  let ?r = "handleRequest False None (request MethodResourcesSubscribe
     (Some (one_string_object ''uri'' ''file:///a''))) new_server"
  have "subscribed (fst ?r) = insert ''file:///a'' (subscribed new_server)"
    using subscriptions_refine_set[OF h, of False None] by fastforce
  moreover have "subscribed new_server = {}" by (simp add: subscribed_def)
  ultimately show ?thesis using h by (simp only: simp_thms)
qed

section \<open>Logging\<close>

definition severity :: "string list" where
  "severity = [''debug'', ''info'', ''notice'', ''warning'', ''error'', ''critical'', ''alert'', ''emergency'']"

lemma severity_level:
  assumes "i < 8"
  shows "slogLevelForLoggingLevel (severity ! i) = Some ([-4, 0, 2, 4, 8, 12, 16, 20] ! i)"
  using assms by (auto simp: severity_def slogLevelForLoggingLevel_def less_Suc_eq numeral_nat)

lemma severity_order:
  assumes "i < 8" and "j < 8"
  shows "[-4, 0, 2, 4, 8, 12, 16, 20 :: int] ! j < [-4, 0, 2, 4, 8, 12, 16, 20] ! i \<longleftrightarrow> j < i"
  using assms by (auto simp: less_Suc_eq numeral_nat)

lemma severity_unknown: "level \<notin> set severity \<Longrightarrow> slogLevelForLoggingLevel level = None"
  by (simp add: severity_def slogLevelForLoggingLevel_def)

lemma setLevel_request:
  assumes "i < 8" and "21 \<le> MaxRequestSize (validator s)"
  shows "handleRequest swap None (request MethodLoggingSetLevel (Some (one_string_object ''level'' (severity ! i)))) s
    = (s\<lparr>logLevel := Some ([-4, 0, 2, 4, 8, 12, 16, 20] ! i)\<rparr>, Inr REmpty)"
proof -
  let ?p = "one_string_object ''level'' (severity ! i)"
  have k: "list_all plain_char ''level''" by code_simp
  have "list_all (\<lambda>l. list_all plain_char l \<and> length (one_string_object ''level'' l) \<le> 21) severity"
    by code_simp
  moreover have "severity ! i \<in> set severity" using assms(1) by (intro nth_mem) (simp add: severity_def)
  ultimately have p: "list_all plain_char (severity ! i)" and "length ?p \<le> 21"
    by (auto simp: list_all_iff)
  then have v: "ValidateRequest (validator s) MethodLoggingSetLevel ?p = None"
    using assms(2) json_parse_one_string[OF k p] by (simp add: ValidateRequest_None json_Valid_def)
  have "handle_setLevel (Some ?p) s = (s\<lparr>logLevel := Some ([-4, 0, 2, 4, 8, 12, 16, 20] ! i)\<rparr>, Returns REmpty)"
    using one_string_present[of "''level''" "severity ! i"] v one_string_decoded[OF k p, of "[]"] severity_level[OF assms(1)]
    by (simp add: handle_setLevel_def raw_def)
  with v handleRequest_request[of s MethodLoggingSetLevel "Some ?p" swap handle_setLevel]
  show ?thesis by (simp add: handlers_lookup reported_def)
qed

text \<open>
  The log level a client sets decides what it receives: a \<open>logging/setLevel\<close> request for one
  of the eight levels succeeds and changes only the level; from then on \<open>NotifyLoggingMessage\<close>
  sends a message exactly when its level is at least as severe and a client is connected, in
  the order debug, info, notice, warning, error, critical, alert, emergency; an unknown
  level is refused and nothing is sent.
\<close>

theorem log_level_filters:
  assumes "i < 8" and "21 \<le> MaxRequestSize (validator s)"
  shows "\<exists>s'. handleRequest swap None
        (request MethodLoggingSetLevel (Some (one_string_object ''level'' (severity ! i)))) s = (s', Inr REmpty) \<and>
      s'\<lparr>logLevel := logLevel s\<rparr> = s \<and>
      (\<forall>j < 8. sent (fst (NotifyLoggingMessage send_err (severity ! j) logger (Inr d) s')) =
         sent s @ (if i \<le> j \<and> connected s then [(MethodLogging, NoteLogging (severity ! j) logger d)] else [])) \<and>
      (\<forall>level. level \<notin> set severity \<longrightarrow> fst (NotifyLoggingMessage send_err level logger (Inr d) s') = s' \<and>
         snd (NotifyLoggingMessage send_err level logger (Inr d) s') \<noteq> None)"
proof -
  have "sent (fst (NotifyLoggingMessage send_err (severity ! j) logger (Inr d)
          (s\<lparr>logLevel := Some ([-4, 0, 2, 4, 8, 12, 16, 20] ! i)\<rparr>))) =
      sent s @ (if i \<le> j \<and> connected s then [(MethodLogging, NoteLogging (severity ! j) logger d)] else [])"
    if "j < 8" for j
    using severity_order[OF assms(1) that]
    by (simp add: NotifyLoggingMessage_def severity_level[OF that] notify_def)
  then show ?thesis
    unfolding setLevel_request[OF assms] by (simp add: NotifyLoggingMessage_def severity_unknown)
qed

theorem log_level_filters_witness:
  "(3 :: nat) < 8 \<and> 21 \<le> MaxRequestSize (validator new_server) \<and>
   (\<exists>s'. handleRequest False None
      (request MethodLoggingSetLevel (Some (one_string_object ''level'' ''warning''))) new_server = (s', Inr REmpty))"
proof -
  have h: "(3 :: nat) < 8" "21 \<le> MaxRequestSize (validator new_server)"
    by (simp_all add: DefaultValidationConfig_def)
  from log_level_filters[OF h, of False None "[]" JNull]
  have "\<exists>s'. handleRequest False None
      (request MethodLoggingSetLevel (Some (one_string_object ''level'' (severity ! 3)))) new_server = (s', Inr REmpty)"
    by blast
  with h show ?thesis by (simp add: severity_def)
qed

section \<open>Requests to the client\<close>

text \<open>What the client must have announced, for sampling, for roots and for an elicitation.\<close>

definition can_sample :: "Server \<Rightarrow> bool" where
  "can_sample s \<longleftrightarrow> connected s \<and> Sampling (clientCaps s) \<noteq> None"

definition can_list_roots :: "Server \<Rightarrow> bool" where
  "can_list_roots s \<longleftrightarrow> connected s \<and> Roots (clientCaps s) \<noteq> None"

definition can_elicit :: "ElicitRequest \<Rightarrow> Server \<Rightarrow> bool" where
  "can_elicit r s \<longleftrightarrow> connected s \<and>
     (case Elicitation (clientCaps s) of
        None \<Rightarrow> False
      | Some caps \<Rightarrow>
          elicit_mode r = ''url'' \<and> cap_URL caps \<noteq> None \<or>
          elicit_mode r = ''form'' \<and> (cap_Form caps \<noteq> None \<or> cap_URL caps = None))"

lemma Elicit_gate:
  "if can_elicit r s then Elicit (\<lambda>_. Inr x) r s = Inr x else \<exists>e. \<forall>reply. Elicit reply r s = Inl e"
proof (cases "connected s \<and> Elicitation (clientCaps s) \<noteq> None")
  case False
  then show ?thesis by (auto simp: can_elicit_def Elicit_def split: option.split)
next
  case True
  then obtain caps where c: "connected s" "Elicitation (clientCaps s) = Some caps" by blast
  show ?thesis
    by (cases "elicit_mode r = ''url''"; cases "elicit_mode r = ''form''"; cases "cap_URL caps"; cases "cap_Form caps")
      (simp_all add: can_elicit_def Elicit_def c Let_def)
qed

text \<open>
  The server never sends the client a request it did not announce support for: a sampling,
  roots or elicitation call reaches the client, and gives its reply, exactly when a client is
  connected and has declared the capability (for an elicitation, in the mode used; a
  capability without modes means forms); otherwise it fails in the same way whatever the
  client would have replied.
\<close>

theorem client_requests_need_capability:
  "(if can_sample s then CreateMessage (Inr x) s = Inr x else \<exists>e. \<forall>reply. CreateMessage reply s = Inl e) \<and>
   (if can_list_roots s then ListRoots (Inr x) s = Inr x else \<exists>e. \<forall>reply. ListRoots reply s = Inl e) \<and>
   (if can_elicit r s then Elicit (\<lambda>_. Inr x) r s = Inr x else \<exists>e. \<forall>reply. Elicit reply r s = Inl e)"
  using Elicit_gate[of r s x]
  by (simp add: can_sample_def can_list_roots_def CreateMessage_def ListRoots_def)

text \<open>
  A server-initiated request always has a deadline: with a positive configured timeout the
  deadline of the context is never later than the timeout from the moment the context is made,
  nor later than the caller's own deadline.
\<close>

theorem requestContext_deadline:
  assumes "0 < serverRequestTimeout s" and "serverRequestTimeout s < 2 ^ 63 - 1" and "now \<le> now'"
  shows "\<exists>d. requestContext s deadline now now' = Some d \<and> d \<le> now' + serverRequestTimeout s \<and>
     (\<forall>d'. deadline = Some d' \<longrightarrow> d \<le> d')"
  using assms by (cases deadline) (auto simp: requestContext_def time_Sub_def Let_def)

theorem requestContext_deadline_witness:
  "0 < serverRequestTimeout new_server \<and> requestContext new_server None 5 7 = Some (7 + 30 * second)"
proof -
  have t: "serverRequestTimeout new_server = 30 * second"
    by (simp add: new_server_def NewServer_def registerDefaultHandlers_def Let_def
        withInferredServerName_def withInferredServerVersion_def)
  have h: "0 < serverRequestTimeout new_server" "serverRequestTimeout new_server < 2 ^ 63 - 1" "(5 :: int) \<le> 7"
    by (simp_all add: t)
  from requestContext_deadline[OF h, of None] h(1) show ?thesis
    by (simp add: requestContext_def Let_def t)
qed

section \<open>Middleware\<close>

lemma foldr_id: "\<forall>m \<in> set ms. f m = id \<Longrightarrow> foldr f ms x = x"
  by (induction ms) simp_all

lemma bubble_sort_set: "set (bubble_sort pri xs) = set xs"
  by (simp add: bubble_sort_eq)

text \<open>
  Middleware that passes everything on is invisible to successful requests but not to failing
  ones: the result and the effect on the server are those of \<open>handleRequest\<close>, while an error
  arrives as a JSON-RPC error with the code of the \<open>ResponseError\<close> it wraps or else -32603, and
  with the same text when it wraps none; a not-found error loses its type.
\<close>

theorem passthrough_middleware:
  assumes "mws \<noteq> []" and "\<forall>m \<in> set mws. mw_Apply m = id"
  shows "middlewareHandler mws swap cancel ctx req s =
    (fst (handleRequest swap cancel req s),
     Inr (case snd (handleRequest swap cancel req s) of
            Inr r \<Rightarrow> Inr (Some r)
          | Inl e \<Rightarrow> Inl (case errors_As_ResponseError e of
                          Some (code, msg) \<Rightarrow> ResponseError code msg
                        | None \<Rightarrow> ResponseError (- 32603) (error_string e))))"
proof -
  have "chain_Apply mws (mcpBaseHandler swap cancel) = mcpBaseHandler swap cancel"
    using assms by (simp add: chain_Apply_def foldr_id bubble_sort_set)
  then show ?thesis
    using assms(1) by (cases "handleRequest swap cancel req s")
      (auto simp: middlewareHandler_def mcpBaseHandler_def split: sum.split option.split)
qed

theorem passthrough_middleware_witness:
  "snd (middlewareHandler [Middleware ''id'' 0 id] False None () (request ''nope'' None) new_server)
     = Inr (Inl (ResponseError (- 32603) (error_string (NewNotFoundError ''method'' ''nope''))))"
proof -
  have h: "[Middleware ''id'' 0 id :: (unit, Server, result) Middleware] \<noteq> []"
    "\<forall>m \<in> set [Middleware ''id'' 0 id :: (unit, Server, result) Middleware]. mw_Apply m = id" by simp_all
  have "snd (handleRequest False None (request ''nope'' None) new_server) = Inl (NewNotFoundError ''method'' ''nope'')"
    by (simp add: handleRequest_def handlers_def method_defs)
  with passthrough_middleware[OF h, of False None "()" "request ''nope'' None" new_server] show ?thesis
    by (simp add: NewNotFoundError_def)
qed

end
