(* ===== verification/Progress.thy ===== *)
theory Progress
  imports Params Go_Float
begin

text \<open>
  Model of \<open>progress.go\<close>: progress trackers, which are shared by reference between the manager,
  contexts and callers, the progress manager, the cancel manager, the contexts that carry
  them, and the callback handlers. Trackers and managers live in a store; a pointer is an index.
  A cancel function is the number of the context it cancels. The values of a tracker are finite
  float64 numbers and are only stored and compared.
\<close>

section \<open>State\<close>

text \<open>A token is a string or a number; the numbers that occur are those of JSON, as text.\<close>

datatype ProgressToken = TokenString string | TokenNumber string

record Progress =
  prog_token :: ProgressToken
  prog_total :: "rat option"
  prog_value :: rat
  prog_message :: string

record ProgressNotification =
  note_token :: ProgressToken
  note_progress :: rat
  note_total :: "rat option"
  note_message :: string

record CancelManager =
  cm_cancelled :: "(string, nat) gomap"     \<comment> \<open>cancel functions by request id\<close>
  cm_reasons :: "(string, string) gomap"

type_synonym ProgressManager = "(ProgressToken, nat) gomap"

record world =
  progress_store :: "Progress list"
  managers :: "ProgressManager list"
  cancel_managers :: "CancelManager list"
  cancelled_ctxs :: "nat list"
  next_ctx :: nat

text \<open>Contexts: the background, a value under one of the two keys, or a cancellable child.\<close>

datatype context_t =
    Background
  | CtxProgress context_t nat
  | CtxCancelManager context_t nat
  | CtxCancel context_t nat

section \<open>Trackers\<close>

definition NewProgress :: "ProgressToken \<Rightarrow> rat option \<Rightarrow> world \<Rightarrow> world \<times> nat" where
  "NewProgress token tot w =
     (w\<lparr>progress_store := progress_store w @
          [\<lparr>prog_token = token, prog_total = tot, prog_value = 0, prog_message = []\<rparr>]\<rparr>,
      length (progress_store w))"

definition progress_Update :: "nat \<Rightarrow> rat \<Rightarrow> string \<Rightarrow> world \<Rightarrow> world" where
  "progress_Update p value msg w =
     w\<lparr>progress_store := (progress_store w)[p := (progress_store w ! p)\<lparr>prog_value := value, prog_message := msg\<rparr>]\<rparr>"

definition progress_Value :: "nat \<Rightarrow> world \<Rightarrow> rat" where
  "progress_Value p w = prog_value (progress_store w ! p)"

definition progress_Message :: "nat \<Rightarrow> world \<Rightarrow> string" where
  "progress_Message p w = prog_message (progress_store w ! p)"

definition progress_Total :: "nat \<Rightarrow> world \<Rightarrow> rat option" where
  "progress_Total p w = prog_total (progress_store w ! p)"

definition IsComplete :: "nat \<Rightarrow> world \<Rightarrow> bool" where
  "IsComplete p w =
     (case prog_total (progress_store w ! p) of
        None \<Rightarrow> False
      | Some t \<Rightarrow> t \<le> prog_value (progress_store w ! p))"

definition ToNotification :: "nat \<Rightarrow> world \<Rightarrow> string \<times> ProgressNotification" where
  "ToNotification p w =
     (let q = progress_store w ! p
      in (MethodProgress, \<lparr>note_token = prog_token q, note_progress = prog_value q,
                           note_total = prog_total q, note_message = prog_message q\<rparr>))"

section \<open>Progress manager\<close>

definition NewProgressManager :: "world \<Rightarrow> world \<times> nat" where
  "NewProgressManager w = (w\<lparr>managers := managers w @ [[]]\<rparr>, length (managers w))"

definition CreateProgress :: "nat \<Rightarrow> ProgressToken \<Rightarrow> rat option \<Rightarrow> world \<Rightarrow> world \<times> nat" where
  "CreateProgress pm token tot w =
     (case NewProgress token tot w of (w, p) \<Rightarrow>
        (w\<lparr>managers := (managers w)[pm := AList.update token p (managers w ! pm)]\<rparr>, p))"

definition GetProgress :: "nat \<Rightarrow> ProgressToken \<Rightarrow> world \<Rightarrow> nat option" where
  "GetProgress pm token w = map_of (managers w ! pm) token"

definition UpdateProgress :: "nat \<Rightarrow> ProgressToken \<Rightarrow> rat \<Rightarrow> string \<Rightarrow> world \<Rightarrow> world \<times> bool" where
  "UpdateProgress pm token value msg w =
     (case map_of (managers w ! pm) token of
        None \<Rightarrow> (w, False)
      | Some p \<Rightarrow> (progress_Update p value msg w, True))"

definition RemoveProgress :: "nat \<Rightarrow> ProgressToken \<Rightarrow> world \<Rightarrow> world" where
  "RemoveProgress pm token w = w\<lparr>managers := (managers w)[pm := AList.delete token (managers w ! pm)]\<rparr>"

definition ListProgress :: "nat \<Rightarrow> world \<Rightarrow> nat list" where
  "ListProgress pm w = map snd (managers w ! pm)"

section \<open>Cancel manager\<close>

definition NewCancelManager :: "world \<Rightarrow> world \<times> nat" where
  "NewCancelManager w =
     (w\<lparr>cancel_managers := cancel_managers w @ [\<lparr>cm_cancelled = [], cm_reasons = []\<rparr>]\<rparr>,
      length (cancel_managers w))"

definition RegisterCancellation :: "nat \<Rightarrow> string \<Rightarrow> nat \<Rightarrow> world \<Rightarrow> world" where
  "RegisterCancellation cm requestID cancelFunc w =
     (let m = cancel_managers w ! cm
      in w\<lparr>cancel_managers := (cancel_managers w)
             [cm := m\<lparr>cm_cancelled := AList.update requestID cancelFunc (cm_cancelled m)\<rparr>]\<rparr>)"

definition run_cancel :: "nat \<Rightarrow> world \<Rightarrow> world" where
  "run_cancel c w = w\<lparr>cancelled_ctxs := List.insert c (cancelled_ctxs w)\<rparr>"

definition CancelRequest :: "nat \<Rightarrow> string \<Rightarrow> string \<Rightarrow> world \<Rightarrow> world \<times> bool" where
  "CancelRequest cm requestID reason w =
     (let m = cancel_managers w ! cm
      in case map_of (cm_cancelled m) requestID of
           None \<Rightarrow> (w, False)
         | Some cancelFunc \<Rightarrow>
             (run_cancel cancelFunc (w\<lparr>cancel_managers := (cancel_managers w)
                [cm := m\<lparr>cm_reasons := AList.update requestID reason (cm_reasons m)\<rparr>]\<rparr>), True))"

definition IsCancelled :: "nat \<Rightarrow> string \<Rightarrow> world \<Rightarrow> bool \<times> string" where
  "IsCancelled cm requestID w =
     (case map_of (cm_reasons (cancel_managers w ! cm)) requestID of
        None \<Rightarrow> (False, [])
      | Some reason \<Rightarrow> (True, reason))"

definition UnregisterCancellation :: "nat \<Rightarrow> string \<Rightarrow> world \<Rightarrow> world" where
  "UnregisterCancellation cm requestID w =
     (let m = cancel_managers w ! cm
      in w\<lparr>cancel_managers := (cancel_managers w)
             [cm := m\<lparr>cm_cancelled := AList.delete requestID (cm_cancelled m),
                       cm_reasons := AList.delete requestID (cm_reasons m)\<rparr>]\<rparr>)"

definition CreateCancelledNotification :: "nat \<Rightarrow> string \<Rightarrow> world \<Rightarrow> string \<times> string \<times> string" where
  "CreateCancelledNotification cm requestID w =
     (MethodNotificationCancelled, requestID,
      case map_of (cm_reasons (cancel_managers w ! cm)) requestID of None \<Rightarrow> [] | Some reason \<Rightarrow> reason)"

section \<open>Contexts\<close>

definition ContextWithProgress :: "context_t \<Rightarrow> nat \<Rightarrow> context_t" where
  "ContextWithProgress ctx p = CtxProgress ctx p"

fun ProgressFromContext :: "context_t \<Rightarrow> nat option" where
  "ProgressFromContext Background = None"
| "ProgressFromContext (CtxProgress ctx p) = Some p"
| "ProgressFromContext (CtxCancelManager ctx cm) = ProgressFromContext ctx"
| "ProgressFromContext (CtxCancel ctx c) = ProgressFromContext ctx"

definition ContextWithCancelManager :: "context_t \<Rightarrow> nat \<Rightarrow> context_t" where
  "ContextWithCancelManager ctx cm = CtxCancelManager ctx cm"

fun CancelManagerFromContext :: "context_t \<Rightarrow> nat option" where
  "CancelManagerFromContext Background = None"
| "CancelManagerFromContext (CtxProgress ctx p) = CancelManagerFromContext ctx"
| "CancelManagerFromContext (CtxCancelManager ctx cm) = Some cm"
| "CancelManagerFromContext (CtxCancel ctx c) = CancelManagerFromContext ctx"

definition WithProgress :: "context_t \<Rightarrow> ProgressToken \<Rightarrow> rat option \<Rightarrow> world \<Rightarrow> world \<times> context_t \<times> nat" where
  "WithProgress ctx token tot w =
     (case NewProgress token tot w of (w, p) \<Rightarrow> (w, ContextWithProgress ctx p, p))"

definition WithCancellation :: "context_t \<Rightarrow> string \<Rightarrow> world \<Rightarrow> world \<times> context_t \<times> nat" where
  "WithCancellation ctx requestID w =
     (let cancel = next_ctx w; ctx = CtxCancel ctx cancel; w = w\<lparr>next_ctx := Suc cancel\<rparr>
      in case CancelManagerFromContext ctx of
           Some cm \<Rightarrow> (RegisterCancellation cm requestID cancel w, ctx, cancel)
         | None \<Rightarrow> (w, ctx, cancel))"

definition UpdateProgressInContext :: "context_t \<Rightarrow> rat \<Rightarrow> string \<Rightarrow> world \<Rightarrow> world \<times> bool" where
  "UpdateProgressInContext ctx value msg w =
     (case ProgressFromContext ctx of
        Some p \<Rightarrow> (progress_Update p value msg w, True)
      | None \<Rightarrow> (w, False))"

definition context_Canceled :: mcp_error where
  "context_Canceled = Sentinel ''context canceled''"

text \<open>A context is done when it or one of its ancestors has been cancelled.\<close>

fun ctx_done :: "world \<Rightarrow> context_t \<Rightarrow> bool" where
  "ctx_done w Background = False"
| "ctx_done w (CtxProgress ctx p) = ctx_done w ctx"
| "ctx_done w (CtxCancelManager ctx cm) = ctx_done w ctx"
| "ctx_done w (CtxCancel ctx c) = (c \<in> set (cancelled_ctxs w) \<or> ctx_done w ctx)"

definition CheckCancellation :: "context_t \<Rightarrow> world \<Rightarrow> mcp_error option" where
  "CheckCancellation ctx w = (if ctx_done w ctx then Some context_Canceled else None)"

section \<open>Callback handlers\<close>

text \<open>A handler keeps its callbacks in order; notifying starts one goroutine for each callback it
  had at that moment, and \<open>safeGo\<close> recovers their panics. A callback is a name here, a call the
  name with its arguments.\<close>

record 'a callback_handler =
  callbacks :: "nat list"
  started :: "(nat \<times> 'a) list"

definition NewCallbackHandler :: "'a callback_handler" where
  "NewCallbackHandler = \<lparr>callbacks = [], started = []\<rparr>"

definition AddCallback :: "nat \<Rightarrow> 'a callback_handler \<Rightarrow> 'a callback_handler" where
  "AddCallback cb h = h\<lparr>callbacks := callbacks h @ [cb]\<rparr>"

definition NotifyCallbacks :: "'a \<Rightarrow> 'a callback_handler \<Rightarrow> 'a callback_handler" where
  "NotifyCallbacks args h = h\<lparr>started := started h @ map (\<lambda>cb. (cb, args)) (callbacks h)\<rparr>"

definition ProgressHandler_NotifyProgress ::
  "ProgressToken \<Rightarrow> rat \<Rightarrow> rat option \<Rightarrow> string \<Rightarrow>
   (ProgressToken \<times> rat \<times> rat option \<times> string) callback_handler \<Rightarrow>
   (ProgressToken \<times> rat \<times> rat option \<times> string) callback_handler" where
  "ProgressHandler_NotifyProgress token value tot msg h = NotifyCallbacks (token, value, tot, msg) h"

definition NotifyCancellation ::
  "string \<Rightarrow> string \<Rightarrow> (string \<times> string) callback_handler \<Rightarrow> (string \<times> string) callback_handler" where
  "NotifyCancellation requestID reason h = NotifyCallbacks (requestID, reason) h"

section \<open>Sequences of operations\<close>

datatype world_op =
    OpNewManager
  | OpCreate nat ProgressToken "rat option"
  | OpUpdate nat ProgressToken rat string
  | OpUpdateRef nat rat string                 \<comment> \<open>through a pointer or a context\<close>
  | OpRemove nat ProgressToken
  | OpNewCancelManager
  | OpRegister nat string nat
  | OpCancel nat string string
  | OpUnregister nat string
  | OpWithProgress context_t ProgressToken "rat option"
  | OpWithCancellation context_t string
  | OpRunCancel nat

text \<open>Pointers are valid in Go; an operation on a manager or tracker that does not exist does nothing.\<close>

fun world_exec :: "world_op \<Rightarrow> world \<Rightarrow> world" where
  "world_exec OpNewManager w = fst (NewProgressManager w)"
| "world_exec (OpCreate pm token tot) w = (if pm < length (managers w) then fst (CreateProgress pm token tot w) else w)"
| "world_exec (OpUpdate pm token value msg) w =
     (if pm < length (managers w) then fst (UpdateProgress pm token value msg w) else w)"
| "world_exec (OpUpdateRef p value msg) w =
     (if p < length (progress_store w) then progress_Update p value msg w else w)"
| "world_exec (OpRemove pm token) w = (if pm < length (managers w) then RemoveProgress pm token w else w)"
| "world_exec OpNewCancelManager w = fst (NewCancelManager w)"
| "world_exec (OpRegister cm rid c) w =
     (if cm < length (cancel_managers w) \<and> c < next_ctx w then RegisterCancellation cm rid c w else w)"
| "world_exec (OpCancel cm rid reason) w =
     (if cm < length (cancel_managers w) then fst (CancelRequest cm rid reason w) else w)"
| "world_exec (OpUnregister cm rid) w =
     (if cm < length (cancel_managers w) then UnregisterCancellation cm rid w else w)"
| "world_exec (OpWithProgress ctx token tot) w = fst (WithProgress ctx token tot w)"
| "world_exec (OpWithCancellation ctx rid) w =
     (case CancelManagerFromContext ctx of
        Some cm \<Rightarrow> if cm < length (cancel_managers w) then fst (WithCancellation ctx rid w) else w
      | None \<Rightarrow> fst (WithCancellation ctx rid w))"
| "world_exec (OpRunCancel c) w = (if c < next_ctx w then run_cancel c w else w)"

definition empty_world :: world where
  "empty_world = \<lparr>progress_store = [], managers = [], cancel_managers = [], cancelled_ctxs = [], next_ctx = 0\<rparr>"

abbreviation world_execs :: "world_op list \<Rightarrow> world \<Rightarrow> world" where
  "world_execs \<equiv> fold world_exec"

text \<open>No two entries of a manager share a tracker.\<close>

definition manager_ok :: "nat \<Rightarrow> ProgressManager \<Rightarrow> bool" where
  "manager_ok n m \<longleftrightarrow> map_ok m \<and> distinct (map snd m) \<and> (\<forall>p \<in> set (map snd m). p < n)"

definition trackers_ok :: "world \<Rightarrow> bool" where
  "trackers_ok w \<longleftrightarrow> (\<forall>m \<in> set (managers w). manager_ok (length (progress_store w)) m)"

lemmas progress_defs = NewProgress_def progress_Update_def NewProgressManager_def CreateProgress_def
  UpdateProgress_def RemoveProgress_def WithProgress_def

lemmas cancel_defs = NewCancelManager_def RegisterCancellation_def run_cancel_def CancelRequest_def
  UnregisterCancellation_def WithCancellation_def

lemma manager_ok_mono: "manager_ok n m \<Longrightarrow> n \<le> n' \<Longrightarrow> manager_ok n' m"
  by (auto simp: manager_ok_def)

lemma snd_update_fresh:
  assumes "\<forall>p \<in> set (map snd m). p \<noteq> q" and "distinct (map snd m)"
  shows "distinct (map snd (AList.update k q m)) \<and> set (map snd (AList.update k q m)) \<subseteq> insert q (set (map snd m))"
  using assms by (induction m) auto

lemma snd_delete: "distinct (map snd m) \<Longrightarrow> distinct (map snd (AList.delete k m)) \<and> set (map snd (AList.delete k m)) \<subseteq> set (map snd m)"
  unfolding AList.delete_eq by (induction m) auto

lemma manager_ok_create: "manager_ok n m \<Longrightarrow> manager_ok (Suc n) (AList.update token n m)"
  using snd_update_fresh[of m n token] by (fastforce simp: manager_ok_def)

lemma manager_ok_remove: "manager_ok n m \<Longrightarrow> manager_ok n (AList.delete token m)"
  using snd_delete[of m token] by (fastforce simp: manager_ok_def)

lemma trackers_ok_upd:
  assumes "trackers_ok w" and "managers w' = managers w" and "length (progress_store w) \<le> length (progress_store w')"
  shows "trackers_ok w'"
  using assms by (auto simp: trackers_ok_def intro: manager_ok_mono)

lemma trackers_ok_set:
  assumes "trackers_ok w" and "managers w' = (managers w)[pm := m]" and "length (progress_store w) \<le> length (progress_store w')"
    and "manager_ok (length (progress_store w')) m"
  shows "trackers_ok w'"
  using assms set_update_subset_insert[of "managers w" pm m]
  by (auto simp: trackers_ok_def intro: manager_ok_mono)

lemma trackers_ok_nth: "trackers_ok w \<Longrightarrow> pm < length (managers w) \<Longrightarrow> manager_ok (length (progress_store w)) (managers w ! pm)"
  by (simp add: trackers_ok_def)

lemma cancel_ops_same:
  "progress_store (run_cancel c w) = progress_store w" "managers (run_cancel c w) = managers w"
  "progress_store (fst (CancelRequest cm r re w)) = progress_store w" "managers (fst (CancelRequest cm r re w)) = managers w"
  "progress_store (RegisterCancellation cm r c w) = progress_store w" "managers (RegisterCancellation cm r c w) = managers w"
  "progress_store (UnregisterCancellation cm r w) = progress_store w" "managers (UnregisterCancellation cm r w) = managers w"
  "progress_store (fst (WithCancellation ctx r w)) = progress_store w" "managers (fst (WithCancellation ctx r w)) = managers w"
  "progress_store (fst (NewCancelManager w)) = progress_store w" "managers (fst (NewCancelManager w)) = managers w"
  by (simp_all add: cancel_defs Let_def split: option.split)

lemma trackers_ok_exec: "trackers_ok w \<Longrightarrow> trackers_ok (world_exec op w)"
proof (cases op)
  case OpNewManager
  assume "trackers_ok w"
  with OpNewManager show ?thesis by (auto simp: trackers_ok_def NewProgressManager_def manager_ok_def)
next
  case (OpCreate pm token tot)
  assume "trackers_ok w"
  with OpCreate show ?thesis
    by (auto simp: CreateProgress_def NewProgress_def manager_ok_create trackers_ok_nth
        intro!: trackers_ok_set[of w _ pm "AList.update token (length (progress_store w)) (managers w ! pm)"])
next
  case (OpRemove pm token)
  assume "trackers_ok w"
  with OpRemove show ?thesis
    by (auto simp: RemoveProgress_def manager_ok_remove trackers_ok_nth
        intro!: trackers_ok_set[of w _ pm "AList.delete token (managers w ! pm)"])
qed (auto intro!: trackers_ok_upd[of w] simp: progress_defs cancel_ops_same split: option.split)

lemma trackers_ok_execs: "trackers_ok w \<Longrightarrow> trackers_ok (world_execs ops w)"
  by (induction ops arbitrary: w) (simp_all add: trackers_ok_exec)

section \<open>Properties\<close>

text \<open>What a manager shows of a tracker: its total, value and message.\<close>

definition tracked :: "nat \<Rightarrow> world \<Rightarrow> ProgressToken \<rightharpoonup> rat option \<times> rat \<times> string" where
  "tracked pm w token =
     map_option (\<lambda>p. (progress_Total p w, progress_Value p w, progress_Message p w)) (GetProgress pm token w)"

lemma same_tracker:
  assumes "distinct (map snd m)" and "map_of m k = Some p" and "map_of m k' = Some p"
  shows "k = k'"
proof -
  have "(k, p) = (k', p)"
    using assms map_of_SomeD[OF assms(2)] map_of_SomeD[OF assms(3)]
    by (intro inj_onD[of snd "set m"]) (auto simp: distinct_map)
  then show ?thesis by simp
qed

text \<open>
  C38. The progress manager refines a map from tokens to the total, value and message of a
  tracker: after any operations of managers, contexts and cancellations, creating a tracker
  binds its token to a fresh one at value zero, updating changes the value and message of that
  token only and reports whether it was bound, and removing unbinds it, although all
  trackers are shared pointers.
\<close>

theorem progress_manager_refines_map:
  assumes "w = world_execs ops empty_world" and "pm < length (managers w)"
  shows "tracked pm (fst (CreateProgress pm token tot w)) = (tracked pm w)(token \<mapsto> (tot, 0, [])) \<and>
    tracked pm (fst (UpdateProgress pm token value msg w)) =
      (case tracked pm w token of None \<Rightarrow> tracked pm w | Some (t, v, m) \<Rightarrow> (tracked pm w)(token \<mapsto> (t, value, msg))) \<and>
    snd (UpdateProgress pm token value msg w) = (tracked pm w token \<noteq> None) \<and>
    tracked pm (RemoveProgress pm token w) = (tracked pm w)(token := None)"
proof -
  have "trackers_ok w"
    unfolding assms(1) by (rule trackers_ok_execs) (simp add: trackers_ok_def empty_world_def)
  with assms(2) have m: "manager_ok (length (progress_store w)) (managers w ! pm)"
    by (rule trackers_ok_nth[rotated])
  have old: "p < length (progress_store w)" if "map_of (managers w ! pm) k = Some p" for k p
    using map_of_SomeD[OF that] m by (force simp: manager_ok_def)
  have d: "distinct (map snd (managers w ! pm))" using m by (simp add: manager_ok_def)
  note sh = tracked_def GetProgress_def progress_Total_def progress_Value_def progress_Message_def
  have "tracked pm (fst (CreateProgress pm token tot w)) k = ((tracked pm w)(token \<mapsto> (tot, 0, []))) k" for k
    using assms(2) old[of k]
    by (cases "map_of (managers w ! pm) k") (auto simp: sh CreateProgress_def NewProgress_def nth_append)
  moreover have "tracked pm (fst (UpdateProgress pm token value msg w)) k =
      (case tracked pm w token of None \<Rightarrow> tracked pm w | Some (t, v, m) \<Rightarrow> (tracked pm w)(token \<mapsto> (t, value, msg))) k" for k
    using old[of token] old[of k] same_tracker[OF d, of token _ k]
    by (cases "map_of (managers w ! pm) k"; cases "map_of (managers w ! pm) token")
      (auto simp: sh UpdateProgress_def progress_Update_def nth_list_update)
  moreover have "tracked pm (RemoveProgress pm token w) k = ((tracked pm w)(token := None)) k" for k
    using assms(2) by (auto simp: sh RemoveProgress_def)
  ultimately show ?thesis
    by (auto simp: sh UpdateProgress_def split: option.split)
qed

theorem progress_manager_refines_map_witness:
  "tracked 0 (fst (CreateProgress 0 (TokenString ''a'') (Some 10) (world_execs [OpNewManager] empty_world)))
    = (tracked 0 (world_execs [OpNewManager] empty_world))(TokenString ''a'' \<mapsto> (Some 10, 0, []))"
proof -
  have "0 < length (managers (world_execs [OpNewManager] empty_world))"
    by (simp add: NewProgressManager_def)
  from progress_manager_refines_map[OF refl this] show ?thesis by blast
qed

text \<open>A context derived from another.\<close>

fun derived_from :: "nat \<Rightarrow> context_t \<Rightarrow> bool" where
  "derived_from c Background = False"
| "derived_from c (CtxProgress ctx p) = derived_from c ctx"
| "derived_from c (CtxCancelManager ctx cm) = derived_from c ctx"
| "derived_from c (CtxCancel ctx c') = (c = c' \<or> derived_from c ctx)"

lemma ctx_done_run_cancel: "ctx_done (run_cancel c w) ctx = (ctx_done w ctx \<or> derived_from c ctx)"
  by (induction ctx) (auto simp: run_cancel_def)

lemma ctx_done_cong: "cancelled_ctxs w = cancelled_ctxs w' \<Longrightarrow> ctx_done w ctx = ctx_done w' ctx"
  by (induction ctx) auto

text \<open>An operation that leaves the registration of a request alone.\<close>

fun keeps_request :: "nat \<Rightarrow> string \<Rightarrow> world_op \<Rightarrow> bool" where
  "keeps_request cm rid (OpRegister cm' rid' c) = (cm' \<noteq> cm \<or> rid' \<noteq> rid)"
| "keeps_request cm rid (OpUnregister cm' rid') = (cm' \<noteq> cm \<or> rid' \<noteq> rid)"
| "keeps_request cm rid (OpWithCancellation ctx rid') = (CancelManagerFromContext ctx \<noteq> Some cm \<or> rid' \<noteq> rid)"
| "keeps_request cm rid op = True"

definition registered_as :: "nat \<Rightarrow> string \<Rightarrow> nat \<Rightarrow> world \<Rightarrow> bool" where
  "registered_as cm rid c w \<longleftrightarrow> cm < length (cancel_managers w) \<and>
     map_of (cm_cancelled (cancel_managers w ! cm)) rid = Some c"

lemma registered_kept:
  assumes "registered_as cm rid c w" and "keeps_request cm rid op"
  shows "registered_as cm rid c (world_exec op w)"
  using assms
  by (cases op) (auto simp: registered_as_def progress_defs cancel_defs nth_list_update nth_append Let_def
      split: option.splits if_splits)

lemma registered_keeps:
  "registered_as cm rid c w \<Longrightarrow> list_all (keeps_request cm rid) ops \<Longrightarrow> registered_as cm rid c (world_execs ops w)"
  by (induction ops arbitrary: w) (simp_all add: registered_kept)

lemma CancelRequest_registered:
  assumes "registered_as cm rid c w"
  shows "snd (CancelRequest cm rid reason w)"
    "ctx_done (fst (CancelRequest cm rid reason w)) ctx = (ctx_done w ctx \<or> derived_from c ctx)"
    "IsCancelled cm rid (fst (CancelRequest cm rid reason w)) = (True, reason)"
proof -
  define w0 where "w0 = w\<lparr>cancel_managers := (cancel_managers w)
    [cm := (cancel_managers w ! cm)\<lparr>cm_reasons := AList.update rid reason (cm_reasons (cancel_managers w ! cm))\<rparr>]\<rparr>"
  have r: "CancelRequest cm rid reason w = (run_cancel c w0, True)"
    using assms by (simp add: registered_as_def CancelRequest_def Let_def w0_def)
  have "cancelled_ctxs w0 = cancelled_ctxs w" by (simp add: w0_def)
  from ctx_done_cong[OF this] show "ctx_done (fst (CancelRequest cm rid reason w)) ctx = (ctx_done w ctx \<or> derived_from c ctx)"
    by (simp add: r ctx_done_run_cancel)
  show "snd (CancelRequest cm rid reason w)" by (simp add: r)
  show "IsCancelled cm rid (fst (CancelRequest cm rid reason w)) = (True, reason)"
    using assms by (simp add: r IsCancelled_def run_cancel_def w0_def registered_as_def)
qed

text \<open>
  Cancelling a request reaches exactly its own work: when \<open>WithCancellation\<close> made a context
  under a cancel manager, then after any operations that do not register or unregister the
  same request id again, \<open>CancelRequest\<close> succeeds, makes \<open>CheckCancellation\<close> fail for that
  context and everything derived from it, leaves every other context as it was, and records the
  reason.
\<close>

theorem cancel_reaches_request:
  assumes "CancelManagerFromContext ctx = Some cm" and "cm < length (cancel_managers w)"
    and "WithCancellation ctx rid w = (w', ctx', c)" and "list_all (keeps_request cm rid) ops"
    and "CancelRequest cm rid reason (world_execs ops w') = (w'', ok)"
  shows "ok \<and> CheckCancellation ctx' w'' = Some context_Canceled \<and> IsCancelled cm rid w'' = (True, reason) \<and>
    (\<forall>d. if derived_from c d then CheckCancellation d w'' = Some context_Canceled
         else CheckCancellation d w'' = CheckCancellation d (world_execs ops w'))"
proof -
  have r: "registered_as cm rid c w'" and c: "derived_from c ctx'"
    using assms(1-3) by (auto simp: WithCancellation_def RegisterCancellation_def registered_as_def Let_def)
  from registered_keeps[OF r assms(4)] have k: "registered_as cm rid c (world_execs ops w')" .
  have s: "snd (CancelRequest cm rid reason (world_execs ops w')) = ok"
    "fst (CancelRequest cm rid reason (world_execs ops w')) = w''" using assms(5) by simp_all
  show ?thesis
    using CancelRequest_registered[OF k, of reason] c unfolding s by (simp add: CheckCancellation_def)
qed

theorem cancel_reaches_request_witness:
  "let ctx = CtxCancelManager Background 0; w = world_execs [OpNewCancelManager] empty_world;
       r = WithCancellation ctx ''1'' w
   in CheckCancellation (CtxProgress (fst (snd r)) 0) (fst (CancelRequest 0 ''1'' ''stop'' (fst r))) = Some context_Canceled"
proof -
  let ?ctx = "CtxCancelManager Background 0" and ?w = "world_execs [OpNewCancelManager] empty_world"
  obtain w' ctx' c where r: "WithCancellation ?ctx ''1'' ?w = (w', ctx', c)" by (cases "WithCancellation ?ctx ''1'' ?w") auto
  obtain w'' ok where k: "CancelRequest 0 ''1'' ''stop'' (world_execs [] w') = (w'', ok)" by fastforce
  have a: "CancelManagerFromContext ?ctx = Some 0" "0 < length (cancel_managers ?w)"
    by (simp_all add: NewCancelManager_def)
  have l: "list_all (keeps_request 0 ''1'') []" by simp
  have "derived_from c ctx'" using r by (auto simp: WithCancellation_def Let_def)
  with cancel_reaches_request[OF a r l k] r k show ?thesis by (simp add: Let_def)
qed

text \<open>
  Request ids must not be reused while their records live: registering a second request under
  the same id detaches the first, which \<open>CancelRequest\<close> then no longer cancels; and a request
  registered after an earlier one of the same id was cancelled counts as cancelled from the
  start, for the recorded reason stays.
\<close>

theorem reused_request_id:
  assumes "cm < length (cancel_managers w)" and "c1 \<noteq> c2" and "\<not> ctx_done w (CtxCancel ctx c1)"
    and "\<not> derived_from c2 ctx"
  shows "CheckCancellation (CtxCancel ctx c1) (fst (CancelRequest cm rid reason
      (RegisterCancellation cm rid c2 (RegisterCancellation cm rid c1 w)))) = None \<and>
    IsCancelled cm rid (RegisterCancellation cm rid c2 (fst (CancelRequest cm rid reason
      (RegisterCancellation cm rid c1 w)))) = (True, reason)"
proof -
  let ?w = "RegisterCancellation cm rid c2 (RegisterCancellation cm rid c1 w)"
  have r: "registered_as cm rid c2 ?w"
    using assms(1) by (simp add: registered_as_def RegisterCancellation_def Let_def)
  have "cancelled_ctxs ?w = cancelled_ctxs w" by (simp add: RegisterCancellation_def Let_def)
  then have "\<not> ctx_done ?w (CtxCancel ctx c1)" using assms(3) ctx_done_cong by metis
  then have a: "CheckCancellation (CtxCancel ctx c1) (fst (CancelRequest cm rid reason ?w)) = None"
    using CancelRequest_registered(2)[OF r, of reason "CtxCancel ctx c1"] assms(2,4)
    by (simp add: CheckCancellation_def del: ctx_done.simps)
  let ?v = "RegisterCancellation cm rid c1 w"
  have "registered_as cm rid c1 ?v"
    using assms(1) by (simp add: registered_as_def RegisterCancellation_def Let_def)
  then have "IsCancelled cm rid (fst (CancelRequest cm rid reason ?v)) = (True, reason)"
    and "cm < length (cancel_managers (fst (CancelRequest cm rid reason ?v)))"
    using CancelRequest_registered(3) by (auto simp: registered_as_def CancelRequest_def Let_def run_cancel_def)
  then have "IsCancelled cm rid (RegisterCancellation cm rid c2 (fst (CancelRequest cm rid reason ?v))) = (True, reason)"
    by (simp add: IsCancelled_def RegisterCancellation_def Let_def)
  with a show ?thesis by simp
qed

theorem reused_request_id_witness:
  "let w = world_execs [OpNewCancelManager] empty_world
   in IsCancelled 0 ''1'' (RegisterCancellation 0 ''1'' 8 (fst (CancelRequest 0 ''1'' ''stop''
        (RegisterCancellation 0 ''1'' 7 w)))) = (True, ''stop'')"
proof -
  let ?w = "world_execs [OpNewCancelManager] empty_world"
  have h: "0 < length (cancel_managers ?w)" "(7 :: nat) \<noteq> 8" "\<not> ctx_done ?w (CtxCancel Background 7)"
    "\<not> derived_from 8 Background"
    by (simp_all add: NewCancelManager_def empty_world_def)
  show ?thesis using reused_request_id[OF h, of "''1''" "''stop''"] by (simp add: Let_def)
qed

end
