(* ===== verification/Go_Marshal.thy ===== *)
theory Go_Marshal
  imports Params Go_Float
begin

text \<open>
  Values of type \<open>interface{}\<close> as \<open>encoding/json\<close> decodes and encodes them: numbers as float64,
  objects as maps, strings with HTML escaping, and the shortest decimal text of a float. The
  sign of a zero is not modelled.
\<close>

section \<open>Decoding into interface values\<close>

text \<open>A number outside the range of float64 is a decoding error. A number text is a sign, digits, an
  optional fraction and an optional exponent.\<close>

definition digits_value :: "string \<Rightarrow> nat" where
  "digits_value ds = foldl (\<lambda>n c. 10 * n + (of_char c - 48)) 0 ds"

text \<open>The coefficient and the decimal exponent of a number text, and whether it is negative.\<close>

definition num_parts :: "string \<Rightarrow> bool \<times> nat \<times> int" where
  "num_parts t =
     (let neg = (take 1 t = ''-''); s = (if neg then drop 1 t else t);
          i = takeWhile is_digit s; s = dropWhile is_digit s;
          f = (case s of c # r \<Rightarrow> if c = CHR ''.'' then takeWhile is_digit r else [] | [] \<Rightarrow> []);
          s = (if f = [] then s else drop (Suc (length f)) s);
          e = (case s of
                 c # d # r \<Rightarrow> if d = CHR ''-'' then - int (digits_value r)
                             else if d = CHR ''+'' then int (digits_value r) else int (digits_value (d # r))
               | _ \<Rightarrow> 0)
      in (neg, digits_value (i @ f), e - int (length f)))"

definition num_in_range :: "string \<Rightarrow> bool" where
  "num_in_range t =
     (case num_parts t of (neg, m, x) \<Rightarrow>
        let bound = 2 ^ 1024 - 2 ^ 970
        in m = 0 \<or> (if 0 \<le> x then m * 10 ^ nat x < bound else m < bound * 10 ^ nat (- x)))"

fun any_decodes :: "JSON \<Rightarrow> bool" where
  "any_decodes (JNum t) = num_in_range t"
| "any_decodes (JArr vs) = list_all any_decodes vs"
| "any_decodes (JObj ms) = list_all (\<lambda>(k, t, v). any_decodes v) ms"
| "any_decodes _ = True"

text \<open>\<open>json.Unmarshal\<close> into a \<open>map[string]interface{}\<close>: the members, where a later member replaces an
  earlier one of the same key.\<close>

definition unmarshal_map :: "bytes \<Rightarrow> mcp_error + json_members" where
  "unmarshal_map data =
     (case json_parse data of
        Some (JObj ms) \<Rightarrow> if any_decodes (JObj ms) then Inr ms else Inl json_error
      | Some JNull \<Rightarrow> Inr []
      | _ \<Rightarrow> Inl json_error)"

definition get_field :: "json_members \<Rightarrow> string \<Rightarrow> JSON option" where
  "get_field ms key = map_option snd (map_of (rev ms) key)"

section \<open>JSON strings and numbers\<close>

text \<open>A hexadecimal digit, and a string as \<open>json.Marshal\<close> writes it, rune by rune, with HTML escaping.\<close>

definition hex_digit :: "nat \<Rightarrow> char" where
  "hex_digit n = ''0123456789abcdef'' ! n"

definition u_escape :: "nat \<Rightarrow> string" where
  "u_escape n = [CHR 0x5C, CHR ''u'', hex_digit (n div 4096 mod 16), hex_digit (n div 256 mod 16),
     hex_digit (n div 16 mod 16), hex_digit (n mod 16)]"

definition marshal_rune :: "string \<Rightarrow> string" where
  "marshal_rune r =
     (case r of
        [c] \<Rightarrow>
          if 128 \<le> (of_char c :: nat) then u_escape 65533
          else if c = CHR 0x22 \<or> c = CHR 0x5C then [CHR 0x5C, c]
          else if c = CHR 0x08 then [CHR 0x5C, CHR ''b'']
          else if c = CHR 0x0C then [CHR 0x5C, CHR ''f'']
          else if c = CHR 0x0A then [CHR 0x5C, CHR ''n'']
          else if c = CHR 0x0D then [CHR 0x5C, CHR ''r'']
          else if c = CHR 0x09 then [CHR 0x5C, CHR ''t'']
          else if of_char c < (32 :: nat) \<or> c \<in> set ''<>&'' then u_escape (of_char c)
          else [c]
      | _ \<Rightarrow>
          if r = [CHR 0xE2, CHR 0x80, CHR 0xA8] then u_escape 8232
          else if r = [CHR 0xE2, CHR 0x80, CHR 0xA9] then u_escape 8233 else r)"

definition marshal_string :: "string \<Rightarrow> string" where
  "marshal_string s = json_quoted (concat (map marshal_rune (runes s)))"

text \<open>The float64 value of a JSON number.\<close>

definition num_value :: "string \<Rightarrow> rat" where
  "num_value t =
     (case num_parts t of (neg, m, x) \<Rightarrow>
        let v = (if 0 \<le> x then of_nat m * 10 ^ nat x else of_nat m / 10 ^ nat (- x))
        in fl64 (if neg then - v else v))"

definition float_field :: "json_members \<Rightarrow> string \<Rightarrow> rat option" where
  "float_field ms key = (case get_field ms key of Some (JNum t) \<Rightarrow> Some (num_value t) | _ \<Rightarrow> None)"

definition string_field :: "json_members \<Rightarrow> string \<Rightarrow> string option" where
  "string_field ms key = (case get_field ms key of Some (JStr s) \<Rightarrow> Some s | _ \<Rightarrow> None)"

section \<open>Numbers and members\<close>

lemma show_nat_digits: "list_all is_digit (show_nat n) \<and> show_nat n \<noteq> []"
proof (induction n rule: show_nat.induct)
  case (1 n)
  have "is_digit (char_of (48 + k))" if "k < 10" for k :: nat
  proof -
    have "\<forall>k \<in> {0..<10}. is_digit (char_of (48 + k :: nat))" by code_simp
    with that show ?thesis by simp
  qed
  with 1 show ?case by (subst (1 2) show_nat.simps) simp
qed

lemma digits_value_snoc: "digits_value (ds @ [c]) = 10 * digits_value ds + (of_char c - 48)"
  by (simp add: digits_value_def)

lemma digits_value_show_nat: "digits_value (show_nat n) = n"
proof (induction n rule: show_nat.induct)
  case (1 n)
  have v: "of_char (char_of (48 + k :: nat)) - 48 = k" if "k < 10" for k :: nat
    using that by simp
  show ?case
  proof (cases "n < 10")
    case True
    then show ?thesis by (subst show_nat.simps) (simp add: digits_value_def)
  next
    case False
    with 1 have "digits_value (show_nat (n div 10)) = n div 10" by simp
    with False v[of "n mod 10"] show ?thesis by (subst show_nat.simps) (simp add: digits_value_snoc)
  qed
qed

lemma show_nat_first: "0 < n \<Longrightarrow> hd (show_nat n) \<noteq> CHR ''0''"
proof (induction n rule: show_nat.induct)
  case (1 n)
  show ?case
  proof (cases "n < 10")
    case True
    have "of_char (char_of (48 + n) :: char) \<noteq> (of_char CHR ''0'' :: nat)" using True 1(2) by simp
    then have "char_of (48 + n) \<noteq> CHR ''0''" by metis
    with True show ?thesis by (subst show_nat.simps) simp
  next
    case False
    then have "hd (show_nat (n div 10)) \<noteq> CHR ''0''" using 1 by simp
    with False show_nat_digits[of "n div 10"] show ?thesis by (subst show_nat.simps) (simp add: hd_append)
  qed
qed

text \<open>A character that ends a number.\<close>

definition ends_number :: "char \<Rightarrow> bool" where
  "ends_number c \<longleftrightarrow> \<not> is_digit c \<and> c \<notin> set ''.eE''"

lemma parse_number_show_nat:
  assumes "ends_number c"
  shows "parse_number (show_nat n @ c # r) = Some (show_nat n, c # r)"
proof -
  obtain a t where a: "show_nat n = a # t" using show_nat_digits[of n] by (cases "show_nat n") auto
  have d: "is_digit a" "list_all is_digit t" using show_nat_digits[of n] a by simp_all
  have minus: "a \<noteq> CHR ''-''" using d(1) by (auto simp: is_digit_def)
  have dg: "parse_digits (a # t @ c # r) = Some (a # t, c # r)"
    using d assms by (simp add: parse_digits_def ends_number_def list_all_iff takeWhile_append2 dropWhile_append2)
  have "parse_int_part (a # t @ c # r) = Some (a # t, c # r)"
  proof (cases "n = 0")
    case True
    have "show_nat 0 = ''0''" by code_simp
    with True a have "a = CHR ''0''" "t = []" by simp_all
    then show ?thesis by (simp add: parse_int_part_def)
  next
    case False
    then have "a \<noteq> CHR ''0''" using show_nat_first[of n] a by simp
    with dg show ?thesis by (simp add: parse_int_part_def)
  qed
  then show ?thesis
    using minus assms by (simp add: a parse_number_def parse_fraction_def parse_exponent_def ends_number_def)
qed

lemma parse_value_show_nat:
  assumes "ends_number c"
  shows "parse_value (Suc k) d (show_nat n @ c # r) = Some (JNum (show_nat n), c # r)"
proof -
  obtain a t where a: "show_nat n = a # t" using show_nat_digits[of n] by (cases "show_nat n") auto
  have "is_digit a" using show_nat_digits[of n] a by simp
  then have "a \<notin> {CHR '' '', CHR 0x09, CHR 0x0A, CHR 0x0D, CHR 0x7B, CHR 0x5B, CHR 0x22, CHR ''t'', CHR ''f'', CHR ''n''}"
    by (auto simp: is_digit_def)
  with parse_number_show_nat[OF assms, of n r] show ?thesis by (simp add: a)
qed

lemma parse_value_quoted:
  "list_all plain_char t \<Longrightarrow> parse_value (Suc k) d (json_quoted t @ r) = Some (JStr t, r)"
  by (simp add: json_quoted_def parse_string_plain)

text \<open>One member of an object, with the value's text \<open>vt\<close>, followed by another or by the end.\<close>

lemma parse_member:
  assumes "list_all plain_char k" and "skip_ws (vt @ c # r) = vt @ c # r"
    and "parse_value n d (vt @ c # r) = Some (v, c # r)" and "c \<in> {CHR '','', CHR 0x7D}"
  shows "parse_members (Suc n) d first (json_quoted k @ CHR '':'' # vt @ c # r) =
    (if c = CHR 0x7D then Some ([(k, vt, v)], r)
     else map_option (\<lambda>(ms, q). ((k, vt, v) # ms, q)) (parse_members n d False r))"
  using assms by (auto simp: json_quoted_def parse_string_plain Let_def)

lemma skip_ws_quoted [simp]: "skip_ws (json_quoted t @ r) = json_quoted t @ r"
  by (simp add: json_quoted_def)

lemma skip_ws_show_nat [simp]: "skip_ws (show_nat n @ r) = show_nat n @ r"
proof -
  obtain a t where a: "show_nat n = a # t" using show_nat_digits[of n] by (cases "show_nat n") auto
  have "is_digit a" using show_nat_digits[of n] a by simp
  then have "a \<notin> {CHR '' '', CHR 0x09, CHR 0x0A, CHR 0x0D}" by (auto simp: is_digit_def)
  then show ?thesis by (simp add: a)
qed

lemma num_parts_show_nat: "num_parts (show_nat n) = (False, n, 0)"
proof -
  obtain a t where a: "show_nat n = a # t" using show_nat_digits[of n] by (cases "show_nat n") auto
  have d: "is_digit a" "\<forall>c \<in> set (show_nat n). is_digit c"
    using show_nat_digits[of n] by (simp_all add: a list_all_iff)
  have neg: "(take 1 (show_nat n) = ''-'') = False" using d(1) by (auto simp: a is_digit_def)
  have tw: "takeWhile is_digit (show_nat n) = show_nat n" using d(2) by (simp only: takeWhile_eq_all_conv)
  have dw: "dropWhile is_digit (show_nat n) = []" using d(2) by (simp only: dropWhile_eq_Nil_conv)
  show ?thesis
    unfolding num_parts_def Let_def neg if_False tw dw by (simp add: digits_value_show_nat)
qed

lemma num_value_show_nat:
  assumes "n < 2 ^ 53"
  shows "num_value (show_nat n) = of_nat n"
  using float_of_int_exact[of "int n"] assms by (simp add: num_value_def num_parts_show_nat float_of_int_def)

lemma int64_of_small: "n < 2 ^ 53 \<Longrightarrow> int64_of_float (of_nat n) = int n"
  by (simp add: int64_of_float_def trunc_def)

lemma num_in_range_show_nat: "n < 2 ^ 53 \<Longrightarrow> num_in_range (show_nat n)"
  by (simp add: num_in_range_def num_parts_show_nat)

section \<open>Interface values\<close>

datatype go_any =
    ANil
  | ABool bool
  | ANum rat
  | AStr string
  | AArr "go_any list"
  | AObj "(string \<times> go_any) list"    \<comment> \<open>a map, in the order of its keys\<close>

definition canon_members :: "(string \<times> 'a) list \<Rightarrow> (string \<times> 'a) list" where
  "canon_members ms = map (\<lambda>k. (k, the (map_of (rev ms) k))) (sort (remdups (map fst ms)))"

fun decode_any :: "JSON \<Rightarrow> go_any" where
  "decode_any JNull = ANil"
| "decode_any (JBool b) = ABool b"
| "decode_any (JNum t) = ANum (num_value t)"
| "decode_any (JStr s) = AStr s"
| "decode_any (JArr vs) = AArr (map decode_any vs)"
| "decode_any (JObj ms) = AObj (canon_members (map (\<lambda>(k, t, v). (k, decode_any v)) ms))"

text \<open>Decoding into a field of type \<open>interface{}\<close>.\<close>

definition dec_iface :: "go_any decoder" where
  "dec_iface x v = (if any_decodes (snd v) then Inr (decode_any (snd v)) else Inl json_error)"

text \<open>
  The shortest decimal text of a float: of the decimals with \<open>p\<close> digits next to the number, the
  nearest one that rounds to it, for the least such \<open>p\<close>; 17 digits always suffice. The result
  is a coefficient and a decimal exponent.
\<close>

definition ilog10 :: "rat \<Rightarrow> int" where
  "ilog10 x =
     (if 1 \<le> x then int (length (show_nat (nat \<lfloor>x\<rfloor>))) - 1
      else case quotient_of x of (a, b) \<Rightarrow>
             let n = length (show_nat (nat b)) - length (show_nat (nat a))
             in if 1 \<le> x * 10 ^ n then - int n else - int n - 1)"

definition p_digits :: "rat \<Rightarrow> nat \<Rightarrow> (int \<times> int) option" where
  "p_digits x p =
     (let e = ilog10 x - int p + 1;
          y = x / 10 powi e;
          lo = \<lfloor>y\<rfloor>; hi = lo + 1;
          fits = (\<lambda>m. fl64 (of_int m * 10 powi e) = x)
      in if fits lo \<and> (fits hi \<longrightarrow> y - of_int lo \<le> of_int hi - y) then Some (lo, e)
         else if fits hi then Some (hi, e) else None)"

definition shortest :: "rat \<Rightarrow> int \<times> int" where
  "shortest x =
     (case List.find (\<lambda>p. p_digits x p \<noteq> None) [1..<18] of
        Some p \<Rightarrow> the (p_digits x p)
      | None \<Rightarrow> (\<lfloor>x\<rfloor>, 0))"

fun strip_zeros :: "nat \<Rightarrow> nat \<Rightarrow> int \<Rightarrow> nat \<times> int" where
  "strip_zeros 0 m e = (m, e)"
| "strip_zeros (Suc k) m e = (if m \<noteq> 0 \<and> m mod 10 = 0 then strip_zeros k (m div 10) (e + 1) else (m, e))"

text \<open>\<open>strconv.AppendFloat\<close> with the shortest precision in the formats \<open>f\<close> and \<open>e\<close>.\<close>

definition format_f :: "nat \<Rightarrow> int \<Rightarrow> string" where
  "format_f m e =
     (let ds = show_nat m
      in if 0 \<le> e then ds @ replicate (nat e) CHR ''0''
         else let k = nat (- e)
              in if k < length ds then take (length ds - k) ds @ ''.'' @ drop (length ds - k) ds
                 else ''0.'' @ replicate (k - length ds) CHR ''0'' @ ds)"

text \<open>The exponent of the format \<open>e\<close> as \<open>encoding/json\<close> leaves it: with its sign, without padding below ten.\<close>

definition format_e :: "nat \<Rightarrow> int \<Rightarrow> string" where
  "format_e m e =
     (let ds = show_nat m; x = e + int (length ds) - 1
      in hd ds # (if tl ds = [] then [] else CHR ''.'' # tl ds) @ ''e'' @
         (if x < 0 then ''-'' else ''+'') @ show_nat (nat \<bar>x\<bar>))"

definition format_float :: "rat \<Rightarrow> string" where
  "format_float x =
     (if x = 0 then ''0''
      else let a = \<bar>x\<bar>;
               (m, e) = (case shortest a of (m, e) \<Rightarrow> strip_zeros 400 (nat m) e)
           in (if x < 0 then ''-'' else []) @
              (if a < 1 / 10 ^ 6 \<or> 10 ^ 21 \<le> a then format_e m e else format_f m e))"

fun marshal_any :: "go_any \<Rightarrow> string" where
  "marshal_any ANil = ''null''"
| "marshal_any (ABool b) = (if b then ''true'' else ''false'')"
| "marshal_any (ANum x) = format_float x"
| "marshal_any (AStr s) = marshal_string s"
| "marshal_any (AArr vs) = CHR 0x5B # strings_Join (map marshal_any vs) '','' @ [CHR 0x5D]"
| "marshal_any (AObj ms) =
     CHR 0x7B # strings_Join (map (\<lambda>(k, v). marshal_string k @ CHR '':'' # marshal_any v) ms) '','' @ [CHR 0x7D]"

section \<open>The text of integers\<close>

lemma fl64_two53: "fl64 (of_int (2 ^ 53)) = of_int (2 ^ 53)"
  by code_simp

lemma fl64_int_inj:
  assumes "fl64 (of_int v) = of_int n" and "\<bar>n\<bar> < 2 ^ 53" and "0 \<le> v"
  shows "v = n"
proof (cases "v < 2 ^ 53")
  case True
  then show ?thesis using float_of_int_exact[of v] assms by (simp add: float_of_int_def)
next
  case False
  then have "(of_int (2 ^ 53) :: rat) \<le> of_int v" by (simp only: of_int_le_iff)
  from fl64.fl_mono[OF this] have "(of_int (2 ^ 53) :: rat) \<le> of_int n"
    unfolding fl64_two53 assms(1) .
  then show ?thesis using assms(2) by (simp only: of_int_le_iff)
qed

lemma show_nat_mult10: "0 < m \<Longrightarrow> show_nat (m * 10 ^ k) = show_nat m @ replicate k CHR ''0''"
proof (induction k)
  case (Suc k)
  then have "10 \<le> m * 10 ^ Suc k" by simp
  moreover have "char_of (48 :: nat) = CHR ''0''" by code_simp
  ultimately have "show_nat (m * 10 ^ Suc k) = show_nat (m * 10 ^ k) @ ''0''"
    by (subst show_nat.simps) simp
  with Suc show ?case by (simp add: replicate_append_same)
qed simp

lemma show_nat_length: "n < 10 ^ k \<Longrightarrow> 0 < k \<Longrightarrow> length (show_nat n) \<le> k"
proof (induction k arbitrary: n)
  case (Suc k)
  show ?case
  proof (cases "n < 10")
    case True
    then show ?thesis by (subst show_nat.simps) simp
  next
    case False
    with Suc.prems have "n div 10 < 10 ^ k" "0 < k" by (cases k; simp add: less_mult_imp_div_less mult.commute)+
    from Suc.IH[OF this] False show ?thesis by (subst show_nat.simps) simp
  qed
qed simp

lemma strip_zeros_props:
  "strip_zeros k m e = (m', e') \<Longrightarrow> 0 \<le> e \<Longrightarrow> 0 < m \<Longrightarrow> 0 \<le> e' \<and> 0 < m' \<and> m' * 10 ^ nat e' = m * 10 ^ nat e"
proof (induction k m e rule: strip_zeros.induct)
  case (2 k m e)
  show ?case
  proof (cases "m mod 10 = 0")
    case True
    then have m: "m = 10 * (m div 10)" "0 < m div 10" using 2(4) by auto
    have "strip_zeros k (m div 10) (e + 1) = (m', e')" using 2(2,4) True by simp
    with 2(1) 2(3,4) True m(2) have r: "0 \<le> e'" "0 < m'" "m' * 10 ^ nat e' = m div 10 * 10 ^ nat (e + 1)" by auto
    have "m div 10 * 10 ^ nat (e + 1) = m * 10 ^ nat e"
      using m(1) 2(3) by (simp add: nat_add_distrib)
    with r show ?thesis by simp
  qed (use 2 in auto)
qed auto

lemma p_digits_int:
  assumes "p_digits (of_int n) p = Some (m, e)" and "0 < n" and "n < 2 ^ 53" and "p \<le> length (show_nat (nat n))"
  shows "0 < m \<and> 0 \<le> e \<and> m * 10 ^ nat e = n"
proof -
  let ?e = "int (length (show_nat (nat n))) - int p"
  have one: "(1 :: rat) \<le> of_int n" using assms(2) by simp
  have e: "ilog10 (of_int n) - int p + 1 = ?e" using one by (simp add: ilog10_def)
  have e0: "e = ?e" "0 \<le> e" using assms(1,4) unfolding p_digits_def e Let_def by (auto split: if_splits)
  let ?y = "of_int n / (10 :: rat) powi e"
  have pw: "(10 :: rat) powi e = of_int (10 ^ nat e)" using e0(2) by (simp add: power_int_def)
  have m: "m = \<lfloor>?y\<rfloor> \<or> m = \<lfloor>?y\<rfloor> + 1" "fl64 (of_int m * 10 powi e) = of_int n"
    using assms(1) unfolding p_digits_def e e0(1)[symmetric] Let_def by (auto split: if_splits)
  have "0 \<le> \<lfloor>?y\<rfloor>" using assms(2) by (simp add: pw)
  then have "0 \<le> m" using m(1) by auto
  moreover have "fl64 (of_int (m * 10 ^ nat e)) = of_int n" using m(2) by (simp add: pw)
  ultimately have "m * 10 ^ nat e = n" using fl64_int_inj[of "m * 10 ^ nat e" n] assms(2,3) by simp
  then show ?thesis using assms(2) e0(2) \<open>0 \<le> m\<close> by (cases "m = 0") auto
qed

lemma shortest_int:
  assumes "0 < n" and "n < 2 ^ 53"
  obtains m e where "shortest (of_int n) = (m, e)" "0 < m" "0 \<le> e" "m * 10 ^ nat e = n"
proof -
  let ?L = "length (show_nat (nat n))"
  let ?P = "\<lambda>p. p_digits (of_int n) p \<noteq> None"
  have "nat n < 10 ^ 16" using assms(2) by (simp add: nat_less_iff)
  then have L: "?L \<le> 16" by (intro show_nat_length) auto
  have L1: "1 \<le> ?L" using show_nat_digits[of "nat n"] by (cases "show_nat (nat n)") auto
  have one: "(1 :: rat) \<le> of_int n" using assms(1) by simp
  have e: "ilog10 (of_int n) - int ?L + 1 = 0" using one by (simp add: ilog10_def)
  have "fl64 (of_int n) = of_int n" using float_of_int_exact[of n] assms by (simp add: float_of_int_def)
  then have "?P ?L" by (simp add: p_digits_def e[simplified])
  moreover have "?L \<in> set [1..<18]" using L L1 by simp
  ultimately have "List.find ?P [1..<18] \<noteq> None" by (auto simp: find_None_iff)
  then obtain p where p: "List.find ?P [1..<18] = Some p" by blast
  then obtain i where i: "i < length [1..<18]" "?P p" "p = [1..<18] ! i" "\<forall>j<i. \<not> ?P ([1..<18] ! j)"
    unfolding find_Some_iff by blast
  have "p \<le> ?L"
  proof (rule ccontr)
    assume "\<not> p \<le> ?L"
    then have "?L - 1 < i" "[1..<18] ! (?L - 1) = ?L" using i(1,3) L L1 by (auto simp: nth_upt)
    with i(4) \<open>?P ?L\<close> show False by force
  qed
  from i(2) obtain m e where me: "p_digits (of_int n) p = Some (m, e)" by auto
  from p_digits_int[OF this assms \<open>p \<le> ?L\<close>] have "0 < m" "0 \<le> e" "m * 10 ^ nat e = n" by auto
  moreover have "shortest (of_int n) = (m, e)" using p me by (simp add: shortest_def)
  ultimately show thesis using that by blast
qed

lemma format_float_int:
  assumes "\<bar>n\<bar> < 2 ^ 53"
  shows "format_float (of_int n) = show_int n"
proof (cases "n = 0")
  case True
  have "show_nat 0 = ''0''" by code_simp
  with True show ?thesis by (simp add: format_float_def show_int_def)
next
  case False
  then have a: "0 < \<bar>n\<bar>" by simp
  obtain m e where me: "shortest (of_int \<bar>n\<bar>) = (m, e)" "0 < m" "0 \<le> e" "m * 10 ^ nat e = \<bar>n\<bar>"
    using shortest_int[OF a assms] by blast
  obtain m' e' where z: "strip_zeros 400 (nat m) e = (m', e')" by (cases "strip_zeros 400 (nat m) e")
  from strip_zeros_props[OF z me(3)] me(2) have zp: "0 \<le> e'" "0 < m'" "m' * 10 ^ nat e' = nat m * 10 ^ nat e" by auto
  have "nat m * 10 ^ nat e = nat \<bar>n\<bar>" using me(2,4) by (simp add: nat_mult_distrib nat_power_eq flip: me(4))
  then have f: "format_f m' e' = show_nat (nat \<bar>n\<bar>)"
    using show_nat_mult10[OF zp(2), of "nat e'"] zp by (simp add: format_f_def Let_def)
  have "(1 :: rat) \<le> of_int \<bar>n\<bar>" using a by (simp only: of_int_1_le_iff)
  then have lo: "\<not> \<bar>of_int n :: rat\<bar> < 1 / 10 ^ 6" by simp
  have "(of_int \<bar>n\<bar> :: rat) < of_int (2 ^ 53)" using assms by (simp only: of_int_less_iff)
  then have hi: "\<not> (10 :: rat) ^ 21 \<le> \<bar>of_int n\<bar>" by simp
  have ab: "\<bar>of_int n :: rat\<bar> = of_int \<bar>n\<bar>" by simp
  show ?thesis
    unfolding format_float_def Let_def
    using lo hi False me(1) z f by (simp add: show_int_def del: of_int_abs add: ab)
qed

end
