(* ===== verification/Security.thy ===== *)
theory Security
  imports Go_Marshal Middleware
begin

text \<open>
  Model of the input security of \<open>security.go\<close>: \<open>InputValidator\<close> with its deep validation of a
  decoded request, the method-specific checks and the sanitizer, the schema validator around
  compiled schemas, \<open>ContentTypeValidator\<close>, and the validation middleware.

  Compiled regular expressions are predicates on strings and compiled schemas are functions;
  compiling them is an argument (\<open>compile\<close>). Of \<open>net/url\<close> the scheme is modelled and the other
  parse errors are the argument \<open>url_error\<close>. Go ranges over an object in any order; the model
  takes the order of the text, which decides only which of several errors is reported.
\<close>

section \<open>Configuration\<close>

record SecurityConfig =
  sc_MaxRequestSize :: int
  sc_MaxResponseSize :: int
  sc_MaxStringLength :: int
  sc_MaxArrayLength :: int
  sc_MaxObjectDepth :: int
  sc_AllowedContentTypes :: "string list"
  sc_ForbiddenPatterns :: "string list"
  sc_CustomValidators :: "(string, JSON \<Rightarrow> mcp_error option) gomap"
  sc_StrictMode :: bool

definition DefaultSecurityConfig :: SecurityConfig where
  "DefaultSecurityConfig =
     \<lparr>sc_MaxRequestSize = 1 * 1024 * 1024, sc_MaxResponseSize = 10 * 1024 * 1024,
      sc_MaxStringLength = 10000, sc_MaxArrayLength = 1000, sc_MaxObjectDepth = 10,
      sc_AllowedContentTypes = [''text/plain'', ''application/json'', ''image/png'', ''image/jpeg''],
      sc_ForbiddenPatterns = [''<script'', ''javascript:'', ''on'' @ [CHR 0x5C] @ ''w+='', ''data:text/html''],
      sc_CustomValidators = [], sc_StrictMode = True\<rparr>"

definition ErrValidationFailed :: mcp_error where
  "ErrValidationFailed = Sentinel ''security: validation failed''"

definition ErrSchemaValidationFailed :: mcp_error where
  "ErrSchemaValidationFailed = Sentinel ''security: JSON schema validation failed''"

record InputValidator =
  iv_config :: SecurityConfig
  compiledPatterns :: "(string \<Rightarrow> bool) list"

fun compile_all :: "(string \<Rightarrow> mcp_error + (string \<Rightarrow> bool)) \<Rightarrow> string list \<Rightarrow> mcp_error + (string \<Rightarrow> bool) list" where
  "compile_all compile [] = Inr []"
| "compile_all compile (pattern # ps) =
     (case compile pattern of
        Inl err \<Rightarrow> Inl (WrapErr (''invalid forbidden pattern '' @ [CHR 0x27] @ pattern @ [CHR 0x27]) err)
      | Inr re \<Rightarrow> map_sum id (\<lambda>rs. re # rs) (compile_all compile ps))"

definition NewInputValidator ::
  "(string \<Rightarrow> mcp_error + (string \<Rightarrow> bool)) \<Rightarrow> SecurityConfig option \<Rightarrow> mcp_error + InputValidator" where
  "NewInputValidator compile config =
     (let config = (case config of None \<Rightarrow> DefaultSecurityConfig | Some c \<Rightarrow> c)
      in map_sum id (\<lambda>rs. \<lparr>iv_config = config, compiledPatterns = rs\<rparr>)
           (compile_all compile (sc_ForbiddenPatterns config)))"

text \<open>The four default patterns: three plain ones, and \<open>on\<close>, word characters and an equals sign.\<close>

definition word_char :: "char \<Rightarrow> bool" where
  "word_char c \<longleftrightarrow> identifier_char c \<and> c \<notin> set ''-.''"

fun matches_handler :: "string \<Rightarrow> bool" where
  "matches_handler [] \<longleftrightarrow> False"
| "matches_handler (c # s) \<longleftrightarrow>
     (c = CHR ''o'' \<and> (case s of
        d # r \<Rightarrow> d = CHR ''n'' \<and> takeWhile word_char r \<noteq> [] \<and> take 1 (dropWhile word_char r) = ''=''
      | [] \<Rightarrow> False)) \<or> matches_handler s"

definition default_compile :: "string \<Rightarrow> mcp_error + (string \<Rightarrow> bool)" where
  "default_compile p =
     (if p = ''on'' @ [CHR 0x5C] @ ''w+='' then Inr matches_handler
      else if p \<in> {''<script'', ''javascript:'', ''data:text/html''} then Inr (\<lambda>s. strings_Contains s p)
      else Inl (PlainErr ''unsupported''))"

section \<open>Validation\<close>

definition validateString :: "InputValidator \<Rightarrow> string \<Rightarrow> mcp_error option" where
  "validateString v s =
     (if sc_MaxStringLength (iv_config v) < int (length s)
      then Some (ErrDetail ErrValidationFailed (''string length '' @ show_int (int (length s)) @
             '' exceeds maximum '' @ show_int (sc_MaxStringLength (iv_config v))))
      else if \<exists>p \<in> set (compiledPatterns v). p s
      then Some (ErrDetail ErrValidationFailed ''forbidden pattern detected'')
      else if strings_Contains s [CHR 0x00]
      then Some (ErrDetail ErrValidationFailed ''null byte in string'')
      else None)"

text \<open>\<open>validateValue\<close>, with the loops of \<open>validateArray\<close> and \<open>validateObject\<close>. The values decoding
  produces have no other types, so the strict-mode error does not occur. A member that a later
  one of the same key replaced is not in the map.\<close>

fun validateValue :: "InputValidator \<Rightarrow> nat \<Rightarrow> JSON \<Rightarrow> mcp_error option"
  and array_loop :: "InputValidator \<Rightarrow> nat \<Rightarrow> nat \<Rightarrow> JSON list \<Rightarrow> mcp_error option"
  and object_loop :: "InputValidator \<Rightarrow> nat \<Rightarrow> (string \<times> string \<times> JSON) list \<Rightarrow> mcp_error option"
where
  "validateValue v depth val =
     (if sc_MaxObjectDepth (iv_config v) < int depth
      then Some (ErrDetail ErrValidationFailed (''object depth '' @ show_int (int depth) @
             '' exceeds maximum '' @ show_int (sc_MaxObjectDepth (iv_config v))))
      else case val of
             JStr s \<Rightarrow> validateString v s
           | JArr arr \<Rightarrow>
               if sc_MaxArrayLength (iv_config v) < int (length arr)
               then Some (ErrDetail ErrValidationFailed (''array length '' @ show_int (int (length arr)) @
                      '' exceeds maximum '' @ show_int (sc_MaxArrayLength (iv_config v))))
               else array_loop v (Suc depth) 0 arr
           | JObj ms \<Rightarrow> object_loop v (Suc depth) ms
           | _ \<Rightarrow> None)"
| "array_loop v depth i [] = None"
| "array_loop v depth i (item # arr) =
     (case validateValue v depth item of
        Some err \<Rightarrow> Some (WrapErr (''array['' @ show_nat i @ '']'') err)
      | None \<Rightarrow> array_loop v depth (Suc i) arr)"
| "object_loop v depth [] = None"
| "object_loop v depth ((key, t, value) # ms) =
     (if key \<in> fst ` set ms then object_loop v depth ms
      else case validateString v key of
             Some err \<Rightarrow> Some (WrapErr (''key '' @ quoted key) err)
           | None \<Rightarrow>
               (case validateValue v depth value of
                  Some err \<Rightarrow> Some (WrapErr (''field '' @ quoted key) err)
                | None \<Rightarrow> object_loop v depth ms))"

declare validateValue.simps [simp del]

definition validateToolsCallParams :: "InputValidator \<Rightarrow> json_members \<Rightarrow> mcp_error option" where
  "validateToolsCallParams v params =
     (case get_field params ''name'' of
        Some (JStr name) \<Rightarrow>
          if name = [] then Some (ErrDetail ErrValidationFailed ''missing or invalid tool name'')
          else if \<not> isValidIdentifier name then Some (ErrDetail ErrValidationFailed ''invalid tool name format'')
          else (case map_of (sc_CustomValidators (iv_config v)) name of
                  Some validator \<Rightarrow>
                    (case get_field params ''arguments'' of Some args \<Rightarrow> validator args | None \<Rightarrow> None)
                | None \<Rightarrow> None)
      | _ \<Rightarrow> Some (ErrDetail ErrValidationFailed ''missing or invalid tool name''))"

text \<open>\<open>getScheme\<close> of \<open>net/url\<close> on the part before the fragment; \<open>Some []\<close> is no scheme, \<open>None\<close> an error.\<close>

fun scheme_loop :: "string \<Rightarrow> string \<Rightarrow> string option" where
  "scheme_loop acc [] = Some []"
| "scheme_loop acc (c # s) =
     (if (CHR ''a'' \<le> c \<and> c \<le> CHR ''z'') \<or> (CHR ''A'' \<le> c \<and> c \<le> CHR ''Z'') then scheme_loop (acc @ [c]) s
      else if is_digit c \<or> c \<in> set ''+-.'' then if acc = [] then Some [] else scheme_loop (acc @ [c]) s
      else if c = CHR '':'' then if acc = [] then None else Some (map lower_byte acc)
      else Some [])"

definition has_ctl_byte :: "string \<Rightarrow> bool" where
  "has_ctl_byte s \<longleftrightarrow> list_ex (\<lambda>c. of_char c < (32 :: nat) \<or> c = CHR 0x7F) s"

definition url_Parse_Scheme :: "(string \<Rightarrow> mcp_error option) \<Rightarrow> string \<Rightarrow> mcp_error + string" where
  "url_Parse_Scheme url_error uri =
     (let u = takeWhile (\<lambda>c. c \<noteq> CHR ''#'') uri
      in if has_ctl_byte u then Inl (PlainErr ''net/url: invalid control character in URL'')
         else case scheme_loop [] u of
                None \<Rightarrow> Inl (PlainErr ''missing protocol scheme'')
              | Some scheme \<Rightarrow> (case url_error uri of Some err \<Rightarrow> Inl err | None \<Rightarrow> Inr scheme))"

definition validateResourcesReadParams :: "(string \<Rightarrow> mcp_error option) \<Rightarrow> json_members \<Rightarrow> mcp_error option" where
  "validateResourcesReadParams url_error params =
     (case get_field params ''uri'' of
        Some (JStr uri) \<Rightarrow>
          if uri = [] then Some (ErrDetail ErrValidationFailed ''missing or invalid resource URI'')
          else (case url_Parse_Scheme url_error uri of
                  Inl err \<Rightarrow> Some (ErrDetail ErrValidationFailed (''invalid URI format: '' @ error_string err))
                | Inr scheme \<Rightarrow>
                    if scheme = ''javascript'' \<or> scheme = ''data''
                    then Some (ErrDetail ErrValidationFailed (''forbidden URI scheme: '' @ scheme)) else None)
      | _ \<Rightarrow> Some (ErrDetail ErrValidationFailed ''missing or invalid resource URI''))"

definition validatePromptsGetParams :: "json_members \<Rightarrow> mcp_error option" where
  "validatePromptsGetParams params =
     (case get_field params ''name'' of
        Some (JStr name) \<Rightarrow>
          if name = [] then Some (ErrDetail ErrValidationFailed ''missing or invalid prompt name'')
          else if \<not> isValidIdentifier name then Some (ErrDetail ErrValidationFailed ''invalid prompt name format'')
          else None
      | _ \<Rightarrow> Some (ErrDetail ErrValidationFailed ''missing or invalid prompt name''))"

definition validateMethodParams ::
  "(string \<Rightarrow> mcp_error option) \<Rightarrow> InputValidator \<Rightarrow> string \<Rightarrow> json_members \<Rightarrow> mcp_error option" where
  "validateMethodParams url_error v method params =
     (if method = MethodToolsCall then validateToolsCallParams v params
      else if method = MethodResourcesRead then validateResourcesReadParams url_error params
      else if method = MethodPromptsGet then validatePromptsGetParams params
      else None)"

definition input_ValidateRequest ::
  "(string \<Rightarrow> mcp_error option) \<Rightarrow> InputValidator \<Rightarrow> string \<Rightarrow> bytes \<Rightarrow> mcp_error option" where
  "input_ValidateRequest url_error v method data =
     (if sc_MaxRequestSize (iv_config v) < int (length data)
      then Some (ErrDetail ErrValidationFailed (''request size '' @ show_int (int (length data)) @
             '' exceeds maximum '' @ show_int (sc_MaxRequestSize (iv_config v))))
      else if \<not> json_Valid data then Some (ErrDetail ErrValidationFailed ''invalid JSON structure'')
      else case unmarshal_map data of
             Inl err \<Rightarrow> Some (ErrDetail ErrValidationFailed (error_string err))
           | Inr raw \<Rightarrow>
               (case validateValue v 0 (JObj raw) of
                  Some err \<Rightarrow> Some err
                | None \<Rightarrow> validateMethodParams url_error v method raw))"

section \<open>Sanitizing\<close>

definition escape_html :: "string \<Rightarrow> string" where
  "escape_html s =
     strings_ReplaceAll (strings_ReplaceAll (strings_ReplaceAll (strings_ReplaceAll (strings_ReplaceAll s
       ''&'' ''&amp;'') ''<'' ''&lt;'') ''>'' ''&gt;'') [CHR 0x22] ''&quot;'') [CHR 0x27] ''&#x27;''"

text \<open>A negative maximum length, for which the slice expression panics, is not a valid configuration.\<close>

definition sanitizeString :: "InputValidator \<Rightarrow> string \<Rightarrow> string" where
  "sanitizeString v s =
     (let s = strings_ReplaceAll s [CHR 0x00] [];
          s = (if sc_StrictMode (iv_config v) then escape_html s else s)
      in if sc_MaxStringLength (iv_config v) < int (length s) then take (nat (sc_MaxStringLength (iv_config v))) s
         else s)"

text \<open>The loop of \<open>sanitizeArray\<close> stops after the element that fills the maximum. Members of an object
  whose keys become equal replace each other, in the order of the range loop.\<close>

fun SanitizeInput :: "InputValidator \<Rightarrow> JSON \<Rightarrow> JSON"
  and sanitize_items :: "InputValidator \<Rightarrow> nat \<Rightarrow> JSON list \<Rightarrow> JSON list"
  and sanitize_members :: "InputValidator \<Rightarrow> (string \<times> string \<times> JSON) list \<Rightarrow> (string \<times> string \<times> JSON) list"
where
  "SanitizeInput v (JStr s) = JStr (sanitizeString v s)"
| "SanitizeInput v (JArr arr) = JArr (sanitize_items v 0 arr)"
| "SanitizeInput v (JObj ms) = JObj (sanitize_members v ms)"
| "SanitizeInput v (JNum t) = JNum t"
| "SanitizeInput v (JBool b) = JBool b"
| "SanitizeInput v JNull = JNull"
| "sanitize_items v n [] = []"
| "sanitize_items v n (x # xs) =
     SanitizeInput v x #
       (if sc_MaxArrayLength (iv_config v) \<le> int (Suc n) then [] else sanitize_items v (Suc n) xs)"
| "sanitize_members v [] = []"
| "sanitize_members v ((key, t, value) # ms) =
     (if key \<in> fst ` set ms then sanitize_members v ms
      else (sanitizeString v key, t, SanitizeInput v value) # sanitize_members v ms)"

section \<open>Schemas\<close>

type_synonym JSONSchemaValidator = "(string, JSON \<Rightarrow> mcp_error option) gomap"

definition RegisterSchema ::
  "(string \<Rightarrow> mcp_error + (JSON \<Rightarrow> mcp_error option)) \<Rightarrow> string \<Rightarrow> string \<Rightarrow> JSONSchemaValidator \<Rightarrow>
   JSONSchemaValidator \<times> mcp_error option" where
  "RegisterSchema compile messageType schemaJSON v =
     (case compile schemaJSON of
        Inl err \<Rightarrow> (v, Some err)
      | Inr schema \<Rightarrow> (AList.update messageType schema v, None))"

definition ValidateMessage :: "JSONSchemaValidator \<Rightarrow> string \<Rightarrow> JSON \<Rightarrow> mcp_error option" where
  "ValidateMessage v messageType data =
     (case map_of v messageType of
        None \<Rightarrow> None
      | Some schema \<Rightarrow>
          (case schema data of
             None \<Rightarrow> None
           | Some err \<Rightarrow> Some (ErrDetail ErrSchemaValidationFailed (error_string err))))"

text \<open>\<open>json.Unmarshal\<close> into an \<open>interface{}\<close>.\<close>

definition unmarshal_any :: "bytes \<Rightarrow> JSON option" where
  "unmarshal_any data =
     (case json_parse data of Some v \<Rightarrow> if any_decodes v then Some v else None | None \<Rightarrow> None)"

definition schema_ValidateRequest :: "JSONSchemaValidator \<Rightarrow> MCPRequest \<Rightarrow> mcp_error option" where
  "schema_ValidateRequest v req =
     (if req_method req = [] then Some (PlainErr ''request method is required'')
      else case req_params req of
             None \<Rightarrow> None
           | Some params \<Rightarrow>
               (case unmarshal_any params of
                  Some obj \<Rightarrow> ValidateMessage v (req_method req) obj
                | None \<Rightarrow> None))"

section \<open>Content types\<close>

type_synonym ContentTypeValidator = "string set"

definition NewContentTypeValidator :: "(string \<Rightarrow> string) \<Rightarrow> string list \<Rightarrow> ContentTypeValidator" where
  "NewContentTypeValidator ul allowed = set (map (strings_ToLower ul) allowed)"

definition ValidateContentType ::
  "(string \<Rightarrow> string) \<Rightarrow> ContentTypeValidator \<Rightarrow> string \<Rightarrow> mcp_error option" where
  "ValidateContentType ul v contentType =
     (let base = strings_ToLower ul (strings_TrimSpace (fst (split_at_byte CHR '';'' contentType)))
      in if base \<notin> v
         then Some (ErrDetail ErrValidationFailed (''content type '' @ quoted contentType @ '' not allowed''))
         else None)"

definition ValidateImageContent ::
  "(string \<Rightarrow> string) \<Rightarrow> ContentTypeValidator \<Rightarrow> bytes \<Rightarrow> string \<Rightarrow> mcp_error option" where
  "ValidateImageContent ul v data mimeType =
     (case ValidateContentType ul v mimeType of
        Some err \<Rightarrow> Some err
      | None \<Rightarrow>
          if mimeType = ''image/png''
          then if length data < 8 \<or> take 8 data \<noteq> CHR 0x89 # ''PNG'' @ [CHR 0x0D, CHR 0x0A, CHR 0x1A, CHR 0x0A]
               then Some (ErrDetail ErrValidationFailed ''invalid PNG format'') else None
          else if mimeType = ''image/jpeg''
          then if length data < 3 \<or> take 3 data \<noteq> [CHR 0xFF, CHR 0xD8, CHR 0xFF]
               then Some (ErrDetail ErrValidationFailed ''invalid JPEG format'') else None
          else None)"

section \<open>Middleware\<close>

definition NewErrorResponse :: "string \<Rightarrow> int \<Rightarrow> 'r MCPResponse" where
  "NewErrorResponse message code = errorResponse code message"

text \<open>\<open>marshal_size\<close> is the length of the marshalled result, \<open>None\<close> if it cannot be marshalled; a nil
  result, as an error response has, is the text \<open>null\<close>.\<close>

definition InputValidation_Apply ::
  "(string \<Rightarrow> mcp_error option) \<Rightarrow> ('r \<Rightarrow> nat option) \<Rightarrow> InputValidator \<Rightarrow> JSONSchemaValidator \<Rightarrow>
   ('c, 's, 'r) MCPHandler \<Rightarrow> ('c, 's, 'r) MCPHandler" where
  "InputValidation_Apply url_error marshal_size v schemas next ctx req s =
     (case (case req_params req of
              None \<Rightarrow> None
            | Some params \<Rightarrow>
                (case input_ValidateRequest url_error v (req_method req) params of
                   Some err \<Rightarrow> Some err
                 | None \<Rightarrow>
                     (case unmarshal_any params of
                        None \<Rightarrow> None
                      | Some obj \<Rightarrow> ValidateMessage schemas (req_method req) obj))) of
        Some err \<Rightarrow> (s, Ret (Some (NewErrorResponse (error_string err) (- 32602))) None)
      | None \<Rightarrow>
          (case next ctx req s of
             (s, Panic p) \<Rightarrow> (s, Panic p)
           | (s, Ret None err) \<Rightarrow> (s, Ret None err)
           | (s, Ret (Some resp) err) \<Rightarrow>
               (case (case resp of successResponse r \<Rightarrow> marshal_size r | errorResponse c m \<Rightarrow> Some 4) of
                  Some n \<Rightarrow>
                    if sc_MaxResponseSize (iv_config v) < int n
                    then (s, Ret (Some (NewErrorResponse ''Response too large'' (- 32603))) None)
                    else (s, Ret (Some resp) err)
                | None \<Rightarrow> (s, Ret (Some resp) err))))"

section \<open>What validation guarantees\<close>

text \<open>The values inside a value with their depths; a member replaced by a later one is not inside.\<close>

fun nested :: "nat \<Rightarrow> JSON \<Rightarrow> (nat \<times> JSON) list"
  and nested_items :: "nat \<Rightarrow> JSON list \<Rightarrow> (nat \<times> JSON) list"
  and nested_members :: "nat \<Rightarrow> (string \<times> string \<times> JSON) list \<Rightarrow> (nat \<times> JSON) list"
where
  "nested d v = (d, v) #
     (case v of JArr vs \<Rightarrow> nested_items (Suc d) vs | JObj ms \<Rightarrow> nested_members (Suc d) ms | _ \<Rightarrow> [])"
| "nested_items d [] = []"
| "nested_items d (v # vs) = nested d v @ nested_items d vs"
| "nested_members d [] = []"
| "nested_members d ((k, t, v) # ms) =
     (if k \<in> fst ` set ms then nested_members d ms else nested d v @ nested_members d ms)"

declare nested.simps [simp del]

definition value_ok :: "InputValidator \<Rightarrow> nat \<times> JSON \<Rightarrow> bool" where
  "value_ok v dx \<longleftrightarrow> int (fst dx) \<le> sc_MaxObjectDepth (iv_config v) \<and>
     (case snd dx of
        JStr s \<Rightarrow> validateString v s = None
      | JArr vs \<Rightarrow> int (length vs) \<le> sc_MaxArrayLength (iv_config v)
      | JObj ms \<Rightarrow> list_all (\<lambda>k. validateString v k = None) (map fst ms)
      | _ \<Rightarrow> True)"

lemma value_ok_simps:
  "value_ok v (d, JStr s) \<longleftrightarrow> int d \<le> sc_MaxObjectDepth (iv_config v) \<and> validateString v s = None"
  "value_ok v (d, JArr vs) \<longleftrightarrow> int d \<le> sc_MaxObjectDepth (iv_config v) \<and> int (length vs) \<le> sc_MaxArrayLength (iv_config v)"
  "value_ok v (d, JObj ms) \<longleftrightarrow> int d \<le> sc_MaxObjectDepth (iv_config v) \<and> list_all (\<lambda>k. validateString v k = None) (map fst ms)"
  "value_ok v (d, JNum n) \<longleftrightarrow> int d \<le> sc_MaxObjectDepth (iv_config v)"
  "value_ok v (d, JBool b) \<longleftrightarrow> int d \<le> sc_MaxObjectDepth (iv_config v)"
  "value_ok v (d, JNull) \<longleftrightarrow> int d \<le> sc_MaxObjectDepth (iv_config v)"
  by (simp_all add: value_ok_def)

text \<open>Every key of an object occurs last somewhere, so checking the live members checks all keys.\<close>

lemma validateValue_iff:
  "validateValue v d x = None \<longleftrightarrow> list_all (value_ok v) (nested d x)"
  "array_loop v d i vs = None \<longleftrightarrow> list_all (value_ok v) (nested_items d vs)"
  "object_loop v d ms = None \<longleftrightarrow>
     list_all (\<lambda>k. validateString v k = None) (map fst ms) \<and> list_all (value_ok v) (nested_members d ms)"
proof (induction v d x and v d i vs and v d ms rule: validateValue_array_loop_object_loop.induct)
  case (1 v d x)
  then show ?case
    by (cases x; subst validateValue.simps; subst nested.simps) (simp_all add: value_ok_simps not_less)
next
  case (5 v d k t x ms)
  show ?case
  proof (cases "k \<in> fst ` set ms")
    case True
    then have "list_all (\<lambda>k. validateString v k = None) (map fst ms) \<Longrightarrow> validateString v k = None"
      by (auto simp: list_all_iff)
    with True "5.IH"(1) show ?thesis by auto
  next
    case False
    with "5.IH"(2,3) show ?thesis by (auto split: option.splits)
  qed
qed (auto split: option.splits)


definition default_validator :: InputValidator where
  "default_validator = \<lparr>iv_config = DefaultSecurityConfig,
     compiledPatterns = [\<lambda>s. strings_Contains s ''<script'', \<lambda>s. strings_Contains s ''javascript:'',
       matches_handler, \<lambda>s. strings_Contains s ''data:text/html'']\<rparr>"

lemma default_validator: "NewInputValidator default_compile None = Inr default_validator"
  by (simp add: NewInputValidator_def DefaultSecurityConfig_def default_compile_def default_validator_def)


section \<open>What sanitizing guarantees\<close>

definition markup_chars :: "char set" where
  "markup_chars = {CHR 0x00, CHR ''<'', CHR ''>'', CHR 0x22, CHR 0x27}"

definition clean_string :: "InputValidator \<Rightarrow> string \<Rightarrow> bool" where
  "clean_string v s \<longleftrightarrow> set s \<inter> markup_chars = {} \<and> int (length s) \<le> sc_MaxStringLength (iv_config v)"

lemma replace_byte_set: "set (strings_ReplaceAll s [a] new) \<subseteq> (set s - {a}) \<union> set new"
  by (auto simp: replace_byte)

lemma escape_html_set:
  assumes "CHR 0x00 \<notin> set s"
  shows "set (escape_html s) \<inter> markup_chars = {}"
proof -
  let ?s1 = "strings_ReplaceAll s ''&'' ''&amp;''" let ?s2 = "strings_ReplaceAll ?s1 ''<'' ''&lt;''"
  let ?s3 = "strings_ReplaceAll ?s2 ''>'' ''&gt;''" let ?s4 = "strings_ReplaceAll ?s3 [CHR 0x22] ''&quot;''"
  have "CHR 0x00 \<notin> set ?s1" using replace_byte_set[of s "CHR ''&''" "''&amp;''"] assms by auto
  moreover have "set ?s2 \<subseteq> (set ?s1 - {CHR ''<''}) \<union> set ''&lt;''" by (rule replace_byte_set)
  moreover have "set ?s3 \<subseteq> (set ?s2 - {CHR ''>''}) \<union> set ''&gt;''" by (rule replace_byte_set)
  moreover have "set ?s4 \<subseteq> (set ?s3 - {CHR 0x22}) \<union> set ''&quot;''" by (rule replace_byte_set)
  moreover have "set (escape_html s) \<subseteq> (set ?s4 - {CHR 0x27}) \<union> set ''&#x27;''"
    unfolding escape_html_def by (rule replace_byte_set)
  ultimately show ?thesis by (auto simp: markup_chars_def)
qed

lemma sanitizeString_clean:
  assumes "sc_StrictMode (iv_config v)" and "0 \<le> sc_MaxStringLength (iv_config v)"
  shows "clean_string v (sanitizeString v s)"
proof -
  let ?t = "escape_html (strings_ReplaceAll s [CHR 0x00] [])"
  have "CHR 0x00 \<notin> set (strings_ReplaceAll s [CHR 0x00] [])"
    using replace_byte_set[of s "CHR 0x00" "[]"] by auto
  then have "set ?t \<inter> markup_chars = {}" by (rule escape_html_set)
  moreover have "set (take n ?t) \<subseteq> set ?t" for n by (rule set_take_subset)
  ultimately have "set (take n ?t) \<inter> markup_chars = {}" for n by blast
  with assms show ?thesis
    using \<open>set ?t \<inter> markup_chars = {}\<close> by (simp add: clean_string_def sanitizeString_def Let_def)
qed

definition clean_value :: "InputValidator \<Rightarrow> nat \<times> JSON \<Rightarrow> bool" where
  "clean_value v dx \<longleftrightarrow>
     (case snd dx of
        JStr s \<Rightarrow> clean_string v s
      | JArr vs \<Rightarrow> int (length vs) \<le> max 1 (sc_MaxArrayLength (iv_config v))
      | JObj ms \<Rightarrow> list_all (clean_string v) (map fst ms)
      | _ \<Rightarrow> True)"

lemma clean_value_simps [simp]:
  "clean_value v (d, JStr s) \<longleftrightarrow> clean_string v s"
  "clean_value v (d, JArr vs) \<longleftrightarrow> int (length vs) \<le> max 1 (sc_MaxArrayLength (iv_config v))"
  "clean_value v (d, JObj ms) \<longleftrightarrow> list_all (clean_string v) (map fst ms)"
  "clean_value v (d, JNum n)" "clean_value v (d, JBool b)" "clean_value v (d, JNull)"
  by (simp_all add: clean_value_def)

lemma sanitize_items_length:
  "int (length (sanitize_items v n xs)) \<le> max 1 (sc_MaxArrayLength (iv_config v) - int n)"
  by (induction v n xs rule: SanitizeInput_sanitize_items_sanitize_members.induct(2)[where P = "\<lambda>_ _. True" and R = "\<lambda>_ _. True"])
    auto

lemma sanitized_values:
  assumes "sc_StrictMode (iv_config v)" and "0 \<le> sc_MaxStringLength (iv_config v)"
  shows "list_all (clean_value v) (nested d (SanitizeInput v x))"
    "list_all (clean_value v) (nested_items d (sanitize_items v n xs))"
    "list_all (clean_value v) (nested_members d (sanitize_members v ms)) \<and>
     list_all (clean_string v) (map fst (sanitize_members v ms))"
  using assms
proof (induction v x and v n xs and v ms arbitrary: d and d and d
    rule: SanitizeInput_sanitize_items_sanitize_members.induct)
  case (2 v arr)
  then show ?case using sanitize_items_length[of v 0 arr] by (subst nested.simps) simp
qed (auto simp: nested.simps sanitizeString_clean)

text \<open>
  Sanitizing in strict mode leaves no markup: everywhere in the sanitized value, at any depth,
  no string and no key contains a zero byte, an angle bracket or a quote, none is longer than
  the configured length, and no array is longer than its limit (than one element, if the limit
  is smaller).
\<close>

theorem sanitized_input_is_clean:
  assumes "sc_StrictMode (iv_config v)" and "0 \<le> sc_MaxStringLength (iv_config v)"
  shows "list_all (clean_value v) (nested 0 (SanitizeInput v x))"
  by (rule sanitized_values(1)[OF assms])

theorem sanitized_input_is_clean_witness:
  "SanitizeInput default_validator (JStr ''<b>'') = JStr ''&lt;b&gt;'' \<and>
   list_all (clean_value default_validator) (nested 0 (SanitizeInput default_validator (JStr ''<b>'')))"
proof -
  have h: "sc_StrictMode (iv_config default_validator)" "0 \<le> sc_MaxStringLength (iv_config default_validator)"
    by (simp_all add: default_validator_def DefaultSecurityConfig_def)
  have "SanitizeInput default_validator (JStr ''<b>'') = JStr ''&lt;b&gt;''" by code_simp
  with sanitized_input_is_clean[OF h, of "JStr ''<b>''"] show ?thesis by simp
qed

section \<open>Gaps\<close>

text \<open>
  The image check can be skipped: the content type is compared without regard to case and
  parameters, but the magic bytes are checked only when it is spelled exactly \<open>image/png\<close> or
  \<open>image/jpeg\<close>, so arbitrary data passes as \<open>IMAGE/PNG\<close> wherever PNG is allowed.
\<close>

theorem image_check_skipped:
  "ValidateImageContent ul (NewContentTypeValidator ul (sc_AllowedContentTypes DefaultSecurityConfig)) data ''IMAGE/PNG'' = None"
proof -
  have lower: "strings_ToLower ul ''image/png'' = ''image/png''"
    "strings_ToLower ul (strings_TrimSpace (fst (split_at_byte CHR '';'' ''IMAGE/PNG''))) = ''image/png''"
    by code_simp+
  then show ?thesis
    by (simp add: ValidateImageContent_def ValidateContentType_def NewContentTypeValidator_def
        DefaultSecurityConfig_def Let_def)
qed

text \<open>
  The default forbidden patterns are case-sensitive: the validator refuses \<open><script\<close> but lets
  the same element through in capitals, and likewise an event handler attribute.
\<close>

theorem forbidden_patterns_miss_capitals:
  "validateString default_validator ''<script>x</script>'' \<noteq> None \<and>
   validateString default_validator ''<SCRIPT>x</SCRIPT>'' = None \<and>
   validateString default_validator ''<b onclick=x>'' \<noteq> None \<and>
   validateString default_validator ''<b ONCLICK=x>'' = None"
  by code_simp

end
