(* ===== verification/Auth.thy ===== *)
theory Auth
  imports Go_Marshal Pagination
begin

text \<open>
  Model of \<open>auth.go\<close>: the in-memory OAuth provider with its clients, authorization codes, access
  and refresh tokens, PKCE, the parsing of the \<open>Authorization\<close> header and the HTTP middleware.

  Random bytes and clock readings are arguments, and so are SHA-256 (\<open>sha\<close>) and the Unicode case
  tables (\<open>ul\<close>). Registered clients are the values the caller passed; a caller that changes the
  struct afterwards is not modelled.
\<close>

section \<open>Types\<close>

record OAuthClientInfo =
  ci_ClientID :: string
  ci_ClientSecret :: string
  ci_RedirectURIs :: "string list"
  ci_Name :: string
  ci_Description :: string
  ci_Scopes :: "string list"

record AuthorizationRequest =
  ar_ResponseType :: string
  ar_ClientID :: string
  ar_RedirectURI :: string
  ar_Scope :: string
  ar_State :: string
  ar_CodeChallenge :: string
  ar_CodeChallengeMethod :: string

record AuthorizationCode =
  ac_Code :: string
  ac_ClientID :: string
  ac_RedirectURI :: string
  ac_Scopes :: "string list"
  ac_CodeChallenge :: string
  ac_ExpiresAt :: time
  ac_RedirectURIExplicit :: bool

record AccessToken =
  at_AccessToken :: string
  at_TokenType :: string
  at_ExpiresIn :: int
  at_RefreshToken :: string
  at_Scope :: string
  at_ClientID :: string
  at_Scopes :: "string list"
  at_ExpiresAt :: time

record RefreshToken =
  rt_Token :: string
  rt_ClientID :: string
  rt_Scopes :: "string list"
  rt_ExpiresAt :: time

record MemoryOAuthProvider =
  clients :: "(string, OAuthClientInfo) gomap"
  authCodes :: "(string, AuthorizationCode) gomap"
  accessTokens :: "(string, AccessToken) gomap"
  refreshTokens :: "(string, RefreshToken) gomap"

definition ErrorInvalidRequest :: string where "ErrorInvalidRequest = ''invalid_request''"
definition ErrorInvalidClient :: string where "ErrorInvalidClient = ''invalid_client''"
definition ErrorInvalidGrant :: string where "ErrorInvalidGrant = ''invalid_grant''"
definition ErrorInvalidScope :: string where "ErrorInvalidScope = ''invalid_scope''"
definition TokenTypeBearer :: string where "TokenTypeBearer = ''Bearer''"

definition DefaultAuthCodeExpirationSeconds :: int where "DefaultAuthCodeExpirationSeconds = 600"
definition DefaultAccessTokenExpirationSeconds :: int where "DefaultAccessTokenExpirationSeconds = 3600"
definition DefaultRefreshTokenExpirationSeconds :: int where
  "DefaultRefreshTokenExpirationSeconds = 86400 * 30"

definition NewMemoryOAuthProvider :: MemoryOAuthProvider where
  "NewMemoryOAuthProvider = \<lparr>clients = [], authCodes = [], accessTokens = [], refreshTokens = []\<rparr>"

section \<open>Random strings\<close>

definition hex_EncodeToString :: "bytes \<Rightarrow> string" where
  "hex_EncodeToString bs = concat (map (\<lambda>b. [hex_digit (of_char b div 16), hex_digit (of_char b mod 16)]) bs)"

text \<open>\<open>rnd n\<close> is what reading \<open>n\<close> bytes from the random source gives.\<close>

definition generateRandomString :: "(nat \<Rightarrow> mcp_error + bytes) \<Rightarrow> nat \<Rightarrow> mcp_error + string" where
  "generateRandomString rnd len =
     (case rnd ((len + 1) div 2) of
        Inl err \<Rightarrow> Inl (WrapErr ''read random bytes'' err)
      | Inr bytes \<Rightarrow> Inr (take len (hex_EncodeToString bytes)))"

section \<open>Provider\<close>

type_synonym random_source = "nat \<Rightarrow> mcp_error + bytes"

definition RegisterClient ::
  "random_source \<Rightarrow> random_source \<Rightarrow> OAuthClientInfo \<Rightarrow> MemoryOAuthProvider \<Rightarrow>
   MemoryOAuthProvider \<times> (mcp_error + OAuthClientInfo)" where
  "RegisterClient rnd rnd' req p =
     (case (if ci_ClientID req = []
            then (case generateRandomString rnd 32 of
                    Inl err \<Rightarrow> Inl (WrapErr ''generate client ID'' err)
                  | Inr clientID \<Rightarrow> Inr (req\<lparr>ci_ClientID := clientID\<rparr>))
            else Inr req) of
        Inl err \<Rightarrow> (p, Inl err)
      | Inr req \<Rightarrow>
          (case (if ci_ClientSecret req = []
                 then (case generateRandomString rnd' 64 of
                         Inl err \<Rightarrow> Inl (WrapErr ''generate client secret'' err)
                       | Inr clientSecret \<Rightarrow> Inr (req\<lparr>ci_ClientSecret := clientSecret\<rparr>))
                 else Inr req) of
             Inl err \<Rightarrow> (p, Inl err)
           | Inr req \<Rightarrow> (p\<lparr>clients := AList.update (ci_ClientID req) req (clients p)\<rparr>, Inr req)))"

definition GetClient :: "string \<Rightarrow> MemoryOAuthProvider \<Rightarrow> mcp_error + OAuthClientInfo" where
  "GetClient clientID p =
     (case map_of (clients p) clientID of
        None \<Rightarrow> Inl (OAuthError ErrorInvalidClient ''Client not found'')
      | Some client \<Rightarrow> Inr client)"

definition ValidateClient :: "string \<Rightarrow> string \<Rightarrow> MemoryOAuthProvider \<Rightarrow> mcp_error option" where
  "ValidateClient clientID clientSecret p =
     (case GetClient clientID p of
        Inl err \<Rightarrow> Some err
      | Inr client \<Rightarrow>
          if ci_ClientSecret client \<noteq> clientSecret
          then Some (OAuthError ErrorInvalidClient ''Invalid client credentials'') else None)"

text \<open>The first requested scope the client may not use is reported.\<close>

definition ValidateScopes :: "string \<Rightarrow> string list \<Rightarrow> MemoryOAuthProvider \<Rightarrow> mcp_error option" where
  "ValidateScopes clientID scopes p =
     (case GetClient clientID p of
        Inl err \<Rightarrow> Some err
      | Inr client \<Rightarrow>
          if ci_Scopes client = [] then None
          else case List.find (\<lambda>sc. sc \<notin> set (ci_Scopes client)) scopes of
                 None \<Rightarrow> None
               | Some sc \<Rightarrow> Some (OAuthError ErrorInvalidScope
                            (''Scope '' @ quoted sc @ '' not allowed for client'')))"

definition CreateAuthorizationCode ::
  "random_source \<Rightarrow> time \<Rightarrow> AuthorizationRequest \<Rightarrow> MemoryOAuthProvider \<Rightarrow>
   MemoryOAuthProvider \<times> (mcp_error + AuthorizationCode)" where
  "CreateAuthorizationCode rnd now req p =
     (case GetClient (ar_ClientID req) p of
        Inl err \<Rightarrow> (p, Inl err)
      | Inr client \<Rightarrow>
          if ar_RedirectURI req \<noteq> [] \<and> ar_RedirectURI req \<notin> set (ci_RedirectURIs client)
          then (p, Inl (OAuthError ErrorInvalidRequest ''Invalid redirect URI''))
          else let scopes = (if ar_Scope req \<noteq> [] then strings_Fields (ar_Scope req) else [])
               in case ValidateScopes (ar_ClientID req) scopes p of
                    Some err \<Rightarrow> (p, Inl err)
                  | None \<Rightarrow>
                      (case generateRandomString rnd 32 of
                         Inl err \<Rightarrow> (p, Inl (WrapErr ''generate authorization code'' err))
                       | Inr codeString \<Rightarrow>
                           let code = \<lparr>ac_Code = codeString, ac_ClientID = ar_ClientID req,
                                       ac_RedirectURI = ar_RedirectURI req, ac_Scopes = scopes,
                                       ac_CodeChallenge = ar_CodeChallenge req,
                                       ac_ExpiresAt = now + DefaultAuthCodeExpirationSeconds * second,
                                       ac_RedirectURIExplicit = (ar_RedirectURI req \<noteq> [])\<rparr>
                           in (p\<lparr>authCodes := AList.update (ac_Code code) code (authCodes p)\<rparr>, Inr code)))"

definition GetAuthorizationCode ::
  "time \<Rightarrow> string \<Rightarrow> MemoryOAuthProvider \<Rightarrow> MemoryOAuthProvider \<times> (mcp_error + AuthorizationCode)" where
  "GetAuthorizationCode now code p =
     (case map_of (authCodes p) code of
        None \<Rightarrow> (p, Inl (OAuthError ErrorInvalidGrant ''Authorization code not found''))
      | Some authCode \<Rightarrow>
          if ac_ExpiresAt authCode < now
          then (p\<lparr>authCodes := AList.delete code (authCodes p)\<rparr>,
                Inl (OAuthError ErrorInvalidGrant ''Authorization code expired''))
          else (p, Inr authCode))"

definition RevokeAuthorizationCode :: "string \<Rightarrow> MemoryOAuthProvider \<Rightarrow> MemoryOAuthProvider" where
  "RevokeAuthorizationCode code p = p\<lparr>authCodes := AList.delete code (authCodes p)\<rparr>"

definition CreateAccessToken ::
  "random_source \<Rightarrow> random_source \<Rightarrow> time \<Rightarrow> time \<Rightarrow> AuthorizationCode \<Rightarrow> MemoryOAuthProvider \<Rightarrow>
   MemoryOAuthProvider \<times> (mcp_error + AccessToken)" where
  "CreateAccessToken rnd rnd' now now' authCode p =
     (case generateRandomString rnd 64 of
        Inl err \<Rightarrow> (p, Inl (WrapErr ''generate access token'' err))
      | Inr accessToken \<Rightarrow>
          (case generateRandomString rnd' 64 of
             Inl err \<Rightarrow> (p, Inl (WrapErr ''generate refresh token'' err))
           | Inr refreshToken \<Rightarrow>
               let token = \<lparr>at_AccessToken = accessToken, at_TokenType = TokenTypeBearer,
                            at_ExpiresIn = DefaultAccessTokenExpirationSeconds, at_RefreshToken = refreshToken,
                            at_Scope = strings_Join (ac_Scopes authCode) '' '', at_ClientID = ac_ClientID authCode,
                            at_Scopes = ac_Scopes authCode,
                            at_ExpiresAt = now + DefaultAccessTokenExpirationSeconds * second\<rparr>;
                   refresh = \<lparr>rt_Token = refreshToken, rt_ClientID = ac_ClientID authCode,
                              rt_Scopes = ac_Scopes authCode,
                              rt_ExpiresAt = now' + DefaultRefreshTokenExpirationSeconds * second\<rparr>
               in (p\<lparr>accessTokens := AList.update accessToken token (accessTokens p),
                     refreshTokens := AList.update refreshToken refresh (refreshTokens p)\<rparr>, Inr token)))"

definition RefreshAccessToken ::
  "time \<Rightarrow> random_source \<Rightarrow> time \<Rightarrow> string \<Rightarrow> MemoryOAuthProvider \<Rightarrow>
   MemoryOAuthProvider \<times> (mcp_error + AccessToken)" where
  "RefreshAccessToken now rnd now' refreshTokenStr p =
     (case map_of (refreshTokens p) refreshTokenStr of
        None \<Rightarrow> (p, Inl (OAuthError ErrorInvalidGrant ''Refresh token not found''))
      | Some refresh \<Rightarrow>
          if rt_ExpiresAt refresh < now
          then (p\<lparr>refreshTokens := AList.delete refreshTokenStr (refreshTokens p)\<rparr>,
                Inl (OAuthError ErrorInvalidGrant ''Refresh token expired''))
          else case generateRandomString rnd 64 of
                 Inl err \<Rightarrow> (p, Inl (WrapErr ''generate access token'' err))
               | Inr accessToken \<Rightarrow>
                   let token = \<lparr>at_AccessToken = accessToken, at_TokenType = TokenTypeBearer,
                                at_ExpiresIn = DefaultAccessTokenExpirationSeconds,
                                at_RefreshToken = refreshTokenStr,
                                at_Scope = strings_Join (rt_Scopes refresh) '' '', at_ClientID = rt_ClientID refresh,
                                at_Scopes = rt_Scopes refresh,
                                at_ExpiresAt = now' + DefaultAccessTokenExpirationSeconds * second\<rparr>
                   in (p\<lparr>accessTokens := AList.update accessToken token (accessTokens p)\<rparr>, Inr token))"

text \<open>The deletion of an expired token runs under a second lock and rechecks the entry; on one
  provider without interference the entry is still the same.\<close>

definition ValidateAccessToken ::
  "time \<Rightarrow> string \<Rightarrow> MemoryOAuthProvider \<Rightarrow> MemoryOAuthProvider \<times> (mcp_error + AccessToken)" where
  "ValidateAccessToken now tokenStr p =
     (case map_of (accessTokens p) tokenStr of
        None \<Rightarrow> (p, Inl (OAuthError ErrorInvalidClient ''Access token not found''))
      | Some token \<Rightarrow>
          if at_ExpiresAt token < now
          then (p\<lparr>accessTokens := AList.delete tokenStr (accessTokens p)\<rparr>,
                Inl (OAuthError ErrorInvalidClient ''Access token expired''))
          else (p, Inr token))"

definition RevokeToken :: "string \<Rightarrow> MemoryOAuthProvider \<Rightarrow> MemoryOAuthProvider" where
  "RevokeToken token p =
     (if map_of (accessTokens p) token \<noteq> None then p\<lparr>accessTokens := AList.delete token (accessTokens p)\<rparr>
      else if map_of (refreshTokens p) token \<noteq> None then p\<lparr>refreshTokens := AList.delete token (refreshTokens p)\<rparr>
      else p)"

section \<open>PKCE and headers\<close>

definition GeneratePKCEChallenge :: "(bytes \<Rightarrow> bytes) \<Rightarrow> random_source \<Rightarrow> mcp_error + string \<times> string" where
  "GeneratePKCEChallenge sha rnd =
     (case rnd 32 of
        Inl err \<Rightarrow> Inl err
      | Inr verifierBytes \<Rightarrow>
          let verifier = RawURLEncoding_EncodeToString verifierBytes
          in Inr (verifier, RawURLEncoding_EncodeToString (sha verifier)))"

definition ValidatePKCEChallenge :: "(bytes \<Rightarrow> bytes) \<Rightarrow> string \<Rightarrow> string \<Rightarrow> bool" where
  "ValidatePKCEChallenge sha verifier challenge \<longleftrightarrow>
     RawURLEncoding_EncodeToString (sha verifier) = challenge"

definition ParseAuthorizationHeader :: "(string \<Rightarrow> string) \<Rightarrow> string \<Rightarrow> mcp_error + string" where
  "ParseAuthorizationHeader ul header =
     (if header = [] then Inl (OAuthError ErrorInvalidRequest ''Missing authorization header'')
      else case split_at_byte CHR '' '' header of
             (scheme, Some rest) \<Rightarrow>
               if strings_ToLower ul scheme \<noteq> ''bearer''
               then Inl (OAuthError ErrorInvalidRequest ''Invalid authorization header format'')
               else Inr rest
           | (_, None) \<Rightarrow> Inl (OAuthError ErrorInvalidRequest ''Invalid authorization header format''))"

text \<open>The HTTP middleware: the status and body of a refusal, or the token handed to the next handler.\<close>

definition AuthMiddleware ::
  "(string \<Rightarrow> string) \<Rightarrow> time \<Rightarrow> string \<Rightarrow> MemoryOAuthProvider \<Rightarrow>
   MemoryOAuthProvider \<times> (int \<times> string + AccessToken)" where
  "AuthMiddleware ul now authHeader p =
     (case ParseAuthorizationHeader ul authHeader of
        Inl err \<Rightarrow> (p, Inl (401, error_string err))
      | Inr token \<Rightarrow>
          (case ValidateAccessToken now token p of
             (p, Inl err) \<Rightarrow> (p, Inl (401, error_string err))
           | (p, Inr accessToken) \<Rightarrow> (p, Inr accessToken)))"

section \<open>Sequences of operations\<close>

text \<open>What a server does with the provider; an exchange looks the code up and creates the tokens.\<close>

datatype oauth_op =
    OpRegisterClient random_source random_source OAuthClientInfo
  | OpAuthorize random_source time AuthorizationRequest
  | OpExchange random_source random_source time time time string
  | OpRefreshToken time random_source time string
  | OpValidate time string
  | OpRevokeToken string
  | OpRevokeCode string

fun oauth_exec :: "oauth_op \<Rightarrow> MemoryOAuthProvider \<Rightarrow> MemoryOAuthProvider" where
  "oauth_exec (OpRegisterClient rnd rnd' req) p = fst (RegisterClient rnd rnd' req p)"
| "oauth_exec (OpAuthorize rnd now req) p = fst (CreateAuthorizationCode rnd now req p)"
| "oauth_exec (OpExchange rnd rnd' t now now' code) p =
     (case GetAuthorizationCode t code p of
        (p, Inl e) \<Rightarrow> p
      | (p, Inr authCode) \<Rightarrow> fst (CreateAccessToken rnd rnd' now now' authCode p))"
| "oauth_exec (OpRefreshToken now rnd now' tok) p = fst (RefreshAccessToken now rnd now' tok p)"
| "oauth_exec (OpValidate now tok) p = fst (ValidateAccessToken now tok p)"
| "oauth_exec (OpRevokeToken tok) p = RevokeToken tok p"
| "oauth_exec (OpRevokeCode code) p = RevokeAuthorizationCode code p"

abbreviation oauth_execs :: "oauth_op list \<Rightarrow> MemoryOAuthProvider \<Rightarrow> MemoryOAuthProvider" where
  "oauth_execs \<equiv> fold oauth_exec"

text \<open>The operations that succeed in registering never reuse the id of a registered client.\<close>

fun fresh_clients :: "oauth_op list \<Rightarrow> MemoryOAuthProvider \<Rightarrow> bool" where
  "fresh_clients [] p \<longleftrightarrow> True"
| "fresh_clients (op # ops) p \<longleftrightarrow>
     (case op of
        OpRegisterClient rnd rnd' req \<Rightarrow>
          (case snd (RegisterClient rnd rnd' req p) of
             Inl e \<Rightarrow> True
           | Inr c \<Rightarrow> map_of (clients p) (ci_ClientID c) = None)
      | _ \<Rightarrow> True) \<and> fresh_clients ops (oauth_exec op p)"

section \<open>Scopes stay within what the client registered\<close>

definition scopes_ok :: "(string, OAuthClientInfo) gomap \<Rightarrow> string \<Rightarrow> string list \<Rightarrow> bool" where
  "scopes_ok cl cid scopes \<longleftrightarrow>
     (case map_of cl cid of
        None \<Rightarrow> False
      | Some c \<Rightarrow> ci_Scopes c = [] \<or> set scopes \<subseteq> set (ci_Scopes c))"

definition token_ok :: "(string, OAuthClientInfo) gomap \<Rightarrow> string \<Rightarrow> AccessToken \<Rightarrow> bool" where
  "token_ok cl k t \<longleftrightarrow> at_AccessToken t = k \<and> scopes_ok cl (at_ClientID t) (at_Scopes t) \<and>
     at_Scope t = strings_Join (at_Scopes t) '' ''"

definition oauth_inv :: "MemoryOAuthProvider \<Rightarrow> bool" where
  "oauth_inv p \<longleftrightarrow>
     all_entries (\<lambda>k c. scopes_ok (clients p) (ac_ClientID c) (ac_Scopes c)) (authCodes p) \<and>
     all_entries (token_ok (clients p)) (accessTokens p) \<and>
     all_entries (\<lambda>k r. scopes_ok (clients p) (rt_ClientID r) (rt_Scopes r)) (refreshTokens p)"

lemma oauth_invD:
  assumes "oauth_inv p"
  shows "map_of (authCodes p) k = Some c \<Longrightarrow> scopes_ok (clients p) (ac_ClientID c) (ac_Scopes c)"
    "map_of (accessTokens p) k = Some t \<Longrightarrow> token_ok (clients p) k t"
    "map_of (refreshTokens p) k = Some r \<Longrightarrow> scopes_ok (clients p) (rt_ClientID r) (rt_Scopes r)"
  using assms unfolding oauth_inv_def by (auto dest: all_entries_lookup)

lemma ValidateScopes_ok: "ValidateScopes cid scopes p = None \<Longrightarrow> scopes_ok (clients p) cid scopes"
  by (auto simp: ValidateScopes_def GetClient_def scopes_ok_def find_None_iff split: option.splits if_splits)

lemma scopes_ok_new:
  assumes "map_of cl (ci_ClientID c) = None" and "scopes_ok cl cid scopes"
  shows "scopes_ok (AList.update (ci_ClientID c) c cl) cid scopes"
  using assms by (auto simp: scopes_ok_def split: option.splits)

lemma token_ok_new:
  "map_of cl (ci_ClientID c) = None \<Longrightarrow> token_ok cl k t \<Longrightarrow> token_ok (AList.update (ci_ClientID c) c cl) k t"
  by (simp add: token_ok_def scopes_ok_new)

lemma oauth_inv_register:
  assumes "oauth_inv p" and "map_of (clients p) (ci_ClientID c) = None"
  shows "oauth_inv (p\<lparr>clients := AList.update (ci_ClientID c) c (clients p)\<rparr>)"
  using assms(1) unfolding oauth_inv_def
  by (auto elim!: all_entries_mono intro!: scopes_ok_new token_ok_new assms(2))

lemma RegisterClient_cases:
  "RegisterClient rnd rnd' req p = (p', r) \<Longrightarrow>
     (\<exists>e. r = Inl e \<and> p' = p) \<or> (\<exists>c. r = Inr c \<and> p' = p\<lparr>clients := AList.update (ci_ClientID c) c (clients p)\<rparr>)"
  by (auto simp: RegisterClient_def split: sum.splits if_splits)

lemma oauth_inv_authorize: "oauth_inv p \<Longrightarrow> oauth_inv (fst (CreateAuthorizationCode rnd now req p))"
  by (simp add: CreateAuthorizationCode_def Let_def oauth_inv_def ValidateScopes_ok split: sum.split option.split)

lemma oauth_inv_create:
  "oauth_inv p \<Longrightarrow> scopes_ok (clients p) (ac_ClientID c) (ac_Scopes c) \<Longrightarrow>
   oauth_inv (fst (CreateAccessToken rnd rnd' now now' c p))"
  by (simp add: CreateAccessToken_def Let_def oauth_inv_def token_ok_def split: sum.split)

lemma oauth_inv_refresh:
  assumes "oauth_inv p"
  shows "oauth_inv (fst (RefreshAccessToken now rnd now' tok p))"
proof (cases "map_of (refreshTokens p) tok")
  case (Some r)
  then have "scopes_ok (clients p) (rt_ClientID r) (rt_Scopes r)"
    using oauth_invD[OF assms] by blast
  with assms Some show ?thesis
    by (simp add: RefreshAccessToken_def Let_def oauth_inv_def token_ok_def split: sum.split)
qed (use assms in \<open>simp add: RefreshAccessToken_def\<close>)

lemma oauth_inv_exchange:
  assumes "oauth_inv p"
  shows "oauth_inv (oauth_exec (OpExchange rnd rnd' t now now' code) p)"
proof (cases "map_of (authCodes p) code")
  case (Some c)
  then have "scopes_ok (clients p) (ac_ClientID c) (ac_Scopes c)"
    using oauth_invD[OF assms] by blast
  with assms Some show ?thesis
    by (simp add: GetAuthorizationCode_def oauth_inv_create) (simp add: oauth_inv_def)
qed (use assms in \<open>simp add: GetAuthorizationCode_def\<close>)

lemma oauth_inv_others:
  "oauth_inv p \<Longrightarrow> oauth_inv (fst (ValidateAccessToken now tok p))"
  "oauth_inv p \<Longrightarrow> oauth_inv (RevokeToken tok p)"
  "oauth_inv p \<Longrightarrow> oauth_inv (RevokeAuthorizationCode code p)"
  by (simp_all add: oauth_inv_def ValidateAccessToken_def RevokeToken_def RevokeAuthorizationCode_def
      split: option.split)

lemma oauth_inv_exec:
  assumes "oauth_inv p" and "fresh_clients [op] p"
  shows "oauth_inv (oauth_exec op p)"
proof (cases op)
  case (OpRegisterClient rnd rnd' req)
  obtain p' r where r: "RegisterClient rnd rnd' req p = (p', r)" by fastforce
  from RegisterClient_cases[OF this] assms OpRegisterClient r show ?thesis
    by (auto simp: oauth_inv_register)
qed (use assms in \<open>simp_all add: oauth_inv_authorize oauth_inv_exchange oauth_inv_refresh oauth_inv_others
       del: oauth_exec.simps(3)\<close>)

lemma oauth_inv_execs:
  assumes "oauth_inv p" and "fresh_clients ops p"
  shows "oauth_inv (oauth_execs ops p)"
  using assms by (induction ops arbitrary: p) (simp_all add: oauth_inv_exec)

section \<open>Properties\<close>

text \<open>
  The header parser accepts exactly \<open>Bearer\<close>, in any case, followed by one space, and returns
  everything after that space.
\<close>

theorem ParseAuthorizationHeader_iff:
  "ParseAuthorizationHeader ul header = Inr token \<longleftrightarrow>
     (\<exists>scheme. header = scheme @ CHR '' '' # token \<and> CHR '' '' \<notin> set scheme \<and>
        strings_ToLower ul scheme = ''bearer'')"
proof
  assume l: "ParseAuthorizationHeader ul header = Inr token"
  let ?P = "\<lambda>c. c \<noteq> CHR '' ''"
  from l obtain x where d: "dropWhile ?P header = x # token"
    "strings_ToLower ul (takeWhile ?P header) = ''bearer''"
    by (auto simp: ParseAuthorizationHeader_def split_at_byte_def split: if_splits list.splits)
  have "x = CHR '' ''" using hd_dropWhile[of ?P header] d(1) by (cases "dropWhile ?P header = []") auto
  then have "header = takeWhile ?P header @ CHR '' '' # token"
    using takeWhile_dropWhile_id[of ?P header] d(1) by simp
  with d(2) show "\<exists>scheme. header = scheme @ CHR '' '' # token \<and> CHR '' '' \<notin> set scheme \<and>
      strings_ToLower ul scheme = ''bearer''"
    by (intro exI[of _ "takeWhile ?P header"]) (auto dest: set_takeWhileD)
next
  assume "\<exists>scheme. header = scheme @ CHR '' '' # token \<and> CHR '' '' \<notin> set scheme \<and>
      strings_ToLower ul scheme = ''bearer''"
  then obtain scheme where h: "header = scheme @ CHR '' '' # token" "CHR '' '' \<notin> set scheme"
    "strings_ToLower ul scheme = ''bearer''" by blast
  from h(2) have "\<forall>c \<in> set scheme. c \<noteq> CHR '' ''" by auto
  then show "ParseAuthorizationHeader ul header = Inr token"
    using h by (simp add: ParseAuthorizationHeader_def split_at_byte_def takeWhile_append2 dropWhile_append2)
qed


text \<open>An operation that does not happen to generate a given token again.\<close>

fun not_generating :: "string \<Rightarrow> oauth_op \<Rightarrow> bool" where
  "not_generating tok (OpExchange rnd rnd' t now now' code) \<longleftrightarrow>
     generateRandomString rnd 64 \<noteq> Inr tok \<and> generateRandomString rnd' 64 \<noteq> Inr tok"
| "not_generating tok (OpRefreshToken now rnd now' r) \<longleftrightarrow> generateRandomString rnd 64 \<noteq> Inr tok"
| "not_generating tok op \<longleftrightarrow> True"

definition dead_token :: "string \<Rightarrow> MemoryOAuthProvider \<Rightarrow> bool" where
  "dead_token tok p \<longleftrightarrow> map_of (accessTokens p) tok = None \<and> map_of (refreshTokens p) tok = None"

lemma dead_token_exec: "dead_token tok p \<Longrightarrow> not_generating tok op \<Longrightarrow> dead_token tok (oauth_exec op p)"
  by (cases op)
    (auto simp: dead_token_def RegisterClient_def CreateAuthorizationCode_def GetAuthorizationCode_def
      CreateAccessToken_def RefreshAccessToken_def ValidateAccessToken_def RevokeToken_def
      RevokeAuthorizationCode_def Let_def split: sum.splits option.splits prod.splits if_splits)

lemma dead_token_execs:
  "dead_token tok p \<Longrightarrow> list_all (not_generating tok) ops \<Longrightarrow> dead_token tok (oauth_execs ops p)"
  by (induction ops arbitrary: p) (simp_all add: dead_token_exec)

text \<open>
  C31. A revoked token stays dead: once a token that is not both an access and a refresh token was
  revoked, no sequence of operations that does not generate the same string again makes the
  provider accept it, neither as an access token nor for a refresh.
\<close>

theorem revoked_token_stays_dead:
  assumes "map_of (accessTokens p) tok = None \<or> map_of (refreshTokens p) tok = None"
    and "list_all (not_generating tok) ops"
  shows "snd (ValidateAccessToken now tok (oauth_execs ops (RevokeToken tok p)))
      = Inl (OAuthError ErrorInvalidClient ''Access token not found'') \<and>
    snd (RefreshAccessToken now rnd now' tok (oauth_execs ops (RevokeToken tok p)))
      = Inl (OAuthError ErrorInvalidGrant ''Refresh token not found'')"
proof -
  have "dead_token tok (RevokeToken tok p)" using assms(1) by (auto simp: dead_token_def RevokeToken_def)
  from dead_token_execs[OF this assms(2)] show ?thesis
    by (simp add: dead_token_def ValidateAccessToken_def RefreshAccessToken_def)
qed

lemma length_b64_sextets: "length (b64_sextets bs) = (4 * length bs + 2) div 3"
  by (induction bs rule: b64_sextets.induct) auto

lemma b64_alphabet_closed: "set (RawURLEncoding_EncodeToString bs) \<subseteq> set b64_alphabet"
proof -
  have "length b64_alphabet = 64" by code_simp
  moreover have "\<forall>i \<in> set (b64_sextets (map of_char bs)). i < 64"
    by (rule b64_sextets_lt_64) (auto simp: of_char_def)
  ultimately show ?thesis
    by (auto simp: RawURLEncoding_EncodeToString_def b64_char_def)
qed

text \<open>
  PKCE: the challenge generated with a verifier is the only one the verifier passes, whatever
  the hash function; the verifier of 32 random bytes has the 43 characters RFC 7636 asks for,
  all from the URL-safe base64 alphabet.
\<close>

theorem pkce_roundtrip:
  assumes "GeneratePKCEChallenge sha rnd = Inr (verifier, challenge)" and "rnd 32 = Inr bs" and "length bs = 32"
  shows "(ValidatePKCEChallenge sha verifier c \<longleftrightarrow> c = challenge) \<and> length verifier = 43 \<and>
    set verifier \<subseteq> set b64_alphabet"
proof -
  have v: "verifier = RawURLEncoding_EncodeToString bs" "challenge = RawURLEncoding_EncodeToString (sha verifier)"
    using assms(1,2) by (auto simp: GeneratePKCEChallenge_def Let_def)
  have "length verifier = 43"
    unfolding v(1) using assms(3) by (simp add: RawURLEncoding_EncodeToString_def length_b64_sextets)
  then show ?thesis
    using v b64_alphabet_closed[of bs] by (auto simp: ValidatePKCEChallenge_def)
qed

theorem pkce_roundtrip_witness:
  "length (RawURLEncoding_EncodeToString (replicate 32 CHR ''a'')) = 43"
proof -
  let ?bs = "replicate 32 CHR ''a''"
  have a: "GeneratePKCEChallenge id (\<lambda>n. Inr (replicate n CHR ''a''))
      = Inr (RawURLEncoding_EncodeToString ?bs, RawURLEncoding_EncodeToString (RawURLEncoding_EncodeToString ?bs))"
    by (simp add: GeneratePKCEChallenge_def Let_def)
  show ?thesis using pkce_roundtrip[OF a refl] by simp
qed

text \<open>
  Registration replaces clients: \<open>RegisterClient\<close> with the id of a registered client and a
  secret of the caller's choice succeeds, after which the provider accepts the new secret for
  that id, refuses every other, and allows the redirect URIs of the new registration only.
\<close>

theorem register_replaces_client:
  assumes "ci_ClientID req \<noteq> []" and "ci_ClientSecret req \<noteq> []"
    and "p' = fst (RegisterClient rnd rnd' req p)"
  shows "snd (RegisterClient rnd rnd' req p) = Inr req \<and>
    (ValidateClient (ci_ClientID req) secret p' = None \<longleftrightarrow> secret = ci_ClientSecret req) \<and>
    GetClient (ci_ClientID req) p' = Inr req"
  using assms by (auto simp: RegisterClient_def ValidateClient_def GetClient_def)

definition demo_client :: OAuthClientInfo where
  "demo_client = \<lparr>ci_ClientID = ''app'', ci_ClientSecret = ''s1'', ci_RedirectURIs = [''https://a''],
     ci_Name = [], ci_Description = [], ci_Scopes = [''read'']\<rparr>"

definition demo_random :: "char \<Rightarrow> random_source" where
  "demo_random c n = Inr (replicate n c)"

theorem register_replaces_client_witness:
  "ValidateClient ''app'' ''s1'' (fst (RegisterClient (demo_random CHR ''a'') (demo_random CHR ''b'')
     (demo_client\<lparr>ci_ClientSecret := ''evil''\<rparr>)
     (fst (RegisterClient (demo_random CHR ''a'') (demo_random CHR ''b'') demo_client NewMemoryOAuthProvider)))) \<noteq> None"
proof -
  let ?req = "demo_client\<lparr>ci_ClientSecret := ''evil''\<rparr>"
  have h: "ci_ClientID ?req \<noteq> []" "ci_ClientSecret ?req \<noteq> []" by (simp_all add: demo_client_def)
  show ?thesis
    using register_replaces_client[OF h refl, of _ _ _ "''s1''"] by (simp add: demo_client_def)
qed

definition demo_oauth :: "oauth_op list" where
  "demo_oauth =
     [OpRegisterClient (demo_random CHR ''a'') (demo_random CHR ''b'') demo_client,
      OpAuthorize (demo_random CHR ''c'') 0
        \<lparr>ar_ResponseType = ''code'', ar_ClientID = ''app'', ar_RedirectURI = ''https://a'', ar_Scope = ''read'',
         ar_State = [], ar_CodeChallenge = [], ar_CodeChallengeMethod = []\<rparr>,
      OpExchange (demo_random CHR ''d'') (demo_random CHR ''e'') 1 1 1 (take 32 (hex_EncodeToString (replicate 16 CHR ''c'')))]"

definition demo_token :: string where
  "demo_token = hex_EncodeToString (replicate 32 CHR ''d'')"


theorem revoked_token_stays_dead_witness:
  "snd (ValidateAccessToken 5 demo_token (RevokeToken demo_token (oauth_execs demo_oauth NewMemoryOAuthProvider)))
     = Inl (OAuthError ErrorInvalidClient ''Access token not found'')"
proof -
  let ?p = "oauth_execs demo_oauth NewMemoryOAuthProvider"
  have a: "map_of (accessTokens ?p) demo_token = None \<or> map_of (refreshTokens ?p) demo_token = None" by code_simp
  have b: "list_all (not_generating demo_token) []" by simp
  from revoked_token_stays_dead[OF a b, of 5 "demo_random CHR ''a''" 5] show ?thesis by simp
qed

end
