(* ===== verification/TokenGuard.thy ===== *)
theory TokenGuard
  imports Security Auth
begin

text \<open>
  Model of \<open>TokenTransmissionGuard\<close> in \<open>auth_security.go\<close>: packing a token with a nonce and a time
  stamp, checking a received package with its replay protection, and the cleanup of old
  nonces. Random bytes and clock readings are arguments.
\<close>

section \<open>base64.URLEncoding\<close>

definition URLEncoding_EncodeToString :: "bytes \<Rightarrow> string" where
  "URLEncoding_EncodeToString bs =
     (let s = RawURLEncoding_EncodeToString bs in s @ replicate ((4 - length s mod 4) mod 4) CHR ''='')"

text \<open>Line ends are skipped; what is left is whole quanta, the last one padded with at most two
  equals signs.\<close>

definition URLEncoding_DecodeString :: "string \<Rightarrow> bytes option" where
  "URLEncoding_DecodeString s =
     (let s = filter (\<lambda>c. c \<noteq> CHR 0x0A \<and> c \<noteq> CHR 0x0D) s;
          pad = (if suffix ''=='' s then 2 else if suffix ''='' s then 1 else 0)
      in if length s mod 4 \<noteq> 0 then None else RawURLEncoding_DecodeString (take (length s - pad) s))"

section \<open>The guard\<close>

record TokenTransmissionGuard =
  maxTransmissionAge :: duration
  nonceCache :: "(string, time) gomap"
  guard_closed :: bool

definition NewTokenTransmissionGuard :: "duration \<Rightarrow> TokenTransmissionGuard" where
  "NewTokenTransmissionGuard maxAge =
     \<lparr>maxTransmissionAge = (if maxAge \<le> 0 then 5 * minute else maxAge), nonceCache = [], guard_closed = False\<rparr>"

definition guard_Close :: "TokenTransmissionGuard \<Rightarrow> TokenTransmissionGuard" where
  "guard_Close g = g\<lparr>guard_closed := True\<rparr>"

text \<open>The marshalled map has its keys in order. \<open>now\<close> is the clock reading; \<open>Unix\<close> rounds down.\<close>

definition PrepareTokenForTransmission :: "random_source \<Rightarrow> time \<Rightarrow> string \<Rightarrow> mcp_error + string" where
  "PrepareTokenForTransmission rnd now token =
     (case rnd 16 of
        Inl err \<Rightarrow> Inl (WrapErr ''failed to generate nonce'' err)
      | Inr nonce \<Rightarrow>
          Inr (URLEncoding_EncodeToString
            (CHR 0x7B # json_quoted ''nonce'' @ '':'' @ marshal_string (hex_EncodeToString nonce) @ '','' @
             json_quoted ''timestamp'' @ '':'' @ show_int (now div second) @ '','' @
             json_quoted ''token'' @ '':'' @ marshal_string token @ '','' @
             json_quoted ''version'' @ '':1'' @ [CHR 0x7D])))"

definition ErrInvalidTokenVersion :: mcp_error where
  "ErrInvalidTokenVersion = Sentinel ''auth: unsupported token version''"

text \<open>
  \<open>now\<close> is the reading of \<open>time.Since\<close> and \<open>now'\<close> the one stored with the nonce. Time stamps are
  taken to be within the range that \<open>time.Time\<close> represents.
\<close>

definition ValidateTokenTransmission ::
  "time \<Rightarrow> time \<Rightarrow> string \<Rightarrow> TokenTransmissionGuard \<Rightarrow> TokenTransmissionGuard \<times> (mcp_error + string)" where
  "ValidateTokenTransmission now now' transmitted g =
     (case URLEncoding_DecodeString transmitted of
        None \<Rightarrow> (g, Inl (PlainErr ''invalid transmission format''))
      | Some data \<Rightarrow>
          (case unmarshal_map data of
             Inl err \<Rightarrow> (g, Inl (WrapErr ''invalid transmission data'' err))
           | Inr transmission \<Rightarrow>
               (case float_field transmission ''version'' of
                  None \<Rightarrow> (g, Inl ErrInvalidTokenVersion)
                | Some version \<Rightarrow>
                    if int64_of_float version \<noteq> 1 then (g, Inl ErrInvalidTokenVersion)
                    else case float_field transmission ''timestamp'' of
                           None \<Rightarrow> (g, Inl (PlainErr ''missing timestamp''))
                         | Some timestamp \<Rightarrow>
                             if maxTransmissionAge g < time_Sub now (int64_of_float timestamp * second)
                             then (g, Inl (PlainErr ''transmission expired''))
                             else case string_field transmission ''nonce'' of
                                    None \<Rightarrow> (g, Inl (PlainErr ''missing nonce''))
                                  | Some nonce \<Rightarrow>
                                      if map_of (nonceCache g) nonce \<noteq> None
                                      then (g, Inl (PlainErr ''nonce already used''))
                                      else let g = g\<lparr>nonceCache := AList.update nonce now' (nonceCache g)\<rparr>
                                           in case string_field transmission ''token'' of
                                                None \<Rightarrow> (g, Inl (PlainErr ''missing token''))
                                              | Some token \<Rightarrow> (g, Inr token))))"

text \<open>One tick of the cleanup goroutine, which ends when the guard is closed.\<close>

definition cleanupNonces :: "time \<Rightarrow> TokenTransmissionGuard \<Rightarrow> TokenTransmissionGuard" where
  "cleanupNonces now g =
     (if guard_closed g then g
      else let cutoff = now + (- maxTransmissionAge g * 2)
           in g\<lparr>nonceCache := filter (\<lambda>(nonce, timestamp). \<not> timestamp < cutoff) (nonceCache g)\<rparr>)"

section \<open>Replay protection\<close>

datatype guard_op = OpReceive time time string | OpTick time | OpCloseGuard

fun op_times :: "guard_op \<Rightarrow> time list" where
  "op_times (OpReceive now now' text) = [now, now']"
| "op_times (OpTick now) = [now]"
| "op_times OpCloseGuard = []"

fun guard_exec :: "guard_op \<Rightarrow> TokenTransmissionGuard \<Rightarrow> TokenTransmissionGuard" where
  "guard_exec (OpReceive now now' text) g = fst (ValidateTokenTransmission now now' text g)"
| "guard_exec (OpTick now) g = cleanupNonces now g"
| "guard_exec OpCloseGuard g = guard_Close g"

abbreviation guard_execs :: "guard_op list \<Rightarrow> TokenTransmissionGuard \<Rightarrow> TokenTransmissionGuard" where
  "guard_execs \<equiv> fold guard_exec"

text \<open>What a text carries, if it is well-formed: its time stamp and its nonce.\<close>

definition carries :: "string \<Rightarrow> int \<Rightarrow> string \<Rightarrow> bool" where
  "carries text ts nonce \<longleftrightarrow>
     (\<exists>data ms v t. URLEncoding_DecodeString text = Some data \<and> unmarshal_map data = Inr ms \<and>
        float_field ms ''version'' = Some v \<and> int64_of_float v = 1 \<and>
        float_field ms ''timestamp'' = Some t \<and> int64_of_float t = ts \<and> string_field ms ''nonce'' = Some nonce)"

lemma accepted_carries:
  assumes "ValidateTokenTransmission now now' text g = (g', Inr token)"
  shows "\<exists>ts nonce. carries text ts nonce \<and> time_Sub now (ts * second) \<le> maxTransmissionAge g \<and>
    map_of (nonceCache g) nonce = None \<and> map_of (nonceCache g') nonce = Some now' \<and>
    maxTransmissionAge g' = maxTransmissionAge g"
  using assms
  by (auto simp: ValidateTokenTransmission_def carries_def Let_def split: option.splits sum.splits if_splits)

lemma carries_refused:
  assumes "carries text ts nonce"
    and "maxTransmissionAge g < time_Sub now (ts * second) \<or> map_of (nonceCache g) nonce \<noteq> None"
  shows "\<exists>e. ValidateTokenTransmission now now' text g = (g, Inl e)"
  using assms by (auto simp: carries_def ValidateTokenTransmission_def)

lemma guard_exec_age: "maxTransmissionAge (guard_exec op g) = maxTransmissionAge g"
  by (cases op) (auto simp: ValidateTokenTransmission_def cleanupNonces_def guard_Close_def Let_def
      split: option.split sum.split)

lemma Validate_effect:
  "fst (ValidateTokenTransmission now now' msg g) = g \<or>
   (\<exists>n. map_of (nonceCache g) n = None \<and>
      fst (ValidateTokenTransmission now now' msg g) = g\<lparr>nonceCache := AList.update n now' (nonceCache g)\<rparr>)"
  by (auto simp: ValidateTokenTransmission_def Let_def split: option.split sum.split)

text \<open>A nonce stays in the cache while no tick is more than twice the maximum age later.\<close>

lemma nonce_kept:
  assumes "map_of (nonceCache g) nonce = Some t" and "map_ok (nonceCache g)"
    and "\<forall>now \<in> set (op_times op). now \<le> t + 2 * maxTransmissionAge g"
  shows "map_of (nonceCache (guard_exec op g)) nonce = Some t \<and> map_ok (nonceCache (guard_exec op g))"
proof (cases op)
  case (OpReceive now now' msg)
  from Validate_effect[of now now' msg g] show ?thesis
  proof (elim disjE exE conjE)
    fix n
    assume n: "map_of (nonceCache g) n = None"
      "fst (ValidateTokenTransmission now now' msg g) = g\<lparr>nonceCache := AList.update n now' (nonceCache g)\<rparr>"
    have "map_of (AList.update n now' (nonceCache g)) nonce = Some t"
      using n(1) assms(1) by (cases "nonce = n") (simp_all add: map_of_update)
    with OpReceive assms(2) n(2) show ?thesis by simp
  qed (use OpReceive assms(1,2) in simp)
next
  case (OpTick now)
  with assms show ?thesis by (auto simp: cleanupNonces_def Let_def map_of_filter)
qed (use assms in \<open>simp add: guard_Close_def\<close>)

lemma nonce_kept_all:
  assumes "map_of (nonceCache g) nonce = Some t" and "map_ok (nonceCache g)"
    and "\<forall>op \<in> set ops. \<forall>now \<in> set (op_times op). now \<le> t + 2 * maxTransmissionAge g"
  shows "map_of (nonceCache (guard_execs ops g)) nonce = Some t \<and> maxTransmissionAge (guard_execs ops g) = maxTransmissionAge g"
  using assms
proof (induction ops arbitrary: g)
  case (Cons op ops)
  then have "map_of (nonceCache (guard_exec op g)) nonce = Some t \<and> map_ok (nonceCache (guard_exec op g))"
    by (intro nonce_kept) simp_all
  with Cons.IH[of "guard_exec op g"] Cons.prems(3) show ?case by (simp add: guard_exec_age)
qed simp

text \<open>
  C30. A transmission that is not dated in the future is accepted at most once: after a guard has
  accepted a text whose time stamp is not later than the moment it was stored, then whatever
  the guard receives and cleans up next, the same text is refused whenever it is presented
  again, because its nonce is still cached or because it has expired.
\<close>

theorem transmission_not_replayed:
  assumes "0 < maxTransmissionAge g" and "map_ok (nonceCache g)"
    and "ValidateTokenTransmission now now' msg g = (g', Inr token)"
    and "carries msg ts nonce" and "ts * second \<le> now'"
    and "\<forall>op \<in> set ops. \<forall>t \<in> set (op_times op). t \<le> later" and "\<bar>later - ts * second\<bar> < 2 ^ 63"
  shows "\<exists>e. snd (ValidateTokenTransmission later later' msg (guard_execs ops g')) = Inl e"
proof -
  from accepted_carries[OF assms(3)] obtain ts' nonce' where a: "carries msg ts' nonce'"
    "map_of (nonceCache g') nonce' = Some now'" "maxTransmissionAge g' = maxTransmissionAge g" by blast
  with assms(4) have same: "ts' = ts" "nonce' = nonce" by (auto simp: carries_def)
  have ok: "map_ok (nonceCache g')"
    using assms(2,3) by (auto simp: ValidateTokenTransmission_def Let_def split: option.splits sum.splits if_splits)
  show ?thesis
  proof (cases "maxTransmissionAge g < time_Sub later (ts * second)")
    case True
    have "maxTransmissionAge (guard_execs ops g') = maxTransmissionAge g"
      using a(3) guard_exec_age by (induction ops arbitrary: g') simp_all
    with True carries_refused[OF assms(4), of "guard_execs ops g'" later later'] show ?thesis by auto
  next
    case False
    then have "later \<le> ts * second + maxTransmissionAge g"
      using time_Sub_exact[OF assms(7)] by simp
    then have "later \<le> now' + 2 * maxTransmissionAge g'"
      using assms(1,5) a(3) by simp
    then have "\<forall>op \<in> set ops. \<forall>t \<in> set (op_times op). t \<le> now' + 2 * maxTransmissionAge g'"
      using assms(6) by force
    from nonce_kept_all[OF a(2)[unfolded same] ok this]
    show ?thesis using carries_refused[OF assms(4), of "guard_execs ops g'" later later'] by auto
  qed
qed

section \<open>Round trips\<close>

text \<open>The object that \<open>PrepareTokenForTransmission\<close> writes.\<close>

definition package :: "string \<Rightarrow> nat \<Rightarrow> string \<Rightarrow> bytes" where
  "package nonce ts token =
     CHR 0x7B # json_quoted ''nonce'' @ CHR '':'' # json_quoted nonce @ CHR '','' #
      json_quoted ''timestamp'' @ CHR '':'' # show_nat ts @ CHR '','' #
      json_quoted ''token'' @ CHR '':'' # json_quoted token @ CHR '','' #
      json_quoted ''version'' @ CHR '':'' # show_nat 1 @ [CHR 0x7D]"

lemma package_parsed:
  assumes "list_all plain_char nonce" and "list_all plain_char token"
  shows "json_parse (package nonce ts token) =
    Some (JObj [(''nonce'', json_quoted nonce, JStr nonce), (''timestamp'', show_nat ts, JNum (show_nat ts)),
      (''token'', json_quoted token, JStr token), (''version'', show_nat 1, JNum (show_nat 1))])"
proof -
  have k: "list_all plain_char ''nonce''" "list_all plain_char ''timestamp''"
    "list_all plain_char ''token''" "list_all plain_char ''version''" by code_simp+
  have c: "ends_number CHR '',''" "ends_number CHR 0x7D" by code_simp+
  obtain n where n: "2 * length (package nonce ts token) + 2 = Suc (Suc (Suc (Suc (Suc (Suc n)))))"
    by (simp add: package_def)
  have v4: "parse_members (Suc (Suc m)) 1 False (json_quoted ''version'' @ CHR '':'' # show_nat 1 @ [CHR 0x7D])
      = Some ([(''version'', show_nat 1, JNum (show_nat 1))], [])" for m
    by (subst parse_member[OF k(4), of _ "CHR 0x7D"]) (simp_all add: parse_value_show_nat[OF c(2)] del: parse_value.simps parse_members.simps One_nat_def)
  have v3: "parse_members (Suc (Suc (Suc m))) 1 False (json_quoted ''token'' @ CHR '':'' # json_quoted token @ CHR '','' #
      json_quoted ''version'' @ CHR '':'' # show_nat 1 @ [CHR 0x7D])
      = Some ([(''token'', json_quoted token, JStr token), (''version'', show_nat 1, JNum (show_nat 1))], [])" for m
    by (subst parse_member[OF k(3), of _ "CHR '',''"]) (simp_all add: parse_value_quoted[OF assms(2)] v4 del: parse_value.simps parse_members.simps One_nat_def)
  have v2: "parse_members (Suc (Suc (Suc (Suc m)))) 1 False (json_quoted ''timestamp'' @ CHR '':'' # show_nat ts @ CHR '','' #
      json_quoted ''token'' @ CHR '':'' # json_quoted token @ CHR '','' #
      json_quoted ''version'' @ CHR '':'' # show_nat 1 @ [CHR 0x7D])
      = Some ([(''timestamp'', show_nat ts, JNum (show_nat ts)), (''token'', json_quoted token, JStr token),
          (''version'', show_nat 1, JNum (show_nat 1))], [])" for m
    by (subst parse_member[OF k(2), of _ "CHR '',''"]) (simp_all add: parse_value_show_nat[OF c(1)] v3 del: parse_value.simps parse_members.simps One_nat_def)
  have "parse_members (Suc (Suc (Suc (Suc (Suc m))))) 1 True (tl (package nonce ts token))
      = Some ([(''nonce'', json_quoted nonce, JStr nonce), (''timestamp'', show_nat ts, JNum (show_nat ts)),
          (''token'', json_quoted token, JStr token), (''version'', show_nat 1, JNum (show_nat 1))], [])" for m
    unfolding package_def list.sel
    by (subst parse_member[OF k(1), of _ "CHR '',''"]) (simp_all add: parse_value_quoted[OF assms(1)] v2 del: parse_value.simps parse_members.simps One_nat_def)
  from this[of n] show ?thesis
    unfolding json_parse_def n by (simp add: package_def maxNestingDepth_def del: parse_members.simps)
qed

lemma suffix_outside:
  assumes "a \<notin> set s"
  shows "\<not> suffix (xs @ [a]) s" "\<not> suffix [a, a] (s @ [a])"
  using assms by (auto simp: suffix_def Cons_eq_append_conv append_eq_append_conv2 append_eq_Cons_conv
      dest!: arg_cong[where f = set])

lemma URLEncoding_roundtrip: "URLEncoding_DecodeString (URLEncoding_EncodeToString bs) = Some bs"
proof -
  let ?s = "RawURLEncoding_EncodeToString bs"
  have al: "CHR ''='' \<notin> set b64_alphabet" "CHR 0x0A \<notin> set b64_alphabet" "CHR 0x0D \<notin> set b64_alphabet"
    by code_simp+
  have ns: "CHR ''='' \<notin> set ?s" "CHR 0x0A \<notin> set ?s" "CHR 0x0D \<notin> set ?s"
    using b64_alphabet_closed[of bs] al by blast+
  have f: "filter (\<lambda>c. c \<noteq> CHR 0x0A \<and> c \<noteq> CHR 0x0D) (?s @ replicate p CHR ''='') = ?s @ replicate p CHR ''=''" for p
    using ns(2,3) by (auto intro!: filter_True)
  have dec: "RawURLEncoding_DecodeString ?s = Some bs" by (rule decode_encode)
  have "length ?s = (4 * length bs + 2) div 3"
    by (simp add: RawURLEncoding_EncodeToString_def length_b64_sextets)
  then have "length ?s mod 4 \<noteq> 1" by presburger
  then consider "length ?s mod 4 = 0" | "length ?s mod 4 = 2" | "length ?s mod 4 = 3" by linarith
  then show ?thesis
  proof cases
    case 1
    have "\<not> suffix ''='' ?s" "\<not> suffix ''=='' ?s"
      using suffix_outside(1)[OF ns(1), of "[]"] suffix_outside(1)[OF ns(1), of "''=''"] by simp_all
    with 1 f[of 0] dec show ?thesis
      by (simp add: URLEncoding_DecodeString_def URLEncoding_EncodeToString_def Let_def)
  next
    case 2
    have "suffix ''=='' (?s @ ''=='')" by (simp add: suffix_def)
    moreover have "(length ?s + 2) mod 4 = 0" using 2 by presburger
    ultimately show ?thesis
      using 2 f[of 2] dec by (simp add: URLEncoding_DecodeString_def URLEncoding_EncodeToString_def Let_def numeral_2_eq_2)
  next
    case 3
    have "suffix ''='' (?s @ ''='')" "\<not> suffix ''=='' (?s @ ''='')"
      using suffix_outside(2)[OF ns(1)] by (simp_all add: suffix_def)
    moreover have "(length ?s + 1) mod 4 = 0" using 3 by presburger
    ultimately show ?thesis
      using 3 f[of 1] dec by (simp add: URLEncoding_DecodeString_def URLEncoding_EncodeToString_def Let_def)
  qed
qed

text \<open>Characters \<open>json.Marshal\<close> writes as they are.\<close>

definition verbatim_char :: "char \<Rightarrow> bool" where
  "verbatim_char c \<longleftrightarrow> plain_char c \<and> c \<notin> set ''<>&''"

lemma marshal_rune_verbatim:
  assumes "verbatim_char c"
  shows "marshal_rune [c] = [c]"
proof -
  have n: "32 \<le> (of_char c :: nat)" "of_char c < (128 :: nat)" "c \<noteq> CHR 0x22" "c \<noteq> CHR 0x5C" "c \<notin> set ''<>&''"
    using assms unfolding verbatim_char_def plain_char_def by blast+
  have m: "c \<noteq> CHR 0x08" "c \<noteq> CHR 0x0C" "c \<noteq> CHR 0x0A" "c \<noteq> CHR 0x0D" "c \<noteq> CHR 0x09"
    using n(1) by auto
  have l: "\<not> 128 \<le> (of_char c :: nat)" "\<not> of_char c < (32 :: nat)" using n(1,2) by simp_all
  show ?thesis unfolding marshal_rune_def using n(3-5) m l by simp
qed

lemma marshal_verbatim:
  assumes "list_all verbatim_char s"
  shows "marshal_string s = json_quoted s"
proof -
  have "list_all is_ascii s"
    using assms by (rule list.pred_mono_strong) (simp add: verbatim_char_def plain_char_ascii)
  then have r: "runes s = map (\<lambda>c. [c]) s" by (rule runes_ascii)
  have "concat (map marshal_rune (map (\<lambda>c. [c]) s)) = s"
    using assms by (induction s) (simp_all add: marshal_rune_verbatim)
  then show ?thesis unfolding marshal_string_def r by simp
qed

lemma hex_verbatim: "list_all verbatim_char (hex_EncodeToString bs)"
proof -
  have "list_all verbatim_char ''0123456789abcdef''" by code_simp
  then have "verbatim_char (hex_digit n)" if "n < 16" for n
    using that by (simp add: hex_digit_def list_all_length)
  moreover have "of_char b div 16 < (16 :: nat)" for b
    using of_char_mod_256[of b] by (simp add: less_mult_imp_div_less)
  ultimately show ?thesis by (induction bs) (simp_all add: hex_EncodeToString_def)
qed

text \<open>What the receiver reads out of a package.\<close>

lemma package_read:
  assumes "list_all verbatim_char n" and "list_all verbatim_char token" and "ts < 2 ^ 53"
  shows "unmarshal_map (package n ts token) =
      Inr [(''nonce'', json_quoted n, JStr n), (''timestamp'', show_nat ts, JNum (show_nat ts)),
        (''token'', json_quoted token, JStr token), (''version'', show_nat 1, JNum (show_nat 1))]"
proof -
  have pl: "list_all plain_char n" "list_all plain_char token"
    using assms(1,2) by (auto simp: list_all_iff verbatim_char_def)
  have small: "(1 :: nat) < 2 ^ 53" by simp
  show ?thesis
    unfolding unmarshal_map_def package_parsed[OF pl]
    by (simp add: num_in_range_show_nat[OF assms(3)] num_in_range_show_nat[OF small, simplified])
qed

lemma version_read: "num_value (show_nat 1) = 1" "int64_of_float 1 = 1"
  using num_value_show_nat[of 1] int64_of_small[of 1] by simp_all

lemma Validate_package:
  assumes "list_all verbatim_char n" and "list_all verbatim_char token" and "ts < 2 ^ 53"
    and "time_Sub now (int ts * second) \<le> maxTransmissionAge g" and "map_of (nonceCache g) n = None"
  shows "ValidateTokenTransmission now now' (URLEncoding_EncodeToString (package n ts token)) g =
    (g\<lparr>nonceCache := AList.update n now' (nonceCache g)\<rparr>, Inr token)"
proof -
  have t: "int64_of_float (num_value (show_nat ts)) = int ts"
    using num_value_show_nat[OF assms(3)] int64_of_small[OF assms(3)] by simp
  show ?thesis
    unfolding ValidateTokenTransmission_def URLEncoding_roundtrip option.case package_read[OF assms(1-3)] sum.case
    using version_read t assms(4,5)
    by (simp add: float_field_def string_field_def get_field_def Let_def)
qed

lemma package_carries:
  assumes "list_all verbatim_char n" and "list_all verbatim_char token" and "ts < 2 ^ 53"
  shows "carries (URLEncoding_EncodeToString (package n ts token)) (int ts) n"
proof -
  have t: "int64_of_float (num_value (show_nat ts)) = int ts"
    using num_value_show_nat[OF assms(3)] int64_of_small[OF assms(3)] by simp
  show ?thesis
    unfolding carries_def URLEncoding_roundtrip
    by (intro exI conjI, rule refl, rule package_read[OF assms])
      (use version_read t in \<open>auto simp: float_field_def string_field_def get_field_def\<close>)
qed

lemma Prepare_package:
  assumes "rnd 16 = Inr nonce" and "list_all verbatim_char token" and "0 \<le> at_time"
  shows "PrepareTokenForTransmission rnd at_time token =
    Inr (URLEncoding_EncodeToString (package (hex_EncodeToString nonce) (nat (at_time div second)) token))"
proof -
  have sh: "show_int (at_time div second) = show_nat (nat (at_time div second))"
    using assms(3) pos_imp_zdiv_nonneg_iff[of second at_time] by (simp add: show_int_def)
  have one: "show_nat (Suc 0) = ''1''" by code_simp
  have "marshal_string (hex_EncodeToString nonce) = json_quoted (hex_EncodeToString nonce)"
    "marshal_string token = json_quoted token"
    using hex_verbatim assms(2) by (simp_all add: marshal_verbatim)
  then show ?thesis using assms(1) by (simp add: PrepareTokenForTransmission_def package_def sh one)
qed

text \<open>
  A token survives the transmission: what \<open>PrepareTokenForTransmission\<close> packs at time \<open>sent\<close>
  unpacks to the same token at a guard that receives it within the maximum age and has not seen
  the nonce, for tokens of printable ASCII characters that JSON does not escape (as base64 and
  hex tokens are).
\<close>

theorem transmission_roundtrip:
  assumes "rnd 16 = Inr nonce" and "PrepareTokenForTransmission rnd at_time token = Inr msg"
    and "list_all verbatim_char token" and "0 \<le> at_time" and "at_time < 2 ^ 53 * second"
    and "map_of (nonceCache g) (hex_EncodeToString nonce) = None"
    and "at_time \<le> now" and "now < 2 ^ 63" and "now - at_time div second * second \<le> maxTransmissionAge g"
  shows "snd (ValidateTokenTransmission now now' msg g) = Inr token"
proof -
  let ?ts = "nat (at_time div second)"
  have m: "msg = URLEncoding_EncodeToString (package (hex_EncodeToString nonce) ?ts token)"
    using assms(2) using Prepare_package[of rnd, OF assms(1,3,4)] by simp
  have ts: "?ts < 2 ^ 53" "int ?ts = at_time div second"
    using assms(4,5) by (simp_all add: nat_less_iff pos_imp_zdiv_nonneg_iff)
  have "time_Sub now (at_time div second * second) \<le> now - at_time div second * second"
    using assms(7) by (intro time_Sub_le) (simp add: div_times_less_eq_dividend order_trans)
  with assms(9) have "time_Sub now (int ?ts * second) \<le> maxTransmissionAge g" by (simp only: ts(2))
  from Validate_package[OF hex_verbatim assms(3) ts(1) this assms(6)] show ?thesis by (simp add: m)
qed

text \<open>The guard and the message of the witnesses: a token sent one second after the epoch.\<close>

definition demo_guard :: TokenTransmissionGuard where
  "demo_guard = NewTokenTransmissionGuard (10 * second)"

definition demo_nonce :: bytes where
  "demo_nonce = replicate 16 CHR ''n''"

definition demo_msg :: string where
  "demo_msg = URLEncoding_EncodeToString (package (hex_EncodeToString demo_nonce) 1 ''s3cr3t'')"

lemma demo_guard_simps: "maxTransmissionAge demo_guard = 10 * second" "nonceCache demo_guard = []"
  by (simp_all add: demo_guard_def NewTokenTransmissionGuard_def)

lemma demo_verbatim: "list_all verbatim_char ''s3cr3t''"
  by code_simp

lemma demo_prepared: "PrepareTokenForTransmission (\<lambda>n. Inr demo_nonce) second ''s3cr3t'' = Inr demo_msg"
  using Prepare_package[of "\<lambda>n. Inr demo_nonce" demo_nonce "''s3cr3t''" second] demo_verbatim
  by (simp add: demo_msg_def)

lemma demo_accepted:
  "ValidateTokenTransmission (2 * second) (2 * second) demo_msg demo_guard =
     (demo_guard\<lparr>nonceCache := [(hex_EncodeToString demo_nonce, 2 * second)]\<rparr>, Inr ''s3cr3t'')"
proof -
  have "time_Sub (2 * second) (int 1 * second) \<le> maxTransmissionAge demo_guard"
    by (simp add: time_Sub_exact demo_guard_simps)
  from Validate_package[OF hex_verbatim demo_verbatim _ this] show ?thesis
    by (simp add: demo_msg_def demo_guard_simps)
qed

theorem transmission_roundtrip_witness:
  "snd (ValidateTokenTransmission (2 * second) (2 * second) demo_msg demo_guard) = Inr ''s3cr3t''"
  by (rule transmission_roundtrip[OF _ demo_prepared demo_verbatim])
    (simp_all add: demo_guard_simps)

theorem transmission_not_replayed_witness:
  "\<exists>e. snd (ValidateTokenTransmission (30 * second) (30 * second) demo_msg
     (guard_execs [OpReceive (3 * second) (3 * second) demo_msg, OpTick (29 * second), OpCloseGuard]
       (demo_guard\<lparr>nonceCache := [(hex_EncodeToString demo_nonce, 2 * second)]\<rparr>))) = Inl e"
proof (rule transmission_not_replayed[OF _ _ demo_accepted])
  show "carries demo_msg 1 (hex_EncodeToString demo_nonce)"
    using package_carries[OF hex_verbatim demo_verbatim, of 1] by (simp add: demo_msg_def)
qed (simp_all add: demo_guard_simps)

section \<open>Transmissions dated in the future\<close>

text \<open>
  The guard bounds the age of a transmission but not how far ahead it is dated, while it drops
  a nonce after twice the maximum age: a package dated after both receptions is accepted twice,
  once before and once after a cleanup tick that comes more than twice the maximum age later.
\<close>

theorem future_transmission_replayed:
  assumes "list_all verbatim_char n" and "list_all verbatim_char token" and "ts < 2 ^ 53"
    and "0 \<le> maxTransmissionAge g" and "\<not> guard_closed g" and "map_ok (nonceCache g)" and "map_of (nonceCache g) n = None"
    and "now + 2 * maxTransmissionAge g < tick" and "tick \<le> again" and "again \<le> int ts * second"
    and "msg = URLEncoding_EncodeToString (package n ts token)"
  shows "snd (ValidateTokenTransmission now now msg g) = Inr token \<and>
    snd (ValidateTokenTransmission again again msg
      (guard_execs [OpTick tick] (fst (ValidateTokenTransmission now now msg g)))) = Inr token"
proof -
  let ?g = "g\<lparr>nonceCache := AList.update n now (nonceCache g)\<rparr>"
  have future: "t \<le> int ts * second \<Longrightarrow> time_Sub t (int ts * second) \<le> maxTransmissionAge g" for t
    using assms(4) by (simp add: time_Sub_def)
  have first: "ValidateTokenTransmission now now msg g = (?g, Inr token)"
    unfolding assms(11) using assms by (intro Validate_package future) auto
  have gone: "map_of (nonceCache (cleanupNonces tick ?g)) n = None"
    using assms(5,6,8) by (simp add: cleanupNonces_def map_of_filter map_of_update)
  have "ValidateTokenTransmission again again msg (cleanupNonces tick ?g) =
      ((cleanupNonces tick ?g)\<lparr>nonceCache := AList.update n again (nonceCache (cleanupNonces tick ?g))\<rparr>, Inr token)"
    unfolding assms(11) using assms future gone
    by (intro Validate_package) (simp_all add: cleanupNonces_def)
  with first show ?thesis by simp
qed

theorem future_transmission_replayed_witness:
  "snd (ValidateTokenTransmission 0 0 (URLEncoding_EncodeToString (package ''6e'' 100 ''s3cr3t'')) demo_guard) =
     Inr ''s3cr3t'' \<and>
   snd (ValidateTokenTransmission (40 * second) (40 * second) (URLEncoding_EncodeToString (package ''6e'' 100 ''s3cr3t''))
     (guard_execs [OpTick (30 * second)]
       (fst (ValidateTokenTransmission 0 0 (URLEncoding_EncodeToString (package ''6e'' 100 ''s3cr3t'')) demo_guard)))) =
     Inr ''s3cr3t''"
  by (rule future_transmission_replayed[OF _ demo_verbatim])
    (simp_all add: demo_guard_def NewTokenTransmissionGuard_def verbatim_char_def plain_char_def)

end
