(* ===== verification/Json_Roundtrip.thy ===== *)
theory Json_Roundtrip
  imports Go_Marshal
begin

text \<open>
  What \<open>json.Marshal\<close> writes for an interface value, \<open>json.Unmarshal\<close> reads back: strings of valid
  UTF-8 with all escapes, integers that a float64 holds exactly, arrays and maps of any shape
  within the nesting limit. The text never contains a line end, which the line-based transports
  rely on.
\<close>

section \<open>Strings\<close>

definition valid_rune :: "string \<Rightarrow> bool" where
  "valid_rune r \<longleftrightarrow> (case r of [c] \<Rightarrow> of_char c < (128 :: nat) | _ \<Rightarrow> True)"

definition valid_utf8 :: "string \<Rightarrow> bool" where
  "valid_utf8 s \<longleftrightarrow> list_all valid_rune (runes s)"

definition high_byte :: "char \<Rightarrow> bool" where
  "high_byte c \<longleftrightarrow> 128 \<le> (of_char c :: nat)"

definition rune_shape :: "string \<Rightarrow> bool" where
  "rune_shape r \<longleftrightarrow> r \<noteq> [] \<and> (length r = 1 \<or> list_all high_byte r)"

lemma width_high:
  "width2 b s \<Longrightarrow> list_all high_byte (b # take 1 s)"
  "width3 b s \<Longrightarrow> list_all high_byte (b # take 2 s)"
  "width4 b s \<Longrightarrow> list_all high_byte (b # take 3 s)"
proof -
  show "width2 b s \<Longrightarrow> list_all high_byte (b # take 1 s)"
    by (cases s) (simp_all add: width2_def byte_in_def high_byte_def)
  show "width3 b s \<Longrightarrow> list_all high_byte (b # take 2 s)"
    by (cases s; cases "tl s") (auto simp: width3_def byte_in_def high_byte_def)
  show "width4 b s \<Longrightarrow> list_all high_byte (b # take 3 s)"
    by (cases s; cases "tl s"; cases "tl (tl s)") (auto simp: width4_def byte_in_def high_byte_def numeral_3_eq_3)
qed

lemma runes_shape: "list_all rune_shape (runes s)"
proof (induction s rule: runes.induct)
  case (2 b s)
  have "rune_tail b s = 0 \<or> list_all high_byte (b # take (rune_tail b s) s)"
    using width_high[of b s] unfolding rune_tail_def by presburger
  then have "rune_shape (b # take (rune_tail b s) s)" by (auto simp: rune_shape_def)
  with 2 show ?case by (simp add: runes.simps)
qed (simp add: runes.simps)

lemma fix_utf8_valid:
  assumes "valid_utf8 s"
  shows "fix_utf8 s = s"
proof -
  have "map (\<lambda>r. case r of [c] \<Rightarrow> if of_char c < (128 :: nat) then r else replacement_char | _ \<Rightarrow> r) (runes s) = runes s"
    using assms unfolding valid_utf8_def
    by (intro map_idI) (auto simp: list_all_iff valid_rune_def split: list.splits)
  then show ?thesis by (simp add: fix_utf8_def)
qed

lemma hex_val_digit: "k < 16 \<Longrightarrow> hex_val (hex_digit k) = Some k"
proof -
  assume k: "k < 16"
  have "list_all (\<lambda>k. hex_val (hex_digit k) = Some k) [0..<16]" by code_simp
  with k show ?thesis by (auto simp: list_all_iff)
qed

lemma hex4_u_escape: "n < 65536 \<Longrightarrow> hex4 (drop 2 (u_escape n)) = Some n"
proof -
  assume n: "n < 65536"
  have "n div 4096 mod 16 = n div 4096" using n by simp
  moreover have "((n div 4096 * 16 + n div 256 mod 16) * 16 + n div 16 mod 16) * 16 + n mod 16 = n"
    using n by (simp add: div_mult2_eq[of n 16 16, simplified] div_mult2_eq[of n 256 16, simplified])
  moreover have "n div 4096 < 16" using n by simp
  ultimately show ?thesis by (simp add: u_escape_def hex_val_digit)
qed

text \<open>One rune of the text: the reader takes it back, with fuel for the rest.\<close>

lemma string_body_u_escape:
  assumes "n < 65536" and "\<not> is_surrogate n"
  shows "string_body (Suc f) (u_escape n @ t) = map_option (\<lambda>(x, q). (utf8_encode n @ x, q)) (string_body f t)"
proof -
  have "take 4 (drop 2 (u_escape n) @ t) = drop 2 (u_escape n)" "drop 4 (drop 2 (u_escape n) @ t) = t"
    by (simp_all add: u_escape_def)
  with hex4_u_escape[OF assms(1)] assms(2) show ?thesis by (simp add: u_escape_def Let_def)
qed

lemma string_body_high:
  "list_all high_byte r \<Longrightarrow> string_body (length r + f) (r @ t) = map_option (\<lambda>(x, q). (r @ x, q)) (string_body f t)"
proof (induction r)
  case Nil
  show ?case by (cases "string_body f t") auto
next
  case (Cons c r)
  then have c: "\<not> of_char c < (32 :: nat)" "c \<noteq> CHR 0x22" "c \<noteq> CHR 0x5C"
    by (auto simp: high_byte_def)
  from Cons show ?case by (simp add: c option.map_comp comp_def case_prod_unfold)
qed

lemma utf8_encode_ascii: "of_char c < (128 :: nat) \<Longrightarrow> utf8_encode (of_char c) = [c]"
  by (simp add: utf8_encode_def)

lemma char_bytes:
  "char_of (226 :: nat) = CHR 0xE2" "char_of (128 :: nat) = CHR 0x80" "char_of (168 :: nat) = CHR 0xA8" "char_of (169 :: nat) = CHR 0xA9"
  by code_simp+

lemma marshal_rune_long:
  assumes "length r \<noteq> 1"
  shows "marshal_rune r =
    (if r = [CHR 0xE2, CHR 0x80, CHR 0xA8] then u_escape 8232
     else if r = [CHR 0xE2, CHR 0x80, CHR 0xA9] then u_escape 8233 else r)"
proof (cases r)
  case (Cons c r')
  with assms obtain d r'' where "r = c # d # r''" by (cases r') auto
  then show ?thesis by (simp add: marshal_rune_def)
qed (simp add: marshal_rune_def)

lemma marshal_rune_read:
  assumes "rune_shape r" and "valid_rune r" and "length (marshal_rune r) + m < fuel"
  obtains f where "m < f"
    "\<And>t. string_body fuel (marshal_rune r @ t) = map_option (\<lambda>(x, q). (r @ x, q)) (string_body f t)"
proof (cases "list_all high_byte r \<and> marshal_rune r = r")
  case True
  with assms(3) obtain f where "fuel = length r + f" "m < f" by (metis add_less_cancel_left less_imp_add_positive add.assoc)
  with True string_body_high[of r f] that show thesis by metis
next
  case False
  from assms(3) obtain f where f: "fuel = Suc f" by (cases fuel) auto
  have len: "marshal_rune r \<noteq> [] \<Longrightarrow> m < f" using assms(3) f by (cases "marshal_rune r") auto
  show thesis
  proof (cases "length r = 1")
    case True
    then obtain c where c: "r = [c]" by (cases r) auto
    with assms(2) have a: "of_char c < (128 :: nat)" by (simp add: valid_rune_def)
    then have ns: "\<not> is_surrogate (of_char c)" "of_char c < (65536 :: nat)" by (simp_all add: is_surrogate_def)
    have esc: "escape_char d = Some e \<Longrightarrow> d \<noteq> CHR ''u'' \<Longrightarrow>
        string_body (Suc f) ([CHR 0x5C, d] @ t) = map_option (\<lambda>(x, q). ([e] @ x, q)) (string_body f t)" for d e t
      by simp
    have ver: "of_char c \<ge> (32 :: nat) \<Longrightarrow> c \<noteq> CHR 0x22 \<Longrightarrow> c \<noteq> CHR 0x5C \<Longrightarrow>
        string_body (Suc f) ([c] @ t) = map_option (\<lambda>(x, q). ([c] @ x, q)) (string_body f t)" for t
      by simp
    have "string_body (Suc f) (marshal_rune r @ t) = map_option (\<lambda>(x, q). (r @ x, q)) (string_body f t)" for t
      using a string_body_u_escape[OF ns(2,1), of f t] utf8_encode_ascii[OF a] esc ver
      unfolding c marshal_rune_def list.case
      by (simp add: escape_char_def del: string_body.simps) 
    moreover have "marshal_rune r \<noteq> []" using c by (simp add: marshal_rune_def u_escape_def)
    ultimately show thesis using that[of f] len f by metis
  next
    case long: False
    with assms(1) have h: "list_all high_byte r" "r \<noteq> []" by (auto simp: rune_shape_def)
    with False long have r: "r = [CHR 0xE2, CHR 0x80, CHR 0xA8] \<or> r = [CHR 0xE2, CHR 0x80, CHR 0xA9]"
      unfolding marshal_rune_long[OF long] by argo
    have u: "utf8_encode 8232 = [CHR 0xE2, CHR 0x80, CHR 0xA8]" "utf8_encode 8233 = [CHR 0xE2, CHR 0x80, CHR 0xA9]"
      by (simp_all add: utf8_encode_def char_bytes)
    have "string_body (Suc f) (marshal_rune r @ t) = map_option (\<lambda>(x, q). (r @ x, q)) (string_body f t)" for t
      using r string_body_u_escape[of 8232 f t] string_body_u_escape[of 8233 f t] u
      unfolding marshal_rune_long[OF long] by (auto simp: is_surrogate_def simp del: string_body.simps)
    moreover have "marshal_rune r \<noteq> []" using r unfolding marshal_rune_long[OF long] by (auto simp: u_escape_def)
    ultimately show thesis using that[of f] len f by metis
  qed
qed

lemma string_body_marshal:
  assumes "list_all rune_shape rs" and "list_all valid_rune rs" and "length (concat (map marshal_rune rs)) < fuel"
  shows "string_body fuel (concat (map marshal_rune rs) @ CHR 0x22 # t) = Some (concat rs, t)"
  using assms
proof (induction rs arbitrary: fuel)
  case Nil
  then show ?case by (cases fuel) simp_all
next
  case (Cons r rs)
  then have "length (marshal_rune r) + length (concat (map marshal_rune rs)) < fuel" by simp
  from marshal_rune_read[OF _ _ this] Cons.prems obtain f where
    f: "length (concat (map marshal_rune rs)) < f"
      "\<And>t. string_body fuel (marshal_rune r @ t) = map_option (\<lambda>(x, q). (r @ x, q)) (string_body f t)"
    by auto
  with Cons show ?case by simp
qed

lemma parse_string_marshal:
  assumes "valid_utf8 s"
  shows "parse_string (concat (map marshal_rune (runes s)) @ CHR 0x22 # t) = Some (s, t)"
  using string_body_marshal[of "runes s" _ t] runes_shape[of s] assms fix_utf8_valid[OF assms]
  by (simp add: parse_string_def valid_utf8_def)

section \<open>Numbers\<close>

definition num_end :: "string \<Rightarrow> bool" where
  "num_end r \<longleftrightarrow> (case r of [] \<Rightarrow> True | c # _ \<Rightarrow> ends_number c)"

lemma num_end_simps [simp]: "num_end []" "num_end (c # r) \<longleftrightarrow> ends_number c"
  by (simp_all add: num_end_def)

lemma ends_number_separators [simp]: "ends_number CHR '',''" "ends_number CHR 0x5D" "ends_number CHR 0x7D"
  by (simp_all add: ends_number_def is_digit_def)

lemma show_nat_split: obtains a t where "show_nat n = a # t" "is_digit a" "list_all is_digit t"
  using show_nat_digits[of n] by (cases "show_nat n") auto

lemma parse_int_part_show_nat:
  assumes "num_end r"
  shows "parse_int_part (show_nat n @ r) = Some (show_nat n, r)"
proof (cases "n = 0")
  case True
  have "show_nat 0 = ''0''" by code_simp
  with True show ?thesis by (simp add: parse_int_part_def)
next
  case False
  obtain a t where a: "show_nat n = a # t" "is_digit a" "list_all is_digit t" by (rule show_nat_split)
  have stop: "takeWhile is_digit r = []" "dropWhile is_digit r = r"
    using assms by (cases r; simp add: ends_number_def)+
  have "parse_digits (a # t @ r) = Some (a # t, r)"
    using a(2,3) stop by (simp add: parse_digits_def list_all_iff takeWhile_append2 dropWhile_append2)
  moreover have "a \<noteq> CHR ''0''" using show_nat_first[of n] False a(1) by simp
  ultimately show ?thesis by (simp add: a(1) parse_int_part_def)
qed

lemma parse_number_show_int:
  assumes "num_end r"
  shows "parse_number (show_int i @ r) = Some (show_int i, r)"
proof -
  have tail: "parse_fraction r = Some ([], r)" "parse_exponent r = Some ([], r)"
    using assms by (cases r; simp add: parse_fraction_def parse_exponent_def ends_number_def)+
  obtain a t where a: "show_nat (nat i) = a # t" "is_digit a" by (rule show_nat_split)
  have "a \<noteq> CHR ''-''" using a(2) by (auto simp: is_digit_def)
  then show ?thesis
    using parse_int_part_show_nat[OF assms, of "nat i"] parse_int_part_show_nat[OF assms, of "nat (- i)"] tail a(1)
    by (auto simp: show_int_def parse_number_def)
qed

lemma parse_value_show_int:
  assumes "num_end r"
  shows "parse_value (Suc k) d (show_int i @ r) = Some (JNum (show_int i), r)"
proof -
  obtain a t where a: "show_nat (nat i) = a # t" "is_digit a" by (rule show_nat_split)
  then obtain b u where b: "show_int i = b # u" "b = CHR ''-'' \<or> is_digit b" by (cases "i < 0") (auto simp: show_int_def)
  then have "b \<notin> {CHR '' '', CHR 0x09, CHR 0x0A, CHR 0x0D, CHR 0x7B, CHR 0x5B, CHR 0x22, CHR ''t'', CHR ''f'', CHR ''n''}"
    by (auto simp: is_digit_def)
  with parse_number_show_int[OF assms, of i] show ?thesis by (simp add: b(1))
qed

lemma num_parts_show_int: "num_parts (show_int i) = (i < 0, nat \<bar>i\<bar>, 0)"
proof (cases "i < 0")
  case True
  have "num_parts (CHR ''-'' # show_nat n) = (True, n, 0)" for n
  proof -
    have d: "\<forall>c \<in> set (show_nat n). is_digit c" using show_nat_digits[of n] by (simp add: list_all_iff)
    then have w: "takeWhile is_digit (show_nat n) = show_nat n" "dropWhile is_digit (show_nat n) = []"
      by (simp_all only: takeWhile_eq_all_conv dropWhile_eq_Nil_conv)
    have neg: "(take 1 (CHR ''-'' # show_nat n) = ''-'') = True" "drop 1 (CHR ''-'' # show_nat n) = show_nat n" by simp_all
    show ?thesis unfolding num_parts_def Let_def neg if_True w by (simp add: digits_value_show_nat)
  qed
  with True show ?thesis by (simp add: show_int_def)
qed (simp add: show_int_def num_parts_show_nat)

lemma num_value_show_int:
  assumes "\<bar>i\<bar> < 2 ^ 53"
  shows "num_value (show_int i) = of_int i" and "num_in_range (show_int i)"
proof -
  have e: "fl64 (of_int i) = of_int i" using float_of_int_exact[OF assms] by (simp add: float_of_int_def)
  have "(if i < 0 then - of_nat (nat \<bar>i\<bar>) else of_nat (nat \<bar>i\<bar>)) = (of_int i :: rat)" by simp
  with e show "num_value (show_int i) = of_int i"
    by (simp add: num_value_def num_parts_show_int Let_def split: if_splits)
  have "nat \<bar>i\<bar> < 2 ^ 53" using assms by (simp add: nat_less_iff)
  then show "num_in_range (show_int i)" by (simp add: num_in_range_def num_parts_show_int)
qed

section \<open>Values\<close>

text \<open>The values that survive: valid UTF-8, integers below \<open>2 ^ 53\<close>, maps in the order of their keys.\<close>

fun any_ok :: "go_any \<Rightarrow> bool" where
  "any_ok (ANum x) \<longleftrightarrow> x = of_int \<lfloor>x\<rfloor> \<and> \<bar>\<lfloor>x\<rfloor>\<bar> < 2 ^ 53"
| "any_ok (AStr s) \<longleftrightarrow> valid_utf8 s"
| "any_ok (AArr vs) \<longleftrightarrow> list_all any_ok vs"
| "any_ok (AObj ms) \<longleftrightarrow> sorted_wrt (<) (map fst ms) \<and> list_all (\<lambda>(k, v). valid_utf8 k \<and> any_ok v) ms"
| "any_ok _ \<longleftrightarrow> True"

text \<open>What its text needs to be read back, also of a struct, whose fields are in the order of their declaration.\<close>

fun text_ok :: "go_any \<Rightarrow> bool" where
  "text_ok (ANum x) \<longleftrightarrow> x = of_int \<lfloor>x\<rfloor> \<and> \<bar>\<lfloor>x\<rfloor>\<bar> < 2 ^ 53"
| "text_ok (AStr s) \<longleftrightarrow> valid_utf8 s"
| "text_ok (AArr vs) \<longleftrightarrow> list_all text_ok vs"
| "text_ok (AObj ms) \<longleftrightarrow> list_all (\<lambda>(k, v). valid_utf8 k \<and> text_ok v) ms"
| "text_ok _ \<longleftrightarrow> True"

lemma any_ok_text: "any_ok v \<Longrightarrow> text_ok v"
  by (induction v) (auto simp: list_all_iff)

fun depth_any :: "go_any \<Rightarrow> nat" where
  "depth_any (AArr vs) = Suc (foldr (max \<circ> depth_any) vs 0)"
| "depth_any (AObj ms) = Suc (foldr (max \<circ> (depth_any \<circ> snd)) ms 0)"
| "depth_any _ = 0"

fun json_of :: "go_any \<Rightarrow> JSON" where
  "json_of ANil = JNull"
| "json_of (ABool b) = JBool b"
| "json_of (ANum x) = JNum (format_float x)"
| "json_of (AStr s) = JStr s"
| "json_of (AArr vs) = JArr (map json_of vs)"
| "json_of (AObj ms) = JObj (map (\<lambda>(k, v). (k, marshal_any v, json_of v)) ms)"

lemma canon_members_sorted:
  assumes "sorted_wrt (<) (map fst ms)"
  shows "canon_members ms = ms"
proof -
  have d: "distinct (map fst ms)" "sorted (map fst ms)"
    using assms by (auto simp: strict_sorted_iff)
  have "map_of (rev ms) k = map_of ms k" for k using d(1) by (intro fun_cong[OF map_of_eqI]) (auto simp: rev_map[symmetric])
  then have "canon_members ms = map (\<lambda>k. (k, the (map_of ms k))) (map fst ms)"
    using d by (simp add: canon_members_def distinct_remdups_id sorted_sort_id)
  also have "\<dots> = ms" using d(1) by (auto intro!: map_idI simp: comp_def)
  finally show ?thesis .
qed

lemma decode_json_of: "any_ok v \<Longrightarrow> decode_any (json_of v) = v \<and> any_decodes (json_of v)"
proof (induction v)
  case (ANum x)
  then obtain i where i: "x = of_int i" "\<bar>i\<bar> < 2 ^ 53" by (metis any_ok.simps(1))
  then show ?case using num_value_show_int[OF i(2)] by (simp add: format_float_int)
next
  case (AArr vs)
  then show ?case by (auto simp: list_all_iff intro!: map_idI)
next
  case (AObj ms)
  have each: "decode_any (json_of v) = v \<and> any_decodes (json_of v)" if "(k, v) \<in> set ms" for k v
    using AObj.IH[OF that, of v] AObj.prems that by (auto simp: list_all_iff)
  have "map (\<lambda>(k, t, v). (k, decode_any v)) (map (\<lambda>(k, v). (k, marshal_any v, json_of v)) ms) = ms"
    using each by (auto simp: comp_def case_prod_unfold intro!: map_idI)
  moreover have "canon_members ms = ms" using AObj.prems by (intro canon_members_sorted) simp
  ultimately show ?case using each by (auto simp: list_all_iff)
qed simp_all

text \<open>How the text of a value begins: not with a space, and not with a closing bracket.\<close>

definition value_start :: "char \<Rightarrow> bool" where
  "value_start c \<longleftrightarrow> c \<notin> {CHR '' '', CHR 0x09, CHR 0x0A, CHR 0x0D, CHR 0x5D, CHR 0x7D}"

lemma marshal_any_start:
  assumes "text_ok v"
  obtains c t where "marshal_any v = c # t" "value_start c"
proof (cases v)
  case (ANum x)
  with assms obtain i where i: "x = of_int i" "\<bar>i\<bar> < 2 ^ 53" by (metis text_ok.simps(1))
  obtain a t where a: "show_nat (nat \<bar>i\<bar>) = a # t" "is_digit a" by (rule show_nat_split)
  then have "value_start a" "value_start CHR ''-''" by (auto simp: value_start_def is_digit_def)
  with ANum i a that show thesis by (cases "i < 0") (auto simp: format_float_int show_int_def)
next
  case (ABool b)
  with that show thesis by (cases b) (auto simp: value_start_def)
qed (use that in \<open>auto simp: value_start_def marshal_string_def json_quoted_def split: if_splits\<close>)

lemma marshal_any_starts: "text_ok v \<Longrightarrow> \<exists>c t. marshal_any v = c # t \<and> value_start c"
  by (meson marshal_any_start)

lemma skip_ws_start: "value_start c \<Longrightarrow> skip_ws (c # t) = c # t"
  by (simp add: value_start_def)

text \<open>\<open>reads d t v\<close>: at depth \<open>d\<close> the text \<open>t\<close> is read as \<open>v\<close>, whatever follows it.\<close>

definition reads :: "nat \<Rightarrow> string \<Rightarrow> JSON \<Rightarrow> bool" where
  "reads d t v \<longleftrightarrow> (\<exists>N. \<forall>n \<ge> N. \<forall>r. num_end r \<longrightarrow> parse_value n d (t @ r) = Some (v, r))"

lemma from_Suc: "(\<And>n. N \<le> n \<Longrightarrow> P (Suc n)) \<Longrightarrow> \<exists>M. \<forall>n \<ge> M. P n"
  by (rule exI[of _ "Suc N"]) (metis Suc_le_D Suc_le_mono)

lemma readsI: "(\<And>n r. N \<le> n \<Longrightarrow> num_end r \<Longrightarrow> parse_value (Suc n) d (t @ r) = Some (v, r)) \<Longrightarrow> reads d t v"
  unfolding reads_def by (rule from_Suc[of N]) simp

lemma elements_read:
  assumes "vs \<noteq> []" and "\<And>v. v \<in> set vs \<Longrightarrow> reads d (f v) (g v)"
    and "\<And>v. v \<in> set vs \<Longrightarrow> \<exists>c t. f v = c # t \<and> value_start c"
  shows "\<exists>N. \<forall>n \<ge> N. \<forall>first r. parse_elements n d first (strings_Join (map f vs) '','' @ CHR 0x5D # r) = Some (map g vs, r)"
  using assms
proof (induction vs rule: list_nonempty_induct)
  case (single v)
  from single(1)[of v] obtain N where N: "\<And>n r. N \<le> n \<Longrightarrow> num_end r \<Longrightarrow> parse_value n d (f v @ r) = Some (g v, r)"
    by (auto simp: reads_def)
  from single(2)[of v] obtain c t where c: "f v = c # t" "value_start c" by auto
  have "parse_elements (Suc n) d first (f v @ CHR 0x5D # r) = Some ([g v], r)" if "N \<le> n" for n first r
    using N[OF that, of "CHR 0x5D # r"] c by (simp add: value_start_def del: parse_value.simps)
  then have "\<forall>n \<ge> Suc N. \<forall>first r. parse_elements n d first (f v @ CHR 0x5D # r) = Some ([g v], r)"
    by (metis Suc_le_D Suc_le_mono)
  then show ?case by auto
next
  case (cons v vs)
  from cons.prems(1)[of v] obtain N where N: "\<And>n r. N \<le> n \<Longrightarrow> num_end r \<Longrightarrow> parse_value n d (f v @ r) = Some (g v, r)"
    by (auto simp: reads_def)
  from cons.prems(2)[of v] obtain c t where c: "f v = c # t" "value_start c" by auto
  let ?rest = "\<lambda>r. strings_Join (map f vs) '','' @ CHR 0x5D # r"
  have "\<exists>M. \<forall>n \<ge> M. \<forall>first r. parse_elements n d first (?rest r) = Some (map g vs, r)"
    using cons.IH cons.prems by auto
  then obtain M where M: "\<And>n first r. M \<le> n \<Longrightarrow> parse_elements n d first (?rest r) = Some (map g vs, r)" by blast
  have j: "strings_Join (map f (v # vs)) '','' = f v @ '','' @ strings_Join (map f vs) '',''"
    using cons.hyps by (cases vs) simp_all
  have "parse_elements (Suc n) d first (f v @ '','' @ ?rest r) = Some (map g (v # vs), r)" if "max N M \<le> n" for n first r
    using N[of n "'','' @ ?rest r"] M[of n False r] that c
    by (simp add: value_start_def del: parse_value.simps parse_elements.simps(2)) (simp add: value_start_def del: parse_value.simps)
  then show ?case unfolding j append_assoc by (intro from_Suc[of "max N M"] allI)
qed

text \<open>One member, followed by another or by the closing bracket.\<close>

lemma parse_member_marshal:
  assumes "valid_utf8 k" and "skip_ws (vt @ c # r) = vt @ c # r"
    and "parse_value n d (vt @ c # r) = Some (v, c # r)" and "c \<in> {CHR '','', CHR 0x7D}"
  shows "parse_members (Suc n) d first (marshal_string k @ CHR '':'' # vt @ c # r) =
    (if c = CHR 0x7D then Some ([(k, vt, v)], r)
     else map_option (\<lambda>(ms, q). ((k, vt, v) # ms, q)) (parse_members n d False r))"
  using assms by (auto simp: marshal_string_def json_quoted_def parse_string_marshal Let_def)

lemma members_read:
  assumes "ms \<noteq> []" and "\<And>k v. (k, v) \<in> set ms \<Longrightarrow> valid_utf8 k \<and> reads d (f v) (g v)"
    and "\<And>k v. (k, v) \<in> set ms \<Longrightarrow> \<exists>c t. f v = c # t \<and> value_start c"
  shows "\<exists>N. \<forall>n \<ge> N. \<forall>first r. parse_members n d first
      (strings_Join (map (\<lambda>(k, v). marshal_string k @ CHR '':'' # f v) ms) '','' @ CHR 0x7D # r) =
    Some (map (\<lambda>(k, v). (k, f v, g v)) ms, r)"
  using assms
proof (induction ms rule: list_nonempty_induct)
  case (single m)
  obtain k v where m: "m = (k, v)" by (cases m)
  from single(1)[of k v] m obtain N where k: "valid_utf8 k"
    and N: "\<And>n r. N \<le> n \<Longrightarrow> num_end r \<Longrightarrow> parse_value n d (f v @ r) = Some (g v, r)"
    by (auto simp: reads_def)
  from single(2)[of k v] m obtain c t where c: "f v = c # t" "value_start c" by auto
  have "parse_members (Suc n) d first (marshal_string k @ CHR '':'' # f v @ CHR 0x7D # r) = Some ([(k, f v, g v)], r)"
    if "N \<le> n" for n first r
    using N[OF that, of "CHR 0x7D # r"] c parse_string_marshal[OF k]
    by (simp add: value_start_def marshal_string_def json_quoted_def Let_def del: parse_value.simps)
  then have "\<forall>n \<ge> Suc N. \<forall>first r.
      parse_members n d first (marshal_string k @ CHR '':'' # f v @ CHR 0x7D # r) = Some ([(k, f v, g v)], r)"
    by (metis Suc_le_D Suc_le_mono)
  then show ?case by (auto simp: m)
next
  case (cons m ms)
  obtain k v where m: "m = (k, v)" by (cases m)
  from cons.prems(1)[of k v] m obtain N where k: "valid_utf8 k"
    and N: "\<And>n r. N \<le> n \<Longrightarrow> num_end r \<Longrightarrow> parse_value n d (f v @ r) = Some (g v, r)"
    by (auto simp: reads_def)
  from cons.prems(2)[of k v] m obtain c t where c: "f v = c # t" "value_start c" by auto
  let ?h = "\<lambda>(k, v). marshal_string k @ CHR '':'' # f v" and ?g = "\<lambda>(k, v). (k, f v, g v)"
  let ?rest = "\<lambda>r. strings_Join (map ?h ms) '','' @ CHR 0x7D # r"
  have "\<exists>M. \<forall>n \<ge> M. \<forall>first r. parse_members n d first (?rest r) = Some (map ?g ms, r)"
    using cons.prems by (intro cons.IH) (meson list.set_intros(2))+
  then obtain M where M: "\<And>n first r. M \<le> n \<Longrightarrow> parse_members n d first (?rest r) = Some (map ?g ms, r)" by blast
  have j: "strings_Join (map ?h (m # ms)) '','' = ?h m @ '','' @ strings_Join (map ?h ms) '',''"
    using cons.hyps by (cases ms) simp_all
  have step: "parse_members (Suc n) d first (?h m @ '','' @ ?rest r) = Some (map ?g (m # ms), r)"
    if "max N M \<le> n" for n first r
  proof -
    from that have "parse_value n d (f v @ CHR '','' # ?rest r) = Some (g v, CHR '','' # ?rest r)"
      "parse_members n d False (?rest r) = Some (map ?g ms, r)" using N M by simp_all
    with parse_member_marshal[OF k, of "f v" "CHR '',''" "?rest r" n d "g v" first] c(1) skip_ws_start[OF c(2)]
    show ?thesis unfolding m by (simp del: parse_members.simps parse_value.simps)
  qed
  show ?case
    unfolding j append_assoc by (rule from_Suc[of "max N M"], intro allI, rule step)
qed

lemma depth_foldr: "x \<in> set xs \<Longrightarrow> f x \<le> foldr (max \<circ> f) xs (0 :: nat)"
  by (induction xs) (auto simp: max_def)

lemma marshal_reads: "text_ok v \<Longrightarrow> d + depth_any v \<le> maxNestingDepth \<Longrightarrow> reads d (marshal_any v) (json_of v)"
proof (induction v arbitrary: d)
  case (ABool b)
  show ?case by (rule readsI[of 0]) simp
next
  case (ANum x)
  then obtain i where i: "x = of_int i" "\<bar>i\<bar> < 2 ^ 53" by (metis text_ok.simps(1))
  then show ?case
    by (intro readsI[of 0]) (simp add: format_float_int parse_value_show_int del: parse_value.simps)
next
  case (AStr s)
  then show ?case by (intro readsI[of 0]) (simp add: marshal_string_def json_quoted_def parse_string_marshal)
next
  case (AArr vs)
  have d: "\<not> maxNestingDepth < Suc d" using AArr.prems(2) by simp
  show ?case
  proof (cases "vs = []")
    case True
    then show ?thesis using d by (intro readsI[of 1]) (auto simp: gr0_conv_Suc Suc_le_eq)
  next
    case False
    have "Suc d + depth_any v \<le> maxNestingDepth" if "v \<in> set vs" for v
      using AArr.prems(2) depth_foldr[OF that, of depth_any] by simp
    then have "reads (Suc d) (marshal_any v) (json_of v)" if "v \<in> set vs" for v
      using AArr that by (auto simp: list_all_iff)
    moreover have "\<exists>c t. marshal_any v = c # t \<and> value_start c" if "v \<in> set vs" for v
      using AArr.prems(1) that by (intro marshal_any_starts) (auto simp: list_all_iff)
    ultimately obtain N where N: "\<And>n first r. N \<le> n \<Longrightarrow>
        parse_elements n (Suc d) first (strings_Join (map marshal_any vs) '','' @ CHR 0x5D # r) = Some (map json_of vs, r)"
      using elements_read[OF False, of "Suc d" marshal_any json_of] by blast
    then show ?thesis
      using d by (intro readsI[of N]) (simp del: parse_elements.simps)
  qed
next
  case (AObj ms)
  have d: "\<not> maxNestingDepth < Suc d" using AObj.prems(2) by simp
  show ?case
  proof (cases "ms = []")
    case True
    then show ?thesis using d by (intro readsI[of 1]) (auto simp: gr0_conv_Suc Suc_le_eq)
  next
    case False
    have "Suc d + depth_any v \<le> maxNestingDepth" if "(k, v) \<in> set ms" for k v
      using AObj.prems(2) depth_foldr[OF that, of "depth_any \<circ> snd"] by simp
    then have "valid_utf8 k \<and> reads (Suc d) (marshal_any v) (json_of v)" if "(k, v) \<in> set ms" for k v
      using AObj.IH[OF that, of v "Suc d"] AObj.prems that by (auto simp: list_all_iff)
    moreover have "\<exists>c t. marshal_any v = c # t \<and> value_start c" if "(k, v) \<in> set ms" for k v
      using AObj.prems(1) that by (intro marshal_any_starts) (auto simp: list_all_iff)
    ultimately have "\<exists>N. \<forall>n \<ge> N. \<forall>first r. parse_members n (Suc d) first
        (strings_Join (map (\<lambda>(k, v). marshal_string k @ CHR '':'' # marshal_any v) ms) '','' @ CHR 0x7D # r) =
        Some (map (\<lambda>(k, v). (k, marshal_any v, json_of v)) ms, r)"
      by (intro members_read[OF False]) blast+
    then obtain N where "\<And>n first r. N \<le> n \<Longrightarrow> parse_members n (Suc d) first
        (strings_Join (map (\<lambda>(k, v). marshal_string k @ CHR '':'' # marshal_any v) ms) '','' @ CHR 0x7D # r) =
        Some (map (\<lambda>(k, v). (k, marshal_any v, json_of v)) ms, r)" by blast
    then show ?thesis
      using d by (intro readsI[of N]) (simp del: parse_members.simps)
  qed
qed (rule readsI[of 0], simp)

lemma json_parse_reads:
  assumes "reads 0 t v"
  shows "json_parse t = Some v"
proof -
  from assms obtain N where N: "\<And>n. N \<le> n \<Longrightarrow> parse_value n 0 t = Some (v, [])"
    unfolding reads_def by (metis append_Nil2 num_end_simps(1))
  have "parse_value (2 * length t + 2 + N) 0 t = parse_value (2 * length t + 2) 0 t"
    by (rule parse_fuel_mono) simp
  with N[of "2 * length t + 2 + N"] have "parse_value (2 * length t + 2) 0 t = Some (v, [])" by simp
  then show ?thesis unfolding json_parse_def by simp
qed

lemma json_parse_marshal:
  "text_ok v \<Longrightarrow> depth_any v \<le> maxNestingDepth \<Longrightarrow> json_parse (marshal_any v) = Some (json_of v)"
  by (intro json_parse_reads marshal_reads) simp_all

section \<open>Structs\<close>

text \<open>The members read back from the text of a struct, and the values they give its fields.\<close>

definition wire_members :: "(string \<times> go_any) list \<Rightarrow> (string \<times> string \<times> JSON) list" where
  "wire_members fs = map (\<lambda>(k, v). (k, marshal_any v, json_of v)) fs"

lemma json_of_struct [simp]: "json_of (AObj fs) = JObj (wire_members fs)"
  by (simp add: wire_members_def)

declare json_of.simps(6) [simp del]

lemma field_values_wire:
  assumes "set (map fst fs) \<subseteq> set names"
  shows "field_values names f (wire_members fs) =
    map (\<lambda>(k, v). (marshal_any v, json_of v)) (filter (\<lambda>(k, v). k = f) fs)"
proof -
  have "filter (\<lambda>(k, v). struct_field names k = Some f) fs = filter (\<lambda>(k, v). k = f) fs"
    using assms by (intro filter_cong) (auto simp: struct_field_def)
  then show ?thesis by (simp add: field_values_def wire_members_def filter_map comp_def case_prod_unfold)
qed

lemma json_Unmarshal_struct:
  assumes "text_ok (AObj fs)" and "depth_any (AObj fs) \<le> maxNestingDepth"
  shows "json_Unmarshal dec zero (marshal_any (AObj fs)) = dec zero (wire_members fs)"
  using json_parse_marshal[OF assms] by (simp add: json_Unmarshal_def dec_struct_def)

text \<open>Depth and validity of its text, field by field.\<close>

definition depth_fields :: "(string \<times> go_any) list \<Rightarrow> nat" where
  "depth_fields fs = foldr (max \<circ> (depth_any \<circ> snd)) fs 0"

lemma depth_fields_simps [simp]:
  "depth_any (AObj fs) = Suc (depth_fields fs)"
  "depth_fields [] = 0" "depth_fields ((k, v) # fs) = max (depth_any v) (depth_fields fs)"
  by (simp_all add: depth_fields_def)

declare depth_any.simps(2) [simp del]

lemma depth_fields_append [simp]: "depth_fields (fs @ gs) = max (depth_fields fs) (depth_fields gs)"
  by (induction fs) (auto simp: max.assoc)

definition text_fields :: "(string \<times> go_any) list \<Rightarrow> bool" where
  "text_fields fs \<longleftrightarrow> list_all (\<lambda>(k, v). valid_utf8 k \<and> text_ok v) fs"

lemma text_fields_simps [simp]:
  "text_ok (AObj fs) \<longleftrightarrow> text_fields fs"
  "text_fields []" "text_fields ((k, v) # fs) \<longleftrightarrow> valid_utf8 k \<and> text_ok v \<and> text_fields fs"
  "text_fields (fs @ gs) \<longleftrightarrow> text_fields fs \<and> text_fields gs"
  by (simp_all add: text_fields_def)

declare text_ok.simps(4) [simp del]

section \<open>No line ends\<close>

definition printable :: "char \<Rightarrow> bool" where
  "printable c \<longleftrightarrow> 32 \<le> (of_char c :: nat)"

lemma printable_not_newline: "list_all printable t \<Longrightarrow> CHR 0x0A \<notin> set t \<and> CHR 0x0D \<notin> set t"
  by (auto simp: list_all_iff printable_def)

lemma digit_printable: "is_digit c \<Longrightarrow> printable c"
  by (auto simp: is_digit_def printable_def less_eq_char_def)

lemma show_nat_printable: "list_all printable (show_nat n)"
  using show_nat_digits[of n] by (auto simp: list_all_iff digit_printable)

lemma hex_digit_printable: "n < 16 \<Longrightarrow> printable (hex_digit n)"
proof -
  assume "n < 16"
  moreover have "list_all printable (map hex_digit [0..<16])" by code_simp
  ultimately show ?thesis by (auto simp: list_all_iff)
qed

lemma u_escape_printable: "list_all printable (u_escape n)"
  by (simp add: u_escape_def hex_digit_printable) (simp add: printable_def)

lemma printable_simps [simp]:
  "printable CHR 0x22" "printable CHR 0x5C" "printable CHR ''b''" "printable CHR ''f''" "printable CHR ''n''"
  "printable CHR ''r''" "printable CHR ''t''" "printable CHR ''-''" "printable CHR ''+''" "printable CHR ''.''"
  "printable CHR ''e''" "printable CHR ''0''" "printable CHR '',''" "printable CHR '':''" "printable CHR 0x7B"
  "printable CHR 0x7D" "printable CHR 0x5B" "printable CHR 0x5D" "printable CHR ''u''" "printable CHR ''l''"
  "printable CHR ''a''" "printable CHR ''s''"
  by (simp_all add: printable_def)

lemma marshal_rune_printable: "rune_shape r \<Longrightarrow> list_all printable (marshal_rune r)"
proof (cases "length r = 1")
  case True
  then obtain c where "r = [c]" by (cases r) auto
  then show ?thesis using u_escape_printable by (auto simp: marshal_rune_def printable_def)
next
  case False
  moreover assume "rune_shape r"
  ultimately have "list_all printable r" by (auto simp: rune_shape_def list_all_iff high_byte_def printable_def)
  then show ?thesis unfolding marshal_rune_long[OF False] by (simp add: u_escape_printable)
qed

lemma marshal_string_printable: "list_all printable (marshal_string s)"
  using runes_shape[of s] marshal_rune_printable
  by (auto simp: marshal_string_def json_quoted_def list_all_iff)

lemma format_float_printable: "list_all printable (format_float x)"
proof -
  have f: "list_all printable (format_f m e)" for m e
    using show_nat_printable[of m]
    by (auto simp: format_f_def Let_def list_all_iff dest: in_set_takeD in_set_dropD)
  have "list_all printable (format_e m e)" for m e
    using show_nat_printable[of m] show_nat_printable show_nat_digits[of m]
    by (cases "show_nat m") (auto simp: format_e_def Let_def)
  with f show ?thesis by (auto simp: format_float_def Let_def split: prod.split)
qed

lemma Join_printable: "list_all (list_all printable) ts \<Longrightarrow> list_all printable (strings_Join ts '','')"
  by (induction ts "'',''" rule: strings_Join.induct) auto

lemma marshal_any_printable: "list_all printable (marshal_any v)"
proof (induction v)
  case (AArr vs)
  then have "list_all (list_all printable) (map marshal_any vs)" by (simp add: list_all_iff)
  then show ?case by (simp add: Join_printable)
next
  case (AObj ms)
  have "list_all printable (marshal_any v)" if "(k, v) \<in> set ms" for k v using AObj[OF that, of v] by simp
  then have "list_all (list_all printable) (map (\<lambda>(k, v). marshal_string k @ CHR '':'' # marshal_any v) ms)"
    using marshal_string_printable by (auto simp: list_all_iff)
  then show ?case by (simp add: Join_printable)
qed (simp_all add: marshal_string_printable format_float_printable)

end
