(* ===== verification/Sse.thy ===== *)
theory Sse
  imports Json_Roundtrip
begin

text \<open>
  Server-sent events as \<open>transport_streamable.go\<close> writes and reads them: JSON-RPC messages, event
  ids, the text of an event and the scanner \<open>scanEvents\<close> over \<open>bufio.Scanner\<close>. A text that an
  iterator would deliver piecemeal is modelled as the whole text of the stream.
\<close>

section \<open>Messages\<close>

record JSONRPCMessage =
  msg_ID :: go_any
  msg_Method :: string
  msg_Params :: go_any
  msg_Result :: go_any
  msg_Error :: go_any
  msg_JSONRPC :: string

definition zero_message :: JSONRPCMessage where
  "zero_message = \<lparr>msg_ID = ANil, msg_Method = [], msg_Params = ANil, msg_Result = ANil, msg_Error = ANil, msg_JSONRPC = []\<rparr>"

text \<open>\<open>json.Marshal\<close>: the fields in order, those tagged \<open>omitempty\<close> left out when empty.\<close>

definition message_fields :: "JSONRPCMessage \<Rightarrow> (string \<times> go_any) list" where
  "message_fields m =
     (if msg_ID m = ANil then [] else [(''id'', msg_ID m)]) @
     (if msg_Method m = [] then [] else [(''method'', AStr (msg_Method m))]) @
     (if msg_Params m = ANil then [] else [(''params'', msg_Params m)]) @
     (if msg_Result m = ANil then [] else [(''result'', msg_Result m)]) @
     (if msg_Error m = ANil then [] else [(''error'', msg_Error m)]) @
     [(''jsonrpc'', AStr (msg_JSONRPC m))]"

definition marshal_message :: "JSONRPCMessage \<Rightarrow> bytes" where
  "marshal_message m = marshal_any (AObj (message_fields m))"

definition message_names :: "string list" where
  "message_names = [''id'', ''method'', ''params'', ''result'', ''error'', ''jsonrpc'']"

definition dec_message :: "JSONRPCMessage \<Rightarrow> json_members \<Rightarrow> mcp_error + JSONRPCMessage" where
  "dec_message m ms =
     (let F = message_names
      in sum_bind (field F ms ''id'' dec_iface (msg_ID m)) (\<lambda>i.
         sum_bind (field F ms ''method'' dec_string (msg_Method m)) (\<lambda>meth.
         sum_bind (field F ms ''params'' dec_iface (msg_Params m)) (\<lambda>p.
         sum_bind (field F ms ''result'' dec_iface (msg_Result m)) (\<lambda>r.
         sum_bind (field F ms ''error'' dec_iface (msg_Error m)) (\<lambda>e.
         sum_bind (field F ms ''jsonrpc'' dec_string (msg_JSONRPC m)) (\<lambda>v.
         Inr \<lparr>msg_ID = i, msg_Method = meth, msg_Params = p, msg_Result = r, msg_Error = e, msg_JSONRPC = v\<rparr>)))))))"

definition unmarshal_message :: "bytes \<Rightarrow> mcp_error + JSONRPCMessage" where
  "unmarshal_message data = json_Unmarshal dec_message zero_message data"

section \<open>Event ids\<close>

definition formatEventID :: "int \<Rightarrow> int \<Rightarrow> string" where
  "formatEventID sid idx = show_int sid @ ''_'' @ show_int idx"

fun split_byte :: "char \<Rightarrow> string \<Rightarrow> string list" where
  "split_byte sep [] = [[]]"
| "split_byte sep (c # s) =
     (if c = sep then [] # split_byte sep s
      else case split_byte sep s of w # ws \<Rightarrow> (c # w) # ws | [] \<Rightarrow> [[c]])"

text \<open>\<open>strconv.ParseInt(s, 10, 64)\<close>, and \<open>strconv.Atoi\<close> where \<open>int\<close> has 64 bits.\<close>

definition ParseInt :: "string \<Rightarrow> int option" where
  "ParseInt s =
     (let neg = (take 1 s = ''-'');
          ds = (if take 1 s = ''-'' \<or> take 1 s = ''+'' then drop 1 s else s)
      in if ds = [] \<or> \<not> list_all is_digit ds then None
         else let v = int (digits_value ds)
              in if neg then if v \<le> 2 ^ 63 then Some (- v) else None
                 else if v < 2 ^ 63 then Some v else None)"

definition parseEventID :: "string \<Rightarrow> (int \<times> int) option" where
  "parseEventID eventID =
     (case split_byte CHR ''_'' eventID of
        [a, b] \<Rightarrow>
          (case ParseInt a of
             None \<Rightarrow> None
           | Some stream \<Rightarrow>
               if stream < 0 then None
               else case ParseInt b of
                      None \<Rightarrow> None
                    | Some idx \<Rightarrow> if idx < 0 then None else Some (stream, idx))
      | _ \<Rightarrow> None)"

definition base32alphabet :: string where
  "base32alphabet = ''ABCDEFGHIJKLMNOPQRSTUVWXYZ234567''"

text \<open>\<open>src\<close> is what reading 26 bytes from the random source gives.\<close>

definition randText :: "bytes \<Rightarrow> string" where
  "randText src = map (\<lambda>b. base32alphabet ! (of_char b mod 32)) src"

section \<open>Events\<close>

record streamableMsg =
  sm_Message :: JSONRPCMessage
  sm_EventID :: string

definition newline :: char where
  "newline = CHR 0x0A"

definition writeSSEMessage :: "streamableMsg \<Rightarrow> string" where
  "writeSSEMessage m =
     ''id: '' @ sm_EventID m @ [newline] @ ''data: '' @ marshal_message (sm_Message m) @ [newline, newline]"

text \<open>
  \<open>bufio.Scanner\<close> with \<open>ScanLines\<close> and a buffer of at most \<open>maxTok\<close> bytes: the lines without their
  line end and a carriage return before it, up to a line that does not fit.
\<close>

definition dropCR :: "string \<Rightarrow> string" where
  "dropCR l = (if suffix [CHR 0x0D] l then butlast l else l)"

function scan_lines :: "nat \<Rightarrow> string \<Rightarrow> string list \<times> bool" where
  "scan_lines maxTok [] = ([], False)"
| "scan_lines maxTok (c # s) =
     (let l = takeWhile (\<lambda>c. c \<noteq> newline) (c # s);
          r = drop 1 (dropWhile (\<lambda>c. c \<noteq> newline) (c # s))
      in if maxTok \<le> length l then ([], True)
         else case scan_lines maxTok r of (ls, e) \<Rightarrow> (dropCR l # ls, e))"
  by pat_completeness auto
termination
  by (relation "measure (length \<circ> snd)") (auto intro: le_imp_less_Suc order_trans[OF diff_le_self length_dropWhile_le])

record event =
  ev_name :: string
  ev_id :: string
  ev_data :: bytes

definition zero_event :: event where
  "zero_event = \<lparr>ev_name = [], ev_id = [], ev_data = []\<rparr>"

definition event_empty :: "event \<Rightarrow> bool" where
  "event_empty e \<longleftrightarrow> ev_name e = [] \<and> ev_id e = [] \<and> ev_data e = []"

datatype sse_item = SseEvent event | SseError mcp_error

definition ErrTooLong :: mcp_error where
  "ErrTooLong = Sentinel ''bufio.Scanner: token too long''"

definition maxTokenSize :: nat where
  "maxTokenSize = 1024 * 1024"

text \<open>The loop of \<open>scanEvents\<close> over the lines; \<open>dataBuf\<close> collects the data lines. The error for a line
  without a colon quotes the line, which the model leaves out.\<close>

fun scan_loop :: "event \<Rightarrow> bytes option \<Rightarrow> string list \<Rightarrow> bool \<Rightarrow> sse_item list" where
  "scan_loop evt dataBuf [] tooLong = (if tooLong then [SseError ErrTooLong] else [])"
| "scan_loop evt dataBuf (line # lines) tooLong =
     (if line = []
      then (if \<not> event_empty evt
            then [SseEvent (case dataBuf of Some d \<Rightarrow> evt\<lparr>ev_data := d\<rparr> | None \<Rightarrow> evt)] else []) @
           scan_loop zero_event None lines tooLong
      else case split_at_byte CHR '':'' line of
             (before, None) \<Rightarrow> [SseError (PlainErr ''malformed line'')]
           | (before, Some after) \<Rightarrow>
               if before = ''event'' then scan_loop (evt\<lparr>ev_name := strings_TrimSpace after\<rparr>) dataBuf lines tooLong
               else if before = ''id'' then scan_loop (evt\<lparr>ev_id := strings_TrimSpace after\<rparr>) dataBuf lines tooLong
               else if before = ''data''
               then scan_loop evt
                      (Some (case dataBuf of
                               Some d \<Rightarrow> d @ [newline] @ strings_TrimSpace after
                             | None \<Rightarrow> strings_TrimSpace after)) lines tooLong
               else scan_loop evt dataBuf lines tooLong)"

definition scanEvents :: "bytes \<Rightarrow> sse_item list" where
  "scanEvents body = (case scan_lines maxTokenSize body of (lines, tooLong) \<Rightarrow> scan_loop zero_event None lines tooLong)"

section \<open>Messages survive encoding\<close>

definition message_ok :: "JSONRPCMessage \<Rightarrow> bool" where
  "message_ok m \<longleftrightarrow> any_ok (msg_ID m) \<and> any_ok (msg_Params m) \<and> any_ok (msg_Result m) \<and> any_ok (msg_Error m) \<and>
     valid_utf8 (msg_Method m) \<and> valid_utf8 (msg_JSONRPC m) \<and> depth_any (AObj (message_fields m)) \<le> maxNestingDepth"

lemma message_fields_ok:
  assumes "message_ok m"
  shows "text_ok (AObj (message_fields m))" and "set (map fst (message_fields m)) \<subseteq> set message_names"
proof -
  show names: "set (map fst (message_fields m)) \<subseteq> set message_names" by (simp add: message_fields_def message_names_def)
  have "list_all valid_utf8 message_names" by code_simp
  with names have "valid_utf8 k" if "(k, v) \<in> set (message_fields m)" for k v using that by (force simp: list_all_iff)
  moreover have "text_ok v" if "(k, v) \<in> set (message_fields m)" for k v
    using that assms by (auto simp: message_fields_def message_ok_def any_ok_text split: if_splits)
  ultimately show "text_ok (AObj (message_fields m))" by (auto simp: list_all_iff text_fields_def)
qed

lemma decode_iface_ok: "any_ok v \<Longrightarrow> dec_iface x (t, json_of v) = Inr v"
  using decode_json_of[of v] by (simp add: dec_iface_def)

lemma message_unmarshal:
  assumes "message_ok m"
  shows "unmarshal_message (marshal_message m) = Inr m"
proof -
  let ?ms = "wire_members (message_fields m)"
  note ok = assms[unfolded message_ok_def]
  note fv = field_values_wire[OF message_fields_ok(2)[OF assms]]
  have "field message_names ?ms ''id'' dec_iface ANil = Inr (msg_ID m)"
    unfolding field_def fv using ok by (simp add: message_fields_def decode_iface_ok)
  moreover have "field message_names ?ms ''method'' dec_string [] = Inr (msg_Method m)"
    unfolding field_def fv by (simp add: message_fields_def dec_string_def)
  moreover have "field message_names ?ms ''params'' dec_iface ANil = Inr (msg_Params m)"
    unfolding field_def fv using ok by (simp add: message_fields_def decode_iface_ok)
  moreover have "field message_names ?ms ''result'' dec_iface ANil = Inr (msg_Result m)"
    unfolding field_def fv using ok by (simp add: message_fields_def decode_iface_ok)
  moreover have "field message_names ?ms ''error'' dec_iface ANil = Inr (msg_Error m)"
    unfolding field_def fv using ok by (simp add: message_fields_def decode_iface_ok)
  moreover have "field message_names ?ms ''jsonrpc'' dec_string [] = Inr (msg_JSONRPC m)"
    unfolding field_def fv by (simp add: message_fields_def dec_string_def)
  ultimately show ?thesis
    unfolding unmarshal_message_def marshal_message_def
    using json_Unmarshal_struct[OF message_fields_ok(1)[OF assms], of dec_message] ok
    by (simp add: dec_message_def zero_message_def Let_def)
qed

section \<open>Event ids survive\<close>

lemma split_byte_none: "sep \<notin> set s \<Longrightarrow> split_byte sep s = [s]"
  by (induction s) auto

lemma split_byte_one: "sep \<notin> set s \<Longrightarrow> split_byte sep (s @ sep # t) = s # split_byte sep t"
  by (induction s) auto

lemma ParseInt_show_int:
  assumes "0 \<le> i" and "i < 2 ^ 63"
  shows "ParseInt (show_int i) = Some i"
proof -
  obtain a t where a: "show_nat (nat i) = a # t" "is_digit a" by (rule show_nat_split)
  then have "a \<noteq> CHR ''-''" "a \<noteq> CHR ''+''" by (auto simp: is_digit_def)
  then show ?thesis
    using assms show_nat_digits[of "nat i"] digits_value_show_nat[of "nat i"]
    by (simp add: ParseInt_def show_int_def a Let_def)
qed

lemma show_int_no_underscore: "CHR ''_'' \<notin> set (show_int i)"
  using show_nat_digits[of "nat i"] show_nat_digits[of "nat (- i)"]
  by (auto simp: show_int_def list_all_iff is_digit_def)

lemma parse_format_event_id:
  assumes "0 \<le> sid" and "sid < 2 ^ 63" and "0 \<le> idx" and "idx < 2 ^ 63"
  shows "parseEventID (formatEventID sid idx) = Some (sid, idx)"
  using assms show_int_no_underscore
  by (simp add: parseEventID_def formatEventID_def split_byte_one split_byte_none ParseInt_show_int)

section \<open>Events survive\<close>

lemma scan_lines_line:
  assumes "newline \<notin> set l" and "length l < maxTok" and "\<not> suffix [CHR 0x0D] l"
  shows "scan_lines maxTok (l @ newline # s) = (case scan_lines maxTok s of (ls, e) \<Rightarrow> (l # ls, e))"
proof -
  obtain c r where cr: "l @ newline # s = c # r" by (cases l) auto
  have "takeWhile (\<lambda>c. c \<noteq> newline) (l @ newline # s) = l" "dropWhile (\<lambda>c. c \<noteq> newline) (l @ newline # s) = newline # s"
    using assms(1) by (induction l) auto
  with assms(2,3) cr show ?thesis by (simp add: dropCR_def Let_def)
qed

lemma TrimSpace_space: "strings_TrimSpace (CHR '' '' # s) = strings_TrimSpace s"
proof -
  have "runes (CHR '' '' # s) = [CHR '' ''] # runes s" by (simp add: runes.simps is_ascii_def)
  then show ?thesis by (simp add: strings_TrimSpace_def byte_in_def is_space.simps)
qed

definition event_id_ok :: "string \<Rightarrow> bool" where
  "event_id_ok i \<longleftrightarrow> i \<noteq> [] \<and> list_all (\<lambda>c. is_digit c \<or> c \<in> set ''_-'') i"

definition plain_char :: "char \<Rightarrow> bool" where
  "plain_char c \<longleftrightarrow> is_ascii c \<and> \<not> is_space [c]"

lemma TrimSpace_plain:
  assumes "list_all plain_char i"
  shows "strings_TrimSpace i = i"
proof -
  have c: "is_ascii c \<and> \<not> is_space [c]" if "c \<in> set i" for c
    using assms that by (auto simp: list_all_iff plain_char_def)
  then have r: "runes i = map (\<lambda>c. [c]) i" by (intro runes_ascii) (simp add: list_all_iff)
  have "dropWhile is_space (map (\<lambda>c. [c]) xs) = map (\<lambda>c. [c]) xs" if "set xs \<subseteq> set i" for xs
    using that c by (cases xs) auto
  from this[of i] this[of "rev i"] show ?thesis
    by (simp add: strings_TrimSpace_def r rev_map[symmetric] comp_def)
qed

lemma TrimSpace_event_id: "event_id_ok i \<Longrightarrow> strings_TrimSpace i = i"
  by (rule TrimSpace_plain)
     (auto simp: event_id_ok_def list_all_iff plain_char_def is_digit_def is_ascii_def byte_in_def less_eq_char_def is_space.simps)

lemma plain_not_newline: "list_all plain_char i \<Longrightarrow> newline \<notin> set i \<and> CHR 0x0D \<notin> set i"
proof -
  have "\<not> plain_char newline" "\<not> plain_char (CHR 0x0D)" by code_simp+
  then show "list_all plain_char i \<Longrightarrow> newline \<notin> set i \<and> CHR 0x0D \<notin> set i" by (auto simp: list_all_iff)
qed

lemma event_id_line: "event_id_ok i \<Longrightarrow> newline \<notin> set i \<and> \<not> suffix [CHR 0x0D] i"
proof -
  assume "event_id_ok i"
  then have "newline \<notin> set i" "CHR 0x0D \<notin> set i"
    by (auto simp: event_id_ok_def list_all_iff is_digit_def newline_def)
  then show ?thesis by (auto simp: suffix_def)
qed

lemma marshal_message_braces: obtains t where "marshal_message m = CHR 0x7B # t @ [CHR 0x7D]"
  by (simp add: marshal_message_def)

lemma marshal_message_line: "newline \<notin> set (marshal_message m) \<and> \<not> suffix [CHR 0x0D] (marshal_message m)"
proof -
  have "list_all printable (marshal_message m)" by (simp add: marshal_message_def marshal_any_printable del: marshal_any.simps)
  from printable_not_newline[OF this] show ?thesis by (auto simp: newline_def suffix_def)
qed

text \<open>Scanning one event and going on with the rest of the stream.\<close>

definition event_of :: "streamableMsg \<Rightarrow> event" where
  "event_of m = \<lparr>ev_name = [], ev_id = sm_EventID m, ev_data = marshal_message (sm_Message m)\<rparr>"

definition event_fits :: "streamableMsg \<Rightarrow> bool" where
  "event_fits m \<longleftrightarrow> event_id_ok (sm_EventID m) \<and> length (sm_EventID m) + 4 < maxTokenSize \<and>
     length (marshal_message (sm_Message m)) + 6 < maxTokenSize"

lemma scanEvents_event:
  assumes "event_fits m"
  shows "scanEvents (writeSSEMessage m @ rest) = SseEvent (event_of m) # scanEvents rest"
proof -
  let ?i = "sm_EventID m" and ?d = "marshal_message (sm_Message m)"
  have i: "event_id_ok ?i" using assms by (simp add: event_fits_def)
  have l1: "newline \<notin> set (''id: '' @ ?i)" "\<not> suffix [CHR 0x0D] (''id: '' @ ?i)"
    using event_id_line[OF i] i by (auto simp: newline_def event_id_ok_def suffix_def append_eq_append_conv2 Cons_eq_append_conv)
  obtain t where t: "?d = CHR 0x7B # t @ [CHR 0x7D]" by (rule marshal_message_braces)
  have l2: "newline \<notin> set (''data: '' @ ?d)" "\<not> suffix [CHR 0x0D] (''data: '' @ ?d)"
    using marshal_message_line[of "sm_Message m"] t by (auto simp: newline_def suffix_def)
  have w: "writeSSEMessage m @ rest = (''id: '' @ ?i) @ newline # ((''data: '' @ ?d) @ newline # ([] @ newline # rest))"
    by (simp add: writeSSEMessage_def)
  have sl: "scan_lines maxTokenSize (writeSSEMessage m @ rest) =
      (case scan_lines maxTokenSize rest of (ls, e) \<Rightarrow> ((''id: '' @ ?i) # (''data: '' @ ?d) # [] # ls, e))"
    unfolding w using assms l1 l2
    by (subst scan_lines_line; simp add: event_fits_def maxTokenSize_def del: append_Cons append_Nil append_assoc)
       (subst scan_lines_line; simp add: event_fits_def maxTokenSize_def dropCR_def split: prod.split)+
  have s1: "split_at_byte CHR '':'' (''id: '' @ ?i) = (''id'', Some (CHR '' '' # ?i))"
    and s2: "split_at_byte CHR '':'' (''data: '' @ ?d) = (''data'', Some (CHR '' '' # ?d))"
    by (simp_all add: split_at_byte_def)
  have tr: "strings_TrimSpace (CHR '' '' # ?i) = ?i" "strings_TrimSpace (CHR '' '' # ?d) = ?d"
    using TrimSpace_event_id[OF i] TrimSpace_braces[of t] by (simp_all add: TrimSpace_space t)
  obtain ls e where le: "scan_lines maxTokenSize rest = (ls, e)" by (cases "scan_lines maxTokenSize rest")
  have "?i \<noteq> []" using i by (simp add: event_id_ok_def)
  then show ?thesis
    unfolding scanEvents_def sl le prod.case
    using s1 s2 tr by (simp add: event_of_def zero_event_def event_empty_def)
qed

lemma scanEvents_events:
  "list_all event_fits ms \<Longrightarrow> scanEvents (concat (map writeSSEMessage ms) @ rest) = map (SseEvent \<circ> event_of) ms @ scanEvents rest"
  by (induction ms) (simp_all add: scanEvents_event)

lemma scanEvents_empty [simp]: "scanEvents [] = []"
  by (simp add: scanEvents_def)

end
