(* ===== verification/Streamable.thy ===== *)
theory Streamable
  imports Sse
begin

text \<open>
  Model of \<open>StreamableServerTransport\<close> in \<open>transport_streamable.go\<close>: one session with its incoming
  queue, the messages of its streams, the routing of responses and server requests to streams,
  and the two kinds of HTTP connections that deliver them, the GET stream and the response of a
  POST. A wake-up channel is a number, and the channels that hold a signal are listed. The
  mutex is implicit in the steps of the model; \<open>mu_stuck\<close> says that a goroutine panicked while
  it held it.
\<close>

section \<open>The transport\<close>

record StreamableServerTransport =
  st_id :: string
  nextStreamID :: int
  incoming :: "JSONRPCMessage list"
  cancelled :: bool
  lastActive :: time
  isDone :: bool
  outgoingMessages :: "(int, streamableMsg list) gomap"
  signals :: "(int, nat) gomap"
  full_chans :: "nat list"
  next_chan :: nat
  clientRequestStreams :: "(go_any, int) gomap"
  serverRequestStreams :: "(go_any, int) gomap"
  lastRequestStream :: int
  mu_stuck :: bool

definition newStreamableServerTransport :: "string \<Rightarrow> StreamableServerTransport" where
  "newStreamableServerTransport sessionID =
     \<lparr>st_id = sessionID, nextStreamID = 0, incoming = [], cancelled = False, lastActive = 0, isDone = False,
      outgoingMessages = [], signals = [], full_chans = [], next_chan = 0, clientRequestStreams = [],
      serverRequestStreams = [], lastRequestStream = 0, mu_stuck = False\<rparr>"

definition incoming_capacity :: nat where
  "incoming_capacity = 100"

text \<open>What a call does: it returns, it panics, or it waits for another goroutine.\<close>

datatype 'a call = CRet 'a | CPanic | CBlocked

text \<open>The dynamic types that cannot be a map key.\<close>

fun hashable :: "go_any \<Rightarrow> bool" where
  "hashable (AArr vs) = False"
| "hashable (AObj ms) = False"
| "hashable _ = True"

definition touch :: "time \<Rightarrow> StreamableServerTransport \<Rightarrow> StreamableServerTransport" where
  "touch now t = t\<lparr>lastActive := now\<rparr>"

text \<open>A \<open>select\<close> takes one of the cases that are ready; \<open>pick\<close> is the choice of the runtime.\<close>

definition select_case :: "nat \<Rightarrow> 'a list \<Rightarrow> 'a option" where
  "select_case pick ready = (if ready = [] then None else Some (ready ! (pick mod length ready)))"

definition st_Read ::
  "mcp_error option \<Rightarrow> nat \<Rightarrow> StreamableServerTransport \<Rightarrow> StreamableServerTransport \<times> (mcp_error + JSONRPCMessage) call" where
  "st_Read ctxErr pick t =
     (let ready = (case ctxErr of Some e \<Rightarrow> [(t, Inl e)] | None \<Rightarrow> []) @
                  (if isDone t then [(t, Inl (transportClosedError ''streamable read''))] else []) @
                  (case incoming t of msg # rest \<Rightarrow> [(t\<lparr>incoming := rest\<rparr>, Inr msg)] | [] \<Rightarrow> [])
      in case select_case pick ready of None \<Rightarrow> (t, CBlocked) | Some (t, r) \<Rightarrow> (t, CRet r))"

text \<open>\<open>None\<close> is the panic of a map access with a key that cannot be hashed.\<close>

definition getStreamID :: "JSONRPCMessage \<Rightarrow> StreamableServerTransport \<Rightarrow> (StreamableServerTransport \<times> int) option" where
  "getStreamID msg t =
     (if msg_Method msg \<noteq> [] \<and> msg_ID msg = ANil then Some (t, lastRequestStream t)
      else if \<not> hashable (msg_ID msg) then None
      else if msg_Method msg \<noteq> []
      then (case map_of (serverRequestStreams t) (msg_ID msg) of
              Some sid \<Rightarrow> Some (t, sid)
            | None \<Rightarrow>
                let sid = lastRequestStream t
                in Some (t\<lparr>serverRequestStreams := AList.update (msg_ID msg) sid (serverRequestStreams t)\<rparr>, sid))
      else case map_of (clientRequestStreams t) (msg_ID msg) of
             Some sid \<Rightarrow> Some (t, sid)
           | None \<Rightarrow> Some (t, 1))"

definition stream_messages :: "StreamableServerTransport \<Rightarrow> int \<Rightarrow> streamableMsg list" where
  "stream_messages t sid = (case map_of (outgoingMessages t) sid of Some ms \<Rightarrow> ms | None \<Rightarrow> [])"

definition releaseClientRequest :: "go_any \<Rightarrow> StreamableServerTransport \<Rightarrow> StreamableServerTransport" where
  "releaseClientRequest i t =
     (case map_of (clientRequestStreams t) i of
        None \<Rightarrow> t
      | Some sid \<Rightarrow>
          t\<lparr>clientRequestStreams := AList.delete i (clientRequestStreams t),
            serverRequestStreams := filter (\<lambda>(srvID, srvSid). srvSid \<noteq> sid) (serverRequestStreams t),
            lastRequestStream := (if lastRequestStream t = sid then 0 else lastRequestStream t)\<rparr>)"

text \<open>A non-blocking send of a wake-up: it fills the channel unless it is full.\<close>

definition signal_stream :: "int \<Rightarrow> StreamableServerTransport \<Rightarrow> StreamableServerTransport" where
  "signal_stream sid t =
     (case map_of (signals t) sid of
        Some ch \<Rightarrow> t\<lparr>full_chans := List.insert ch (full_chans t)\<rparr>
      | None \<Rightarrow> t)"

definition st_Write ::
  "JSONRPCMessage \<Rightarrow> StreamableServerTransport \<Rightarrow> StreamableServerTransport \<times> mcp_error option call" where
  "st_Write msg t =
     (if mu_stuck t then (t, CBlocked)
      else if isDone t then (t, CRet (Some (transportClosedError ''streamable write'')))
      else case getStreamID msg t of
             None \<Rightarrow> (t, CPanic)
           | Some (t, sid) \<Rightarrow>
               let ms = stream_messages t sid;
                   m = \<lparr>sm_Message = msg, sm_EventID = formatEventID sid (int (length ms))\<rparr>;
                   t = t\<lparr>outgoingMessages := AList.update sid (ms @ [m]) (outgoingMessages t)\<rparr>;
                   t = signal_stream sid t
               in (if msg_Method msg = [] \<and> msg_ID msg \<noteq> ANil then releaseClientRequest (msg_ID msg) t else t,
                   CRet None))"

definition st_Close :: "StreamableServerTransport \<Rightarrow> StreamableServerTransport \<times> unit call" where
  "st_Close t =
     (if mu_stuck t then (t, CBlocked)
      else if \<not> isDone t then (t\<lparr>isDone := True, cancelled := True\<rparr>, CRet ()) else (t, CRet ()))"

definition st_enqueue ::
  "mcp_error option \<Rightarrow> nat \<Rightarrow> JSONRPCMessage \<Rightarrow> StreamableServerTransport \<Rightarrow> StreamableServerTransport \<times> mcp_error option call" where
  "st_enqueue ctxErr pick msg t =
     (let ready = (case ctxErr of Some e \<Rightarrow> [(t, Some e)] | None \<Rightarrow> []) @
                  (if isDone t then [(t, Some (transportClosedError ''streamable receive''))] else []) @
                  (if length (incoming t) < incoming_capacity then [(t\<lparr>incoming := incoming t @ [msg]\<rparr>, None)] else [])
      in case select_case pick ready of None \<Rightarrow> (t, CBlocked) | Some (t, r) \<Rightarrow> (t, CRet r))"

text \<open>
  \<open>receive\<close> locks the mutex without a deferred unlock, so the panic of a map access with an id
  that is an array or an object leaves it locked.
\<close>

definition receive ::
  "mcp_error option \<Rightarrow> nat \<Rightarrow> JSONRPCMessage \<Rightarrow> int \<Rightarrow> StreamableServerTransport \<Rightarrow>
   StreamableServerTransport \<times> mcp_error option call" where
  "receive ctxErr pick msg sid t =
     (if msg_ID msg = ANil then st_enqueue ctxErr pick msg t
      else if mu_stuck t then (t, CBlocked)
      else if \<not> hashable (msg_ID msg) then (t\<lparr>mu_stuck := True\<rparr>, CPanic)
      else if msg_Method msg \<noteq> []
      then st_enqueue ctxErr pick msg
             (t\<lparr>clientRequestStreams := AList.update (msg_ID msg) sid (clientRequestStreams t), lastRequestStream := sid\<rparr>)
      else st_enqueue ctxErr pick msg (t\<lparr>serverRequestStreams := AList.delete (msg_ID msg) (serverRequestStreams t)\<rparr>))"

section \<open>Connections that deliver messages\<close>

text \<open>
  One HTTP response that delivers the messages of a stream: the stream, the index it started and
  the index it goes on from, its wake-up channel while one is registered, whether it waits in a
  \<open>select\<close>, the events written so far, and whether its handler has returned. The response of a
  POST has the id of the request it answers.
\<close>

record stream_conn =
  sc_stream :: int
  sc_start :: nat
  sc_index :: nat
  sc_chan :: "nat option"
  sc_waiting :: bool
  sc_out :: "streamableMsg list"
  sc_done :: bool
  sc_answer :: "go_any option"

definition open_stream :: "int \<Rightarrow> nat \<Rightarrow> go_any option \<Rightarrow> stream_conn" where
  "open_stream sid start answer =
     \<lparr>sc_stream = sid, sc_start = start, sc_index = start, sc_chan = None, sc_waiting = False, sc_out = [],
      sc_done = False, sc_answer = answer\<rparr>"

definition new_signal :: "int \<Rightarrow> StreamableServerTransport \<Rightarrow> StreamableServerTransport" where
  "new_signal sid t = t\<lparr>signals := AList.update sid (next_chan t) (signals t), next_chan := Suc (next_chan t)\<rparr>"

subsection \<open>The GET stream\<close>

text \<open>\<open>streamMessages\<close>: a flush under the read lock; then, under the write lock, a second flush and the
  registration of the channel; then a flush for every wake-up; and a deferred function, which
  deletes the registration of the stream, whoever made it.\<close>

definition flush_stream :: "StreamableServerTransport \<Rightarrow> stream_conn \<Rightarrow> stream_conn" where
  "flush_stream t c =
     (let ms = stream_messages t (sc_stream c)
      in c\<lparr>sc_out := sc_out c @ drop (sc_index c) ms, sc_index := max (sc_index c) (length ms)\<rparr>)"

definition stream_register ::
  "StreamableServerTransport \<Rightarrow> stream_conn \<Rightarrow> StreamableServerTransport \<times> stream_conn" where
  "stream_register t c =
     (new_signal (sc_stream c) t, (flush_stream t c)\<lparr>sc_chan := Some (next_chan t), sc_waiting := True\<rparr>)"

definition take_signal :: "nat \<Rightarrow> StreamableServerTransport \<Rightarrow> StreamableServerTransport" where
  "take_signal ch t = t\<lparr>full_chans := removeAll ch (full_chans t)\<rparr>"

definition stream_wake ::
  "nat \<Rightarrow> StreamableServerTransport \<Rightarrow> stream_conn \<Rightarrow> StreamableServerTransport \<times> stream_conn" where
  "stream_wake ch t c = (take_signal ch t, flush_stream t c)"

definition stream_close ::
  "StreamableServerTransport \<Rightarrow> stream_conn \<Rightarrow> StreamableServerTransport \<times> stream_conn" where
  "stream_close t c =
     (t\<lparr>signals := AList.delete (sc_stream c) (signals t)\<rparr>, c\<lparr>sc_chan := None, sc_waiting := False, sc_done := True\<rparr>)"

subsection \<open>The response of a POST\<close>

text \<open>
  The loop of \<open>handleMessage\<close> over \<open>waitStreamMessage\<close>: each round registers a channel, looks for a
  message at the index, waits for a wake-up while there is none, takes back its own registration
  and writes the message; the loop ends after the response to the request.
\<close>

definition wait_begin ::
  "StreamableServerTransport \<Rightarrow> stream_conn \<Rightarrow> StreamableServerTransport \<times> stream_conn" where
  "wait_begin t c = (new_signal (sc_stream c) t, c\<lparr>sc_chan := Some (next_chan t)\<rparr>)"

definition wait_end :: "StreamableServerTransport \<Rightarrow> stream_conn \<Rightarrow> StreamableServerTransport" where
  "wait_end t c =
     (if map_of (signals t) (sc_stream c) = sc_chan c
      then t\<lparr>signals := AList.delete (sc_stream c) (signals t)\<rparr> else t)"

definition is_answer :: "go_any option \<Rightarrow> JSONRPCMessage \<Rightarrow> bool" where
  "is_answer i msg \<longleftrightarrow> i = Some (msg_ID msg) \<and> msg_Method msg = []"

text \<open>One look at the stream: a message to write, the end of a closed session, or a wait.\<close>

definition wait_check ::
  "StreamableServerTransport \<Rightarrow> stream_conn \<Rightarrow> StreamableServerTransport \<times> stream_conn" where
  "wait_check t c =
     (let ms = stream_messages t (sc_stream c)
      in if sc_index c < length ms
         then (wait_end t c,
               c\<lparr>sc_index := Suc (sc_index c), sc_chan := None, sc_out := sc_out c @ [ms ! sc_index c],
                 sc_done := is_answer (sc_answer c) (sm_Message (ms ! sc_index c))\<rparr>)
         else if isDone t then (wait_end t c, c\<lparr>sc_chan := None, sc_done := True\<rparr>)
         else (t, c\<lparr>sc_waiting := True\<rparr>))"

definition wait_wake ::
  "nat \<Rightarrow> StreamableServerTransport \<Rightarrow> stream_conn \<Rightarrow> StreamableServerTransport \<times> stream_conn" where
  "wait_wake ch t c = (take_signal ch t, c\<lparr>sc_waiting := False\<rparr>)"

text \<open>The request context is done, or the session is closed, while the handler waits.\<close>

definition wait_abort ::
  "StreamableServerTransport \<Rightarrow> stream_conn \<Rightarrow> StreamableServerTransport \<times> stream_conn" where
  "wait_abort t c = (wait_end t c, c\<lparr>sc_chan := None, sc_waiting := False, sc_done := True\<rparr>)"

section \<open>A session in use\<close>

text \<open>
  A session with the connections that serve it, and what can happen next: a message written by the
  server or read by it, a POST, a GET with its phases, the rounds of a POST, the end of a
  connection, and the end of the session. Steps under the mutex need it to be free.
\<close>

record hub =
  hub_t :: StreamableServerTransport
  conns :: "stream_conn list"

definition set_conn :: "nat \<Rightarrow> StreamableServerTransport \<times> stream_conn \<Rightarrow> hub \<Rightarrow> hub" where
  "set_conn i tc h = h\<lparr>hub_t := fst tc, conns := (conns h)[i := snd tc]\<rparr>"

inductive hub_step :: "hub \<Rightarrow> hub \<Rightarrow> bool" where
  h_write: "st_Write msg (hub_t h) = (t, CRet r) \<Longrightarrow> hub_step h (h\<lparr>hub_t := t\<rparr>)"
| h_read: "st_Read ctxErr pick (hub_t h) = (t, CRet r) \<Longrightarrow> hub_step h (h\<lparr>hub_t := t\<rparr>)"
| h_notify:
    "msg_ID msg = ANil \<or> msg_Method msg = [] \<Longrightarrow> sid = nextStreamID (hub_t h) + 1 \<Longrightarrow>
     receive ctxErr pick msg sid ((hub_t h)\<lparr>nextStreamID := sid\<rparr>) = (t, CRet r) \<Longrightarrow>
     hub_step h (h\<lparr>hub_t := t\<rparr>)"
| h_post:
    "msg_ID msg \<noteq> ANil \<Longrightarrow> msg_Method msg \<noteq> [] \<Longrightarrow> sid = nextStreamID (hub_t h) + 1 \<Longrightarrow>
     receive ctxErr pick msg sid ((hub_t h)\<lparr>nextStreamID := sid\<rparr>) = (t, CRet r) \<Longrightarrow>
     hub_step h (h\<lparr>hub_t := t, conns := conns h @ [(open_stream sid 0 (Some (msg_ID msg)))\<lparr>sc_done := r \<noteq> None\<rparr>]\<rparr>)"
| h_get:
    "\<not> mu_stuck (hub_t h) \<Longrightarrow>
     hub_step h (h\<lparr>conns := conns h @ [flush_stream (hub_t h) (open_stream sid start None)]\<rparr>)"
| h_register:
    "\<not> mu_stuck (hub_t h) \<Longrightarrow> i < length (conns h) \<Longrightarrow> sc_answer (conns h ! i) = None \<Longrightarrow>
     sc_chan (conns h ! i) = None \<Longrightarrow> \<not> sc_done (conns h ! i) \<Longrightarrow>
     hub_step h (set_conn i (stream_register (hub_t h) (conns h ! i)) h)"
| h_wake:
    "\<not> mu_stuck (hub_t h) \<Longrightarrow> i < length (conns h) \<Longrightarrow> sc_answer (conns h ! i) = None \<Longrightarrow>
     sc_chan (conns h ! i) = Some ch \<Longrightarrow> ch \<in> set (full_chans (hub_t h)) \<Longrightarrow>
     hub_step h (set_conn i (stream_wake ch (hub_t h) (conns h ! i)) h)"
| h_close_get:
    "\<not> mu_stuck (hub_t h) \<Longrightarrow> i < length (conns h) \<Longrightarrow> sc_answer (conns h ! i) = None \<Longrightarrow>
     sc_chan (conns h ! i) = Some ch \<Longrightarrow>
     hub_step h (set_conn i (stream_close (hub_t h) (conns h ! i)) h)"
| h_wait:
    "\<not> mu_stuck (hub_t h) \<Longrightarrow> i < length (conns h) \<Longrightarrow> sc_answer (conns h ! i) \<noteq> None \<Longrightarrow>
     sc_chan (conns h ! i) = None \<Longrightarrow> \<not> sc_done (conns h ! i) \<Longrightarrow> \<not> sc_waiting (conns h ! i) \<Longrightarrow>
     hub_step h (set_conn i (wait_begin (hub_t h) (conns h ! i)) h)"
| h_check:
    "\<not> mu_stuck (hub_t h) \<Longrightarrow> i < length (conns h) \<Longrightarrow> sc_answer (conns h ! i) \<noteq> None \<Longrightarrow>
     sc_chan (conns h ! i) \<noteq> None \<Longrightarrow> \<not> sc_waiting (conns h ! i) \<Longrightarrow>
     hub_step h (set_conn i (wait_check (hub_t h) (conns h ! i)) h)"
| h_wake_post:
    "i < length (conns h) \<Longrightarrow> sc_answer (conns h ! i) \<noteq> None \<Longrightarrow> sc_waiting (conns h ! i) \<Longrightarrow>
     sc_chan (conns h ! i) = Some ch \<Longrightarrow> ch \<in> set (full_chans (hub_t h)) \<Longrightarrow>
     hub_step h (set_conn i (wait_wake ch (hub_t h) (conns h ! i)) h)"
| h_abort:
    "\<not> mu_stuck (hub_t h) \<Longrightarrow> i < length (conns h) \<Longrightarrow> sc_answer (conns h ! i) \<noteq> None \<Longrightarrow>
     sc_waiting (conns h ! i) \<Longrightarrow> hub_step h (set_conn i (wait_abort (hub_t h) (conns h ! i)) h)"
| h_close: "st_Close (hub_t h) = (t, CRet ()) \<Longrightarrow> hub_step h (h\<lparr>hub_t := t\<rparr>)"

definition new_hub :: "string \<Rightarrow> hub" where
  "new_hub sessionID = \<lparr>hub_t = newStreamableServerTransport sessionID, conns = []\<rparr>"

abbreviation hub_steps :: "hub \<Rightarrow> hub \<Rightarrow> bool" where
  "hub_steps \<equiv> hub_step\<^sup>*\<^sup>*"

end
