(* ===== verification/Streamable_Props.thy ===== *)
theory Streamable_Props
  imports Streamable
begin

text \<open>
  What the connections of a streamable session deliver, in every interleaving of writes, reads,
  POSTs, GETs, wake-ups and disconnects.
\<close>

section \<open>Effects on the streams\<close>

lemma stream_messages_update [simp]:
  "stream_messages (t\<lparr>outgoingMessages := AList.update sid ms (outgoingMessages t)\<rparr>) s =
     (if s = sid then ms else stream_messages t s)"
  by (simp add: stream_messages_def)

lemma stream_messages_cong: "outgoingMessages t = outgoingMessages t' \<Longrightarrow> stream_messages t s = stream_messages t' s"
  by (simp add: stream_messages_def)

lemmas transport_defs = new_signal_def take_signal_def wait_end_def signal_stream_def releaseClientRequest_def

lemma transport_same_messages [simp]:
  "stream_messages (new_signal sid t) s = stream_messages t s"
  "stream_messages (take_signal ch t) s = stream_messages t s"
  "stream_messages (wait_end t c) s = stream_messages t s"
  "stream_messages (signal_stream sid t) s = stream_messages t s"
  "stream_messages (releaseClientRequest i t) s = stream_messages t s"
  "stream_messages (t\<lparr>signals := sg\<rparr>) s = stream_messages t s"
  by (simp_all add: transport_defs stream_messages_def split: option.split)

lemma getStreamID_same:
  assumes "getStreamID msg t = Some (t', sid)"
  shows "outgoingMessages t' = outgoingMessages t \<and> signals t' = signals t \<and> full_chans t' = full_chans t \<and>
    next_chan t' = next_chan t \<and> clientRequestStreams t' = clientRequestStreams t \<and>
    lastRequestStream t' = lastRequestStream t \<and> isDone t' = isDone t \<and> mu_stuck t' = mu_stuck t"
  using assms by (auto simp: getStreamID_def Let_def split: if_splits option.splits)

text \<open>A write that succeeds appends one event with the next id to one stream and signals it.\<close>

definition appends :: "JSONRPCMessage \<Rightarrow> int \<Rightarrow> StreamableServerTransport \<Rightarrow> StreamableServerTransport \<Rightarrow> bool" where
  "appends msg sid t t' \<longleftrightarrow>
     stream_messages t' sid = stream_messages t sid @
       [\<lparr>sm_Message = msg, sm_EventID = formatEventID sid (int (length (stream_messages t sid)))\<rparr>] \<and>
     (\<forall>s. s \<noteq> sid \<longrightarrow> stream_messages t' s = stream_messages t s) \<and>
     signals t' = signals t \<and> next_chan t' = next_chan t \<and>
     full_chans t' = (case map_of (signals t) sid of Some ch \<Rightarrow> List.insert ch (full_chans t) | None \<Rightarrow> full_chans t)"

lemma st_Write_effect:
  assumes "st_Write msg t = (t', CRet r)"
  shows "(r \<noteq> None \<and> t' = t) \<or>
    (r = None \<and> (\<exists>u sid. getStreamID msg t = Some (u, sid) \<and> appends msg sid t t'))"
proof (cases "isDone t")
  case True
  with assms show ?thesis by (auto simp: st_Write_def split: if_splits)
next
  case False
  with assms obtain u sid where g: "getStreamID msg t = Some (u, sid)"
    by (auto simp: st_Write_def split: if_splits option.splits)
  note same = getStreamID_same[OF g]
  have ms: "stream_messages u s = stream_messages t s" for s by (rule stream_messages_cong) (simp add: same)
  let ?m = "\<lparr>sm_Message = msg, sm_EventID = formatEventID sid (int (length (stream_messages t sid)))\<rparr>"
  let ?v = "signal_stream sid (u\<lparr>outgoingMessages := AList.update sid (stream_messages t sid @ [?m]) (outgoingMessages u)\<rparr>)"
  have t': "r = None \<and> (t' = ?v \<or> t' = releaseClientRequest (msg_ID msg) ?v)"
    using assms False g ms by (auto simp: st_Write_def Let_def split: if_splits)
  have out: "stream_messages ?v s = (if s = sid then stream_messages t sid @ [?m] else stream_messages t s)" for s
    by (simp only: transport_same_messages stream_messages_update ms)
  have "signals ?v = signals t" "next_chan ?v = next_chan t"
    "full_chans ?v = (case map_of (signals t) sid of Some ch \<Rightarrow> List.insert ch (full_chans t) | None \<Rightarrow> full_chans t)"
    using same by (simp_all add: signal_stream_def split: option.split)
  then have v: "appends msg sid t ?v" unfolding appends_def out by simp
  moreover have "signals (releaseClientRequest i x) = signals x" "next_chan (releaseClientRequest i x) = next_chan x"
    "full_chans (releaseClientRequest i x) = full_chans x" for i x
    by (simp_all add: releaseClientRequest_def split: option.split)
  ultimately have "appends msg sid t t'" using t' by (auto simp: appends_def)
  with t' g show ?thesis by blast
qed

lemma select_case_mem: "select_case pick xs = Some x \<Longrightarrow> x \<in> set xs"
  by (auto simp: select_case_def split: if_splits)

text \<open>Steps that leave the streams and their wake-up channels alone.\<close>

definition same_streams :: "StreamableServerTransport \<Rightarrow> StreamableServerTransport \<Rightarrow> bool" where
  "same_streams t t' \<longleftrightarrow>
     outgoingMessages t' = outgoingMessages t \<and> signals t' = signals t \<and> full_chans t' = full_chans t \<and>
     next_chan t' = next_chan t"

lemma same_streams_messages: "same_streams t t' \<Longrightarrow> stream_messages t' s = stream_messages t s"
  by (simp add: same_streams_def stream_messages_def)

lemma st_enqueue_same: "st_enqueue ctxErr pick msg t = (t', r) \<Longrightarrow> same_streams t t'"
  by (auto simp: st_enqueue_def same_streams_def Let_def dest!: select_case_mem split: option.splits if_splits)

lemma receive_same: "receive ctxErr pick msg sid t = (t', r) \<Longrightarrow> same_streams t t'"
  by (auto simp: receive_def same_streams_def split: if_splits dest!: st_enqueue_same)

lemma st_Read_same: "st_Read ctxErr pick t = (t', r) \<Longrightarrow> same_streams t t'"
  by (auto simp: st_Read_def same_streams_def Let_def dest!: select_case_mem split: option.splits if_splits list.splits)

lemma st_Close_same: "st_Close t = (t', r) \<Longrightarrow> same_streams t t'"
  by (auto simp: st_Close_def same_streams_def split: if_splits)

section \<open>The invariant\<close>

definition ids_ok :: "StreamableServerTransport \<Rightarrow> bool" where
  "ids_ok t \<longleftrightarrow>
     (\<forall>sid i. i < length (stream_messages t sid) \<longrightarrow>
        sm_EventID (stream_messages t sid ! i) = formatEventID sid (int i))"

definition conn_ok :: "StreamableServerTransport \<Rightarrow> stream_conn \<Rightarrow> bool" where
  "conn_ok t c \<longleftrightarrow>
     (let ms = stream_messages t (sc_stream c)
      in sc_start c \<le> sc_index c \<and> (sc_index c \<le> length ms \<or> sc_index c = sc_start c) \<and>
         sc_out c = take (sc_index c - sc_start c) (drop (sc_start c) ms) \<and>
         (\<forall>a. sc_answer c = Some a \<longrightarrow>
            sc_start c = 0 \<and> list_all (\<lambda>m. \<not> is_answer (Some a) (sm_Message m)) (butlast (sc_out c)) \<and>
            (\<not> sc_done c \<longrightarrow> list_all (\<lambda>m. \<not> is_answer (Some a) (sm_Message m)) (sc_out c))))"

definition chans :: "stream_conn list \<Rightarrow> nat list" where
  "chans cs = concat (map (\<lambda>c. case sc_chan c of Some ch \<Rightarrow> [ch] | None \<Rightarrow> []) cs)"

lemma chans_simps [simp]:
  "chans [] = []" "chans (cs @ ds) = chans cs @ chans ds"
  "chans (c # cs) = (case sc_chan c of Some ch \<Rightarrow> ch # chans cs | None \<Rightarrow> chans cs)"
  by (simp_all add: chans_def split: option.split)

lemma in_chans: "c \<in> set cs \<Longrightarrow> sc_chan c = Some ch \<Longrightarrow> ch \<in> set (chans cs)"
  by (force simp: chans_def)

definition chans_ok :: "nat \<Rightarrow> stream_conn list \<Rightarrow> bool" where
  "chans_ok n cs \<longleftrightarrow> distinct (chans cs) \<and> (\<forall>ch \<in> set (chans cs). ch < n) \<and>
     list_all (\<lambda>c. sc_chan c = None \<or> \<not> sc_done c) cs"

definition wake_ok :: "StreamableServerTransport \<Rightarrow> stream_conn \<Rightarrow> bool" where
  "wake_ok t c \<longleftrightarrow>
     (\<forall>ch. sc_waiting c \<and> sc_chan c = Some ch \<and> map_of (signals t) (sc_stream c) = Some ch \<and>
        sc_index c < length (stream_messages t (sc_stream c)) \<longrightarrow> ch \<in> set (full_chans t))"

definition hub_inv :: "hub \<Rightarrow> bool" where
  "hub_inv h \<longleftrightarrow> ids_ok (hub_t h) \<and> list_all (conn_ok (hub_t h)) (conns h) \<and> chans_ok (next_chan (hub_t h)) (conns h) \<and>
     list_all (wake_ok (hub_t h)) (conns h)"

lemma new_hub_inv: "hub_inv (new_hub sessionID)"
  by (simp add: hub_inv_def new_hub_def ids_ok_def chans_ok_def newStreamableServerTransport_def stream_messages_def)

lemma conn_ok_cong:
  "(\<And>s. stream_messages t' s = stream_messages t s) \<Longrightarrow> conn_ok t' c = conn_ok t c"
  by (simp add: conn_ok_def)

lemma conn_ok_append:
  assumes "conn_ok t c" and "stream_messages t' (sc_stream c) = stream_messages t (sc_stream c) @ ext"
  shows "conn_ok t' c"
proof (cases "sc_index c \<le> length (stream_messages t (sc_stream c))")
  case True
  with assms show ?thesis by (auto simp: conn_ok_def Let_def)
next
  case False
  with assms show ?thesis by (auto simp: conn_ok_def Let_def)
qed

lemma hub_inv_same:
  assumes "hub_inv h" and "same_streams (hub_t h) t"
  shows "hub_inv (h\<lparr>hub_t := t\<rparr>)"
proof -
  note m = same_streams_messages[OF assms(2)]
  note s = assms(2)[unfolded same_streams_def]
  have c: "conn_ok t = conn_ok (hub_t h)" by (intro ext conn_ok_cong m)
  have w: "wake_ok t = wake_ok (hub_t h)" using s by (intro ext) (simp only: wake_ok_def m)
  have "ids_ok t = ids_ok (hub_t h)" by (simp only: ids_ok_def m)
  with s assms(1) show ?thesis by (simp add: hub_inv_def c w)
qed

lemma hub_inv_write:
  assumes "hub_inv h" and "appends msg sid (hub_t h) t"
  shows "hub_inv (h\<lparr>hub_t := t\<rparr>)"
proof -
  have conn: "conn_ok t c" if "conn_ok (hub_t h) c" for c
  proof -
    from assms(2) have "\<exists>e. stream_messages t (sc_stream c) = stream_messages (hub_t h) (sc_stream c) @ e"
      by (cases "sc_stream c = sid") (auto simp: appends_def)
    with conn_ok_append[OF that] show ?thesis by blast
  qed
  have wake: "wake_ok t c" if "wake_ok (hub_t h) c" for c
    using assms(2) that by (cases "sc_stream c = sid") (auto simp: appends_def wake_ok_def split: option.splits)
  have "ids_ok t"
    unfolding ids_ok_def
  proof (intro allI impI)
    fix s i
    assume i: "i < length (stream_messages t s)"
    have old: "j < length (stream_messages (hub_t h) s) \<Longrightarrow>
        sm_EventID (stream_messages (hub_t h) s ! j) = formatEventID s (int j)" for j
      using assms(1) by (simp add: hub_inv_def ids_ok_def)
    show "sm_EventID (stream_messages t s ! i) = formatEventID s (int i)"
      using assms(2) i old[of i] by (cases "s = sid") (auto simp: appends_def nth_append less_Suc_eq)
  qed
  moreover have "next_chan t = next_chan (hub_t h)" using assms(2) by (simp add: appends_def)
  ultimately show ?thesis using assms(1) conn wake by (simp add: hub_inv_def list_all_iff)
qed

text \<open>A step of one connection: it may consume its own signal and register a new channel.\<close>

lemma hub_inv_conn:
  assumes inv: "hub_inv h" and cs: "conns h = as @ c # bs"
    and msgs: "\<And>s. stream_messages t' s = stream_messages (hub_t h) s"
    and ok: "conn_ok t' c'" and wake: "wake_ok t' c'"
    and chan: "sc_chan c' = None \<or> sc_chan c' = sc_chan c \<and> next_chan t' = next_chan (hub_t h) \<or>
      sc_chan c' = Some (next_chan (hub_t h)) \<and> next_chan t' = Suc (next_chan (hub_t h))"
    and nxt: "next_chan (hub_t h) \<le> next_chan t'"
    and live: "sc_chan c' = None \<or> \<not> sc_done c'"
    and sigs: "\<And>s ch. map_of (signals t') s = Some ch \<Longrightarrow> map_of (signals (hub_t h)) s = Some ch \<or> ch = next_chan (hub_t h)"
    and full: "\<And>ch. ch \<in> set (full_chans (hub_t h)) \<Longrightarrow> ch \<in> set (full_chans t') \<or> sc_chan c = Some ch"
  shows "hub_inv (set_conn (length as) (t', c') h)"
proof -
  let ?t = "hub_t h"
  have ch: "chans_ok (next_chan ?t) (as @ c # bs)" using inv by (simp add: hub_inv_def cs)
  have other: "conn_ok t' d \<and> wake_ok t' d" if d: "d \<in> set (as @ bs)" for d
  proof
    have od: "conn_ok ?t d" "wake_ok ?t d" using inv d by (auto simp: hub_inv_def cs list_all_iff)
    then show "conn_ok t' d" by (simp add: conn_ok_cong[OF msgs])
    show "wake_ok t' d"
      unfolding wake_ok_def
    proof (intro allI impI)
      fix x
      assume a: "sc_waiting d \<and> sc_chan d = Some x \<and> map_of (signals t') (sc_stream d) = Some x \<and>
        sc_index d < length (stream_messages t' (sc_stream d))"
      have "x \<in> set (chans (as @ bs))" using in_chans[OF d] a by blast
      then have x: "x < next_chan ?t" "sc_chan c \<noteq> Some x" using ch by (auto simp: chans_ok_def split: option.splits)
      with a sigs[of "sc_stream d" x] have "map_of (signals ?t) (sc_stream d) = Some x" by auto
      with a od(2) have "x \<in> set (full_chans ?t)" by (auto simp: wake_ok_def msgs)
      with full x(2) show "x \<in> set (full_chans t')" by blast
    qed
  qed
  have "chans_ok (next_chan t') (as @ c' # bs)"
  proof -
    have old: "distinct (chans as @ chans bs)" "\<forall>x \<in> set (chans as @ chans bs). x < next_chan ?t"
      "list_all (\<lambda>c. sc_chan c = None \<or> \<not> sc_done c) (as @ bs)"
      using ch by (simp_all add: chans_ok_def split: option.splits)
    have "distinct (chans as @ x # chans bs) \<and> x < next_chan t'" if "sc_chan c' = Some x" for x
    proof (cases "x = next_chan ?t")
      case True
      then show ?thesis using old chan that ch by (auto simp: chans_ok_def split: option.splits)
    next
      case False
      then show ?thesis using that chan ch by (auto simp: chans_ok_def split: option.splits)
    qed
    moreover have "x < next_chan t'" if "x \<in> set (chans as @ chans bs)" for x
      using old(2) nxt that by (meson order_less_le_trans)
    ultimately show ?thesis
      using old(1,3) live by (cases "sc_chan c'") (auto simp: chans_ok_def)
  qed
  moreover have "ids_ok t'" using inv by (simp add: hub_inv_def ids_ok_def msgs)
  ultimately show ?thesis
    using other ok wake by (simp add: hub_inv_def set_conn_def cs list_all_iff)
qed

lemma flush_stream_ok:
  assumes "conn_ok t c" and "sc_answer c = None"
  shows "conn_ok t (flush_stream t c)"
proof -
  let ?ms = "stream_messages t (sc_stream c)"
  have a: "sc_start c \<le> sc_index c" "sc_index c \<le> length ?ms \<or> sc_index c = sc_start c"
    "sc_out c = take (sc_index c - sc_start c) (drop (sc_start c) ?ms)"
    using assms(1) by (auto simp: conn_ok_def Let_def)
  have "sc_out c @ drop (sc_index c) ?ms = drop (sc_start c) ?ms"
    using append_take_drop_id[of "sc_index c - sc_start c" "drop (sc_start c) ?ms"] a(1,3) by (simp add: drop_drop)
  with a assms(2) show ?thesis by (auto simp: conn_ok_def flush_stream_def Let_def max_def)
qed

lemma flush_stream_simps [simp]:
  "sc_stream (flush_stream t c) = sc_stream c" "sc_chan (flush_stream t c) = sc_chan c"
  "sc_answer (flush_stream t c) = sc_answer c" "sc_done (flush_stream t c) = sc_done c"
  "sc_start (flush_stream t c) = sc_start c"
  "length (stream_messages t (sc_stream c)) \<le> sc_index (flush_stream t c)"
  by (simp_all add: flush_stream_def Let_def)

lemma conn_ok_fields:
  "conn_ok t (c\<lparr>sc_chan := x\<rparr>) = conn_ok t c" "conn_ok t (c\<lparr>sc_waiting := b\<rparr>) = conn_ok t c"
  by (simp_all add: conn_ok_def)

lemma conn_ok_done: "conn_ok t c \<Longrightarrow> conn_ok t (c\<lparr>sc_done := True\<rparr>)"
  by (auto simp: conn_ok_def Let_def)

lemma hub_inv_add:
  assumes "hub_inv h" and "conn_ok (hub_t h) c" and "sc_chan c = None"
  shows "hub_inv (h\<lparr>conns := conns h @ [c]\<rparr>)"
  using assms by (simp add: hub_inv_def wake_ok_def chans_ok_def)

lemma conn_split:
  assumes "hub_inv h" and "i < length (conns h)"
  obtains as c bs where "conns h = as @ c # bs" "length as = i" "conns h ! i = c" "conn_ok (hub_t h) c"
    "sc_chan c = None \<or> \<not> sc_done c"
proof -
  have "conns h = take i (conns h) @ conns h ! i # drop (Suc i) (conns h)" using assms(2) by (rule id_take_nth_drop)
  moreover have "conn_ok (hub_t h) (conns h ! i)" "sc_chan (conns h ! i) = None \<or> \<not> sc_done (conns h ! i)"
    using assms by (simp_all add: hub_inv_def chans_ok_def list_all_length)
  ultimately show thesis using that assms(2) by simp
qed

lemma wait_check_ok:
  assumes "conn_ok t c" and "sc_answer c = Some a" and "\<not> sc_done c"
  shows "conn_ok t (snd (wait_check t c))"
proof -
  let ?ms = "stream_messages t (sc_stream c)" and ?n = "sc_index c"
  have a: "sc_start c = 0" "sc_out c = take ?n ?ms" "?n \<le> length ?ms \<or> ?n = 0"
    "list_all (\<lambda>m. \<not> is_answer (Some a) (sm_Message m)) (sc_out c)"
    using assms by (auto simp: conn_ok_def Let_def)
  show ?thesis
  proof (cases "?n < length ?ms")
    case True
    then have eq: "take (Suc ?n) ?ms = sc_out c @ [?ms ! ?n]" using a(2) by (simp add: take_Suc_conv_app_nth)
    show ?thesis
      using a(1,4) True assms(2,3) eq unfolding conn_ok_def wait_check_def Let_def by simp
  next
    case False
    then show ?thesis
      using assms(1) conn_ok_done[of t "c\<lparr>sc_chan := None\<rparr>"] by (simp add: wait_check_def Let_def conn_ok_fields)
  qed
qed

lemma wait_end_sigs:
  "map_of (signals (wait_end t c)) s = Some ch \<Longrightarrow> map_of (signals t) s = Some ch"
  "full_chans (wait_end t c) = full_chans t" "next_chan (wait_end t c) = next_chan t"
  by (auto simp: wait_end_def split: if_splits)

lemma new_signal_sigs:
  "map_of (signals (new_signal sid t)) s = Some ch \<Longrightarrow> map_of (signals t) s = Some ch \<or> ch = next_chan t"
  "full_chans (new_signal sid t) = full_chans t" "next_chan (new_signal sid t) = Suc (next_chan t)"
  by (auto simp: new_signal_def split: if_splits)

lemma take_signal_sigs:
  "signals (take_signal ch t) = signals t" "next_chan (take_signal ch t) = next_chan t"
  "set (full_chans (take_signal ch t)) = set (full_chans t) - {ch}"
  by (auto simp: take_signal_def)

lemma wake_ok_idle: "\<not> sc_waiting c \<or> sc_chan c = None \<or> length (stream_messages t (sc_stream c)) \<le> sc_index c \<Longrightarrow> wake_ok t c"
  by (auto simp: wake_ok_def)

lemma conn_ok_new_signal [simp]: "conn_ok (new_signal sid t) c = conn_ok t c" by (rule conn_ok_cong) simp
lemma conn_ok_take_signal [simp]: "conn_ok (take_signal ch t) c = conn_ok t c" by (rule conn_ok_cong) simp
lemma conn_ok_wait_end [simp]: "conn_ok (wait_end t d) c = conn_ok t c" by (rule conn_ok_cong) simp
lemma conn_ok_signals [simp]: "conn_ok (t\<lparr>signals := s\<rparr>) c = conn_ok t c" by (rule conn_ok_cong) simp

text \<open>The steps of one connection, GET and POST, keep the invariant.\<close>

lemma hub_inv_get_steps:
  assumes inv: "hub_inv h" and i: "i < length (conns h)" and get: "sc_answer (conns h ! i) = None"
  shows "\<not> sc_done (conns h ! i) \<Longrightarrow> hub_inv (set_conn i (stream_register (hub_t h) (conns h ! i)) h)"
    and "sc_chan (conns h ! i) = Some ch \<Longrightarrow> hub_inv (set_conn i (stream_wake ch (hub_t h) (conns h ! i)) h)"
    and "hub_inv (set_conn i (stream_close (hub_t h) (conns h ! i)) h)"
proof -
  from conn_split[OF inv i] obtain as c bs where c: "conns h = as @ c # bs" "length as = i" "conns h ! i = c"
    "conn_ok (hub_t h) c" "sc_chan c = None \<or> \<not> sc_done c" by blast
  have fl: "conn_ok (hub_t h) (flush_stream (hub_t h) c)" using c(3,4) get by (intro flush_stream_ok) simp_all
  note ends = flush_stream_simps(6)[of "hub_t h" c]
  note up = hub_inv_conn[OF inv c(1), unfolded c(2)]
  show "\<not> sc_done (conns h ! i) \<Longrightarrow> hub_inv (set_conn i (stream_register (hub_t h) (conns h ! i)) h)"
    unfolding stream_register_def c(3) using fl ends
    by (intro up wake_ok_idle) (auto simp: conn_ok_fields new_signal_sigs(2,3) dest: new_signal_sigs(1))
  show "sc_chan (conns h ! i) = Some ch \<Longrightarrow> hub_inv (set_conn i (stream_wake ch (hub_t h) (conns h ! i)) h)"
    unfolding stream_wake_def c(3) using fl ends c(5)
    by (intro up wake_ok_idle) (auto simp: take_signal_sigs)
  show "hub_inv (set_conn i (stream_close (hub_t h) (conns h ! i)) h)"
    unfolding stream_close_def c(3) using c(4)
    by (intro up wake_ok_idle) (simp_all add: conn_ok_fields conn_ok_done split: if_splits)
qed

lemma hub_inv_post_steps:
  assumes inv: "hub_inv h" and i: "i < length (conns h)" and post: "sc_answer (conns h ! i) \<noteq> None"
  shows "\<not> sc_done (conns h ! i) \<Longrightarrow> \<not> sc_waiting (conns h ! i) \<Longrightarrow> hub_inv (set_conn i (wait_begin (hub_t h) (conns h ! i)) h)"
    and "sc_chan (conns h ! i) \<noteq> None \<Longrightarrow> hub_inv (set_conn i (wait_check (hub_t h) (conns h ! i)) h)"
    and "sc_chan (conns h ! i) = Some ch \<Longrightarrow> hub_inv (set_conn i (wait_wake ch (hub_t h) (conns h ! i)) h)"
    and "hub_inv (set_conn i (wait_abort (hub_t h) (conns h ! i)) h)"
proof -
  from conn_split[OF inv i] obtain as c bs where c: "conns h = as @ c # bs" "length as = i" "conns h ! i = c"
    "conn_ok (hub_t h) c" "sc_chan c = None \<or> \<not> sc_done c" by blast
  note up = hub_inv_conn[OF inv c(1), unfolded c(2)]
  show "\<not> sc_done (conns h ! i) \<Longrightarrow> \<not> sc_waiting (conns h ! i) \<Longrightarrow> hub_inv (set_conn i (wait_begin (hub_t h) (conns h ! i)) h)"
    unfolding wait_begin_def c(3) using c(4)
    by (intro up wake_ok_idle) (auto simp: conn_ok_fields new_signal_sigs(2,3) dest: new_signal_sigs(1))
  show "sc_chan (conns h ! i) = Some ch \<Longrightarrow> hub_inv (set_conn i (wait_wake ch (hub_t h) (conns h ! i)) h)"
    unfolding wait_wake_def c(3) using c(4,5)
    by (intro up wake_ok_idle) (auto simp: conn_ok_fields take_signal_sigs)
  show "hub_inv (set_conn i (wait_abort (hub_t h) (conns h ! i)) h)"
    unfolding wait_abort_def c(3) using c(4)
    by (intro up wake_ok_idle) (auto simp: conn_ok_fields conn_ok_done wait_end_sigs(2,3) dest: wait_end_sigs(1))
  show "sc_chan (conns h ! i) \<noteq> None \<Longrightarrow> hub_inv (set_conn i (wait_check (hub_t h) (conns h ! i)) h)"
  proof -
    assume ch: "sc_chan (conns h ! i) \<noteq> None"
    with c(3,5) have nd: "\<not> sc_done c" by auto
    obtain a where "sc_answer c = Some a" using post c(3) by auto
    from wait_check_ok[OF c(4) this nd] have ok: "conn_ok (hub_t h) (snd (wait_check (hub_t h) c))" .
    obtain t' c' where tc: "wait_check (hub_t h) c = (t', c')" by (cases "wait_check (hub_t h) c")
    have t': "t' = wait_end (hub_t h) c \<and> sc_chan c' = None \<or>
        t' = hub_t h \<and> sc_chan c' = sc_chan c \<and> \<not> sc_done c' \<and> length (stream_messages (hub_t h) (sc_stream c')) \<le> sc_index c'"
      using tc nd by (auto simp: wait_check_def Let_def split: if_splits)
    then have ok': "conn_ok t' c'" using ok tc by auto
    from t' show ?thesis
      unfolding c(3) tc using ok'
      by (elim disjE conjE) (intro up wake_ok_idle; auto simp: wait_end_sigs(2,3) dest: wait_end_sigs(1))+
  qed
qed

lemma hub_step_inv: "hub_step h h' \<Longrightarrow> hub_inv h \<Longrightarrow> hub_inv h'"
proof (induction rule: hub_step.induct)
  case (h_write msg h t r)
  from st_Write_effect[OF h_write(1)] show ?case
    using h_write(2) by (auto intro: hub_inv_write)
next
  case (h_read ctxErr pick h t r)
  then show ?case using st_Read_same hub_inv_same by blast
next
  case (h_notify msg sid h ctxErr pick t r)
  from receive_same[OF h_notify(3)] have "same_streams (hub_t h) t" by (simp add: same_streams_def)
  then show ?case using h_notify(4) hub_inv_same by blast
next
  case (h_post msg sid h ctxErr pick t r)
  from receive_same[OF h_post(4)] have s: "same_streams (hub_t h) t" by (simp add: same_streams_def)
  let ?c = "(open_stream sid 0 (Some (msg_ID msg)))\<lparr>sc_done := r \<noteq> None\<rparr>"
  have "conn_ok t ?c" by (simp add: conn_ok_def open_stream_def)
  from hub_inv_add[OF hub_inv_same[OF h_post(5) s], of ?c] this show ?case by (simp add: open_stream_def)
next
  case (h_get h sid start)
  have "conn_ok (hub_t h) (flush_stream (hub_t h) (open_stream sid start None))"
    by (rule flush_stream_ok) (simp_all add: conn_ok_def open_stream_def)
  then show ?case using h_get(2) by (intro hub_inv_add) (simp_all add: open_stream_def)
next
  case (h_close h t)
  then show ?case using st_Close_same hub_inv_same by blast
qed (blast intro: hub_inv_get_steps hub_inv_post_steps)+

lemma hub_steps_inv: "hub_steps (new_hub s) h \<Longrightarrow> hub_inv h"
proof (induction rule: rtranclp_induct)
  case base
  show ?case by (rule new_hub_inv)
qed (rule hub_step_inv)

section \<open>Routing of responses\<close>

text \<open>Where the response to the request \<open>a\<close> goes: to its stream, unless it is there already.\<close>

definition routed :: "StreamableServerTransport \<Rightarrow> go_any \<Rightarrow> int \<Rightarrow> bool" where
  "routed t a sid \<longleftrightarrow> map_of (clientRequestStreams t) a = Some sid \<or>
     (\<exists>m \<in> set (stream_messages t sid). is_answer (Some a) (sm_Message m))"

definition route_inv :: "hub \<Rightarrow> bool" where
  "route_inv h \<longleftrightarrow>
     (\<forall>c \<in> set (conns h). \<forall>a. sc_answer c = Some a \<and>
        (\<forall>d \<in> set (conns h). sc_answer d = Some a \<longrightarrow> sc_stream d = sc_stream c) \<longrightarrow> routed (hub_t h) a (sc_stream c))"

lemma route_inv_mono:
  assumes "route_inv h" and "\<And>a s. routed (hub_t h) a s \<Longrightarrow> routed t' a s"
    and "map (\<lambda>c. (sc_stream c, sc_answer c)) cs = map (\<lambda>c. (sc_stream c, sc_answer c)) (conns h)"
  shows "route_inv (h\<lparr>hub_t := t', conns := cs\<rparr>)"
proof -
  have s: "(\<lambda>c. (sc_stream c, sc_answer c)) ` set cs = (\<lambda>c. (sc_stream c, sc_answer c)) ` set (conns h)"
    using assms(3) by (metis list.set_map)
  have *: "\<exists>d \<in> set (conns h). sc_stream d = sc_stream c \<and> sc_answer d = sc_answer c" if "c \<in> set cs" for c
    using s imageI[OF that, of "\<lambda>c. (sc_stream c, sc_answer c)"] by auto
  have **: "\<exists>d \<in> set cs. sc_stream d = sc_stream c \<and> sc_answer d = sc_answer c" if "c \<in> set (conns h)" for c
    using s[symmetric] imageI[OF that, of "\<lambda>c. (sc_stream c, sc_answer c)"] by auto
  show ?thesis
    unfolding route_inv_def
  proof (intro ballI allI impI)
    fix c a
    assume c: "c \<in> set (conns (h\<lparr>hub_t := t', conns := cs\<rparr>))"
      and a: "sc_answer c = Some a \<and> (\<forall>d \<in> set (conns (h\<lparr>hub_t := t', conns := cs\<rparr>)). sc_answer d = Some a \<longrightarrow> sc_stream d = sc_stream c)"
    from c have "c \<in> set cs" by simp
    from *[OF this] obtain d where d: "d \<in> set (conns h)" "sc_stream d = sc_stream c" "sc_answer d = sc_answer c" by blast
    have "sc_stream e = sc_stream d" if e: "e \<in> set (conns h)" "sc_answer e = Some a" for e
    proof -
      from **[OF e(1)] obtain f where "f \<in> set cs" "sc_stream f = sc_stream e" "sc_answer f = sc_answer e" by blast
      with a e d(2) show ?thesis by simp
    qed
    with d a assms(1) have "routed (hub_t h) a (sc_stream d)" unfolding route_inv_def by metis
    then show "routed (hub_t (h\<lparr>hub_t := t', conns := cs\<rparr>)) a (sc_stream c)" using assms(2) d(2) by simp
  qed
qed

lemma st_Write_routed:
  assumes "st_Write msg t = (t', CRet r)" and "routed t a s"
  shows "routed t' a s"
proof (cases "r = None")
  case True
  with st_Write_effect[OF assms(1)] obtain u sid where u: "getStreamID msg t = Some (u, sid)" "appends msg sid t t'" by auto
  have mono: "set (stream_messages t s) \<subseteq> set (stream_messages t' s)" using u(2) by (cases "s = sid") (auto simp: appends_def)
  show ?thesis
  proof (cases "map_of (clientRequestStreams t') a = map_of (clientRequestStreams t) a")
    case True
    with assms(2) mono show ?thesis by (auto simp: routed_def)
  next
    case False
    note same = getStreamID_same[OF u(1)]
    have rel: "clientRequestStreams (releaseClientRequest i x) = AList.delete i (clientRequestStreams x)" for i x
      by (auto simp: releaseClientRequest_def delete_conv' map_of_eq_None_iff split: option.split
          intro!: filter_True[symmetric])
    have sg: "clientRequestStreams (signal_stream k x) = clientRequestStreams x" for k x
      by (simp add: signal_stream_def split: option.split)
    have "msg_Method msg = [] \<and> msg_ID msg \<noteq> ANil \<and> clientRequestStreams t' = AList.delete (msg_ID msg) (clientRequestStreams t)"
      using assms(1) u(1) same False by (auto simp: st_Write_def Let_def rel sg split: if_splits)
    with False have m: "msg_Method msg = []" "a = msg_ID msg" "map_of (clientRequestStreams t) a \<noteq> None" by (auto simp: eq_commute[of None] split: if_splits)
    show ?thesis
    proof (cases "map_of (clientRequestStreams t) a = Some s")
      case True
      with m u(1) have "sid = s" by (auto simp: getStreamID_def split: if_splits)
      with u(2) m show ?thesis by (auto simp: routed_def appends_def is_answer_def)
    next
      case False
      with assms(2) mono show ?thesis by (auto simp: routed_def)
    qed
  qed
qed (use st_Write_effect[OF assms(1)] assms(2) in auto)

lemma receive_client:
  assumes "receive ctxErr pick msg sid t = (t', CRet r)"
  shows "clientRequestStreams t' =
    (if msg_ID msg \<noteq> ANil \<and> msg_Method msg \<noteq> [] then AList.update (msg_ID msg) sid (clientRequestStreams t)
     else clientRequestStreams t)"
  using assms
  by (auto simp: receive_def st_enqueue_def Let_def dest!: select_case_mem split: if_splits option.splits)

lemma conn_steps_same:
  "map (\<lambda>c. (sc_stream c, sc_answer c)) (cs[i := c']) = map (\<lambda>c. (sc_stream c, sc_answer c)) cs"
  if "sc_stream c' = sc_stream (cs ! i)" "sc_answer c' = sc_answer (cs ! i)"
  using that by (metis (mono_tags, lifting) list_update_id map_update)

lemma routed_same:
  assumes "\<And>s. stream_messages t' s = stream_messages t s" and "clientRequestStreams t' = clientRequestStreams t"
  shows "routed t a s \<Longrightarrow> routed t' a s"
  using assms by (simp add: routed_def)

lemma route_inv_add:
  assumes "route_inv h" and "sc_answer c = None"
  shows "route_inv (h\<lparr>conns := conns h @ [c]\<rparr>)"
  unfolding route_inv_def
proof (intro ballI allI impI)
  fix d a
  assume d: "d \<in> set (conns (h\<lparr>conns := conns h @ [c]\<rparr>))"
    and a: "sc_answer d = Some a \<and> (\<forall>e \<in> set (conns (h\<lparr>conns := conns h @ [c]\<rparr>)). sc_answer e = Some a \<longrightarrow> sc_stream e = sc_stream d)"
  from d have "d = c \<or> d \<in> set (conns h)" by auto
  with a assms(2) have "d \<in> set (conns h)" by auto
  moreover from a have "\<forall>e \<in> set (conns h). sc_answer e = Some a \<longrightarrow> sc_stream e = sc_stream d" by simp
  ultimately have "routed (hub_t h) a (sc_stream d)" using assms(1) a unfolding route_inv_def by blast
  then show "routed (hub_t (h\<lparr>conns := conns h @ [c]\<rparr>)) a (sc_stream d)" by simp
qed

lemma route_inv_step: "hub_step h h' \<Longrightarrow> route_inv h \<Longrightarrow> route_inv h'"
proof (induction rule: hub_step.induct)
  case (h_write msg h t r)
  from route_inv_mono[OF h_write(2) st_Write_routed[OF h_write(1)] refl] show ?case by simp
next
  case (h_read ctxErr pick h t r)
  have "clientRequestStreams t = clientRequestStreams (hub_t h)"
    using h_read(1) by (auto simp: st_Read_def Let_def dest!: select_case_mem split: option.splits if_splits list.splits)
  with route_inv_mono[OF h_read(2) routed_same refl, of t] same_streams_messages[OF st_Read_same[OF h_read(1)]]
  show ?case by simp
next
  case (h_notify msg sid h ctxErr pick t r)
  from receive_same[OF h_notify(3)] have s: "same_streams (hub_t h) t" by (simp add: same_streams_def)
  with route_inv_mono[OF h_notify(4) routed_same refl, of t] same_streams_messages[OF s] receive_client[OF h_notify(3)] h_notify(1)
  show ?case by auto
next
  case (h_post msg sid h ctxErr pick t r)
  let ?c = "(open_stream sid 0 (Some (msg_ID msg)))\<lparr>sc_done := r \<noteq> None\<rparr>"
  from receive_same[OF h_post(4)] have s: "same_streams (hub_t h) t" by (simp add: same_streams_def)
  have cl: "clientRequestStreams t = AList.update (msg_ID msg) sid (clientRequestStreams (hub_t h))"
    using receive_client[OF h_post(4)] h_post(1,2) by simp
  have keep: "routed t b x" if "routed (hub_t h) b x" "b \<noteq> msg_ID msg" for b x
    using that same_streams_messages[OF s] by (auto simp: routed_def cl)
  have new: "routed t (msg_ID msg) sid" by (simp add: routed_def cl)
  have c: "sc_stream ?c = sid" "sc_answer ?c = Some (msg_ID msg)" by (simp_all add: open_stream_def)
  show ?case
    unfolding route_inv_def
  proof (intro ballI allI impI)
    fix d a
    assume d: "d \<in> set (conns (h\<lparr>hub_t := t, conns := conns h @ [?c]\<rparr>))"
      and a: "sc_answer d = Some a \<and> (\<forall>e \<in> set (conns (h\<lparr>hub_t := t, conns := conns h @ [?c]\<rparr>)). sc_answer e = Some a \<longrightarrow> sc_stream e = sc_stream d)"
    show "routed (hub_t (h\<lparr>hub_t := t, conns := conns h @ [?c]\<rparr>)) a (sc_stream d)"
    proof (cases "a = msg_ID msg")
      case True
      then show ?thesis using a c new by auto
    next
      case False
      from d have "d = ?c \<or> d \<in> set (conns h)" by simp
      with a c(2) False have "d \<in> set (conns h)" by (metis option.inject)
      moreover from a have "\<forall>e \<in> set (conns h). sc_answer e = Some a \<longrightarrow> sc_stream e = sc_stream d" by simp
      ultimately have "routed (hub_t h) a (sc_stream d)" using h_post(5) a unfolding route_inv_def by blast
      with keep False show ?thesis by simp
    qed
  qed
next
  case (h_get h sid start)
  have "sc_answer (flush_stream (hub_t h) (open_stream sid start None)) = None" by (simp add: open_stream_def)
  with h_get(2) show ?case by (rule route_inv_add)
next
  case (h_close h t)
  have "clientRequestStreams t = clientRequestStreams (hub_t h)"
    using h_close(1) by (auto simp: st_Close_def split: if_splits)
  with route_inv_mono[OF h_close(2) routed_same refl, of t] same_streams_messages[OF st_Close_same[OF h_close(1)]]
  show ?case by simp
qed (unfold set_conn_def, (rule route_inv_mono[OF _ routed_same conn_steps_same], assumption;
    simp add: stream_register_def stream_wake_def stream_close_def wait_begin_def wait_check_def wait_wake_def wait_abort_def
      new_signal_def take_signal_def wait_end_def stream_messages_def flush_stream_def Let_def)+)

section \<open>Theorems\<close>

lemma reachable_conn:
  assumes "hub_steps (new_hub s) h" and "c \<in> set (conns h)"
  shows "ids_ok (hub_t h)" and "conn_ok (hub_t h) c" and "wake_ok (hub_t h) c"
  using hub_steps_inv[OF assms(1)] assms(2) by (auto simp: hub_inv_def list_all_iff)

lemma reachable_route: "hub_steps (new_hub s) h \<Longrightarrow> route_inv h"
proof (induction rule: rtranclp_induct)
  case base
  show ?case by (simp add: route_inv_def new_hub_def)
qed (rule route_inv_step)

lemma conn_out_length:
  assumes "conn_ok t c"
  shows "sc_index c = sc_start c + length (sc_out c)"
  using assms by (auto simp: conn_ok_def Let_def)

lemma conn_out_piece:
  assumes "hub_steps (new_hub s) h" and "c \<in> set (conns h)"
  shows "sc_out c = take (length (sc_out c)) (drop (sc_start c) (stream_messages (hub_t h) (sc_stream c)))"
  using reachable_conn(2)[OF assms] conn_out_length[OF reachable_conn(2)[OF assms]] by (auto simp: conn_ok_def Let_def)

lemma conn_out_ids:
  assumes "hub_steps (new_hub s) h" and "c \<in> set (conns h)"
  shows "map sm_EventID (sc_out c) =
    map (\<lambda>i. formatEventID (sc_stream c) (int (sc_start c + i))) [0..<length (sc_out c)]"
proof -
  let ?ms = "stream_messages (hub_t h) (sc_stream c)"
  note out = conn_out_piece[OF assms]
  have "sm_EventID (sc_out c ! i) = formatEventID (sc_stream c) (int (sc_start c + i))" if "i < length (sc_out c)" for i
  proof -
    have "length (sc_out c) \<le> length ?ms - sc_start c" using arg_cong[OF out, of length] by simp
    then have lt: "sc_start c + i < length ?ms" using that by simp
    then have "sc_out c ! i = ?ms ! (sc_start c + i)" using that by (subst out) simp
    with lt show ?thesis using reachable_conn(1)[OF assms] by (simp add: ids_ok_def)
  qed
  then show ?thesis by (intro nth_equalityI) simp_all
qed

text \<open>
  C20. A connection delivers its stream: in every interleaving of writes, reads, requests,
  connections, wake-ups and disconnects, what a GET stream or the response of a POST has
  written is a gapless piece of the messages of its stream, from the index it started at, in
  order and without repetition, each with the event id of its position; and a POST writes
  nothing after the response to its request.
\<close>

theorem sse_connection_delivers:
  assumes "hub_steps (new_hub s) h" and "c \<in> set (conns h)"
  shows "sc_out c = take (length (sc_out c)) (drop (sc_start c) (stream_messages (hub_t h) (sc_stream c))) \<and>
    map sm_EventID (sc_out c) =
      map (\<lambda>i. formatEventID (sc_stream c) (int (sc_start c + i))) [0..<length (sc_out c)] \<and>
    (\<forall>a. sc_answer c = Some a \<longrightarrow> list_all (\<lambda>m. \<not> is_answer (Some a) (sm_Message m)) (butlast (sc_out c)))"
  using conn_out_piece[OF assms] conn_out_ids[OF assms] reachable_conn(2)[OF assms] by (auto simp: conn_ok_def Let_def)



lemma stream_messages_nextStreamID [simp]: "stream_messages (t\<lparr>nextStreamID := n\<rparr>) s = stream_messages t s"
  by (simp add: stream_messages_def)

lemma messages_stay: "hub_step h h' \<Longrightarrow> set (stream_messages (hub_t h) k) \<subseteq> set (stream_messages (hub_t h') k)"
proof (induction rule: hub_step.induct)
  case (h_write m h t r)
  from st_Write_effect[OF h_write] show ?case
  proof (elim disjE conjE exE)
    fix u sid
    assume "appends m sid (hub_t h) t"
    then show ?thesis by (cases "k = sid") (auto simp: appends_def)
  qed simp
next
  case (h_read ctxErr pick h t r)
  then show ?case using same_streams_messages[OF st_Read_same] by simp
next
  case (h_notify msg sid h ctxErr pick t r)
  from same_streams_messages[OF receive_same[OF h_notify(3)]] show ?case by simp
next
  case (h_post msg sid h ctxErr pick t r)
  from same_streams_messages[OF receive_same[OF h_post(4)]] show ?case by simp
next
  case (h_close h t)
  then show ?case using same_streams_messages[OF st_Close_same] by simp
qed (simp_all add: set_conn_def stream_register_def stream_wake_def stream_close_def wait_begin_def wait_check_def
    wait_wake_def wait_abort_def Let_def)

text \<open>
  The response to a request reaches the POST that made it: whatever else happens in the
  session, when the server writes the response to a request whose id no other POST has used,
  that response is on the stream of its POST, which delivers the stream from its beginning.
\<close>

theorem response_reaches_request:
  assumes "hub_steps (new_hub s) h" and "c \<in> set (conns h)" and "sc_answer c = Some a"
    and "\<forall>d \<in> set (conns h). sc_answer d = Some a \<longrightarrow> sc_stream d = sc_stream c"
    and "is_answer (Some a) msg" and "st_Write msg (hub_t h) = (t, CRet None)" and "hub_steps (h\<lparr>hub_t := t\<rparr>) h'"
    and "d \<in> set (conns h')" and "sc_answer d = Some a" and "sc_stream d = sc_stream c"
  shows "(\<exists>m \<in> set (stream_messages (hub_t h') (sc_stream c)). is_answer (Some a) (sm_Message m)) \<and>
    sc_out d = take (length (sc_out d)) (stream_messages (hub_t h') (sc_stream c))"
proof -
  let ?h = "h\<lparr>hub_t := t\<rparr>"
  have "routed (hub_t h) a (sc_stream c)"
    using reachable_route[OF assms(1)] assms(2-4) unfolding route_inv_def by blast
  moreover obtain u sid where u: "getStreamID msg (hub_t h) = Some (u, sid)" "appends msg sid (hub_t h) t"
    using st_Write_effect[OF assms(6)] by auto
  moreover have "a = msg_ID msg" "msg_Method msg = []" using assms(5) by (simp_all add: is_answer_def)
  ultimately have now: "\<exists>m \<in> set (stream_messages t (sc_stream c)). is_answer (Some a) (sm_Message m)"
    using assms(5) by (cases "sid = sc_stream c") (auto simp: routed_def appends_def getStreamID_def split: if_splits)
  have "set (stream_messages (hub_t ?h) k) \<subseteq> set (stream_messages (hub_t h') k)" for k
    using assms(7) by (induction rule: rtranclp_induct) (use messages_stay in blast)+
  with now have ans: "\<exists>m \<in> set (stream_messages (hub_t h') (sc_stream c)). is_answer (Some a) (sm_Message m)" by auto
  have "hub_steps (new_hub s) h'"
    using assms(1,7) hub_step.h_write[OF assms(6)] by (meson converse_rtranclp_into_rtranclp rtranclp_trans)
  note r = reachable_conn(2)[OF this assms(8)]
  from r conn_out_length[OF r] have "sc_out d = take (length (sc_out d)) (stream_messages (hub_t h') (sc_stream d))"
    using assms(9) by (auto simp: conn_ok_def Let_def)
  with ans assms(10) show ?thesis by simp
qed

section \<open>Gaps\<close>

text \<open>
  A GET stream that ends deletes the registration of its stream even when another connection has
  taken the stream over: the live connection stays without a wake-up for every message written
  from then on, until it disconnects.
\<close>

theorem stale_disconnect_silences_stream:
  assumes "hub_steps (new_hub s) h" and "i < length (conns h)" and "j < length (conns h)" and "i \<noteq> j"
    and "sc_stream (conns h ! i) = sc_stream (conns h ! j)" and "sc_chan (conns h ! j) = Some ch"
    and "ch \<notin> set (full_chans (hub_t h))"
    and "t = fst (stream_close (hub_t h) (conns h ! i))" and "st_Write msg t = (t', CRet None)"
    and "getStreamID msg t = Some (u, sc_stream (conns h ! j))"
  shows "length (stream_messages t' (sc_stream (conns h ! j))) = Suc (length (stream_messages (hub_t h) (sc_stream (conns h ! j)))) \<and>
    map_of (signals t') (sc_stream (conns h ! j)) = None \<and> ch \<notin> set (full_chans t')"
proof -
  let ?s = "sc_stream (conns h ! j)"
  from st_Write_effect[OF assms(9)] assms(10) have "appends msg ?s t t'" by auto
  moreover have "signals t = AList.delete ?s (signals (hub_t h))" "full_chans t = full_chans (hub_t h)"
    "stream_messages t ?s = stream_messages (hub_t h) ?s"
    using assms(5,8) by (simp_all add: stream_close_def)
  ultimately show ?thesis using assms(7) by (simp add: appends_def)
qed

text \<open>
  A request or response whose id is an array or an object makes the map access in \<open>receive\<close> panic
  with the mutex held: the HTTP server recovers the panic, but from then on every write to the
  session, its close and every message with an id block for ever.
\<close>

theorem unhashable_id_wedges_session:
  assumes "\<not> mu_stuck t" and "\<not> hashable (msg_ID msg)"
  shows "snd (receive ctxErr pick msg sid t) = CPanic \<and>
    (let t' = fst (receive ctxErr pick msg sid t)
     in snd (st_Write m t') = CBlocked \<and> snd (st_Close t') = CBlocked \<and>
        (msg_ID m \<noteq> ANil \<longrightarrow> snd (receive ctxErr' pick' m sid' t') = CBlocked))"
  using assms by (auto simp: receive_def st_Write_def st_Close_def Let_def)

section \<open>A session in action\<close>

definition demo_request :: JSONRPCMessage where
  "demo_request = \<lparr>msg_ID = ANum 1, msg_Method = ''ping'', msg_Params = ANil, msg_Result = ANil, msg_Error = ANil, msg_JSONRPC = ''2.0''\<rparr>"

definition demo_response :: JSONRPCMessage where
  "demo_response = \<lparr>msg_ID = ANum 1, msg_Method = [], msg_Params = ANil, msg_Result = AObj [], msg_Error = ANil, msg_JSONRPC = ''2.0''\<rparr>"

definition demo_note :: JSONRPCMessage where
  "demo_note = \<lparr>msg_ID = ANil, msg_Method = ''notifications/message'', msg_Params = ANil, msg_Result = ANil, msg_Error = ANil, msg_JSONRPC = ''2.0''\<rparr>"

definition after_write :: "JSONRPCMessage \<Rightarrow> hub \<Rightarrow> hub" where
  "after_write msg h = h\<lparr>hub_t := fst (st_Write msg (hub_t h))\<rparr>"

definition demo_hub1 :: hub where
  "demo_hub1 = (new_hub ''S'')\<lparr>
     hub_t := fst (receive None 0 demo_request 1 ((hub_t (new_hub ''S''))\<lparr>nextStreamID := 1\<rparr>)),
     conns := [(open_stream 1 0 (Some (ANum 1)))\<lparr>sc_done := False\<rparr>]\<rparr>"

definition demo_hub2 :: hub where
  "demo_hub2 = after_write demo_response demo_hub1"

definition demo_hub3 :: hub where
  "demo_hub3 = set_conn 0 (wait_begin (hub_t demo_hub2) (conns demo_hub2 ! 0)) demo_hub2"

definition demo_hub4 :: hub where
  "demo_hub4 = set_conn 0 (wait_check (hub_t demo_hub3) (conns demo_hub3 ! 0)) demo_hub3"

text \<open>A notification without a request in flight goes to the standalone stream, which two GETs deliver.\<close>

definition demo_get1 :: hub where
  "demo_get1 = (after_write demo_note (new_hub ''S''))\<lparr>conns :=
     [flush_stream (hub_t (after_write demo_note (new_hub ''S''))) (open_stream 0 0 None)]\<rparr>"

definition demo_get2 :: hub where
  "demo_get2 = after_write demo_note demo_get1"

definition demo_get3 :: hub where
  "demo_get3 = demo_get2\<lparr>conns := conns demo_get2 @ [flush_stream (hub_t demo_get2) (open_stream 0 1 None)]\<rparr>"

definition demo_wait :: hub where
  "demo_wait = after_write demo_note (set_conn 0 (stream_register (hub_t demo_get1) (conns demo_get1 ! 0)) demo_get1)"

lemmas demo_hub_defs = demo_hub1_def demo_hub2_def demo_hub3_def demo_hub4_def demo_get1_def demo_get2_def
  demo_get3_def demo_wait_def after_write_def

lemma after_write_step: "snd (st_Write msg (hub_t h)) = CRet None \<Longrightarrow> hub_step h (after_write msg h)"
  unfolding after_write_def by (rule hub_step.h_write[of msg h _ None]) (simp add: prod_eq_iff)

lemma demo_post_step: "hub_step (new_hub ''S'') demo_hub1"
proof -
  let ?h = "new_hub ''S''"
  have r: "snd (receive None 0 demo_request 1 ((hub_t ?h)\<lparr>nextStreamID := 1\<rparr>)) = CRet None" by code_simp
  have "hub_step ?h (?h\<lparr>hub_t := fst (receive None 0 demo_request 1 ((hub_t ?h)\<lparr>nextStreamID := 1\<rparr>)),
      conns := conns ?h @ [(open_stream 1 0 (Some (msg_ID demo_request)))\<lparr>sc_done := None \<noteq> (None :: mcp_error option)\<rparr>]\<rparr>)"
    by (rule hub_step.h_post[where ctxErr = None and pick = 0])
      (simp_all add: demo_request_def[THEN arg_cong[of _ _ msg_ID]] demo_request_def[THEN arg_cong[of _ _ msg_Method]]
        new_hub_def newStreamableServerTransport_def r[unfolded new_hub_def newStreamableServerTransport_def, simplified] prod_eq_iff)
  then show ?thesis by (simp add: demo_hub1_def demo_request_def new_hub_def)
qed

lemma demo_write_step: "hub_step demo_hub1 demo_hub2"
  unfolding demo_hub2_def by (rule after_write_step) code_simp

lemma demo_wait_step: "hub_step demo_hub2 demo_hub3"
  unfolding demo_hub3_def by (rule hub_step.h_wait) code_simp+

lemma demo_check_step: "hub_step demo_hub3 demo_hub4"
  unfolding demo_hub4_def by (rule hub_step.h_check) code_simp+

lemma demo_get1_steps: "hub_steps (new_hub ''S'') demo_get1"
proof -
  let ?h = "after_write demo_note (new_hub ''S'')"
  have "hub_step (new_hub ''S'') ?h" by (rule after_write_step) code_simp
  moreover have "hub_step ?h (?h\<lparr>conns := conns ?h @ [flush_stream (hub_t ?h) (open_stream 0 0 None)]\<rparr>)"
    by (rule hub_step.h_get) code_simp
  moreover have "conns ?h = []" by code_simp
  ultimately show ?thesis by (simp add: demo_get1_def)
qed

lemma demo_hub4_steps: "hub_steps (new_hub ''S'') demo_hub4"
  using demo_post_step demo_write_step demo_wait_step demo_check_step
  by (meson rtranclp.rtrancl_refl rtranclp.rtrancl_into_rtrancl)

lemma demo_get3_steps: "hub_steps (new_hub ''S'') demo_get3"
proof -
  have "hub_step demo_get1 demo_get2" unfolding demo_get2_def by (rule after_write_step) code_simp
  moreover have "hub_step demo_get2 demo_get3" unfolding demo_get3_def by (rule hub_step.h_get) code_simp
  ultimately show ?thesis using demo_get1_steps by (meson rtranclp.rtrancl_into_rtrancl)
qed

lemma demo_wait_steps: "hub_steps (new_hub ''S'') demo_wait"
proof -
  let ?h = "set_conn 0 (stream_register (hub_t demo_get1) (conns demo_get1 ! 0)) demo_get1"
  have "hub_step demo_get1 ?h" by (rule hub_step.h_register) code_simp+
  moreover have "hub_step ?h demo_wait" unfolding demo_wait_def by (rule after_write_step) code_simp
  ultimately show ?thesis using demo_get1_steps by (meson rtranclp.rtrancl_into_rtrancl)
qed

lemma nth_in_conns: "i < length (conns h) \<Longrightarrow> conns h ! i \<in> set (conns h)"
  by simp

theorem sse_connection_delivers_witness:
  "let c = conns demo_hub4 ! 0
   in map sm_EventID (sc_out c) = [''1_0''] \<and> sc_done c \<and>
      sc_out c = take (length (sc_out c)) (drop (sc_start c) (stream_messages (hub_t demo_hub4) (sc_stream c)))"
proof -
  have "0 < length (conns demo_hub4)" by code_simp
  from sse_connection_delivers[OF demo_hub4_steps nth_in_conns[OF this]]
  have "sc_out (conns demo_hub4 ! 0) = take (length (sc_out (conns demo_hub4 ! 0)))
      (drop (sc_start (conns demo_hub4 ! 0)) (stream_messages (hub_t demo_hub4) (sc_stream (conns demo_hub4 ! 0))))" by blast
  moreover have "map sm_EventID (sc_out (conns demo_hub4 ! 0)) = [''1_0'']" "sc_done (conns demo_hub4 ! 0)" by code_simp+
  ultimately show ?thesis unfolding Let_def by blast
qed



theorem response_reaches_request_witness:
  "(\<exists>m \<in> set (stream_messages (hub_t demo_hub4) 1). is_answer (Some (ANum 1)) (sm_Message m)) \<and>
   sc_out (conns demo_hub4 ! 0) = take 1 (stream_messages (hub_t demo_hub4) 1)"
proof -
  have l: "0 < length (conns demo_hub1)" "0 < length (conns demo_hub4)" by code_simp+
  have f: "sc_answer (conns demo_hub1 ! 0) = Some (ANum 1)" "sc_stream (conns demo_hub1 ! 0) = 1"
    "is_answer (Some (ANum 1)) demo_response" "snd (st_Write demo_response (hub_t demo_hub1)) = CRet None"
    "sc_answer (conns demo_hub4 ! 0) = Some (ANum 1)" "sc_stream (conns demo_hub4 ! 0) = 1" "length (sc_out (conns demo_hub4 ! 0)) = 1"
    "list_all (\<lambda>d. sc_stream d = 1) (conns demo_hub1)" by code_simp+
  have one: "hub_steps (new_hub ''S'') demo_hub1" using demo_post_step by simp
  have w: "st_Write demo_response (hub_t demo_hub1) = (fst (st_Write demo_response (hub_t demo_hub1)), CRet None)"
    using f(4) by (simp add: prod_eq_iff)
  have rest: "hub_steps (demo_hub1\<lparr>hub_t := fst (st_Write demo_response (hub_t demo_hub1))\<rparr>) demo_hub4"
    using demo_wait_step demo_check_step unfolding demo_hub2_def after_write_def
    by (meson rtranclp.rtrancl_refl rtranclp.rtrancl_into_rtrancl)
  have u: "\<forall>d \<in> set (conns demo_hub1). sc_answer d = Some (ANum 1) \<longrightarrow> sc_stream d = sc_stream (conns demo_hub1 ! 0)"
    using f(2,8) by (simp add: list_all_iff)
  from response_reaches_request[OF one nth_in_conns[OF l(1)] f(1) u f(3) w rest nth_in_conns[OF l(2)] f(5)] f(2,6,7)
  show ?thesis by simp
qed

end
