(* ===== verification/Streamable_Handler.thy ===== *)
theory Streamable_Handler
  imports Streamable_Props
begin

text \<open>
  Model of \<open>StreamableHTTPHandler\<close> in \<open>transport_streamable.go\<close>: the table of sessions with its cap,
  the reaper of idle sessions, the three HTTP methods and their status codes. Transports live in
  a store, for a connection may go on using a session that has left the table. Whether the
  request comes in over the loopback interface for another host, whether \<open>getServer\<close> gives a
  server, the random session id and what other goroutines do between two critical sections are
  arguments; logging and response headers other than the status are left out.
\<close>

section \<open>State\<close>

record StreamableHTTPConfig =
  MaxSessions :: int
  SessionTimeout :: duration
  MaxRequestBytes :: int
  DisableLocalhostProtection :: bool

definition defaultMaxRequestBytes :: int where
  "defaultMaxRequestBytes = 4 * 1024 * 1024"

record StreamableHTTPHandler =
  opts :: StreamableHTTPConfig
  sessions :: "(string, nat) gomap"
  store :: "StreamableServerTransport list"
  reaper_runs :: bool
  handler_closed :: bool
  sessions_stuck :: bool    \<comment> \<open>a goroutine waits for ever with \<open>sessionsMu\<close> held\<close>

definition NewStreamableHTTPHandler :: "StreamableHTTPConfig \<Rightarrow> StreamableHTTPHandler" where
  "NewStreamableHTTPHandler o' =
     (let o' = (if MaxSessions o' \<le> 0 then o'\<lparr>MaxSessions := 1000\<rparr> else o');
          o' = (if SessionTimeout o' \<le> 0 then o'\<lparr>SessionTimeout := 5 * minute\<rparr> else o');
          o' = (if MaxRequestBytes o' \<le> 0 then o'\<lparr>MaxRequestBytes := defaultMaxRequestBytes\<rparr> else o')
      in \<lparr>opts = o', sessions = [], store = [], reaper_runs = False, handler_closed = False,
          sessions_stuck = False\<rparr>)"

definition upd_session :: "nat \<Rightarrow> StreamableServerTransport \<Rightarrow> StreamableHTTPHandler \<Rightarrow> StreamableHTTPHandler" where
  "upd_session a t h = h\<lparr>store := (store h)[a := t]\<rparr>"

section \<open>The table of sessions\<close>

definition getSession :: "string \<Rightarrow> StreamableHTTPHandler \<Rightarrow> mcp_error + nat" where
  "getSession sessionID h =
     (case map_of (sessions h) sessionID of None \<Rightarrow> Inl (PlainErr ''session not found'') | Some a \<Rightarrow> Inr a)"

text \<open>The part of \<open>getOrCreateSession\<close> under the write lock.\<close>

definition insert_session :: "time \<Rightarrow> string \<Rightarrow> StreamableHTTPHandler \<Rightarrow> StreamableHTTPHandler \<times> (mcp_error + nat)" where
  "insert_session now sessionID h =
     (case map_of (sessions h) sessionID of
        Some existing \<Rightarrow> (h, Inr existing)
      | None \<Rightarrow>
          if MaxSessions (opts h) \<le> int (length (sessions h))
          then (h, Inl (PlainErr (''session limit reached ('' @ show_int (MaxSessions (opts h)) @ '')'')))
          else let a = length (store h)
               in (h\<lparr>store := store h @ [touch now (newStreamableServerTransport sessionID)],
                     sessions := AList.update sessionID a (sessions h), reaper_runs := True\<rparr>, Inr a))"

definition getOrCreateSession ::
  "bool \<Rightarrow> (StreamableHTTPHandler \<Rightarrow> StreamableHTTPHandler) \<Rightarrow> time \<Rightarrow> string \<Rightarrow> StreamableHTTPHandler \<Rightarrow>
   StreamableHTTPHandler \<times> (mcp_error + nat)" where
  "getOrCreateSession has_server between now sessionID h =
     (case map_of (sessions h) sessionID of
        Some session \<Rightarrow> (h, Inr session)
      | None \<Rightarrow>
          if \<not> has_server then (h, Inl (PlainErr ''no server available''))
          else insert_session now sessionID (between h))"

text \<open>The goroutine of a session, when \<open>Serve\<close> has returned.\<close>

definition serve_returned :: "string \<Rightarrow> nat \<Rightarrow> StreamableHTTPHandler \<Rightarrow> StreamableHTTPHandler" where
  "serve_returned sessionID a h =
     (if \<not> sessions_stuck h \<and> map_of (sessions h) sessionID = Some a
      then h\<lparr>sessions := AList.delete sessionID (sessions h)\<rparr> else h)"

definition cancel_sessions :: "nat list \<Rightarrow> StreamableHTTPHandler \<Rightarrow> StreamableHTTPHandler" where
  "cancel_sessions as h = fold (\<lambda>a h. upd_session a ((store h ! a)\<lparr>cancelled := True\<rparr>) h) as h"

definition reapIdleSessions :: "time \<Rightarrow> StreamableHTTPHandler \<Rightarrow> StreamableHTTPHandler" where
  "reapIdleSessions now h =
     (let cutoff = now + (- SessionTimeout (opts h));
          idle = filter (\<lambda>a. lastActive (store h ! a) < cutoff) (map snd (sessions h))
      in cancel_sessions idle h)"

definition reaper_tick :: "time \<Rightarrow> StreamableHTTPHandler \<Rightarrow> StreamableHTTPHandler" where
  "reaper_tick now h = (if reaper_runs h \<and> \<not> handler_closed h \<and> \<not> sessions_stuck h then reapIdleSessions now h else h)"

definition handler_Close :: "StreamableHTTPHandler \<Rightarrow> StreamableHTTPHandler" where
  "handler_Close h =
     (if handler_closed h then h
      else if sessions_stuck h then h\<lparr>handler_closed := True\<rparr>
      else cancel_sessions (map snd (sessions h)) (h\<lparr>handler_closed := True\<rparr>))"

section \<open>Requests\<close>

record http_request =
  r_method :: string
  r_accept :: "string list"
  r_session_header :: string
  r_session_query :: string
  r_last_event_id :: string
  r_body :: bytes

definition streamableSessionID :: "http_request \<Rightarrow> string" where
  "streamableSessionID r = (if r_session_header r \<noteq> [] then r_session_header r else r_session_query r)"

definition accept_token :: "(string \<Rightarrow> string) \<Rightarrow> string \<Rightarrow> string" where
  "accept_token ul raw = strings_ToLower ul (strings_TrimSpace (fst (split_at_byte CHR '';'' (strings_TrimSpace raw))))"

definition streamableAccepts :: "(string \<Rightarrow> string) \<Rightarrow> string list \<Rightarrow> bool \<times> bool" where
  "streamableAccepts ul values =
     (let ts = map (accept_token ul) (concat (map (split_byte CHR '','') values))
      in (list_ex (\<lambda>t. t \<in> {''application/json'', ''application/*'', ''*/*''}) ts,
          list_ex (\<lambda>t. t \<in> {''text/event-stream'', ''text/*'', ''*/*''}) ts))"

text \<open>
  An answer: a status with no stream, or the session and the connection that go on delivering.
  \<open>Wedged\<close> stands for a handler that waits for a mutex for ever, and \<open>Crashed\<close> for a panic,
  which the HTTP server recovers. \<open>Doomed\<close> is a connection to an empty stream with a negative
  index, which panics at the first message of the stream.
\<close>

datatype http_answer = Status nat | Streaming nat stream_conn | Wedged | Crashed | Doomed nat int

definition wrap_int :: "int \<Rightarrow> int" where
  "wrap_int i = sint (word_of_int i :: int64)"

definition resume_point :: "string \<Rightarrow> int \<times> int" where
  "resume_point lastEventID =
     (case (if lastEventID = [] then None else parseEventID lastEventID) of
        Some (sid, idx) \<Rightarrow> if 0 \<le> idx \<and> 0 \<le> sid then (sid, wrap_int (idx + 1)) else (0, 0)
      | None \<Rightarrow> (0, 0))"

text \<open>
  The first flush of \<open>streamMessages\<close> holds the read lock with no deferred unlock, so its panic on
  a negative index leaves the mutex locked: every later \<open>Lock\<close> waits for ever, and with one
  waiting so does every \<open>RLock\<close>.
\<close>

definition handleSSEStream ::
  "bool \<Rightarrow> (StreamableHTTPHandler \<Rightarrow> StreamableHTTPHandler) \<Rightarrow> time \<Rightarrow> time \<Rightarrow> bytes \<Rightarrow> http_request \<Rightarrow> StreamableHTTPHandler \<Rightarrow>
   StreamableHTTPHandler \<times> http_answer" where
  "handleSSEStream has_server between now now' src r h =
     (let sessionID = (if streamableSessionID r = [] then randText src else streamableSessionID r)
      in if sessions_stuck h then (h, Wedged) else
         case getOrCreateSession has_server between now sessionID h of
           (h, Inl err) \<Rightarrow> (h, Status 503)
         | (h, Inr a) \<Rightarrow>
             let t = touch now' (store h ! a);
                 (sid, idx) = resume_point (r_last_event_id r)
             in if mu_stuck t then (upd_session a t h, Wedged)
                else if 0 \<le> idx
                then (upd_session a t h, Streaming a (flush_stream t (open_stream sid (nat idx) None)))
                else if stream_messages t sid = [] then (upd_session a t h, Doomed a sid)
                else (upd_session a (t\<lparr>mu_stuck := True\<rparr>) h, Crashed))"

definition handleMessage ::
  "bool \<Rightarrow> (StreamableHTTPHandler \<Rightarrow> StreamableHTTPHandler) \<Rightarrow> time \<Rightarrow> time \<Rightarrow> bytes \<Rightarrow> mcp_error option \<Rightarrow> nat \<Rightarrow> http_request \<Rightarrow>
   StreamableHTTPHandler \<Rightarrow> StreamableHTTPHandler \<times> http_answer" where
  "handleMessage has_server between now now' src ctxErr pick r h =
     (if MaxRequestBytes (opts h) < int (length (r_body r)) then (h, Status 413)
      else case unmarshal_message (r_body r) of
             Inl err \<Rightarrow> (h, Status 400)
           | Inr msg \<Rightarrow>
               if sessions_stuck h then (h, Wedged) else
               (case (if streamableSessionID r = []
                      then getOrCreateSession has_server between now (randText src) h
                      else (h, getSession (streamableSessionID r) h)) of
                  (h, Inl err) \<Rightarrow> (h, Status 404)
                | (h, Inr a) \<Rightarrow>
                    let t = touch now' (store h ! a);
                        sid = nextStreamID t + 1;
                        t = t\<lparr>nextStreamID := sid\<rparr>
                    in case receive ctxErr pick msg sid t of
                         (t, CRet (Some err)) \<Rightarrow> (upd_session a t h, Status 408)
                       | (t, CRet None) \<Rightarrow>
                           (upd_session a t h,
                            if msg_ID msg = ANil \<or> msg_Method msg = [] then Status 202
                            else Streaming a (open_stream sid 0 (Some (msg_ID msg))))
                       | (t, CPanic) \<Rightarrow> (upd_session a t h, Crashed)
                       | (t, CBlocked) \<Rightarrow> (upd_session a t h, Wedged)))"

text \<open>The session is closed with \<open>sessionsMu\<close> held.\<close>

definition handleSessionDelete :: "http_request \<Rightarrow> StreamableHTTPHandler \<Rightarrow> StreamableHTTPHandler \<times> http_answer" where
  "handleSessionDelete r h =
     (if streamableSessionID r = [] then (h, Status 400)
      else if sessions_stuck h then (h, Wedged)
      else case map_of (sessions h) (streamableSessionID r) of
             None \<Rightarrow> (h, Status 204)
           | Some a \<Rightarrow>
               let h = h\<lparr>sessions := AList.delete (streamableSessionID r) (sessions h)\<rparr>
               in case st_Close (store h ! a) of
                    (t, CRet u) \<Rightarrow> (upd_session a t h, Status 204)
                  | (t, _) \<Rightarrow> (h\<lparr>sessions_stuck := True\<rparr>, Wedged))"

definition ServeHTTP ::
  "(string \<Rightarrow> string) \<Rightarrow> bool \<Rightarrow> bool \<Rightarrow> (StreamableHTTPHandler \<Rightarrow> StreamableHTTPHandler) \<Rightarrow> time \<Rightarrow> time \<Rightarrow> bytes \<Rightarrow>
   mcp_error option \<Rightarrow> nat \<Rightarrow> http_request \<Rightarrow> StreamableHTTPHandler \<Rightarrow> StreamableHTTPHandler \<times> http_answer" where
  "ServeHTTP ul rebinding has_server between now now' src ctxErr pick r h =
     (if \<not> DisableLocalhostProtection (opts h) \<and> rebinding then (h, Status 403)
      else let (jsonOK, streamOK) = streamableAccepts ul (r_accept r)
           in if r_method r = ''GET''
              then if \<not> streamOK then (h, Status 406)
                   else handleSSEStream has_server between now now' src r h
              else if r_method r = ''POST''
              then if r_accept r \<noteq> [] \<and> (\<not> jsonOK \<or> \<not> streamOK) then (h, Status 406)
                   else handleMessage has_server between now now' src ctxErr pick r h
              else if r_method r = ''DELETE'' then handleSessionDelete r h
              else (h, Status 405))"

section \<open>Runs of a handler\<close>

text \<open>What can happen to a handler: a request, with anything before the insertion of a session; a
  tick of the reaper; the end of a session's goroutine; activity of a session; and the close.\<close>

inductive handler_run :: "StreamableHTTPHandler \<Rightarrow> StreamableHTTPHandler \<Rightarrow> bool" where
  run_refl: "handler_run h h"
| run_request:
    "handler_run h h1 \<Longrightarrow> handler_run h1 (between h1) \<Longrightarrow>
     ServeHTTP ul rebinding has_server between now now' src ctxErr pick r h1 = (h2, answer) \<Longrightarrow> handler_run h h2"
| run_tick: "handler_run h h1 \<Longrightarrow> handler_run h (reaper_tick now h1)"
| run_returned: "handler_run h h1 \<Longrightarrow> handler_run h (serve_returned sessionID a h1)"
| run_session:
    "handler_run h h1 \<Longrightarrow> a < length (store h1) \<Longrightarrow> st_id t = st_id (store h1 ! a) \<Longrightarrow>
     handler_run h (upd_session a t h1)"
| run_close: "handler_run h h1 \<Longrightarrow> handler_run h (handler_Close h1)"

definition sessions_ok :: "StreamableHTTPHandler \<Rightarrow> bool" where
  "sessions_ok h \<longleftrightarrow> map_ok (sessions h) \<and> int (length (sessions h)) \<le> MaxSessions (opts h) \<and>
     (\<forall>(k, a) \<in> set (sessions h). a < length (store h) \<and> st_id (store h ! a) = k)"

lemma upd_session_simps [simp]:
  "opts (upd_session a t h) = opts h" "sessions (upd_session a t h) = sessions h"
  "length (store (upd_session a t h)) = length (store h)" "reaper_runs (upd_session a t h) = reaper_runs h"
  "handler_closed (upd_session a t h) = handler_closed h" "sessions_stuck (upd_session a t h) = sessions_stuck h"
  by (simp_all add: upd_session_def)

lemma sessions_ok_upd:
  assumes "sessions_ok h" and "st_id t = st_id (store h ! a)"
  shows "sessions_ok (upd_session a t h)"
proof -
  have "st_id (store (upd_session a t h) ! b) = st_id (store h ! b)" for b
    using assms(2)
    by (cases "a < length (store h)"; cases "a = b") (simp_all add: upd_session_def list_update_beyond)
  with assms(1) show ?thesis by (simp add: sessions_ok_def)
qed

lemma st_id_simps [simp]:
  "st_id (touch now t) = st_id t" "st_id (t\<lparr>nextStreamID := n\<rparr>) = st_id t" "st_id (t\<lparr>cancelled := b\<rparr>) = st_id t"
  "st_id (t\<lparr>mu_stuck := b\<rparr>) = st_id t"
  by (simp_all add: touch_def)

lemma receive_id: "receive ctxErr pick msg sid t = (t', r) \<Longrightarrow> st_id t' = st_id t"
  by (auto simp: receive_def st_enqueue_def Let_def dest!: select_case_mem split: if_splits option.splits)

lemma st_Close_id: "st_Close t = (t', r) \<Longrightarrow> st_id t' = st_id t"
  by (auto simp: st_Close_def split: if_splits)

lemma cancel_sessions_ok: "sessions_ok h \<Longrightarrow> sessions_ok (cancel_sessions as h)"
  unfolding cancel_sessions_def
  by (induction as arbitrary: h) (simp_all add: sessions_ok_upd)

lemma cancel_sessions_opts: "opts (cancel_sessions as h) = opts h"
  unfolding cancel_sessions_def by (induction as arbitrary: h) simp_all

lemma sessions_ok_delete:
  assumes "sessions_ok h"
  shows "sessions_ok (h\<lparr>sessions := AList.delete k (sessions h)\<rparr>)"
proof -
  have "length (AList.delete k (sessions h)) \<le> length (sessions h)" by (simp add: AList.delete_eq)
  with assms show ?thesis by (auto simp: sessions_ok_def set_delete)
qed

lemma update_fresh: "k \<notin> fst ` set m \<Longrightarrow> AList.update k v m = m @ [(k, v)]"
  by (induction m) auto

lemma insert_session_ok:
  assumes "sessions_ok h" and "insert_session now k h = (h', r)"
  shows "sessions_ok h' \<and> opts h' = opts h"
proof (cases "map_of (sessions h) k = None \<and> int (length (sessions h)) < MaxSessions (opts h)")
  case True
  then have "k \<notin> fst ` set (sessions h)" by (auto simp: map_of_eq_None_iff)
  then have "AList.update k (length (store h)) (sessions h) = sessions h @ [(k, length (store h))]"
    by (rule update_fresh)
  with True assms(2) have h': "h' = h\<lparr>store := store h @ [touch now (newStreamableServerTransport k)],
      sessions := sessions h @ [(k, length (store h))], reaper_runs := True\<rparr>"
    by (simp add: insert_session_def Let_def)
  from True have "k \<notin> fst ` set (sessions h)" by (auto simp: map_of_eq_None_iff)
  with True assms(1) show ?thesis
    by (fastforce simp: h' sessions_ok_def nth_append newStreamableServerTransport_def touch_def)
qed (use assms in \<open>auto simp: insert_session_def split: option.splits if_splits\<close>)

lemma getOrCreateSession_ok:
  assumes "sessions_ok h" and "sessions_ok (between h) \<and> opts (between h) = opts h"
    and "getOrCreateSession has_server between now k h = (h', r)"
  shows "sessions_ok h' \<and> opts h' = opts h"
  using assms insert_session_ok
  by (fastforce simp: getOrCreateSession_def split: option.splits if_splits)

lemma handleSSEStream_ok:
  assumes "sessions_ok h" and "sessions_ok (between h) \<and> opts (between h) = opts h"
    and "handleSSEStream has_server between now now' src r h = (h', answer)"
  shows "sessions_ok h' \<and> opts h' = opts h"
proof -
  obtain g q where g: "getOrCreateSession has_server between now
      (if streamableSessionID r = [] then randText src else streamableSessionID r) h = (g, q)" by fastforce
  note getOrCreateSession_ok [where between = between, OF assms(1,2) g]
  with assms(1,3) g show ?thesis
    by (auto simp: handleSSEStream_def Let_def sessions_ok_upd split: if_splits sum.splits prod.splits)
qed

lemma handleMessage_ok:
  assumes "sessions_ok h" and "sessions_ok (between h) \<and> opts (between h) = opts h"
    and "handleMessage has_server between now now' src ctxErr pick r h = (h', answer)"
  shows "sessions_ok h' \<and> opts h' = opts h"
proof -
  obtain g q where g: "(if streamableSessionID r = [] then getOrCreateSession has_server between now (randText src) h
      else (h, getSession (streamableSessionID r) h)) = (g, q)" by fastforce
  have "sessions_ok g \<and> opts g = opts h"
    using g getOrCreateSession_ok [where between = between, OF assms(1,2)] assms(1) by (auto split: if_splits)
  then show ?thesis
  proof (cases "MaxRequestBytes (opts h) < int (length (r_body r)) \<or> sessions_stuck h")
    case False
    with assms(1,3) g \<open>sessions_ok g \<and> opts g = opts h\<close> show ?thesis
      by (auto simp: handleMessage_def Let_def dest!: receive_id intro!: sessions_ok_upd
          split: sum.splits prod.splits call.splits option.splits simp del: if_split)
  qed (use assms in \<open>auto simp: handleMessage_def split: if_splits sum.splits\<close>)
qed

lemma handleSessionDelete_ok:
  assumes "sessions_ok h" and "handleSessionDelete r h = (h', answer)"
  shows "sessions_ok h' \<and> opts h' = opts h"
proof -
  define g where "g = h\<lparr>sessions := AList.delete (streamableSessionID r) (sessions h)\<rparr>"
  have g: "sessions_ok g" "opts g = opts h" using sessions_ok_delete [OF assms(1)] by (simp_all add: g_def)
  have "h' = h \<or> h' = g\<lparr>sessions_stuck := True\<rparr> \<or>
    (\<exists>a t. h' = upd_session a t g \<and> st_id t = st_id (store g ! a))"
  proof (cases "map_of (sessions h) (streamableSessionID r)")
    case (Some a)
    obtain t q where c: "st_Close (store h ! a) = (t, q)" by fastforce
    from assms(2) c Some have "h' = h \<or> h' = g\<lparr>sessions_stuck := True\<rparr> \<or> h' = upd_session a t g"
      by (cases q) (simp_all add: handleSessionDelete_def Let_def g_def split: if_splits)
    moreover have "st_id t = st_id (store g ! a)" using st_Close_id [OF c] by (simp add: g_def)
    ultimately show ?thesis by blast
  qed (use assms(2) in \<open>simp add: handleSessionDelete_def split: if_splits\<close>)
  then consider "h' = h" | "h' = g\<lparr>sessions_stuck := True\<rparr>"
    | a t where "h' = upd_session a t g" "st_id t = st_id (store g ! a)" by blast
  then show ?thesis
  proof cases
    case 2
    with g show ?thesis by (simp add: sessions_ok_def)
  qed (use assms(1) g sessions_ok_upd in simp_all)
qed

lemma ServeHTTP_ok:
  assumes "sessions_ok h" and "sessions_ok (between h) \<and> opts (between h) = opts h"
    and "ServeHTTP ul rebinding has_server between now now' src ctxErr pick r h = (h', answer)"
  shows "sessions_ok h' \<and> opts h' = opts h"
  using assms(3) handleSSEStream_ok [where between = between, OF assms(1,2)] handleMessage_ok [where between = between, OF assms(1,2)] handleSessionDelete_ok [OF assms(1)]
    assms(1)
  by (auto simp: ServeHTTP_def split: if_splits prod.splits)

lemma handler_run_ok: "handler_run h h' \<Longrightarrow> sessions_ok h \<Longrightarrow> sessions_ok h' \<and> opts h' = opts h"
proof (induction rule: handler_run.induct)
  case (run_request h h1 between ul rebinding has_server now now' src ctxErr pick r h2 answer)
  then show ?case using ServeHTTP_ok by metis
next
  case (run_tick h h1 now)
  then show ?case by (simp add: reaper_tick_def reapIdleSessions_def Let_def cancel_sessions_ok cancel_sessions_opts)
next
  case (run_returned h h1 k a)
  then show ?case by (simp add: serve_returned_def sessions_ok_delete)
next
  case (run_close h h1)
  then show ?case
    by (auto simp: handler_Close_def cancel_sessions_opts intro!: cancel_sessions_ok) (simp_all add: sessions_ok_def)
qed (simp_all add: sessions_ok_upd)

lemma new_handler_ok: "sessions_ok (NewStreamableHTTPHandler cfg)"
  by (simp add: sessions_ok_def NewStreamableHTTPHandler_def Let_def)

lemma new_handler_MaxSessions:
  "MaxSessions (opts (NewStreamableHTTPHandler cfg)) = (if MaxSessions cfg \<le> 0 then 1000 else MaxSessions cfg)"
  by (simp add: NewStreamableHTTPHandler_def Let_def)

lemma nth_list_update_if: "b < length xs \<Longrightarrow> xs[a := x] ! b = (if a = b then x else xs ! b)"
  by simp

lemma cancel_sessions_store:
  "length (store (cancel_sessions as h)) = length (store h) \<and> sessions (cancel_sessions as h) = sessions h \<and>
    (\<forall>b < length (store h). store (cancel_sessions as h) ! b =
       (if b \<in> set as then (store h ! b)\<lparr>cancelled := True\<rparr> else store h ! b))"
  unfolding cancel_sessions_def
  by (induction as arbitrary: h) (auto simp: upd_session_def nth_list_update_if)

section \<open>Properties\<close>

text \<open>
  C24. However requests, ticks of the reaper, ends of sessions and the close interleave, the handler
  never holds more sessions than its cap, every name in the table is the id of the session it
  leads to, and no two names are equal.
\<close>

theorem session_cap:
  assumes "handler_run (NewStreamableHTTPHandler cfg) h"
  shows "int (length (sessions h)) \<le> (if MaxSessions cfg \<le> 0 then 1000 else MaxSessions cfg) \<and>
    distinct (map fst (sessions h)) \<and>
    (\<forall>k a. map_of (sessions h) k = Some a \<longrightarrow> a < length (store h) \<and> st_id (store h ! a) = k)"
  using handler_run_ok [OF assms new_handler_ok] new_handler_MaxSessions [of cfg]
  by (force simp: sessions_ok_def dest: map_of_SomeD)

definition sample_config :: StreamableHTTPConfig where
  "sample_config = \<lparr>MaxSessions = 2, SessionTimeout = 0, MaxRequestBytes = 0, DisableLocalhostProtection = False\<rparr>"

definition sample_get :: http_request where
  "sample_get = \<lparr>r_method = ''GET'', r_accept = [''text/event-stream''], r_session_header = ''A'', r_session_query = [],
     r_last_event_id = [], r_body = []\<rparr>"

definition sample_handler :: StreamableHTTPHandler where
  "sample_handler = fst (ServeHTTP id False True id 5 6 [] None 0 sample_get (NewStreamableHTTPHandler sample_config))"

lemma run_ServeHTTP:
  assumes "handler_run h h1" and "handler_run h1 (between h1)"
  shows "handler_run h (fst (ServeHTTP ul rebinding has_server between now now' src ctxErr pick r h1))"
  using assms by (rule run_request) (rule prod.collapse [symmetric])

lemma sample_run: "handler_run (NewStreamableHTTPHandler sample_config) sample_handler"
  unfolding sample_handler_def
  by (rule run_ServeHTTP [where between = id]) (simp_all add: run_refl)

lemma sample_handler_sessions:
  "sessions sample_handler = [(''A'', 0)]"
  "store sample_handler = [touch 6 (newStreamableServerTransport ''A'')]" 
  "sessions_stuck sample_handler = False"
  by code_simp+

theorem session_cap_witness:
  "int (length (sessions sample_handler)) \<le> 2 \<and> distinct (map fst (sessions sample_handler)) \<and>
   0 < length (store sample_handler) \<and> st_id (store sample_handler ! 0) = ''A''"
  using session_cap [OF sample_run] sample_handler_sessions by (simp add: sample_config_def touch_def newStreamableServerTransport_def)

text \<open>
  A tick of the reaper cancels exactly the sessions of the table that were last active before
  the timeout. It removes none: a session leaves the table when its server loop has returned.
\<close>

theorem reaper_cancels_idle:
  assumes "handler_run (NewStreamableHTTPHandler cfg) h" and "reaper_runs h" and "\<not> handler_closed h"
    and "\<not> sessions_stuck h" and "map_of (sessions h) k = Some a"
  shows "sessions (reaper_tick now h) = sessions h \<and>
    store (reaper_tick now h) ! a =
      (if lastActive (store h ! a) < now - SessionTimeout (opts h)
       then (store h ! a)\<lparr>cancelled := True\<rparr> else store h ! a)"
proof -
  have ok: "sessions_ok h" using handler_run_ok [OF assms(1) new_handler_ok] by simp
  have mem: "(k, a) \<in> set (sessions h)" using assms(5) by (rule map_of_SomeD)
  with ok have "a < length (store h)" by (auto simp: sessions_ok_def)
  moreover have "a \<in> snd ` set (sessions h)" using mem by force
  ultimately show ?thesis
    using assms(2-4) cancel_sessions_store by (auto simp: reaper_tick_def reapIdleSessions_def Let_def)
qed

theorem reaper_cancels_idle_witness:
  "store (reaper_tick (6 * minute) sample_handler) ! 0 = (store sample_handler ! 0)\<lparr>cancelled := True\<rparr>"
proof -
  have "reaper_runs sample_handler" "\<not> handler_closed sample_handler" "SessionTimeout (opts sample_handler) = 5 * minute"
    by code_simp+
  with reaper_cancels_idle [OF sample_run, of "''A''" 0 "6 * minute"] show ?thesis
    by (simp add: sample_handler_sessions touch_def)
qed

definition request_session :: "bytes \<Rightarrow> http_request \<Rightarrow> string" where
  "request_session src r = (if streamableSessionID r = [] then randText src else streamableSessionID r)"

lemma getOrCreateSession_keeps:
  assumes "sessions_ok h" and "getOrCreateSession has_server id now k h = (h', q)"
  shows "(\<forall>b < length (store h). store h' ! b = store h ! b) \<and> length (store h) \<le> length (store h') \<and>
    (\<forall>j. j \<noteq> k \<longrightarrow> map_of (sessions h') j = map_of (sessions h) j) \<and>
    (\<forall>a. q = Inr a \<longrightarrow> a < length (store h') \<and> st_id (store h' ! a) = k)"
  using assms
  by (fastforce simp: getOrCreateSession_def insert_session_def Let_def sessions_ok_def update_conv' nth_append
      newStreamableServerTransport_def touch_def split: option.splits if_splits dest: map_of_SomeD)

text \<open>One answer to a request changes the session it is for and no other.\<close>

definition only_session :: "string \<Rightarrow> StreamableHTTPHandler \<Rightarrow> StreamableHTTPHandler \<Rightarrow> bool" where
  "only_session k h h' \<longleftrightarrow> (\<forall>j b. j \<noteq> k \<longrightarrow> map_of (sessions h) j = Some b \<longrightarrow>
     map_of (sessions h') j = Some b \<and> store h' ! b = store h ! b)"

lemma only_session_upd:
  assumes "sessions_ok h" and "a < length (store g)" and "st_id (store g ! a) = k"
    and "\<forall>b < length (store h). store g ! b = store h ! b"
    and "\<forall>j. j \<noteq> k \<longrightarrow> map_of (sessions g) j = map_of (sessions h) j"
  shows "only_session k h (upd_session a t g)"
  using assms unfolding only_session_def upd_session_def sessions_ok_def
  by (fastforce dest!: map_of_SomeD simp: nth_list_update)

lemma only_session_same:
  assumes "\<forall>b < length (store h). store g ! b = store h ! b" and "sessions_ok h"
    and "\<forall>j. j \<noteq> k \<longrightarrow> map_of (sessions g) j = map_of (sessions h) j"
  shows "only_session k h g"
  using assms unfolding only_session_def sessions_ok_def by (fastforce dest: map_of_SomeD)

lemma handleSSEStream_only:
  assumes "sessions_ok h" and "handleSSEStream has_server id now now' src r h = (h', answer)"
  shows "only_session (request_session src r) h h' \<and>
    (\<forall>a c. answer = Streaming a c \<longrightarrow> st_id (store h' ! a) = request_session src r)"
proof -
  obtain g q where g: "getOrCreateSession has_server id now (request_session src r) h = (g, q)" by fastforce
  note keeps = getOrCreateSession_keeps [OF assms(1) g]
  obtain sid idx where ri: "resume_point (r_last_event_id r) = (sid, idx)" by fastforce
  show ?thesis
  proof (cases q)
    case (Inl err)
    with assms g keeps show ?thesis
      by (auto simp: handleSSEStream_def request_session_def [symmetric] intro: only_session_same split: if_splits)
  next
    case (Inr a)
    with keeps have a: "a < length (store g)" "st_id (store g ! a) = request_session src r" by auto
    show ?thesis
    proof (cases "sessions_stuck h")
      case True
      with assms show ?thesis by (auto simp: handleSSEStream_def intro: only_session_same)
    next
      case False
      with assms(2) g Inr ri obtain t where t: "h' = upd_session a t g" "st_id t = st_id (store g ! a)"
          "\<forall>b c. answer = Streaming b c \<longrightarrow> b = a"
        by (auto simp: handleSSEStream_def request_session_def [symmetric] Let_def split: if_splits)
      with only_session_upd [OF assms(1) a] keeps a show ?thesis by (auto simp: upd_session_def)
    qed
  qed
qed

lemma handleMessage_only:
  assumes "sessions_ok h" and "handleMessage has_server id now now' src ctxErr pick r h = (h', answer)"
  shows "only_session (request_session src r) h h' \<and>
    (\<forall>a c. answer = Streaming a c \<longrightarrow> st_id (store h' ! a) = request_session src r)"
proof -
  define gq where "gq = (if streamableSessionID r = [] then getOrCreateSession has_server id now (randText src) h
      else (h, getSession (streamableSessionID r) h))"
  obtain g q where g: "gq = (g, q)" by fastforce
  have keeps: "\<forall>b < length (store h). store g ! b = store h ! b"
      "\<forall>j. j \<noteq> request_session src r \<longrightarrow> map_of (sessions g) j = map_of (sessions h) j"
      "\<forall>a. q = Inr a \<longrightarrow> a < length (store g) \<and> st_id (store g ! a) = request_session src r"
    using g assms(1) getOrCreateSession_keeps [OF assms(1), of has_server now "randText src" g q]
    by (auto simp: gq_def getSession_def request_session_def sessions_ok_def dest!: map_of_SomeD
        split: if_splits option.splits)
  have "h' = h \<and> (\<forall>a c. answer \<noteq> Streaming a c) \<or> h' = g \<and> (\<forall>a c. answer \<noteq> Streaming a c) \<or>
    (\<exists>a t. q = Inr a \<and> h' = upd_session a t g \<and> st_id t = st_id (store g ! a) \<and>
       (\<forall>b c. answer = Streaming b c \<longrightarrow> b = a))"
  proof (cases "MaxRequestBytes (opts h) < int (length (r_body r)) \<or> sessions_stuck h")
    case False
    with assms(2) g show ?thesis
      by (auto simp: handleMessage_def gq_def [symmetric] Let_def dest!: receive_id
          split: sum.splits prod.splits call.splits option.splits if_splits)
  qed (use assms in \<open>auto simp: handleMessage_def split: if_splits sum.splits\<close>)
  then show ?thesis
    using only_session_same [OF _ assms(1)] only_session_upd [OF assms(1)] keeps
    by (auto simp: upd_session_def)
qed

lemma handleSessionDelete_only:
  assumes "sessions_ok h" and "handleSessionDelete r h = (h', answer)"
  shows "only_session (request_session src r) h h' \<and> (\<forall>a c. answer \<noteq> Streaming a c)"
proof -
  define k g where "k = streamableSessionID r" and "g = h\<lparr>sessions := AList.delete k (sessions h)\<rparr>"
  have del: "j \<noteq> k \<Longrightarrow> map_of (sessions g) j = map_of (sessions h) j" for j
    by (simp add: g_def delete_conv')
  show ?thesis
  proof (cases "k = [] \<or> sessions_stuck h \<or> map_of (sessions h) k = None")
    case True
    with assms show ?thesis
      by (auto simp: handleSessionDelete_def k_def intro: only_session_same split: if_splits)
  next
    case False
    then obtain a where a: "map_of (sessions h) k = Some a" by blast
    obtain t q where c: "st_Close (store h ! a) = (t, q)" by fastforce
    have "(h', answer) = (case q of CRet u \<Rightarrow> (upd_session a t g, Status 204) | _ \<Rightarrow> (g\<lparr>sessions_stuck := True\<rparr>, Wedged))"
      using False a c assms(2) [symmetric] by (simp add: handleSessionDelete_def Let_def k_def g_def split: call.split)
    then have h': "h' = g\<lparr>sessions_stuck := True\<rparr> \<or> h' = upd_session a t g" and ans: "\<forall>a c. answer \<noteq> Streaming a c"
      by (simp_all split: call.splits)
    have "a < length (store h)" "st_id (store h ! a) = k"
      using assms(1) a by (auto simp: sessions_ok_def dest!: map_of_SomeD)
    then have "only_session k h (upd_session a t g)"
      using del by (intro only_session_upd [OF assms(1)]) (simp_all add: g_def)
    moreover have "only_session k h (g\<lparr>sessions_stuck := True\<rparr>)"
      using del by (intro only_session_same) (simp_all add: g_def assms(1))
    ultimately show ?thesis using h' ans False by (auto simp: k_def request_session_def)
  qed
qed

text \<open>
  C23. Sessions are isolated: a request is answered from the session it names, or from a new one
  under the name made up for it, and leaves every other session and its name as they were.
\<close>

theorem session_isolation:
  assumes "handler_run (NewStreamableHTTPHandler cfg) h"
    and "ServeHTTP ul rebinding has_server id now now' src ctxErr pick r h = (h', answer)"
  shows "(\<forall>j b. j \<noteq> request_session src r \<longrightarrow> map_of (sessions h) j = Some b \<longrightarrow>
      map_of (sessions h') j = Some b \<and> store h' ! b = store h ! b) \<and>
    (\<forall>a c. answer = Streaming a c \<longrightarrow> st_id (store h' ! a) = request_session src r)"
proof -
  have ok: "sessions_ok h" using handler_run_ok [OF assms(1) new_handler_ok] by simp
  have "only_session (request_session src r) h h' \<and>
    (\<forall>a c. answer = Streaming a c \<longrightarrow> st_id (store h' ! a) = request_session src r)"
    using assms(2) handleSSEStream_only [OF ok] handleMessage_only [OF ok] handleSessionDelete_only [OF ok]
      only_session_same [of h h] ok
    by (auto simp: ServeHTTP_def split: if_splits prod.splits)
  then show ?thesis by (simp add: only_session_def)
qed

definition sample_get2 :: http_request where
  "sample_get2 = sample_get\<lparr>r_session_header := ''B''\<rparr>"

theorem session_isolation_witness:
  "case ServeHTTP id False True id 7 8 [] None 0 sample_get2 sample_handler of
     (h', answer) \<Rightarrow> store h' ! 0 = store sample_handler ! 0 \<and> st_id (store h' ! 1) = ''B''"
proof -
  obtain h' answer where h': "ServeHTTP id False True id 7 8 [] None 0 sample_get2 sample_handler = (h', answer)"
    by fastforce
  have "case snd (ServeHTTP id False True id 7 8 [] None 0 sample_get2 sample_handler) of Streaming a c \<Rightarrow> a = 1 | _ \<Rightarrow> False"
    by code_simp
  then obtain c where "answer = Streaming 1 c" by (auto simp: h' split: http_answer.splits)
  have "request_session [] sample_get2 = ''B''" by code_simp
  with session_isolation [OF sample_run h', THEN conjunct1, rule_format, of "''A''" 0]
    session_isolation [OF sample_run h', THEN conjunct2] h' \<open>answer = Streaming 1 c\<close>
  show ?thesis by (simp add: sample_handler_sessions)
qed

text \<open>
  A POST of a request into a live session with room in its queue: the message is queued for the
  server, the response is routed to a stream of its own that no earlier POST had, and the answer
  is that stream from its start.
\<close>

theorem post_request_accepted:
  assumes "handler_run (NewStreamableHTTPHandler cfg) h" and "\<not> sessions_stuck h"
    and "r_method r = ''POST''" and "r_accept r = []" and "DisableLocalhostProtection (opts h) \<or> \<not> rebinding"
    and "int (length (r_body r)) \<le> MaxRequestBytes (opts h)" and "unmarshal_message (r_body r) = Inr msg"
    and "streamableSessionID r \<noteq> []" and "map_of (sessions h) (streamableSessionID r) = Some a"
    and "msg_ID msg \<noteq> ANil" and "hashable (msg_ID msg)" and "msg_Method msg \<noteq> []"
    and "\<not> mu_stuck (store h ! a)" and "\<not> isDone (store h ! a)" and "length (incoming (store h ! a)) < 100"
  shows "\<exists>h'. ServeHTTP ul rebinding has_server between now now' src None pick r h =
      (h', Streaming a (open_stream (nextStreamID (store h ! a) + 1) 0 (Some (msg_ID msg)))) \<and>
    incoming (store h' ! a) = incoming (store h ! a) @ [msg] \<and>
    map_of (clientRequestStreams (store h' ! a)) (msg_ID msg) = Some (nextStreamID (store h ! a) + 1) \<and>
    nextStreamID (store h' ! a) = nextStreamID (store h ! a) + 1 \<and> lastActive (store h' ! a) = now'"
proof -
  have "sessions_ok h" using handler_run_ok [OF assms(1) new_handler_ok] by simp
  then have "a < length (store h)" using assms(9) by (auto simp: sessions_ok_def dest!: map_of_SomeD)
  with assms show ?thesis
    by (simp add: ServeHTTP_def streamableAccepts_def handleMessage_def getSession_def receive_def st_enqueue_def
        select_case_def incoming_capacity_def touch_def Let_def upd_session_def update_conv')
qed

definition sample_message :: JSONRPCMessage where
  "sample_message = zero_message\<lparr>msg_ID := AStr ''1'', msg_Method := ''ping'', msg_JSONRPC := ''2.0''\<rparr>"

lemma sample_message_read: "unmarshal_message (marshal_message sample_message) = Inr sample_message"
  by (rule message_unmarshal) code_simp

definition sample_post :: http_request where
  "sample_post = \<lparr>r_method = ''POST'', r_accept = [], r_session_header = ''A'', r_session_query = [],
     r_last_event_id = [], r_body = marshal_message sample_message\<rparr>"

theorem post_request_accepted_witness:
  "\<exists>h'. ServeHTTP id False True id 7 8 [] None 0 sample_post sample_handler =
     (h', Streaming 0 (open_stream 1 0 (Some (AStr ''1'')))) \<and> incoming (store h' ! 0) = [sample_message]"
proof -
  have "int (length (marshal_message sample_message)) \<le> MaxRequestBytes (opts sample_handler)" by code_simp
  then show ?thesis
    using post_request_accepted [OF sample_run, of sample_post False sample_message 0 id True id 7 8 "[]" 0] sample_message_read
    by (auto simp: sample_post_def sample_handler_sessions streamableSessionID_def sample_message_def zero_message_def
        touch_def newStreamableServerTransport_def)
qed

text \<open>
  What a client that names no live session gets: 404 for a message to a session the handler does
  not have, 204 for its deletion, 400 for a deletion without a name, 413 for a body over the limit
  and 405 for another HTTP method, all without a change of any session.
\<close>

theorem unknown_session_refused:
  assumes "\<not> sessions_stuck h" and "DisableLocalhostProtection (opts h) \<or> \<not> rebinding"
    and "map_of (sessions h) (streamableSessionID r) = None" and "streamableSessionID r = [] \<longrightarrow> r_method r \<noteq> ''POST''"
    and "r_method r \<noteq> ''GET''" and "r_accept r = []"
    and "r_method r = ''POST'' \<longrightarrow> unmarshal_message (r_body r) = Inr msg"
  shows "ServeHTTP ul rebinding has_server between now now' src ctxErr pick r h =
    (h, Status (if r_method r = ''POST''
                then if MaxRequestBytes (opts h) < int (length (r_body r)) then 413 else 404
                else if r_method r \<noteq> ''DELETE'' then 405
                else if streamableSessionID r = [] then 400 else 204))"
  using assms
  by (auto simp: ServeHTTP_def handleMessage_def handleSessionDelete_def getSession_def Let_def
      split: prod.splits)

theorem unknown_session_refused_witness:
  "ServeHTTP id False True id 7 8 [] None 0 (sample_post\<lparr>r_session_header := ''C''\<rparr>) sample_handler =
   (sample_handler, Status 404)"
proof -
  have "int (length (marshal_message sample_message)) \<le> MaxRequestBytes (opts sample_handler)" by code_simp
  then show ?thesis
    using unknown_session_refused [of sample_handler False "sample_post\<lparr>r_session_header := ''C''\<rparr>" sample_message id True id 7 8
        "[]" None 0] sample_message_read
    by (simp add: sample_post_def sample_handler_sessions streamableSessionID_def)
qed

text \<open>
  C26. A \<open>Last-Event-ID\<close> with the largest index is not refused: one added to it is negative, and if
  the stream it names has a message the flush panics with the read lock of the session held. From
  then on no message can be written to the session, and deleting the session blocks with the lock
  of the whole table held, so that every later GET or DELETE, of any session, waits for ever.
\<close>

theorem forged_event_id_wedges_handler:
  assumes "\<not> sessions_stuck h" and "streamableSessionID r \<noteq> []" and "a < length (store h)"
    and "map_of (sessions h) (streamableSessionID r) = Some a" and "\<not> mu_stuck (store h ! a)"
    and "r_last_event_id r = formatEventID sid (2 ^ 63 - 1)" and "0 \<le> sid" and "sid < 2 ^ 63"
    and "stream_messages (store h ! a) sid \<noteq> []"
    and "handleSSEStream has_server between now now' src r h = (h1, ans1)"
    and "handleSessionDelete r h1 = (h2, ans2)"
  shows "ans1 = Crashed \<and> st_Write msg (store h1 ! a) = (store h1 ! a, CBlocked) \<and> ans2 = Wedged \<and>
    snd (handleSSEStream has_server' between' now1 now2 src' r' h2) = Wedged \<and>
    (streamableSessionID r' \<noteq> [] \<longrightarrow> snd (handleSessionDelete r' h2) = Wedged)"
proof -
  have "formatEventID sid (2 ^ 63 - 1) \<noteq> []" by (simp add: formatEventID_def)
  moreover have "wrap_int (2 ^ 63 - 1 + 1) = - (2 ^ 63)" by (simp add: wrap_int_def)
  ultimately have "resume_point (r_last_event_id r) = (sid, - (2 ^ 63))"
    using parse_format_event_id [of sid "2 ^ 63 - 1"] assms(6-8) by (simp add: resume_point_def)
  with assms(1-5,9,10) have s: "h1 = upd_session a ((touch now' (store h ! a))\<lparr>mu_stuck := True\<rparr>) h" "ans1 = Crashed"
    by (simp_all add: handleSSEStream_def getOrCreateSession_def stream_messages_def touch_def)
  then have st: "mu_stuck (store h1 ! a)" using assms(3) by (simp add: upd_session_def)
  then have "sessions_stuck h2 \<and> ans2 = Wedged"
    using assms(1,2,4,11) by (auto simp: s(1) handleSessionDelete_def st_Close_def)
  with st s(2) show ?thesis by (simp add: handleSSEStream_def handleSessionDelete_def st_Write_def)
qed

definition sample_written :: StreamableHTTPHandler where
  "sample_written = upd_session 0 (fst (st_Write (sample_message\<lparr>msg_ID := ANil\<rparr>) (store sample_handler ! 0))) sample_handler"

definition sample_resume :: http_request where
  "sample_resume = sample_get\<lparr>r_last_event_id := formatEventID 0 (2 ^ 63 - 1)\<rparr>"

theorem forged_event_id_wedges_handler_witness:
  "snd (handleSSEStream True id 9 9 [] sample_get2
     (fst (handleSessionDelete sample_resume (fst (handleSSEStream True id 7 8 [] sample_resume sample_written))))) = Wedged"
proof -
  have s: "sessions_stuck sample_written = False" "length (store sample_written) = 1"
    "map_of (sessions sample_written) ''A'' = Some 0" "mu_stuck (store sample_written ! 0) = False"
    "stream_messages (store sample_written ! 0) 0 = [] \<longleftrightarrow> False"
    by (simp_all add: sample_written_def sample_handler_sessions upd_session_def st_Write_def getStreamID_def signal_stream_def
        touch_def newStreamableServerTransport_def sample_message_def zero_message_def stream_messages_def)
  have "streamableSessionID sample_resume = ''A''"
    by (simp add: sample_resume_def sample_get_def streamableSessionID_def)
  moreover have "r_last_event_id sample_resume = formatEventID 0 (2 ^ 63 - 1)" by (simp add: sample_resume_def)
  ultimately show ?thesis
    using forged_event_id_wedges_handler [of sample_written sample_resume 0 0 True id 7 8 "[]", OF _ _ _ _ _ _ _ _ _
        prod.collapse [symmetric] prod.collapse [symmetric], of zero_message True id 9 9 "[]" sample_get2] s
    by simp
qed

end
