(* ===== verification/Stream_Client.thy ===== *)
theory Stream_Client
  imports Streamable_Handler
begin

text \<open>
  Model of \<open>transport_streamable_client.go\<close>: the client of the streamable transport, which reads the
  GET stream of a session and posts its messages, and of the adapters that turn the messages of
  either end into a stream of bytes. Resolving a reference against a URL and sending an HTTP
  request are arguments. A client with its reader is a step relation over the events of the
  response body.
\<close>

section \<open>The connection of a client\<close>

record StreamableClientConfig =
  http_timeout :: "duration option"   \<comment> \<open>of a client made by default\<close>
  cl_SessionTimeout :: duration
  RetryAttempts :: int
  RetryDelay :: duration

definition NewStreamableClientTransport :: "StreamableClientConfig option \<Rightarrow> bool \<Rightarrow> StreamableClientConfig" where
  "NewStreamableClientTransport cfg has_client =
     (let c = (case cfg of Some c \<Rightarrow> c | None \<Rightarrow> \<lparr>http_timeout = None, cl_SessionTimeout = 0, RetryAttempts = 0, RetryDelay = 0\<rparr>);
          c = (if cfg = None \<or> \<not> has_client then c\<lparr>http_timeout := Some (30 * second)\<rparr> else c);
          c = (if cl_SessionTimeout c \<le> 0 then c\<lparr>cl_SessionTimeout := 5 * minute\<rparr> else c);
          c = (if RetryAttempts c \<le> 0 then c\<lparr>RetryAttempts := 3\<rparr> else c)
      in if RetryDelay c \<le> 0 then c\<lparr>RetryDelay := second\<rparr> else c)"

record streamableClientConnection =
  cc_url :: string
  postURL :: string
  cc_closed :: bool
  lastEventID :: string
  incomingCh :: "JSONRPCMessage list"
  errorCh :: "mcp_error list"

definition newStreamableClientConnection :: "string \<Rightarrow> streamableClientConnection" where
  "newStreamableClientConnection baseURL =
     \<lparr>cc_url = baseURL, postURL = [], cc_closed = False, lastEventID = [], incomingCh = [], errorCh = []\<rparr>"

definition incomingCh_capacity :: nat where
  "incomingCh_capacity = 100"

definition errorCh_capacity :: nat where
  "errorCh_capacity = 10"

definition ErrClosedPipe :: mcp_error where
  "ErrClosedPipe = Sentinel io_ErrClosedPipe"

text \<open>\<open>resolve base ref\<close> parses both URLs and resolves the reference.\<close>

type_synonym resolver = "string \<Rightarrow> string \<Rightarrow> mcp_error + string"

definition handleEndpointEvent ::
  "resolver \<Rightarrow> event \<Rightarrow> streamableClientConnection \<Rightarrow> streamableClientConnection \<times> mcp_error option" where
  "handleEndpointEvent resolve evt c =
     (case resolve (cc_url c) (strings_TrimSpace (ev_data evt)) of
        Inl err \<Rightarrow> (c, Some err)
      | Inr u \<Rightarrow> (c\<lparr>postURL := u\<rparr>, None))"

definition handleMessageEvent ::
  "mcp_error option \<Rightarrow> nat \<Rightarrow> event \<Rightarrow> streamableClientConnection \<Rightarrow> streamableClientConnection \<times> mcp_error option call" where
  "handleMessageEvent ctxErr pick evt c =
     (case unmarshal_message (ev_data evt) of
        Inl err \<Rightarrow> (c, CRet (Some (WrapErr ''failed to unmarshal message'' err)))
      | Inr msg \<Rightarrow>
          let ready = (if length (incomingCh c) < incomingCh_capacity
                       then [(c\<lparr>incomingCh := incomingCh c @ [msg]\<rparr>, None)] else []) @
                      (case ctxErr of Some e \<Rightarrow> [(c, Some e)] | None \<Rightarrow> []) @
                      (if cc_closed c then [(c, Some ErrClosedPipe)] else [])
          in case select_case pick ready of None \<Rightarrow> (c, CBlocked) | Some (c, r) \<Rightarrow> (c, CRet r))"

text \<open>One round of \<open>processEvents\<close>; the result says whether the loop goes on.\<close>

definition process_item ::
  "resolver \<Rightarrow> mcp_error option \<Rightarrow> nat \<Rightarrow> sse_item \<Rightarrow> streamableClientConnection \<Rightarrow>
   streamableClientConnection \<times> bool call" where
  "process_item resolve ctxErr pick item c =
     (case item of
        SseError err \<Rightarrow>
          let ready = (if length (errorCh c) < errorCh_capacity then [(c\<lparr>errorCh := errorCh c @ [err]\<rparr>, True)] else []) @
                      (case ctxErr of Some e \<Rightarrow> [(c, False)] | None \<Rightarrow> []) @
                      (if cc_closed c then [(c, False)] else [])
          in case select_case pick ready of None \<Rightarrow> (c, CBlocked) | Some (c, r) \<Rightarrow> (c, CRet r)
      | SseEvent evt \<Rightarrow>
          let (c, r) = (if ev_name evt = ''endpoint'' then let (c, e) = handleEndpointEvent resolve evt c in (c, CRet e)
                        else if ev_name evt = [] then handleMessageEvent ctxErr pick evt c
                        else (c, CRet None))
          in case r of
               CRet e \<Rightarrow> (if ev_id evt \<noteq> [] then c\<lparr>lastEventID := ev_id evt\<rparr> else c, CRet True)
             | CPanic \<Rightarrow> (c, CPanic)
             | CBlocked \<Rightarrow> (c, CBlocked))"

definition cc_Read ::
  "mcp_error option \<Rightarrow> nat \<Rightarrow> streamableClientConnection \<Rightarrow> streamableClientConnection \<times> (mcp_error + JSONRPCMessage) call" where
  "cc_Read ctxErr pick c =
     (let ready = (case ctxErr of Some e \<Rightarrow> [(c, Inl e)] | None \<Rightarrow> []) @
                  (if cc_closed c then [(c, Inl ErrClosedPipe)] else []) @
                  (case errorCh c of e # rest \<Rightarrow> [(c\<lparr>errorCh := rest\<rparr>, Inl e)] | [] \<Rightarrow> []) @
                  (case incomingCh c of m # rest \<Rightarrow> [(c\<lparr>incomingCh := rest\<rparr>, Inr m)] | [] \<Rightarrow> [])
      in case select_case pick ready of None \<Rightarrow> (c, CBlocked) | Some (c, r) \<Rightarrow> (c, CRet r))"

text \<open>\<open>post\<close> sends a body to a URL and gives the status and the body of the answer; a body that is
  not an error report is closed unread.\<close>

definition cc_Write ::
  "(string \<Rightarrow> bytes \<Rightarrow> mcp_error + int \<times> bytes) \<Rightarrow> JSONRPCMessage \<Rightarrow> streamableClientConnection \<Rightarrow> mcp_error option" where
  "cc_Write post msg c =
     (if cc_closed c then Some ErrClosedPipe
      else if postURL c = [] then Some (PlainErr ''POST endpoint not yet available'')
      else case post (postURL c) (marshal_message msg) of
             Inl err \<Rightarrow> Some (WrapErr ''POST request failed'' err)
           | Inr (status, body) \<Rightarrow>
               if status < 200 \<or> 300 \<le> status
               then Some (PlainErr (''POST request failed with status '' @ show_int status @ '': '' @ body))
               else None)"

definition cc_Close :: "streamableClientConnection \<Rightarrow> streamableClientConnection" where
  "cc_Close c = (if cc_closed c then c else c\<lparr>cc_closed := True\<rparr>)"

section \<open>A client at work\<close>

text \<open>The connection, the items of the response body still to come and those taken, whether the
  loop has ended, the context of the connection and what the user of the connection has read.\<close>

record client_run =
  cl_conn :: streamableClientConnection
  cl_items :: "sse_item list"
  cl_taken :: "sse_item list"
  cl_ended :: bool
  cl_ctx :: "mcp_error option"
  cl_read :: "JSONRPCMessage list"

definition start_client :: "string \<Rightarrow> bytes \<Rightarrow> client_run" where
  "start_client url body =
     \<lparr>cl_conn = newStreamableClientConnection url, cl_items = scanEvents body, cl_taken = [], cl_ended = False,
      cl_ctx = None, cl_read = []\<rparr>"

inductive client_step :: "resolver \<Rightarrow> client_run \<Rightarrow> client_run \<Rightarrow> bool" for resolve where
  c_item:
    "\<not> cl_ended s \<Longrightarrow> cl_items s = item # rest \<Longrightarrow>
     process_item resolve (cl_ctx s) pick item (cl_conn s) = (c, CRet goes_on) \<Longrightarrow>
     client_step resolve s (s\<lparr>cl_conn := c, cl_items := rest, cl_taken := cl_taken s @ [item], cl_ended := \<not> goes_on\<rparr>)"
| c_read:
    "cc_Read ctxErr pick (cl_conn s) = (c, CRet r) \<Longrightarrow>
     client_step resolve s (s\<lparr>cl_conn := c, cl_read := cl_read s @ (case r of Inr m \<Rightarrow> [m] | Inl e \<Rightarrow> [])\<rparr>)"
| c_close: "client_step resolve s (s\<lparr>cl_conn := cc_Close (cl_conn s)\<rparr>)"
| c_cancel: "client_step resolve s (s\<lparr>cl_ctx := Some err\<rparr>)"

abbreviation client_steps :: "resolver \<Rightarrow> client_run \<Rightarrow> client_run \<Rightarrow> bool" where
  "client_steps resolve \<equiv> (client_step resolve)\<^sup>*\<^sup>*"

text \<open>The messages that the items of a body carry.\<close>

definition item_messages :: "sse_item \<Rightarrow> JSONRPCMessage list" where
  "item_messages item =
     (case item of
        SseEvent evt \<Rightarrow> if ev_name evt \<noteq> [] then []
                        else (case unmarshal_message (ev_data evt) of Inr m \<Rightarrow> [m] | Inl e \<Rightarrow> [])
      | SseError e \<Rightarrow> [])"

abbreviation body_messages :: "sse_item list \<Rightarrow> JSONRPCMessage list" where
  "body_messages items \<equiv> concat (map item_messages items)"

text \<open>The last event id and the endpoint after one more item.\<close>

definition next_event_id :: "sse_item \<Rightarrow> string \<Rightarrow> string" where
  "next_event_id item i = (case item of SseEvent evt \<Rightarrow> if ev_id evt \<noteq> [] then ev_id evt else i | SseError e \<Rightarrow> i)"

definition next_endpoint :: "resolver \<Rightarrow> string \<Rightarrow> sse_item \<Rightarrow> string \<Rightarrow> string" where
  "next_endpoint resolve url item u =
     (case item of
        SseEvent evt \<Rightarrow>
          if ev_name evt = ''endpoint''
          then (case resolve url (strings_TrimSpace (ev_data evt)) of Inr v \<Rightarrow> v | Inl e \<Rightarrow> u) else u
      | SseError e \<Rightarrow> u)"

definition client_inv :: "resolver \<Rightarrow> string \<Rightarrow> sse_item list \<Rightarrow> client_run \<Rightarrow> bool" where
  "client_inv resolve url items s \<longleftrightarrow> items = cl_taken s @ cl_items s \<and> cc_url (cl_conn s) = url \<and>
     lastEventID (cl_conn s) = fold next_event_id (cl_taken s) [] \<and>
     postURL (cl_conn s) = fold (next_endpoint resolve url) (cl_taken s) [] \<and> length (incomingCh (cl_conn s)) \<le> incomingCh_capacity \<and>
     length (errorCh (cl_conn s)) \<le> errorCh_capacity \<and>
     subseq (cl_read s @ incomingCh (cl_conn s)) (body_messages (cl_taken s)) \<and>
     (\<not> cc_closed (cl_conn s) \<and> cl_ctx s = None \<longrightarrow>
        \<not> cl_ended s \<and> cl_read s @ incomingCh (cl_conn s) = body_messages (cl_taken s))"

section \<open>Messages arrive once and in order\<close>

lemma handleMessageEvent_effect:
  assumes "handleMessageEvent ctxErr pick evt c = (c', CRet r)" and "ev_name evt = []"
    and "length (incomingCh c) \<le> incomingCh_capacity"
  shows "c' = c \<and> (ctxErr = None \<and> \<not> cc_closed c \<longrightarrow> item_messages (SseEvent evt) = []) \<or>
    c' = c\<lparr>incomingCh := incomingCh c @ item_messages (SseEvent evt)\<rparr> \<and> length (incomingCh c') \<le> incomingCh_capacity"
  using assms
  by (cases "unmarshal_message (ev_data evt)")
     (auto simp: handleMessageEvent_def item_messages_def Let_def dest!: select_case_mem split: option.splits if_splits)

lemma process_item_effect:
  assumes "process_item resolve ctxErr pick item c = (c', CRet goes_on)"
    and "length (incomingCh c) \<le> incomingCh_capacity" and "length (errorCh c) \<le> errorCh_capacity"
  shows "cc_closed c' = cc_closed c \<and> cc_url c' = cc_url c \<and> lastEventID c' = next_event_id item (lastEventID c) \<and>
    postURL c' = next_endpoint resolve (cc_url c) item (postURL c) \<and> length (incomingCh c') \<le> incomingCh_capacity \<and>
    length (errorCh c') \<le> errorCh_capacity \<and>
    (\<exists>ms. incomingCh c' = incomingCh c @ ms \<and> (ms = [] \<or> ms = item_messages item) \<and>
       (ctxErr = None \<and> \<not> cc_closed c \<longrightarrow> goes_on \<and> ms = item_messages item))"
proof (cases item)
  case (SseError err)
  with assms show ?thesis
    by (auto simp: process_item_def item_messages_def next_event_id_def next_endpoint_def Let_def
        dest!: select_case_mem split: option.splits if_splits)
next
  case (SseEvent evt)
  show ?thesis
  proof (cases "ev_name evt = []")
    case True
    then obtain d r where d: "handleMessageEvent ctxErr pick evt c = (d, CRet r)"
      and c': "c' = (if ev_id evt \<noteq> [] then d\<lparr>lastEventID := ev_id evt\<rparr> else d)" "goes_on"
      using assms(1) SseEvent by (auto simp: process_item_def split: call.splits prod.splits)
    from handleMessageEvent_effect [OF d True assms(2)] c' assms(2,3) SseEvent True show ?thesis
      by (auto simp: next_event_id_def next_endpoint_def)
  next
    case False
    with assms SseEvent show ?thesis
      by (auto simp: process_item_def item_messages_def handleEndpointEvent_def next_event_id_def next_endpoint_def
          split: sum.splits if_splits)
  qed
qed

lemma cc_Read_effect:
  assumes "cc_Read ctxErr pick c = (c', CRet r)"
  shows "(case r of Inr m \<Rightarrow> [m] | Inl e \<Rightarrow> []) @ incomingCh c' = incomingCh c \<and> cc_closed c' = cc_closed c \<and>
    cc_url c' = cc_url c \<and> lastEventID c' = lastEventID c \<and> postURL c' = postURL c \<and> length (errorCh c') \<le> length (errorCh c)"
  using assms by (auto simp: cc_Read_def Let_def dest!: select_case_mem split: option.splits list.splits if_splits)

lemma client_inv_step: "client_step resolve s s' \<Longrightarrow> client_inv resolve url items s \<Longrightarrow> client_inv resolve url items s'"
proof (induction rule: client_step.induct)
  case (c_item s item rest pick c goes_on)
  from c_item.prems have inv: "length (incomingCh (cl_conn s)) \<le> incomingCh_capacity"
      "length (errorCh (cl_conn s)) \<le> errorCh_capacity" by (simp_all add: client_inv_def)
  obtain ms where ms: "cc_url c = cc_url (cl_conn s)" "lastEventID c = next_event_id item (lastEventID (cl_conn s))"
      "postURL c = next_endpoint resolve (cc_url (cl_conn s)) item (postURL (cl_conn s))" "cc_closed c = cc_closed (cl_conn s)" "incomingCh c = incomingCh (cl_conn s) @ ms"
      "length (incomingCh c) \<le> incomingCh_capacity" "length (errorCh c) \<le> errorCh_capacity"
      "ms = [] \<or> ms = item_messages item"
      "cl_ctx s = None \<and> \<not> cc_closed (cl_conn s) \<longrightarrow> goes_on \<and> ms = item_messages item"
    using process_item_effect [OF c_item.hyps(3) inv] by blast
  have "subseq ((cl_read s @ incomingCh (cl_conn s)) @ ms) (body_messages (cl_taken s) @ item_messages item)"
    using c_item.prems ms(8) by (intro list_emb_append_mono) (auto simp: client_inv_def)
  with c_item ms show ?case by (simp add: client_inv_def)
next
  case (c_read ctxErr pick s c r)
  note e = cc_Read_effect [OF c_read.hyps]
  then have "cl_read s @ incomingCh (cl_conn s) =
      (cl_read s @ (case r of Inr m \<Rightarrow> [m] | Inl e \<Rightarrow> [])) @ incomingCh c" by simp
  moreover have "length (incomingCh c) \<le> length (incomingCh (cl_conn s))" using arg_cong [OF conjunct1 [OF e], of length] by simp
  ultimately show ?case using c_read.prems e by (simp add: client_inv_def)
qed (auto simp: client_inv_def cc_Close_def)

lemma client_inv_steps: "client_steps resolve (start_client url body) s \<Longrightarrow> client_inv resolve url (scanEvents body) s"
proof (induction rule: rtranclp_induct)
  case base
  show ?case by (simp add: client_inv_def start_client_def newStreamableClientConnection_def)
qed (rule client_inv_step)

section \<open>From the server to the client\<close>

definition endpoint_event :: "string \<Rightarrow> string" where
  "endpoint_event sessionID =
     ''event: endpoint'' @ [newline] @ ''data: /message?session='' @ sessionID @ [newline, newline]"

definition session_id_ok :: "string \<Rightarrow> bool" where
  "session_id_ok s \<longleftrightarrow> list_all plain_char s \<and> length s + 23 < maxTokenSize"

definition endpoint_of :: "string \<Rightarrow> event" where
  "endpoint_of s = \<lparr>ev_name = ''endpoint'', ev_id = [], ev_data = ''/message?session='' @ s\<rparr>"

lemma TrimSpace_endpoint: "session_id_ok s \<Longrightarrow> strings_TrimSpace (''/message?session='' @ s) = ''/message?session='' @ s"
proof (rule TrimSpace_plain)
  have "list_all plain_char ''/message?session=''" by code_simp
  then show "session_id_ok s \<Longrightarrow> list_all plain_char (''/message?session='' @ s)" by (simp add: session_id_ok_def)
qed

lemma scan_lines_event:
  assumes "newline \<notin> set l1" and "length l1 < maxTok" and "\<not> suffix [CHR 0x0D] l1"
    and "newline \<notin> set l2" and "length l2 < maxTok" and "\<not> suffix [CHR 0x0D] l2"
  shows "scan_lines maxTok (l1 @ newline # l2 @ newline # newline # r) =
    (case scan_lines maxTok r of (ls, e) \<Rightarrow> (l1 # l2 # [] # ls, e))"
  using scan_lines_line [OF assms(1-3)] scan_lines_line [OF assms(4-6)] scan_lines_line [of "[]" maxTok r] assms(2)
  by (simp split: prod.split)

lemma scanEvents_endpoint:
  assumes "session_id_ok s"
  shows "scanEvents (endpoint_event s @ rest) = SseEvent (endpoint_of s) # scanEvents rest"
proof -
  have l: "newline \<notin> set (''data: /message?session='' @ s)" "\<not> suffix [CHR 0x0D] (''data: /message?session='' @ s)"
    "length (''data: /message?session='' @ s) < maxTokenSize"
    using assms plain_not_newline [of s]
    by (auto simp: session_id_ok_def newline_def suffix_def append_eq_append_conv2 Cons_eq_append_conv)
  have w: "endpoint_event s @ rest = ''event: endpoint'' @ newline # ((''data: /message?session='' @ s) @ newline # newline # rest)"
    by (simp add: endpoint_event_def)
  have sl: "scan_lines maxTokenSize (endpoint_event s @ rest) =
      (case scan_lines maxTokenSize rest of (ls, e) \<Rightarrow> (''event: endpoint'' # (''data: /message?session='' @ s) # [] # ls, e))"
    unfolding w by (rule scan_lines_event [OF _ _ _ l(1) l(3) l(2)])
      (simp_all add: newline_def maxTokenSize_def suffix_def append_eq_append_conv2 Cons_eq_append_conv)
  have s1: "split_at_byte CHR '':'' ''event: endpoint'' = (''event'', Some (CHR '' '' # ''endpoint''))" by code_simp
  have s2: "split_at_byte CHR '':'' (''data: /message?session='' @ s) = (''data'', Some (CHR '' '' # (''/message?session='' @ s)))"
    by (simp add: split_at_byte_def)
  have tr: "strings_TrimSpace (CHR '' '' # ''endpoint'') = ''endpoint''" by code_simp
  obtain ls e where le: "scan_lines maxTokenSize rest = (ls, e)" by (cases "scan_lines maxTokenSize rest")
  show ?thesis
    unfolding scanEvents_def sl le prod.case
    using s1 s2 tr TrimSpace_space [of "''/message?session='' @ s"] TrimSpace_endpoint [OF assms]
    by (simp add: endpoint_of_def zero_event_def event_empty_def)
qed

lemma event_id_ok_format: "event_id_ok (formatEventID sid i)"
proof -
  have d: "list_all (\<lambda>c. is_digit c \<or> c \<in> set ''_-'') (show_int j)" for j
    using show_nat_digits by (auto simp: show_int_def list_all_iff)
  then show ?thesis by (simp add: event_id_ok_def formatEventID_def)
qed

definition get_body :: "string \<Rightarrow> streamableMsg list \<Rightarrow> bytes" where
  "get_body sessionID ms = endpoint_event sessionID @ concat (map writeSSEMessage ms)"

text \<open>What an event must satisfy to come through: its message can be marshalled and read back, and
  its lines fit the buffer of the scanner.\<close>

definition deliverable :: "streamableMsg \<Rightarrow> bool" where
  "deliverable m \<longleftrightarrow> message_ok (sm_Message m) \<and> length (marshal_message (sm_Message m)) + 6 < maxTokenSize \<and>
     length (sm_EventID m) + 4 < maxTokenSize"

lemma scanEvents_get_body:
  assumes "session_id_ok s" and "list_all deliverable ms" and "list_all (event_id_ok \<circ> sm_EventID) ms"
  shows "scanEvents (get_body s ms) = SseEvent (endpoint_of s) # map (SseEvent \<circ> event_of) ms"
proof -
  have "list_all event_fits ms" using assms(2,3) by (auto simp: list_all_iff event_fits_def deliverable_def)
  then show ?thesis
    using assms(1) scanEvents_events [of ms "[]"] by (simp add: get_body_def scanEvents_endpoint)
qed

lemma get_body_messages:
  "list_all deliverable ms \<Longrightarrow> body_messages (map (SseEvent \<circ> event_of) ms) = map sm_Message ms"
  by (induction ms) (simp_all add: item_messages_def event_of_def deliverable_def message_unmarshal)

lemma get_body_last_id:
  assumes "list_all (event_id_ok \<circ> sm_EventID) ms"
  shows "fold next_event_id (map (SseEvent \<circ> event_of) ms) i = (if ms = [] then i else sm_EventID (last ms))"
  using assms
  by (induction ms arbitrary: i) (auto simp: next_event_id_def event_of_def event_id_ok_def)

lemma get_body_endpoint: "fold (next_endpoint resolve url) (map (SseEvent \<circ> event_of) ms) u = u"
  by (induction ms) (simp_all add: next_endpoint_def event_of_def)

lemma randText_session_id_ok: "length src = 26 \<Longrightarrow> session_id_ok (randText src)"
proof -
  have "list_all plain_char base32alphabet" "length base32alphabet = 32" by code_simp+
  then have "plain_char (base32alphabet ! (n mod 32))" for n by (auto simp: list_all_length)
  then show "length src = 26 \<Longrightarrow> session_id_ok (randText src)"
    by (simp add: session_id_ok_def randText_def list_all_iff maxTokenSize_def)
qed


text \<open>A client with room in its queue takes in the events of a body whether or not anybody reads.\<close>

lemma process_event_returns:
  assumes "length (incomingCh c) < incomingCh_capacity"
  shows "\<exists>c'. process_item resolve None 0 (SseEvent evt) c = (c', CRet True) \<and> cc_closed c' = cc_closed c \<and>
    length (incomingCh c') \<le> Suc (length (incomingCh c))"
  using assms
  by (cases "unmarshal_message (ev_data evt)")
     (auto simp: process_item_def handleMessageEvent_def handleEndpointEvent_def select_case_def Let_def split: sum.splits)

lemma client_takes_all:
  assumes "\<not> cl_ended s" and "\<not> cc_closed (cl_conn s)" and "cl_ctx s = None" and "cl_items s = map SseEvent evts"
    and "length (incomingCh (cl_conn s)) + length evts \<le> incomingCh_capacity"
  shows "\<exists>r. client_steps resolve s r \<and> cl_items r = [] \<and> \<not> cc_closed (cl_conn r) \<and> cl_ctx r = None"
  using assms
proof (induction evts arbitrary: s)
  case (Cons evt evts)
  then obtain c where c: "process_item resolve None 0 (SseEvent evt) (cl_conn s) = (c, CRet True)"
      "cc_closed c = cc_closed (cl_conn s)" "length (incomingCh c) \<le> Suc (length (incomingCh (cl_conn s)))"
    using process_event_returns [of "cl_conn s" resolve evt] by auto
  let ?s = "s\<lparr>cl_conn := c, cl_items := map SseEvent evts, cl_taken := cl_taken s @ [SseEvent evt], cl_ended := \<not> True\<rparr>"
  have "client_step resolve s ?s" using Cons.prems c(1) by (intro c_item [where pick = 0]) simp_all
  moreover have "\<exists>r. client_steps resolve ?s r \<and> cl_items r = [] \<and> \<not> cc_closed (cl_conn r) \<and> cl_ctx r = None"
    using Cons.prems c by (intro Cons.IH) simp_all
  ultimately show ?case by (meson converse_rtranclp_into_rtranclp)
qed auto

definition sample_resolver :: resolver where
  "sample_resolver base ref = Inr (base @ ref)"


text \<open>
  The response to a request of this client is written to the stream of its POST, whose body the
  client closes unread; the standalone stream, which is the only one it reads, does not get it.
\<close>

lemma response_not_on_get_stream:
  assumes "st_Write msg t = (t', CRet None)" and "msg_Method msg = []" and "msg_ID msg \<noteq> ANil"
    and "map_of (clientRequestStreams t) (msg_ID msg) = Some sid" and "sid \<noteq> 0"
  shows "stream_messages t' 0 = stream_messages t 0 \<and> sm_Message (last (stream_messages t' sid)) = msg"
  using assms
  by (auto simp: st_Write_def getStreamID_def stream_messages_def signal_stream_def releaseClientRequest_def Let_def
      update_conv' split: if_splits option.splits)

lemma client_ignores_post_answer:
  assumes "\<And>u b. (case post u b of Inr (status, body) \<Rightarrow> 200 \<le> status \<and> status < 300 | Inl e \<Rightarrow> False)"
    and "\<not> cc_closed c" and "postURL c \<noteq> []"
  shows "cc_Write post msg c = None"
  using assms(1) [of "postURL c" "marshal_message msg"] assms(2,3)
  by (auto simp: cc_Write_def split: sum.splits prod.splits)

section \<open>The adapters to a stream of bytes\<close>

text \<open>\<open>streamableRWCAdapter\<close> and \<open>streamableClientRWCAdapter\<close>: the same code over the two connections. A
  reader that waits keeps the mutex of the adapter, so reads are one at a time.\<close>

record 'c rwc_adapter =
  rw_conn :: 'c
  readBuf :: bytes

definition rwc_Read ::
  "('c \<Rightarrow> 'c \<times> (mcp_error + JSONRPCMessage) call) \<Rightarrow> nat \<Rightarrow> 'c rwc_adapter \<Rightarrow> 'c rwc_adapter \<times> (mcp_error + bytes) call" where
  "rwc_Read read n a =
     (if readBuf a \<noteq> [] then (a\<lparr>readBuf := drop n (readBuf a)\<rparr>, CRet (Inr (take n (readBuf a))))
      else case read (rw_conn a) of
             (c, CRet (Inr msg)) \<Rightarrow>
               let data = marshal_message msg @ [newline]
               in (\<lparr>rw_conn = c, readBuf = drop n data\<rparr>, CRet (Inr (take n data)))
           | (c, CRet (Inl err)) \<Rightarrow> (a\<lparr>rw_conn := c\<rparr>, CRet (Inl err))
           | (c, CPanic) \<Rightarrow> (a\<lparr>rw_conn := c\<rparr>, CPanic)
           | (c, CBlocked) \<Rightarrow> (a\<lparr>rw_conn := c\<rparr>, CBlocked))"

definition server_rwc_Read ::
  "nat \<Rightarrow> nat \<Rightarrow> StreamableServerTransport rwc_adapter \<Rightarrow> StreamableServerTransport rwc_adapter \<times> (mcp_error + bytes) call" where
  "server_rwc_Read pick = rwc_Read (st_Read None pick)"

definition client_rwc_Read ::
  "nat \<Rightarrow> nat \<Rightarrow> streamableClientConnection rwc_adapter \<Rightarrow> streamableClientConnection rwc_adapter \<times> (mcp_error + bytes) call" where
  "client_rwc_Read pick = rwc_Read (cc_Read None pick)"

definition server_rwc_Write ::
  "bytes \<Rightarrow> StreamableServerTransport rwc_adapter \<Rightarrow> StreamableServerTransport rwc_adapter \<times> (mcp_error + nat) call" where
  "server_rwc_Write p a =
     (case unmarshal_message p of
        Inl err \<Rightarrow> (a, CRet (Inl err))
      | Inr msg \<Rightarrow>
          (case st_Write msg (rw_conn a) of
             (t, CRet (Some err)) \<Rightarrow> (a\<lparr>rw_conn := t\<rparr>, CRet (Inl err))
           | (t, CRet None) \<Rightarrow> (a\<lparr>rw_conn := t\<rparr>, CRet (Inr (length p)))
           | (t, CPanic) \<Rightarrow> (a\<lparr>rw_conn := t\<rparr>, CPanic)
           | (t, CBlocked) \<Rightarrow> (a\<lparr>rw_conn := t\<rparr>, CBlocked)))"

definition client_rwc_Write ::
  "(string \<Rightarrow> bytes \<Rightarrow> mcp_error + int \<times> bytes) \<Rightarrow> bytes \<Rightarrow> streamableClientConnection rwc_adapter \<Rightarrow> mcp_error + nat" where
  "client_rwc_Write post p a =
     (case unmarshal_message p of
        Inl err \<Rightarrow> Inl err
      | Inr msg \<Rightarrow> (case cc_Write post msg (rw_conn a) of Some err \<Rightarrow> Inl err | None \<Rightarrow> Inr (length p)))"

definition server_rwc_Close ::
  "StreamableServerTransport rwc_adapter \<Rightarrow> StreamableServerTransport rwc_adapter \<times> unit call" where
  "server_rwc_Close a = (case st_Close (rw_conn a) of (t, r) \<Rightarrow> (a\<lparr>rw_conn := t\<rparr>, r))"

definition client_rwc_Close :: "streamableClientConnection rwc_adapter \<Rightarrow> streamableClientConnection rwc_adapter" where
  "client_rwc_Close a = a\<lparr>rw_conn := cc_Close (rw_conn a)\<rparr>"

definition message_line :: "JSONRPCMessage \<Rightarrow> bytes" where
  "message_line m = marshal_message m @ [newline]"

text \<open>A sequence of reads with the choices of their selects and the sizes of their buffers: the
  adapter and the bytes they gave.\<close>

fun rwc_Reads ::
  "(nat \<Rightarrow> 'c \<Rightarrow> 'c \<times> (mcp_error + JSONRPCMessage) call) \<Rightarrow> (nat \<times> nat) list \<Rightarrow> 'c rwc_adapter \<Rightarrow> 'c rwc_adapter \<times> bytes" where
  "rwc_Reads read [] a = (a, [])"
| "rwc_Reads read ((pick, n) # ns) a =
     (case rwc_Read (read pick) n a of
        (a, r) \<Rightarrow> (case rwc_Reads read ns a of
                    (a, bs) \<Rightarrow> (a, (case r of CRet (Inr b) \<Rightarrow> b | _ \<Rightarrow> []) @ bs)))"

lemma split_byte_line: "c \<notin> set l \<Longrightarrow> split_byte c (l @ c # s) = l # split_byte c s"
  by (induction l) auto

lemma split_message_lines: "split_byte newline (concat (map message_line ms)) = map marshal_message ms @ [[]]"
  using marshal_message_line by (induction ms) (simp_all add: message_line_def split_byte_line)

text \<open>What the adapter asks of a connection: a read that gives a message takes the first of those
  that are pending, and another result takes none.\<close>

locale message_source =
  fixes read_msg :: "nat \<Rightarrow> 'c \<Rightarrow> 'c \<times> (mcp_error + JSONRPCMessage) call"
    and pending :: "'c \<Rightarrow> JSONRPCMessage list"
  assumes read_takes_first: "read_msg pick c = (c', CRet (Inr m)) \<Longrightarrow> pending c = m # pending c'"
    and read_keeps: "read_msg pick c = (c', r) \<Longrightarrow> (\<And>m. r \<noteq> CRet (Inr m)) \<Longrightarrow> pending c' = pending c"
begin

lemma rwc_Read_bytes:
  assumes "rwc_Read (read_msg pick) n a = (a', r)"
  shows "\<exists>taken. pending (rw_conn a) = taken @ pending (rw_conn a') \<and>
    (case r of CRet (Inr bs) \<Rightarrow> bs | _ \<Rightarrow> []) @ readBuf a' = readBuf a @ concat (map message_line taken)"
proof (cases "readBuf a")
  case Nil
  obtain c q where c: "read_msg pick (rw_conn a) = (c, q)" by fastforce
  show ?thesis
  proof (cases "\<exists>m. q = CRet (Inr m)")
    case True
    then obtain m where m: "q = CRet (Inr m)" by blast
    from read_takes_first [OF c [unfolded m]] assms Nil c m show ?thesis
      by (auto simp: rwc_Read_def Let_def message_line_def intro!: exI [of _ "[m]"] simp del: take_append drop_append)
  next
    case False
    then have "pending c = pending (rw_conn a)" using read_keeps [OF c] by blast
    with assms Nil c False show ?thesis
      by (cases q) (auto simp: rwc_Read_def split: sum.splits)
  qed
qed (use assms in \<open>auto simp: rwc_Read_def\<close>)

lemma rwc_Reads_bytes:
  "\<exists>taken. pending (rw_conn a) = taken @ pending (rw_conn (fst (rwc_Reads read_msg ns a))) \<and>
    snd (rwc_Reads read_msg ns a) @ readBuf (fst (rwc_Reads read_msg ns a)) = readBuf a @ concat (map message_line taken)"
proof (induction ns arbitrary: a)
  case (Cons pn ns)
  obtain pick n where pn: "pn = (pick, n)" by fastforce
  obtain b r where b: "rwc_Read (read_msg pick) n a = (b, r)" by fastforce
  obtain c bs where c: "rwc_Reads read_msg ns b = (c, bs)" by fastforce
  from rwc_Read_bytes [OF b] obtain t1 where t1: "pending (rw_conn a) = t1 @ pending (rw_conn b)"
    "(case r of CRet (Inr bs) \<Rightarrow> bs | _ \<Rightarrow> []) @ readBuf b = readBuf a @ concat (map message_line t1)" by blast
  from Cons.IH [of b] c obtain t2 where t2: "pending (rw_conn b) = t2 @ pending (rw_conn c)"
    "bs @ readBuf c = readBuf b @ concat (map message_line t2)" by auto
  have "((case r of CRet (Inr bs) \<Rightarrow> bs | _ \<Rightarrow> []) @ bs) @ readBuf c = readBuf a @ concat (map message_line (t1 @ t2))"
    using t1(2) t2(2) by (metis append.assoc concat_append map_append)
  with t1(1) t2(1) show ?case by (intro exI [of _ "t1 @ t2"]) (simp add: pn b c)
qed simp

lemma rwc_Reads_messages:
  assumes "readBuf a = []" and "rwc_Reads read_msg ns a = (a', bs)" and "readBuf a' = []"
    and "list_all message_ok (pending (rw_conn a))"
  shows "\<exists>taken. pending (rw_conn a) = taken @ pending (rw_conn a') \<and>
    map unmarshal_message (butlast (split_byte newline bs)) = map Inr taken"
proof -
  from rwc_Reads_bytes [of a ns] assms(1-3) obtain taken where
    t: "pending (rw_conn a) = taken @ pending (rw_conn a')" "bs = concat (map message_line taken)" by auto
  with assms(4) message_unmarshal have "map unmarshal_message (map marshal_message taken) = map Inr taken"
    by (auto simp: list_all_iff)
  with t split_message_lines [of taken] show ?thesis by (intro exI [of _ taken]) simp
qed

end

interpretation server_source: message_source "st_Read ctxErr" incoming
proof
  show "incoming c = m # incoming c'" if "st_Read ctxErr pick c = (c', CRet (Inr m))" for pick c c' m
    using that by (auto simp: st_Read_def Let_def dest!: select_case_mem split: option.splits list.splits if_splits)
  show "incoming c' = incoming c" if "st_Read ctxErr pick c = (c', r)" "\<And>m. r \<noteq> CRet (Inr m)" for pick c c' r
    using that by (auto simp: st_Read_def Let_def dest!: select_case_mem split: option.splits list.splits if_splits)
qed

interpretation client_source: message_source "cc_Read ctxErr" incomingCh
proof
  show "incomingCh c = m # incomingCh c'" if "cc_Read ctxErr pick c = (c', CRet (Inr m))" for pick c c' m
    using cc_Read_effect [OF that] by simp
  show "incomingCh c' = incomingCh c" if "cc_Read ctxErr pick c = (c', r)" "\<And>m. r \<noteq> CRet (Inr m)" for pick c c' r
    using that by (auto simp: cc_Read_def Let_def dest!: select_case_mem split: option.splits list.splits if_splits)
qed

text \<open>
  Bytes carry the messages: whatever the sizes of the reads, once the buffer of an adapter is
  empty again the lines it gave decode to the messages that left the queue of its connection, in
  order; at the server and at the client.
\<close>

theorem adapter_lines_decode:
  assumes "readBuf a = []" and "rwc_Reads (st_Read None) ns a = (a', bs)" and "readBuf a' = []"
    and "list_all message_ok (incoming (rw_conn a))"
    and "readBuf b = []" and "rwc_Reads (cc_Read None) ms b = (b', cs)" and "readBuf b' = []"
    and "list_all message_ok (incomingCh (rw_conn b))"
  shows "(\<exists>taken. incoming (rw_conn a) = taken @ incoming (rw_conn a') \<and>
      map unmarshal_message (butlast (split_byte newline bs)) = map Inr taken) \<and>
    (\<exists>taken. incomingCh (rw_conn b) = taken @ incomingCh (rw_conn b') \<and>
      map unmarshal_message (butlast (split_byte newline cs)) = map Inr taken)"
  using server_source.rwc_Reads_messages [OF assms(1-4)] client_source.rwc_Reads_messages [OF assms(5-8)] by blast

definition sample_server_adapter :: "StreamableServerTransport rwc_adapter" where
  "sample_server_adapter =
     \<lparr>rw_conn = (newStreamableServerTransport ''S'')\<lparr>incoming := [sample_message, demo_note]\<rparr>, readBuf = []\<rparr>"

definition sample_client_adapter :: "streamableClientConnection rwc_adapter" where
  "sample_client_adapter =
     \<lparr>rw_conn = (newStreamableClientConnection ''http://h'')\<lparr>incomingCh := [demo_note]\<rparr>, readBuf = []\<rparr>"

lemma sample_messages_ok: "message_ok sample_message" "message_ok demo_note"
  by (simp add: message_ok_def sample_message_def zero_message_def message_fields_def maxNestingDepth_def, code_simp)
     (simp add: message_ok_def demo_note_def message_fields_def maxNestingDepth_def, code_simp)

theorem adapter_lines_decode_witness:
  "(\<exists>taken. [sample_message, demo_note] = taken @ [demo_note] \<and>
     map unmarshal_message (butlast (split_byte newline
       (snd (rwc_Reads (st_Read None) [(0, 200)] sample_server_adapter)))) = map Inr taken) \<and>
   (\<exists>taken. [demo_note] = taken @ [] \<and>
     map unmarshal_message (butlast (split_byte newline
       (snd (rwc_Reads (cc_Read None) [(0, 200)] sample_client_adapter)))) = map Inr taken)"
proof -
  have s: "readBuf (fst (rwc_Reads (st_Read None) [(0, 200)] sample_server_adapter)) = []"
    and c: "readBuf (fst (rwc_Reads (cc_Read None) [(0, 200)] sample_client_adapter)) = []" by code_simp+
  have q: "incoming (rw_conn (fst (rwc_Reads (st_Read None) [(0, 200)] sample_server_adapter))) = [demo_note]"
    "incomingCh (rw_conn (fst (rwc_Reads (cc_Read None) [(0, 200)] sample_client_adapter))) = []"
    by (simp_all add: sample_server_adapter_def sample_client_adapter_def rwc_Read_def st_Read_def cc_Read_def select_case_def Let_def
        newStreamableServerTransport_def newStreamableClientConnection_def)
  show ?thesis
    using adapter_lines_decode [OF _ prod.collapse [symmetric] s _ _ prod.collapse [symmetric] c] q sample_messages_ok
    by (simp add: sample_server_adapter_def sample_client_adapter_def del: rwc_Reads.simps)
qed

end
