(* ===== verification/Sse_Client.thy ===== *)
theory Sse_Client
  imports Stream_Client
begin

text \<open>
  Model of \<open>transport_sse.go\<close>: the older client over server-sent events. What the body of the
  response delivers is a list of chunks and errors, one for each read, for the two scanners that
  \<open>Dial\<close> and \<open>readLoop\<close> put on it do not share their buffers. One round of \<open>readLoop\<close> is one step;
  a round that would wait for room in the channel is not taken. Read deadlines, which the body of
  an HTTP response does not have, and logging are left out.
\<close>

section \<open>Scanners\<close>

datatype rd_item = Chunk bytes | RdTimeout mcp_error | RdErr mcp_error

datatype scan_err = AtEOF | TimedOut mcp_error | Failed mcp_error

record line_scanner =
  ls_buf :: bytes
  ls_src :: "rd_item list"
  ls_err :: "scan_err option"

definition NewScanner :: "rd_item list \<Rightarrow> line_scanner" where
  "NewScanner src = \<lparr>ls_buf = [], ls_src = src, ls_err = None\<rparr>"

definition maxSSELine :: nat where
  "maxSSELine = 1024 * 1024"

text \<open>\<open>Scan\<close>: a line of the buffer, else more of the source; an error of the source ends the text,
  which leaves a last line without line end, and stays.\<close>

function scanner_Scan :: "line_scanner \<Rightarrow> line_scanner \<times> string option" where
  "scanner_Scan s =
     (let l = takeWhile (\<lambda>c. c \<noteq> newline) (ls_buf s)
      in if length l < length (ls_buf s) \<and> length l < maxSSELine
         then (s\<lparr>ls_buf := drop (Suc (length l)) (ls_buf s)\<rparr>, Some (dropCR l))
         else if ls_err s \<noteq> None
         then (s\<lparr>ls_buf := []\<rparr>, if ls_buf s = [] then None else Some (dropCR (ls_buf s)))
         else if maxSSELine \<le> length l then (s\<lparr>ls_err := Some (Failed ErrTooLong)\<rparr>, None)
         else case ls_src s of
                [] \<Rightarrow> scanner_Scan (s\<lparr>ls_err := Some AtEOF\<rparr>)
              | Chunk b # src \<Rightarrow> scanner_Scan (s\<lparr>ls_buf := ls_buf s @ b, ls_src := src\<rparr>)
              | RdTimeout e # src \<Rightarrow> scanner_Scan (s\<lparr>ls_src := src, ls_err := Some (TimedOut e)\<rparr>)
              | RdErr e # src \<Rightarrow> scanner_Scan (s\<lparr>ls_src := src, ls_err := Some (Failed e)\<rparr>))"
  by pat_completeness auto
termination
  by (relation "measure (\<lambda>s. length (ls_src s) + (if ls_err s = None then 1 else 0))") auto

declare scanner_Scan.simps [simp del]

definition scanner_Err :: "line_scanner \<Rightarrow> mcp_error option" where
  "scanner_Err s = (case ls_err s of Some (TimedOut e) \<Rightarrow> Some e | Some (Failed e) \<Rightarrow> Some e | _ \<Rightarrow> None)"

text \<open>What a scanner can still see, by the number of bytes and of reads.\<close>

definition src_bytes :: "rd_item list \<Rightarrow> nat" where
  "src_bytes src = sum_list (map (\<lambda>i. case i of Chunk b \<Rightarrow> length b | _ \<Rightarrow> 0) src)"

lemma scanner_Scan_less:
  "scanner_Scan s = (s', Some line) \<Longrightarrow> length (ls_buf s') + src_bytes (ls_src s') < length (ls_buf s) + src_bytes (ls_src s)"
proof (induction s rule: scanner_Scan.induct)
  case (1 s)
  let ?l = "takeWhile (\<lambda>c. c \<noteq> newline) (ls_buf s)"
  consider "length ?l < length (ls_buf s) \<and> length ?l < maxSSELine"
    | "\<not> (length ?l < length (ls_buf s) \<and> length ?l < maxSSELine)" "ls_err s \<noteq> None"
    | "\<not> (length ?l < length (ls_buf s) \<and> length ?l < maxSSELine)" "ls_err s = None" by blast
  then show ?case
  proof cases
    case 3
    with "1.prems" have "\<not> maxSSELine \<le> length ?l" by (subst (asm) scanner_Scan.simps) (auto simp: Let_def)
    with 3 1 show ?thesis
      by (subst (asm) (5) scanner_Scan.simps)
         (auto simp: Let_def src_bytes_def add.assoc split: list.splits rd_item.splits)
  qed (use "1.prems" in \<open>subst (asm) scanner_Scan.simps, auto simp: Let_def split: if_splits\<close>)+
qed

section \<open>Dial\<close>

record sseRWCAdapter =
  sse_scanner :: line_scanner
  sse_postURL :: string
  sse_closed :: bool
  sse_ctx_done :: bool
  dataLines :: "string list"
  dataSize :: nat
  readChan :: "bytes list"
  readErrChan :: "mcp_error list"
  loop_done :: bool
  sse_readBuf :: bytes

definition new_adapter :: "rd_item list \<Rightarrow> string \<Rightarrow> sseRWCAdapter" where
  "new_adapter src u =
     \<lparr>sse_scanner = NewScanner src, sse_postURL = u, sse_closed = False, sse_ctx_done = False, dataLines = [], dataSize = 0,
      readChan = [], readErrChan = [], loop_done = False, sse_readBuf = []\<rparr>"

text \<open>The scan for the endpoint event. The result is the URL, with the reads that the scanner has not
  made: what it has in its own buffer is gone.\<close>

definition endpoint_line :: "(string \<Rightarrow> mcp_error + string) \<Rightarrow> line_scanner \<Rightarrow> mcp_error + (rd_item list \<times> string)" where
  "endpoint_line resolve s =
     (case scanner_Scan s of
        (s, None) \<Rightarrow> Inl (PlainErr ''sse: unexpected EOF after endpoint event name'')
      | (s, Some dataLine) \<Rightarrow>
          if \<not> strings_HasPrefix dataLine ''data: ''
          then Inl (PlainErr (''sse: expected data for endpoint event, got: '' @ dataLine))
          else let path = strings_TrimSpace (drop 6 dataLine) in
               case resolve path of
                 Inl err \<Rightarrow> Inl (WrapErr (''sse: invalid post endpoint URL '' @ quoted path) err)
               | Inr u \<Rightarrow> (case scanner_Err s of
                            Some e \<Rightarrow> Inl (WrapErr ''sse: scan endpoint event'' e)
                          | None \<Rightarrow> Inr (ls_src s, u)))"

function find_endpoint :: "(string \<Rightarrow> mcp_error + string) \<Rightarrow> line_scanner \<Rightarrow> mcp_error + (rd_item list \<times> string)" where
  "find_endpoint resolve s =
     (case scanner_Scan s of
        (s, None) \<Rightarrow> (case scanner_Err s of
                        Some e \<Rightarrow> Inl (WrapErr ''sse: scan endpoint event'' e)
                      | None \<Rightarrow> Inl (PlainErr ''sse: no endpoint event received''))
      | (s, Some line) \<Rightarrow>
          if strings_HasPrefix line ''event: endpoint'' then endpoint_line resolve s else find_endpoint resolve s)"
  by pat_completeness auto
termination
  by (relation "measure (\<lambda>(resolve, s). length (ls_buf s) + src_bytes (ls_src s))")
     (auto dest!: scanner_Scan_less [OF sym])

declare find_endpoint.simps [simp del]

text \<open>\<open>get\<close> is the answer to the GET request.\<close>

definition sse_Dial ::
  "(string \<Rightarrow> mcp_error + string) \<Rightarrow> mcp_error + int \<times> rd_item list \<times> bytes \<Rightarrow> mcp_error + sseRWCAdapter" where
  "sse_Dial resolve get =
     (case get of
        Inl err \<Rightarrow> Inl (WrapErr ''sse client: GET request failed'' err)
      | Inr (status, src, errBody) \<Rightarrow>
          if status \<noteq> 200
          then Inl (PlainErr (''sse client: GET request status '' @ show_int status @ '': '' @ take 4096 errBody))
          else case find_endpoint resolve (NewScanner src) of
                 Inl err \<Rightarrow> Inl err
               | Inr (src, u) \<Rightarrow> Inr (new_adapter src u))"

section \<open>The loop that reads\<close>

definition readChan_capacity :: nat where
  "readChan_capacity = 10"

definition loop_return :: "mcp_error \<Rightarrow> sseRWCAdapter \<Rightarrow> sseRWCAdapter" where
  "loop_return err a = a\<lparr>readErrChan := readErrChan a @ [err], loop_done := True\<rparr>"

definition loop_fail :: "mcp_error \<Rightarrow> sseRWCAdapter \<Rightarrow> sseRWCAdapter" where
  "loop_fail e a = loop_return (case wrapTransportClosed ''sse read'' (Some e) of Some w \<Rightarrow> w | None \<Rightarrow> e) a"

text \<open>One round; \<open>None\<close> when it would wait for room in the channel.\<close>

definition readLoop_round :: "sseRWCAdapter \<Rightarrow> sseRWCAdapter option" where
  "readLoop_round a =
     (if sse_closed a \<or> sse_ctx_done a then Some (loop_return (transportClosedError ''sse read'') a)
      else case scanner_Scan (sse_scanner a) of
        (s, None) \<Rightarrow>
          let a = a\<lparr>sse_scanner := s\<rparr>
          in (case ls_err s of
                Some (TimedOut e) \<Rightarrow> Some a
              | Some (Failed e) \<Rightarrow> Some (loop_fail e a)
              | _ \<Rightarrow> Some (loop_fail (Sentinel io_EOF) a))
      | (s, Some line) \<Rightarrow>
          let b = a\<lparr>sse_scanner := s\<rparr>;
              message = concat (dataLines a) @ [newline];
              cleared = b\<lparr>dataLines := [], dataSize := 0\<rparr>;
              room = length (readChan a) < readChan_capacity
          in if line = []
             then if dataLines a = [] then Some b
                  else if room then Some (cleared\<lparr>readChan := readChan a @ [message]\<rparr>) else None
             else if strings_HasPrefix line ''data:''
             then let d = strings_TrimSpace (drop 5 line)
                  in if maxSSELine < dataSize a + length d
                     then Some (loop_fail (PlainErr (''sse event exceeds '' @ show_nat maxSSELine @ '' bytes'')) b)
                     else Some (b\<lparr>dataSize := dataSize a + length d, dataLines := dataLines a @ [d]\<rparr>)
             else if strings_HasPrefix line ''event:'' \<and> dataLines a \<noteq> []
             then Some (if room then cleared\<lparr>readChan := readChan a @ [message]\<rparr> else cleared)
             else Some b)"

section \<open>Reading and writing\<close>

text \<open>\<open>Read\<close> with a buffer of \<open>n\<close> bytes; \<open>pick\<close> is the choice of the select.\<close>

definition sse_Read :: "nat \<Rightarrow> nat \<Rightarrow> sseRWCAdapter \<Rightarrow> sseRWCAdapter \<times> (mcp_error + bytes) call" where
  "sse_Read pick n a =
     (if sse_readBuf a \<noteq> []
      then (a\<lparr>sse_readBuf := drop n (sse_readBuf a)\<rparr>, CRet (Inr (take n (sse_readBuf a))))
      else let closed = Inl (transportClosedError ''sse read'');
               ready = (if sse_closed a then [(a, closed)] else []) @ (if sse_ctx_done a then [(a, closed)] else []) @
                       (case readChan a of
                          d # rest \<Rightarrow> [(a\<lparr>readChan := rest, sse_readBuf := drop n d\<rparr>, Inr (take n d))]
                        | [] \<Rightarrow>
                            if \<not> loop_done a then []
                            else case readErrChan a of
                                   [] \<Rightarrow> [(a, closed)]
                                 | e # es \<Rightarrow> [(a\<lparr>readErrChan := es\<rparr>,
                                               Inl (case wrapTransportClosed ''sse read'' (Some e) of Some w \<Rightarrow> w | None \<Rightarrow> e))])
           in case select_case pick ready of None \<Rightarrow> (a, CBlocked) | Some (a, r) \<Rightarrow> (a, CRet r))"

definition sse_Write ::
  "(string \<Rightarrow> bytes \<Rightarrow> mcp_error + int \<times> bytes) \<Rightarrow> bytes \<Rightarrow> sseRWCAdapter \<Rightarrow> mcp_error + nat" where
  "sse_Write post p a =
     (if sse_closed a \<or> sse_ctx_done a then Inl (transportClosedError ''sse write'')
      else case post (sse_postURL a) (if suffix [newline] p then butlast p else p) of
             Inl err \<Rightarrow>
               (case wrapTransportClosed ''sse write'' (Some err) of
                  Some w \<Rightarrow> if w \<noteq> err then Inl w else Inl (WrapErr ''sse client: POST failed'' err)
                | None \<Rightarrow> Inl (WrapErr ''sse client: POST failed'' err))
           | Inr (status, body) \<Rightarrow>
               if status < 200 \<or> 300 \<le> status
               then Inl (PlainErr (''sse client: POST status '' @ show_int status @ '': '' @ take 4096 body))
               else Inr (length p))"

definition sse_Close :: "sseRWCAdapter \<Rightarrow> sseRWCAdapter" where
  "sse_Close a = a\<lparr>sse_closed := True\<rparr>"

section \<open>An adapter at work\<close>

record sse_run =
  sr_adapter :: sseRWCAdapter
  sr_read :: bytes

inductive sse_step :: "sse_run \<Rightarrow> sse_run \<Rightarrow> bool" where
  s_round:
    "\<not> loop_done (sr_adapter r) \<Longrightarrow> readLoop_round (sr_adapter r) = Some a \<Longrightarrow> sse_step r (r\<lparr>sr_adapter := a\<rparr>)"
| s_read:
    "sse_Read pick n (sr_adapter r) = (a, CRet q) \<Longrightarrow>
     sse_step r (r\<lparr>sr_adapter := a, sr_read := sr_read r @ (case q of Inr bs \<Rightarrow> bs | Inl e \<Rightarrow> [])\<rparr>)"
| s_close: "sse_step r (r\<lparr>sr_adapter := sse_Close (sr_adapter r)\<rparr>)"
| s_cancel: "sse_step r (r\<lparr>sr_adapter := (sr_adapter r)\<lparr>sse_ctx_done := True\<rparr>\<rparr>)"

abbreviation sse_steps :: "sse_run \<Rightarrow> sse_run \<Rightarrow> bool" where
  "sse_steps \<equiv> sse_step\<^sup>*\<^sup>*"

section \<open>What is written is read\<close>

lemma takeWhile_line: "newline \<notin> set l \<Longrightarrow> takeWhile (\<lambda>c. c \<noteq> newline) (l @ newline # r) = l"
  by (induction l) auto

text \<open>The text that a scanner still has before it, when only chunks come.\<close>

definition scanner_text :: "line_scanner \<Rightarrow> bytes \<Rightarrow> bool" where
  "scanner_text s txt \<longleftrightarrow> ls_err s = None \<and> (\<exists>cs. ls_src s = map Chunk cs \<and> ls_buf s @ concat cs = txt)"

lemma scan_chunks:
  assumes "ls_err s = None" and "ls_src s = map Chunk cs" and "ls_buf s @ concat cs = l @ newline # r"
    and "newline \<notin> set l" and "length l < maxSSELine"
  shows "\<exists>s'. scanner_Scan s = (s', Some (dropCR l)) \<and> scanner_text s' r"
  using assms
proof (induction cs arbitrary: s)
  case Nil
  then have "ls_buf s = l @ newline # r" by simp
  then show ?case
    using Nil by (subst scanner_Scan.simps) (simp add: Let_def takeWhile_line scanner_text_def)
next
  case (Cons b cs)
  show ?case
  proof (cases "newline \<in> set (ls_buf s)")
    case True
    then obtain l' r' where b: "ls_buf s = l' @ newline # r'" "newline \<notin> set l'" by (meson split_list_first)
    with Cons.prems(3,4) have "l' = l" "r' @ concat (b # cs) = r"
      using takeWhile_line [OF b(2), of "r' @ concat (b # cs)"] takeWhile_line [OF Cons.prems(4), of r] by auto
    with b Cons.prems show ?thesis
      by (subst scanner_Scan.simps)
         (auto simp: Let_def takeWhile_line scanner_text_def intro!: exI [of _ "b # cs"])
  next
    case False
    then have t: "takeWhile (\<lambda>c. c \<noteq> newline) (ls_buf s) = ls_buf s" by (auto simp: takeWhile_eq_all_conv)
    have "length (ls_buf s) \<le> length l"
    proof (rule ccontr)
      assume "\<not> length (ls_buf s) \<le> length l"
      then have "newline \<in> set (ls_buf s)"
        using arg_cong [OF Cons.prems(3), of "\<lambda>xs. xs ! length l"]
        by (auto simp: nth_append in_set_conv_nth not_le split: if_splits)
      with False show False by contradiction
    qed
    then have "scanner_Scan s = scanner_Scan (s\<lparr>ls_buf := ls_buf s @ b, ls_src := map Chunk cs\<rparr>)"
      using Cons.prems(1,2,5) by (subst scanner_Scan.simps) (simp add: Let_def t)
    with Cons.IH [of "s\<lparr>ls_buf := ls_buf s @ b, ls_src := map Chunk cs\<rparr>"] Cons.prems show ?thesis by simp
  qed
qed

lemma scan_empty:
  assumes "ls_err s = None" and "ls_src s = map Chunk cs" and "ls_buf s @ concat cs = []"
  shows "\<exists>s'. scanner_Scan s = (s', None) \<and> ls_err s' = Some AtEOF"
  using assms
proof (induction cs arbitrary: s)
  case Nil
  then have "scanner_Scan s = scanner_Scan (s\<lparr>ls_err := Some AtEOF\<rparr>)"
    by (subst scanner_Scan.simps) (simp add: Let_def maxSSELine_def)
  also have "\<dots> = (s\<lparr>ls_err := Some AtEOF, ls_buf := []\<rparr>, None)"
    using Nil by (subst scanner_Scan.simps) (simp add: Let_def)
  finally show ?case by simp
next
  case (Cons b cs)
  then have "scanner_Scan s = scanner_Scan (s\<lparr>ls_buf := ls_buf s @ b, ls_src := map Chunk cs\<rparr>)"
    by (subst scanner_Scan.simps) (simp add: Let_def maxSSELine_def)
  with Cons.IH [of "s\<lparr>ls_buf := ls_buf s @ b, ls_src := map Chunk cs\<rparr>"] Cons.prems show ?case by simp
qed

lemma scan_text:
  assumes "scanner_text s (l @ newline # r)" and "newline \<notin> set l" and "length l < maxSSELine" and "\<not> suffix [CHR 0x0D] l"
  obtains s' where "scanner_Scan s = (s', Some l)" and "scanner_text s' r"
proof -
  obtain cs where cs: "ls_err s = None" "ls_src s = map Chunk cs" "ls_buf s @ concat cs = l @ newline # r"
    using assms(1) by (auto simp: scanner_text_def)
  from scan_chunks [OF cs assms(2,3)] assms(4) that show thesis by (auto simp: dropCR_def)
qed

lemma scan_text_end:
  assumes "scanner_text s []"
  obtains s' where "scanner_Scan s = (s', None)" and "ls_err s' = Some AtEOF"
  using assms scan_empty [of s] that by (auto simp: scanner_text_def)

text \<open>Where a loop stands in the events to come: before an event, after its id, after its data.\<close>

definition sse_text :: "streamableMsg list \<Rightarrow> bytes" where
  "sse_text ms = concat (map writeSSEMessage ms)"

definition at_event :: "sseRWCAdapter \<Rightarrow> streamableMsg list \<Rightarrow> bool" where
  "at_event a todo \<longleftrightarrow>
     dataLines a = [] \<and> dataSize a = 0 \<and> scanner_text (sse_scanner a) (sse_text todo) \<or>
     (\<exists>m rest. todo = m # rest \<and> dataLines a = [] \<and> dataSize a = 0 \<and>
        scanner_text (sse_scanner a) ((''data: '' @ marshal_message (sm_Message m)) @ newline # newline # sse_text rest)) \<or>
     (\<exists>m rest. todo = m # rest \<and> dataLines a = [marshal_message (sm_Message m)] \<and>
        scanner_text (sse_scanner a) (newline # sse_text rest))"

definition sse_inv :: "streamableMsg list \<Rightarrow> sse_run \<Rightarrow> bool" where
  "sse_inv ms r \<longleftrightarrow>
     (let a = sr_adapter r
      in \<exists>past todo. ms = past @ todo \<and>
           sr_read r @ sse_readBuf a @ concat (readChan a) = concat (map (message_line \<circ> sm_Message) past) \<and>
           (loop_done a \<longrightarrow> sse_closed a \<or> sse_ctx_done a \<or> todo = []) \<and> (\<not> loop_done a \<longrightarrow> at_event a todo))"

lemma sse_text_Cons:
  "sse_text (m # ms) = (''id: '' @ sm_EventID m) @ newline # ((''data: '' @ marshal_message (sm_Message m)) @ newline # newline # sse_text ms)"
  by (simp add: sse_text_def writeSSEMessage_def)

lemma id_line:
  assumes "event_fits m"
  shows "newline \<notin> set (''id: '' @ sm_EventID m)" and "length (''id: '' @ sm_EventID m) < maxSSELine"
    and "\<not> suffix [CHR 0x0D] (''id: '' @ sm_EventID m)"
  using assms event_id_line [of "sm_EventID m"]
  by (auto simp: event_fits_def event_id_ok_def newline_def suffix_def maxSSELine_def maxTokenSize_def
      append_eq_append_conv2 Cons_eq_append_conv)

lemma data_line:
  assumes "event_fits m"
  shows "newline \<notin> set (''data: '' @ marshal_message (sm_Message m))"
    and "length (''data: '' @ marshal_message (sm_Message m)) < maxSSELine"
    and "\<not> suffix [CHR 0x0D] (''data: '' @ marshal_message (sm_Message m))"
    and "strings_TrimSpace (CHR '' '' # marshal_message (sm_Message m)) = marshal_message (sm_Message m)"
proof -
  obtain t where t: "marshal_message (sm_Message m) = CHR 0x7B # t @ [CHR 0x7D]" by (rule marshal_message_braces)
  show "strings_TrimSpace (CHR '' '' # marshal_message (sm_Message m)) = marshal_message (sm_Message m)"
    using TrimSpace_braces [of t] by (simp add: TrimSpace_space t)
  show "newline \<notin> set (''data: '' @ marshal_message (sm_Message m))"
    "\<not> suffix [CHR 0x0D] (''data: '' @ marshal_message (sm_Message m))"
    "length (''data: '' @ marshal_message (sm_Message m)) < maxSSELine"
    using marshal_message_line [of "sm_Message m"] t assms
    by (auto simp: newline_def suffix_def event_fits_def maxSSELine_def maxTokenSize_def)
qed

text \<open>A round of an open adapter moves to the next line; after the blank line one more message is in
  the channel, and at the end of the text the loop ends.\<close>

lemma round_moves:
  assumes "at_event a todo" and "list_all event_fits todo" and "\<not> sse_closed a" and "\<not> sse_ctx_done a"
    and "readLoop_round a = Some a'"
  shows "sse_readBuf a' = sse_readBuf a \<and> sse_closed a' = sse_closed a \<and> sse_ctx_done a' = sse_ctx_done a \<and>
    ((readChan a' = readChan a \<and> loop_done a' = loop_done a \<and> at_event a' todo) \<or>
     (\<exists>m rest. todo = m # rest \<and> readChan a' = readChan a @ [message_line (sm_Message m)] \<and> loop_done a' = loop_done a \<and> at_event a' rest) \<or>
     (todo = [] \<and> readChan a' = readChan a \<and> loop_done a'))"
proof -
  consider (event) "dataLines a = []" "dataSize a = 0" "scanner_text (sse_scanner a) (sse_text todo)"
    | (data) m rest where "todo = m # rest" "dataLines a = []" "dataSize a = 0"
        "scanner_text (sse_scanner a) ((''data: '' @ marshal_message (sm_Message m)) @ newline # newline # sse_text rest)"
    | (blank) m rest where "todo = m # rest" "dataLines a = [marshal_message (sm_Message m)]"
        "scanner_text (sse_scanner a) ([] @ newline # sse_text rest)"
    using assms(1) unfolding at_event_def by force
  then show ?thesis
  proof cases
    case event
    show ?thesis
    proof (cases todo)
      case Nil
      then obtain s' where "scanner_Scan (sse_scanner a) = (s', None)" "ls_err s' = Some AtEOF"
        using event(3) by (auto simp: sse_text_def elim: scan_text_end)
      with assms(3-5) Nil show ?thesis
        by (auto simp: readLoop_round_def Let_def loop_fail_def loop_return_def)
    next
      case (Cons m rest)
      then have fits: "event_fits m" using assms(2) by simp
      obtain s' where "scanner_Scan (sse_scanner a) = (s', Some (''id: '' @ sm_EventID m))"
        "scanner_text s' ((''data: '' @ marshal_message (sm_Message m)) @ newline # newline # sse_text rest)"
        using event(3) id_line [OF fits] unfolding Cons sse_text_Cons by (rule scan_text)
      with assms(3-5) event Cons show ?thesis
        by (auto simp: readLoop_round_def Let_def at_event_def)
    qed
  next
    case data
    then have fits: "event_fits m" using assms(2) by simp
    obtain s' where "scanner_Scan (sse_scanner a) = (s', Some (''data: '' @ marshal_message (sm_Message m)))"
      "scanner_text s' (newline # sse_text rest)"
      using data(4) data_line(1-3) [OF fits] by (rule scan_text)
    with assms(3-5) data data_line(2,4) [OF fits] show ?thesis
      by (auto simp: readLoop_round_def Let_def at_event_def)
  next
    case blank
    have "newline \<notin> set []" "length [] < maxSSELine" "\<not> suffix [CHR 0x0D] []" by (simp_all add: maxSSELine_def)
    then obtain s' where "scanner_Scan (sse_scanner a) = (s', Some [])" "scanner_text s' (sse_text rest)"
      using blank(3) by (metis scan_text)
    with assms(3-5) blank show ?thesis
      by (auto simp: readLoop_round_def Let_def at_event_def message_line_def split: if_splits)
  qed
qed

lemma sse_Read_effect:
  assumes "sse_Read pick n a = (a', CRet q)"
  shows "(case q of Inr bs \<Rightarrow> bs | Inl e \<Rightarrow> []) @ sse_readBuf a' @ concat (readChan a') = sse_readBuf a @ concat (readChan a) \<and>
    sse_closed a' = sse_closed a \<and> sse_ctx_done a' = sse_ctx_done a \<and> loop_done a' = loop_done a \<and>
    dataLines a' = dataLines a \<and> dataSize a' = dataSize a \<and> sse_scanner a' = sse_scanner a"
  using assms
  by (auto simp: sse_Read_def Let_def dest!: select_case_mem split: if_splits option.splits list.splits)

lemma at_event_cong:
  "dataLines a' = dataLines a \<Longrightarrow> dataSize a' = dataSize a \<Longrightarrow> sse_scanner a' = sse_scanner a \<Longrightarrow> at_event a' todo = at_event a todo"
  by (simp add: at_event_def)

lemma sse_invI:
  assumes "ms = past @ todo"
    and "sr_read r @ sse_readBuf (sr_adapter r) @ concat (readChan (sr_adapter r)) = concat (map (message_line \<circ> sm_Message) past)"
    and "loop_done (sr_adapter r) \<Longrightarrow> sse_closed (sr_adapter r) \<or> sse_ctx_done (sr_adapter r) \<or> todo = []"
    and "\<not> loop_done (sr_adapter r) \<Longrightarrow> at_event (sr_adapter r) todo"
  shows "sse_inv ms r"
  using assms by (auto simp: sse_inv_def Let_def)

lemma sse_inv_step:
  assumes "sse_step r r'" and "sse_inv ms r" and "list_all event_fits ms"
  shows "sse_inv ms r'"
  using assms
proof (induction rule: sse_step.induct)
  case (s_round r a)
  let ?a = "sr_adapter r"
  obtain past todo where inv: "ms = past @ todo"
      "sr_read r @ sse_readBuf ?a @ concat (readChan ?a) = concat (map (message_line \<circ> sm_Message) past)" "at_event ?a todo"
    using s_round by (auto simp: sse_inv_def Let_def)
  show ?case
  proof (cases "sse_closed ?a \<or> sse_ctx_done ?a")
    case True
    with s_round.hyps inv show ?thesis
      by (intro sse_invI [OF inv(1)]) (auto simp: readLoop_round_def loop_return_def)
  next
    case False
    have "list_all event_fits todo" using s_round.prems inv(1) by simp
    from round_moves [OF inv(3) this _ _ s_round.hyps(2)] False have b: "sse_readBuf a = sse_readBuf ?a" and
      moves: "(readChan a = readChan ?a \<and> loop_done a = loop_done ?a \<and> at_event a todo) \<or>
        (\<exists>m rest. todo = m # rest \<and> readChan a = readChan ?a @ [message_line (sm_Message m)] \<and> loop_done a = loop_done ?a \<and> at_event a rest) \<or>
        (todo = [] \<and> readChan a = readChan ?a \<and> loop_done a)" by simp_all
    from moves show ?thesis
    proof (elim disjE exE conjE)
      fix m rest
      assume m: "todo = m # rest" "readChan a = readChan ?a @ [message_line (sm_Message m)]" "loop_done a = loop_done ?a" "at_event a rest"
      have "sr_read r @ sse_readBuf a @ concat (readChan a) = concat (map (message_line \<circ> sm_Message) (past @ [m]))"
        using arg_cong [OF inv(2), of "\<lambda>bs. bs @ message_line (sm_Message m)"] b m(2) by simp
      with inv(1) m s_round.hyps show ?thesis by (intro sse_invI [of ms "past @ [m]" rest]) simp_all
    qed ((rule sse_invI [OF inv(1)]; insert inv b s_round.hyps; simp)+)
  qed
next
  case (s_read pick n r a q)
  note e = sse_Read_effect [OF s_read.hyps]
  then have "at_event a todo = at_event (sr_adapter r) todo" for todo by (intro at_event_cong) simp_all
  with e s_read.prems show ?case by (simp add: sse_inv_def Let_def)
qed (auto simp: sse_inv_def Let_def sse_Close_def cong: at_event_cong)

lemma sse_inv_steps:
  assumes "sse_steps r r'" and "sse_inv ms r" and "list_all event_fits ms"
  shows "sse_inv ms r'"
  using assms by (induction rule: rtranclp_induct) (auto intro: sse_inv_step)


text \<open>
  Once a read of the body has timed out, the scanner of the loop never reads again: every round
  leaves the adapter as it is, and the loop neither delivers nor ends until somebody closes it.
  The client that \<open>NewSSEClientTransport\<close> makes times out thirty seconds after the GET request.
\<close>

lemma timed_out_scan:
  assumes "ls_err s = Some (TimedOut e)" and "ls_buf s = []"
  shows "scanner_Scan s = (s, None)"
  using assms by (subst scanner_Scan.simps) (simp add: Let_def)

theorem timeout_spins_for_ever:
  assumes "ls_err (sse_scanner a) = Some (TimedOut e)" and "ls_buf (sse_scanner a) = []"
    and "\<not> sse_closed a" and "\<not> sse_ctx_done a" and "\<not> loop_done a"
  shows "((\<lambda>b. the (readLoop_round b)) ^^ n) a = a"
proof -
  have "readLoop_round a = Some a"
    using assms timed_out_scan [OF assms(1,2)] by (simp add: readLoop_round_def)
  then show ?thesis by (induction n) simp_all
qed

text \<open>
  What the scanner of \<open>Dial\<close> has read beyond the endpoint event is lost: a message that arrives in
  the same read as the endpoint never reaches the client.
\<close>

definition hasty_stream :: bytes where
  "hasty_stream = endpoint_event ''S'' @ writeSSEMessage \<lparr>sm_Message = demo_note, sm_EventID = ''0_0''\<rparr>"

lemma scan_first_line:
  assumes "newline \<notin> set l" and "length l < maxSSELine"
  shows "scanner_Scan \<lparr>ls_buf = l @ newline # r, ls_src = src, ls_err = e\<rparr> = (\<lparr>ls_buf = r, ls_src = src, ls_err = e\<rparr>, Some (dropCR l))"
  using assms by (subst scanner_Scan.simps) (simp add: Let_def takeWhile_line)

theorem dial_loses_buffered_message:
  "sse_Dial Inr (Inr (200, [Chunk hasty_stream], [])) = Inr (new_adapter [] ''/message?session=S'')"
proof -
  define rest where "rest = newline # writeSSEMessage \<lparr>sm_Message = demo_note, sm_EventID = ''0_0''\<rparr>"
  have h: "hasty_stream = ''event: endpoint'' @ newline # (''data: /message?session=S'' @ newline # rest)"
    by (simp add: hasty_stream_def endpoint_event_def rest_def)
  have l1: "newline \<notin> set ''event: endpoint''" "length ''event: endpoint'' < maxSSELine" "dropCR ''event: endpoint'' = ''event: endpoint''"
    and l2: "newline \<notin> set ''data: /message?session=S''" "length ''data: /message?session=S'' < maxSSELine"
      "dropCR ''data: /message?session=S'' = ''data: /message?session=S''"
    by (simp_all add: newline_def maxSSELine_def dropCR_def suffix_def append_eq_append_conv2 Cons_eq_append_conv)
  have "scanner_Scan (NewScanner [Chunk hasty_stream]) = scanner_Scan \<lparr>ls_buf = hasty_stream, ls_src = [], ls_err = None\<rparr>"
    by (subst scanner_Scan.simps) (simp add: Let_def NewScanner_def maxSSELine_def)
  also have "\<dots> = (\<lparr>ls_buf = ''data: /message?session=S'' @ newline # rest, ls_src = [], ls_err = None\<rparr>, Some ''event: endpoint'')"
    unfolding h scan_first_line [OF l1(1,2)] l1(3) by (rule refl)
  finally have s1: "scanner_Scan (NewScanner [Chunk hasty_stream]) =
    (\<lparr>ls_buf = ''data: /message?session=S'' @ newline # rest, ls_src = [], ls_err = None\<rparr>, Some ''event: endpoint'')" .
  have s2: "scanner_Scan \<lparr>ls_buf = ''data: /message?session=S'' @ newline # rest, ls_src = [], ls_err = None\<rparr> =
    (\<lparr>ls_buf = rest, ls_src = [], ls_err = None\<rparr>, Some ''data: /message?session=S'')"
    unfolding scan_first_line [OF l2(1,2)] l2(3) by (rule refl)
  have tr: "strings_TrimSpace ''/message?session=S'' = ''/message?session=S''" by code_simp
  have "endpoint_line Inr \<lparr>ls_buf = ''data: /message?session=S'' @ newline # rest, ls_src = [], ls_err = None\<rparr> =
      Inr ([], ''/message?session=S'')"
    unfolding endpoint_line_def s2 by (simp add: tr scanner_Err_def)
  then have "find_endpoint Inr (NewScanner [Chunk hasty_stream]) = Inr ([], ''/message?session=S'')"
    by (subst find_endpoint.simps) (simp add: s1)
  then show ?thesis by (simp add: sse_Dial_def)
qed

section \<open>The loop ends\<close>

definition scanner_left :: "line_scanner \<Rightarrow> nat" where
  "scanner_left s = length (ls_buf s) + src_bytes (ls_src s)"

definition no_timeout :: "line_scanner \<Rightarrow> bool" where
  "no_timeout s \<longleftrightarrow> (\<forall>e. ls_err s \<noteq> Some (TimedOut e)) \<and> list_all (\<lambda>i. case i of RdTimeout e \<Rightarrow> False | _ \<Rightarrow> True) (ls_src s)"

lemma scanner_Scan_no_timeout: "scanner_Scan s = (s', res) \<Longrightarrow> no_timeout s \<Longrightarrow> no_timeout s'"
proof (induction s rule: scanner_Scan.induct)
  case (1 s)
  let ?l = "takeWhile (\<lambda>c. c \<noteq> newline) (ls_buf s)"
  show ?case
  proof (cases "length ?l < length (ls_buf s) \<and> length ?l < maxSSELine \<or> ls_err s \<noteq> None \<or> maxSSELine \<le> length ?l")
    case True
    with "1.prems" show ?thesis
      by (subst (asm) scanner_Scan.simps) (auto simp: Let_def no_timeout_def split: if_splits)
  next
    case False
    with 1 show ?thesis
      by (subst (asm) (5) scanner_Scan.simps)
         (auto simp: Let_def no_timeout_def split: list.splits rd_item.splits)
  qed
qed

lemma round_decreases:
  assumes "no_timeout (sse_scanner a)" and "readLoop_round a = Some a'"
  shows "loop_done a' \<or> scanner_left (sse_scanner a') < scanner_left (sse_scanner a) \<and> no_timeout (sse_scanner a')"
proof -
  obtain s res where s: "scanner_Scan (sse_scanner a) = (s, res)" by fastforce
  note nt = scanner_Scan_no_timeout [OF s assms(1)]
  show ?thesis
  proof (cases res)
    case None
    with s nt assms(2) show ?thesis
      by (auto simp: readLoop_round_def Let_def loop_fail_def loop_return_def no_timeout_def split: if_splits option.splits scan_err.splits)
  next
    case (Some line)
    with scanner_Scan_less s have "scanner_left s < scanner_left (sse_scanner a)" by (auto simp: scanner_left_def)
    with s nt Some assms(2) show ?thesis
      by (auto simp: readLoop_round_def Let_def loop_fail_def loop_return_def split: if_splits)
  qed
qed

lemma round_with_room: "length (readChan a) < readChan_capacity \<Longrightarrow> \<exists>a'. readLoop_round a = Some a'"
  by (auto simp: readLoop_round_def Let_def split: prod.splits option.splits scan_err.splits)

text \<open>A round after the reader has emptied the channel.\<close>

definition drained_round :: "sseRWCAdapter \<Rightarrow> sseRWCAdapter" where
  "drained_round a =
     (if loop_done a then a else case readLoop_round (a\<lparr>readChan := []\<rparr>) of Some a' \<Rightarrow> a' | None \<Rightarrow> a)"

lemma drained_round_done: "loop_done a \<Longrightarrow> (drained_round ^^ n) a = a"
  by (induction n) (simp_all add: drained_round_def)

text \<open>
  C29. The loop that reads events ends: if no read of the body times out and the reader keeps the
  channel empty, then after at most one round for each byte and one more the loop has returned,
  whatever the body holds.
\<close>

theorem readLoop_terminates:
  assumes "no_timeout (sse_scanner a)"
  shows "loop_done ((drained_round ^^ Suc (scanner_left (sse_scanner a))) a)"
  using assms
proof (induction "scanner_left (sse_scanner a)" arbitrary: a rule: less_induct)
  case less
  show ?case
  proof (cases "loop_done a")
    case True
    then show ?thesis by (simp add: drained_round_done del: funpow.simps)
  next
    case False
    obtain a' where a': "readLoop_round (a\<lparr>readChan := []\<rparr>) = Some a'"
      using round_with_room [of "a\<lparr>readChan := []\<rparr>"] by (auto simp: readChan_capacity_def)
    then have d: "drained_round a = a'" using False by (simp add: drained_round_def)
    show ?thesis
    proof (cases "loop_done a'")
      case True
      then show ?thesis by (simp add: funpow_Suc_right d drained_round_done del: funpow.simps)
    next
      case False
      with round_decreases [OF _ a'] less.prems
      have lt: "scanner_left (sse_scanner a') < scanner_left (sse_scanner a)" and nt: "no_timeout (sse_scanner a')" by auto
      from lt obtain k where k: "scanner_left (sse_scanner a) = k + Suc (scanner_left (sse_scanner a'))"
        by (metis add_Suc_right less_imp_Suc_add add.commute)
      have "loop_done ((drained_round ^^ Suc (scanner_left (sse_scanner a'))) a')" by (rule less.hyps [OF lt nt])
      then have "loop_done ((drained_round ^^ (k + Suc (scanner_left (sse_scanner a')))) a')"
        unfolding funpow_add comp_def using drained_round_done by metis
      then show ?thesis unfolding k by (simp only: funpow_Suc_right comp_def d)
    qed
  qed
qed

text \<open>With few events to come the loop gets to the end whether or not anybody reads.\<close>

lemma sse_run_to_end:
  assumes "at_event (sr_adapter r) todo" and "list_all event_fits todo" and "\<not> loop_done (sr_adapter r)"
    and "\<not> sse_closed (sr_adapter r)" and "\<not> sse_ctx_done (sr_adapter r)" and "no_timeout (sse_scanner (sr_adapter r))"
    and "length (readChan (sr_adapter r)) + length todo < readChan_capacity"
  shows "\<exists>r'. sse_steps r r' \<and> loop_done (sr_adapter r') \<and> \<not> sse_closed (sr_adapter r') \<and> \<not> sse_ctx_done (sr_adapter r')"
  using assms
proof (induction "scanner_left (sse_scanner (sr_adapter r))" arbitrary: r todo rule: less_induct)
  case less
  obtain a where a: "readLoop_round (sr_adapter r) = Some a"
    using round_with_room [of "sr_adapter r"] less.prems(7) by auto
  let ?r = "r\<lparr>sr_adapter := a\<rparr>"
  have step: "sse_step r ?r" by (rule s_round [OF less.prems(3) a])
  note m = round_moves [OF less.prems(1,2,4,5) a]
  show ?case
  proof (cases "loop_done a")
    case True
    with step m less.prems(4,5) show ?thesis by (intro exI [of _ ?r]) auto
  next
    case False
    then obtain todo' where t: "at_event a todo'" "list_all event_fits todo'"
        "length (readChan a) + length todo' < readChan_capacity"
      using m less.prems(2,7) by auto
    have "\<exists>r'. sse_steps ?r r' \<and> loop_done (sr_adapter r') \<and> \<not> sse_closed (sr_adapter r') \<and> \<not> sse_ctx_done (sr_adapter r')"
      using round_decreases [OF less.prems(6) a] False m t less.prems(4,5) by (intro less.hyps [of ?r todo']) auto
    with step show ?thesis by (meson converse_rtranclp_into_rtranclp)
  qed
qed

definition sample_event :: streamableMsg where
  "sample_event = \<lparr>sm_Message = demo_note, sm_EventID = ''0_0''\<rparr>"

lemma sample_event_fits: "event_fits sample_event"
proof -
  have "event_id_ok ''0_0''" "length (marshal_message demo_note) \<le> 100" by code_simp+
  then show ?thesis by (simp add: event_fits_def sample_event_def maxTokenSize_def)
qed

lemma start_at_event: "concat cs = sse_text ms \<Longrightarrow> at_event (new_adapter (map Chunk cs) u) ms \<and> no_timeout (sse_scanner (new_adapter (map Chunk cs) u))"
  by (auto simp: new_adapter_def NewScanner_def at_event_def scanner_text_def no_timeout_def list_all_iff)


theorem readLoop_terminates_witness:
  "loop_done ((drained_round ^^ Suc 3) (new_adapter [Chunk ''ab'', Chunk ''c''] ''u''))"
proof -
  have "no_timeout (sse_scanner (new_adapter [Chunk ''ab'', Chunk ''c''] ''u''))"
    "scanner_left (sse_scanner (new_adapter [Chunk ''ab'', Chunk ''c''] ''u'')) = 3"
    by (simp_all add: no_timeout_def scanner_left_def new_adapter_def NewScanner_def src_bytes_def)
  with readLoop_terminates [of "new_adapter [Chunk ''ab'', Chunk ''c''] ''u''"] show ?thesis by (simp del: funpow.simps)
qed

end
