(* ===== verification/Builtin.thy ===== *)
theory Builtin
  imports Security Auth Cache Json_Roundtrip
begin

text \<open>
  Model of the built-in middlewares of \<open>middleware.go\<close> and \<open>middleware_advanced.go\<close>: logging,
  authentication with its token cache, rate limiting, timeout, recovery, metrics, compression,
  caching, validation, CORS, content transformation and conditions. Each maps handlers to
  handlers, as in theory \<open>Middleware\<close>; what a middleware keeps is a field of the world the
  handlers work on. The clock is a sequence of readings, one for each call of \<open>time.Now\<close>. The
  limiter of \<open>golang.org/x/time/rate\<close>, SHA-256, compiled regular expressions and the outcome of the
  race between a handler and its timeout are arguments.
\<close>

section \<open>Context and world\<close>

record AuthContext =
  actx_AccessToken :: AccessToken
  actx_ClientID :: string
  actx_Scopes :: "string list"

record mcp_ctx =
  ctx_authHeader :: "string option"
  ctx_auth :: "AuthContext option"
  ctx_requestID :: "string option"
  ctx_transport :: "string option"
  ctx_deadline :: "time option"
  ctx_transmitted :: "string option"
  ctx_userAgent :: "string option"
  ctx_remoteAddr :: "string option"
  ctx_clientID :: "string option"

record cachedToken =
  ct_Token :: AccessToken
  ct_ExpiresAt :: time

record 'l rateLimiterEntry =
  rl_limiter :: 'l
  rl_lastUsed :: time

datatype metric =
    MActive int64
  | MRequest string duration int "(string \<times> string) list"
  | MError string string "(string \<times> string) list"

datatype 'v log_line =
    LogStarted string string time "'v option"
  | LogCompleted string string duration bool "'v option" "string option"

record ('l, 'v, 's) mw_world =
  w_clock :: "nat \<Rightarrow> time"
  w_reads :: nat
  w_provider :: MemoryOAuthProvider
  tokenCache :: "(string, cachedToken) gomap"
  limiters :: "(string, 'l rateLimiterEntry) gomap"
  activeReqs :: int64
  w_metrics :: "metric list"
  w_log :: "'v log_line list"
  w_cache :: InMemoryCache
  w_rest :: 's

type_synonym ('l, 'v, 's, 'r) handler = "(mcp_ctx, ('l, 'v, 's) mw_world, 'r) MCPHandler"

definition clock_now :: "('l, 'v, 's) mw_world \<Rightarrow> ('l, 'v, 's) mw_world \<times> time" where
  "clock_now w = (w\<lparr>w_reads := Suc (w_reads w)\<rparr>, w_clock w (w_reads w))"

definition WithAuthContext :: "AuthContext \<Rightarrow> mcp_ctx \<Rightarrow> mcp_ctx" where
  "WithAuthContext a ctx = ctx\<lparr>ctx_auth := Some a\<rparr>"

definition GetAuthContext :: "mcp_ctx \<Rightarrow> AuthContext option" where
  "GetAuthContext ctx = ctx_auth ctx"

definition getOrGenerateRequestID :: "mcp_ctx \<Rightarrow> ('l, 'v, 's) mw_world \<Rightarrow> ('l, 'v, 's) mw_world \<times> string" where
  "getOrGenerateRequestID ctx w =
     (case ctx_requestID ctx of
        Some i \<Rightarrow> (w, i)
      | None \<Rightarrow> (let (w, now) = clock_now w in (w, ''req_'' @ show_int now)))"

section \<open>Logging\<close>

record ('v, 'r) LoggingMiddleware =
  requestFields :: "string list"
  responseFields :: "string list"
  log_sanitizer :: "((go_any \<Rightarrow> 'v) \<times> ('r \<Rightarrow> 'v)) option"   \<comment> \<open>on parameters and on results\<close>

definition call_has_error :: "'r MCPResponse call \<Rightarrow> bool" where
  "call_has_error c = (case c of Ret resp err \<Rightarrow> err \<noteq> None \<or> (case resp of Some r \<Rightarrow> resp_IsError r | None \<Rightarrow> False) | Panic p \<Rightarrow> False)"

definition Logging_Apply :: "('v, 'r) LoggingMiddleware \<Rightarrow> ('l, 'v, 's, 'r) handler \<Rightarrow> ('l, 'v, 's, 'r) handler" where
  "Logging_Apply m next ctx req w =
     (let (w, start) = clock_now w;
          (w, rid) = getOrGenerateRequestID ctx w;
          params = (if requestFields m = [] then None
                    else case (req_params req, log_sanitizer m) of
                           (Some p, Some (f, g)) \<Rightarrow>
                             (case unmarshal_map p of
                                Inr ms \<Rightarrow> Some (f (AObj (canon_members (map (\<lambda>(k, t, v). (k, decode_any v)) ms))))
                              | Inl e \<Rightarrow> None)
                         | _ \<Rightarrow> None);
          w = w\<lparr>w_log := w_log w @ [LogStarted rid (req_method req) start params]\<rparr>
      in case next ctx req w of
           (w, Panic p) \<Rightarrow> (w, Panic p)
         | (w, Ret resp err) \<Rightarrow>
             let (w, now) = clock_now w;
                 result = (if responseFields m = [] then None
                           else case (resp, log_sanitizer m) of
                                  (Some (successResponse r), Some (f, g)) \<Rightarrow> Some (g r)
                                | _ \<Rightarrow> None)
             in (w\<lparr>w_log := w_log w @ [LogCompleted rid (req_method req) (now - start)
                    (call_has_error (Ret resp err)) result (map_option error_string err)]\<rparr>,
                 Ret resp err))"

section \<open>Authentication\<close>

record AuthenticationMiddleware =
  auth_skip :: "string list"
  cacheTimeout :: duration

definition NewAuthenticationMiddleware :: "string list \<Rightarrow> duration \<Rightarrow> AuthenticationMiddleware" where
  "NewAuthenticationMiddleware skipMethods timeout =
     \<lparr>auth_skip = [''initialize'', ''initialized'', ''ping''] @ skipMethods,
      cacheTimeout = (if timeout = 0 then 5 * minute else timeout)\<rparr>"

definition extractToken :: "(string \<Rightarrow> string) \<Rightarrow> mcp_ctx \<Rightarrow> MCPRequest \<Rightarrow> mcp_error + string" where
  "extractToken ul ctx req =
     (case ctx_authHeader ctx of
        Some h \<Rightarrow> ParseAuthorizationHeader ul h
      | None \<Rightarrow>
          (case req_params req of
             None \<Rightarrow> Inl (PlainErr ''no authentication token found'')
           | Some p \<Rightarrow>
               (case unmarshal_map p of
                  Inl e \<Rightarrow> Inl (PlainErr ''no authentication token found'')
                | Inr ms \<Rightarrow>
                    (case get_field ms ''auth_token'' of
                       Some (JStr token) \<Rightarrow> Inr token
                     | _ \<Rightarrow> Inl (PlainErr ''no authentication token found'')))))"

definition validate_and_store ::
  "AuthenticationMiddleware \<Rightarrow> string \<Rightarrow> ('l, 'v, 's) mw_world \<Rightarrow> ('l, 'v, 's) mw_world \<times> (mcp_error + AccessToken)" where
  "validate_and_store m token w =
     (let (w, now) = clock_now w
      in case ValidateAccessToken now token (w_provider w) of
           (p, Inl err) \<Rightarrow> (w\<lparr>w_provider := p\<rparr>, Inl err)
         | (p, Inr accessToken) \<Rightarrow>
             let (w, now') = clock_now (w\<lparr>w_provider := p\<rparr>)
             in (w\<lparr>tokenCache := AList.update token
                    \<lparr>ct_Token = accessToken, ct_ExpiresAt = now' + cacheTimeout m\<rparr> (tokenCache w)\<rparr>, Inr accessToken))"

definition validateTokenWithCache ::
  "AuthenticationMiddleware \<Rightarrow> string \<Rightarrow> ('l, 'v, 's) mw_world \<Rightarrow> ('l, 'v, 's) mw_world \<times> (mcp_error + AccessToken)" where
  "validateTokenWithCache m token w =
     (case map_of (tokenCache w) token of
        Some entry \<Rightarrow>
          let (w, now) = clock_now w
          in if now < ct_ExpiresAt entry then (w, Inr (ct_Token entry))
             else validate_and_store m token (w\<lparr>tokenCache := AList.delete token (tokenCache w)\<rparr>)
      | None \<Rightarrow> validate_and_store m token w)"

text \<open>\<open>sanitize\<close> is \<open>SanitizeErrorMessage\<close> in the verbosity mode of the process.\<close>

definition NewAuthError :: "(string \<Rightarrow> string) \<Rightarrow> string \<Rightarrow> string \<Rightarrow> mcp_error" where
  "NewAuthError sanitize message code = OAuthError code (sanitize message)"

definition Authentication_Apply ::
  "(string \<Rightarrow> string) \<Rightarrow> (string \<Rightarrow> string) \<Rightarrow> AuthenticationMiddleware \<Rightarrow>
   ('l, 'v, 's, 'r) handler \<Rightarrow> ('l, 'v, 's, 'r) handler" where
  "Authentication_Apply sanitize ul m next ctx req w =
     (if req_method req \<in> set (auth_skip m) then next ctx req w
      else case extractToken ul ctx req of
             Inl err \<Rightarrow> (w, Ret None (Some (NewAuthError sanitize ''Authentication required'' ErrorInvalidRequest)))
           | Inr token \<Rightarrow>
               (case validateTokenWithCache m token w of
                  (w, Inl err) \<Rightarrow> (w, Ret None (Some (NewAuthError sanitize ''Invalid authentication'' ErrorInvalidClient)))
                | (w, Inr t) \<Rightarrow>
                    next (WithAuthContext \<lparr>actx_AccessToken = t, actx_ClientID = at_ClientID t, actx_Scopes = at_Scopes t\<rparr> ctx)
                      req w))"

section \<open>Rate limiting\<close>

record RateLimitConfig =
  RequestsPerSecond :: int
  BurstSize :: int
  KeyExtractor :: "(mcp_ctx \<Rightarrow> MCPRequest \<Rightarrow> string) option"
  rl_SkipMethods :: "string list"
  CleanupInterval :: duration
  PerEndpointLimiting :: bool

definition NewRateLimitMiddleware :: "RateLimitConfig \<Rightarrow> RateLimitConfig" where
  "NewRateLimitMiddleware c =
     (let c = (if RequestsPerSecond c = 0 then c\<lparr>RequestsPerSecond := 100\<rparr> else c);
          c = (if BurstSize c = 0 then c\<lparr>BurstSize := 10\<rparr> else c);
          c = (if KeyExtractor c = None then c\<lparr>KeyExtractor := Some (\<lambda>ctx req. ''global'')\<rparr> else c)
      in if CleanupInterval c = 0 then c\<lparr>CleanupInterval := 10 * minute\<rparr> else c)"

text \<open>The limiter of a library: how one is made and what \<open>Allow\<close> does at a time.\<close>

record 'l limiter_lib =
  lib_new :: "int \<Rightarrow> int \<Rightarrow> 'l"
  lib_allow :: "time \<Rightarrow> 'l \<Rightarrow> 'l \<times> bool"

definition rate_key :: "RateLimitConfig \<Rightarrow> mcp_ctx \<Rightarrow> MCPRequest \<Rightarrow> string" where
  "rate_key c ctx req =
     (let key = (case KeyExtractor c of Some f \<Rightarrow> f ctx req | None \<Rightarrow> ''global'')
      in if PerEndpointLimiting c then key @ '':'' @ req_method req else key)"

definition NewRateLimitError :: "string \<Rightarrow> 'r MCPResponse" where
  "NewRateLimitError message = NewErrorResponse message (- 32001)"

definition RateLimit_Apply ::
  "'l limiter_lib \<Rightarrow> RateLimitConfig \<Rightarrow> ('l, 'v, 's, 'r) handler \<Rightarrow> ('l, 'v, 's, 'r) handler" where
  "RateLimit_Apply lib c next ctx req w =
     (if req_method req \<in> set (rl_SkipMethods c) then next ctx req w
      else let key = rate_key c ctx req;
               (w, now) = clock_now w;
               entry = (case map_of (limiters w) key of
                          Some e \<Rightarrow> e
                        | None \<Rightarrow> \<lparr>rl_limiter = lib_new lib (RequestsPerSecond c) (BurstSize c), rl_lastUsed = now\<rparr>);
               (w, now) = clock_now w;
               entry = entry\<lparr>rl_lastUsed := now\<rparr>;
               (w, now) = clock_now w;
               (l, ok) = lib_allow lib now (rl_limiter entry);
               w = w\<lparr>limiters := AList.update key (entry\<lparr>rl_limiter := l\<rparr>) (limiters w)\<rparr>
           in if \<not> ok then (w, Ret (Some (NewRateLimitError ''Rate limit exceeded'')) None)
              else next ctx req w)"

definition rl_cleanup :: "RateLimitConfig \<Rightarrow> ('l, 'v, 's) mw_world \<Rightarrow> ('l, 'v, 's) mw_world" where
  "rl_cleanup c w =
     (let (w, now) = clock_now w;
          cutoff = now + (- CleanupInterval c)
      in w\<lparr>limiters := filter (\<lambda>(k, e). \<not> rl_lastUsed e < cutoff) (limiters w)\<rparr>)"

section \<open>Timeout and recovery\<close>

text \<open>How the race between the handler and the context ends.\<close>

datatype race = Finished | DeadlineExceeded | CtxErr mcp_error

text \<open>A handler that loses the race goes on by itself; its effects are part of the state either way.\<close>

definition Timeout_Apply ::
  "(mcp_ctx \<Rightarrow> MCPRequest \<Rightarrow> ('l, 'v, 's) mw_world \<Rightarrow> race) \<Rightarrow> duration \<Rightarrow>
   ('l, 'v, 's, 'r) handler \<Rightarrow> ('l, 'v, 's, 'r) handler" where
  "Timeout_Apply outcome timeout next ctx req w =
     (let (w, now) = clock_now w;
          d = now + timeout;
          tctx = ctx\<lparr>ctx_deadline := Some (case ctx_deadline ctx of Some d' \<Rightarrow> min d d' | None \<Rightarrow> d)\<rparr>;
          (w', res) = next tctx req w
      in (w',
          case outcome ctx req w of
            Finished \<Rightarrow>
              (case res of
                 Ret resp err \<Rightarrow> Ret resp err
               | Panic p \<Rightarrow> Ret None (map_option (WrapErr ''handler'') (recoverPanic (Some p))))
          | DeadlineExceeded \<Rightarrow> Ret (Some (NewErrorResponse ''Request timeout'' (- 32000))) None
          | CtxErr e \<Rightarrow> Ret None (Some e)))"

definition Recovery_Apply :: "('c, 's, 'r) MCPHandler \<Rightarrow> ('c, 's, 'r) MCPHandler" where
  "Recovery_Apply next ctx req w =
     (case next ctx req w of
        (w, Panic p) \<Rightarrow> (w, Ret (Some (NewErrorResponse ''Internal server error'' (- 32603))) None)
      | r \<Rightarrow> r)"

section \<open>Metrics\<close>

definition extractLabels :: "mcp_ctx \<Rightarrow> MCPRequest \<Rightarrow> (string \<times> string) list" where
  "extractLabels ctx req =
     [(''method'', req_method req),
      (''client_id'', case GetAuthContext ctx of Some a \<Rightarrow> actx_ClientID a | None \<Rightarrow> ''anonymous''),
      (''transport'', case ctx_transport ctx of Some t \<Rightarrow> t | None \<Rightarrow> ''unknown'')]"

definition record_active :: "int64 \<Rightarrow> ('l, 'v, 's) mw_world \<Rightarrow> ('l, 'v, 's) mw_world" where
  "record_active d w = w\<lparr>activeReqs := activeReqs w + d, w_metrics := w_metrics w @ [MActive (activeReqs w + d)]\<rparr>"

definition Metrics_Apply :: "('l, 'v, 's, 'r) handler \<Rightarrow> ('l, 'v, 's, 'r) handler" where
  "Metrics_Apply next ctx req w =
     (let (w, start) = clock_now w;
          w = record_active 1 w;
          labels = extractLabels ctx req
      in case next ctx req w of
           (w, Panic p) \<Rightarrow> (record_active (- 1) w, Panic p)
         | (w, Ret resp err) \<Rightarrow>
             let (w, now) = clock_now w;
                 failed = call_has_error (Ret resp err);
                 errs = (if failed then [MError (req_method req) (if err \<noteq> None then ''handler_error'' else ''response_error'') labels] else []);
                 w = w\<lparr>w_metrics := w_metrics w @ errs @
                        [MRequest (req_method req) (now - start) (if failed then 500 else 200) labels]\<rparr>
             in (record_active (- 1) w, Ret resp err))"

section \<open>Compression, CORS and caching\<close>

text \<open>The compressed text is made and not used: whatever it is, the response is returned as it was.\<close>

definition Compression_Apply ::
  "(bytes \<Rightarrow> mcp_error + bytes) \<Rightarrow> nat \<Rightarrow> ('c, 's, 'r) MCPHandler \<Rightarrow> ('c, 's, 'r) MCPHandler" where
  "Compression_Apply compress minSize next ctx req w =
     (case next ctx req w of
        (w, Panic p) \<Rightarrow> (w, Panic p)
      | (w, Ret resp (Some err)) \<Rightarrow> (w, Ret resp (Some err))
      | (w, Ret None None) \<Rightarrow> (w, Ret None None)
      | (w, Ret (Some resp) None) \<Rightarrow>
          let respData = ''{}''
          in if length respData < minSize then (w, Ret (Some resp) None)
             else case compress respData of
                    Inr compressed \<Rightarrow>
                      if length compressed < length respData then (w, Ret (Some resp) None) else (w, Ret (Some resp) None)
                  | Inl e \<Rightarrow> (w, Ret (Some resp) None))"

record CORSConfig =
  AllowOrigins :: "string list"
  AllowMethods :: "string list"
  AllowHeaders :: "string list"
  MaxAge :: int

definition NewCORSMiddleware :: "string \<Rightarrow> CORSConfig \<Rightarrow> CORSConfig" where
  "NewCORSMiddleware env c =
     (let c = (if AllowOrigins c = [] \<and> env \<in> {''development'', ''dev''}
               then c\<lparr>AllowOrigins := [''http://localhost:*'', ''http://127.0.0.1:*'']\<rparr> else c);
          c = (if AllowMethods c = [] then c\<lparr>AllowMethods := [''GET'', ''POST'', ''OPTIONS'']\<rparr> else c);
          c = (if AllowHeaders c = [] then c\<lparr>AllowHeaders := [''Content-Type'', ''Authorization'']\<rparr> else c)
      in if MaxAge c = 0 then c\<lparr>MaxAge := 3600\<rparr> else c)"

definition CORS_Apply :: "('c, 's, 'r) MCPHandler \<Rightarrow> ('c, 's, 'r) MCPHandler" where
  "CORS_Apply next = next"

definition GenerateKey :: "(bytes \<Rightarrow> bytes) \<Rightarrow> mcp_ctx \<Rightarrow> MCPRequest \<Rightarrow> string" where
  "GenerateKey sha ctx req =
     hex_EncodeToString (sha (req_method req @ (case req_params req of Some p \<Rightarrow> p | None \<Rightarrow> []) @
       (case GetAuthContext ctx of Some a \<Rightarrow> actx_ClientID a | None \<Rightarrow> [])))"

text \<open>
  \<open>json.Marshal\<close> of a response: the structs behind the interface have no exported field. And
  \<open>json.Unmarshal\<close> into a variable of the interface type, which has methods: only \<open>null\<close> can be
  stored there; \<open>None\<close> is the error, \<open>Some None\<close> a nil response.
\<close>

definition marshal_response :: "'r MCPResponse \<Rightarrow> bytes" where
  "marshal_response r = ''{}''"

definition unmarshal_response :: "bytes \<Rightarrow> 'r MCPResponse option option" where
  "unmarshal_response data = (if json_parse data = Some JNull then Some None else None)"

definition caching_skips :: "string \<Rightarrow> bool" where
  "caching_skips m \<longleftrightarrow> m = ''tools/call''"

definition Caching_Apply ::
  "(bytes \<Rightarrow> bytes) \<Rightarrow> duration \<Rightarrow> ('l, 'v, 's, 'r) handler \<Rightarrow> ('l, 'v, 's, 'r) handler" where
  "Caching_Apply sha ttl next ctx req w =
     (if caching_skips (req_method req) then next ctx req w
      else let key = GenerateKey sha ctx req;
               (w, now) = clock_now w;
               (cache, cached) = cache_Get (w_cache w) key now;
               w = w\<lparr>w_cache := cache\<rparr>
           in case (case cached of Some data \<Rightarrow> (unmarshal_response data :: 'r MCPResponse option option) | None \<Rightarrow> None) of
                Some resp \<Rightarrow> (w, Ret resp None)
              | None \<Rightarrow>
                  (case next ctx req w of
                     (w, Ret (Some resp) None) \<Rightarrow>
                       if resp_IsError resp then (w, Ret (Some resp) None)
                       else let (w, now) = clock_now w; (w, now') = clock_now w
                            in (w\<lparr>w_cache := cache_Set (w_cache w) key (marshal_response resp)
                                   (if ttl = 0 then 5 * minute else ttl) now now'\<rparr>, Ret (Some resp) None)
                   | r \<Rightarrow> r))"

section \<open>Validation\<close>

definition NewJSONSchemaValidator :: JSONSchemaValidator where
  "NewJSONSchemaValidator = []"

text \<open>\<open>result_json\<close> is the result as the schema library sees it.\<close>

definition schema_ValidateResponse :: "('r \<Rightarrow> JSON) \<Rightarrow> JSONSchemaValidator \<Rightarrow> 'r MCPResponse \<Rightarrow> mcp_error option" where
  "schema_ValidateResponse result_json v resp =
     (case resp of
        successResponse r \<Rightarrow> ValidateMessage v ''response'' (result_json r)
      | errorResponse c m \<Rightarrow> None)"

record ValidationMiddleware =
  vm_schemas :: "(string \<times> string) list"
  strictMode :: bool
  vm_validator :: JSONSchemaValidator

definition NewValidationMiddleware :: "(string \<times> string) list \<Rightarrow> bool \<Rightarrow> ValidationMiddleware" where
  "NewValidationMiddleware schemas strict = \<lparr>vm_schemas = schemas, strictMode = strict, vm_validator = NewJSONSchemaValidator\<rparr>"

definition Validation_Apply ::
  "('r \<Rightarrow> JSON) \<Rightarrow> ValidationMiddleware \<Rightarrow> ('c, 's, 'r) MCPHandler \<Rightarrow> ('c, 's, 'r) MCPHandler" where
  "Validation_Apply result_json m next ctx req w =
     (case schema_ValidateRequest (vm_validator m) req of
        Some err \<Rightarrow> (w, Ret (Some (NewErrorResponse (''Request validation failed: '' @ error_string err) (- 32602))) None)
      | None \<Rightarrow>
          (case next ctx req w of
             (w, Ret (Some resp) None) \<Rightarrow>
               (case (if strictMode m then schema_ValidateResponse result_json (vm_validator m) resp else None) of
                  Some err \<Rightarrow> (w, Ret (Some (NewErrorResponse (''Response validation failed: '' @ error_string err) (- 32603))) None)
                | None \<Rightarrow> (w, Ret (Some resp) None))
           | r \<Rightarrow> r))"

section \<open>Content transformation\<close>

definition unmarshal_iface :: "bytes \<Rightarrow> go_any option" where
  "unmarshal_iface data =
     (case json_parse data of
        Some v \<Rightarrow> if any_decodes v then Some (decode_any v) else None
      | None \<Rightarrow> None)"

text \<open>\<open>JSONMinifierTransformer.Transform\<close>; \<open>None\<close> is the error.\<close>

definition Minifier_Transform :: "go_any \<Rightarrow> go_any option" where
  "Minifier_Transform content =
     (case content of
        AStr s \<Rightarrow> map_option (\<lambda>obj. AStr (marshal_any obj)) (unmarshal_iface s)
      | _ \<Rightarrow> Some content)"

definition transformRequest :: "MCPRequest \<Rightarrow> MCPRequest" where
  "transformRequest req =
     (case req_params req of
        None \<Rightarrow> req
      | Some params \<Rightarrow>
          if params = [] then req
          else case Option.bind (unmarshal_iface params) Minifier_Transform of
                 Some v \<Rightarrow> req\<lparr>req_params := Some (marshal_any v)\<rparr>
               | None \<Rightarrow> req)"

text \<open>The result of a response is an \<open>interface{}\<close>; \<open>as_string\<close> says when it is a string.\<close>

definition transformResponse :: "('r \<Rightarrow> string option) \<Rightarrow> (string \<Rightarrow> 'r) \<Rightarrow> 'r MCPResponse \<Rightarrow> 'r MCPResponse" where
  "transformResponse as_string of_string resp =
     (case resp of
        errorResponse c m \<Rightarrow> resp
      | successResponse r \<Rightarrow>
          (case as_string r of
             None \<Rightarrow> resp
           | Some s \<Rightarrow>
               (case Minifier_Transform (AStr s) of
                  Some (AStr s') \<Rightarrow> successResponse (of_string s')
                | _ \<Rightarrow> resp)))"

definition nil_dereference :: panic_value where
  "nil_dereference = PanicError (Sentinel ''runtime error: invalid memory address or nil pointer dereference'')"

definition ContentTransformation_Apply ::
  "('r \<Rightarrow> string option) \<Rightarrow> (string \<Rightarrow> 'r) \<Rightarrow> ('c, 's, 'r) MCPHandler \<Rightarrow> ('c, 's, 'r) MCPHandler" where
  "ContentTransformation_Apply as_string of_string next ctx req w =
     (case next ctx (transformRequest req) w of
        (w, Panic p) \<Rightarrow> (w, Panic p)
      | (w, Ret resp (Some err)) \<Rightarrow> (w, Ret resp (Some err))
      | (w, Ret None None) \<Rightarrow> (w, Panic nil_dereference)
      | (w, Ret (Some resp) None) \<Rightarrow> (w, Ret (Some (transformResponse as_string of_string resp)) None))"

section \<open>Conditions\<close>

datatype ConditionEvaluator =
    MethodCondition "string list"
  | ClientCondition "string list"
  | RegexCondition "string \<Rightarrow> bool" string   \<comment> \<open>a compiled pattern and the field\<close>

definition Evaluate :: "ConditionEvaluator \<Rightarrow> mcp_ctx \<Rightarrow> MCPRequest \<Rightarrow> bool" where
  "Evaluate c ctx req =
     (case c of
        MethodCondition methods \<Rightarrow> req_method req \<in> set methods
      | ClientCondition clientIDs \<Rightarrow>
          (case GetAuthContext ctx of Some a \<Rightarrow> actx_ClientID a \<in> set clientIDs | None \<Rightarrow> False)
      | RegexCondition matches fld \<Rightarrow>
          if fld = ''method'' then matches (req_method req)
          else if fld = ''client_id''
          then matches (case GetAuthContext ctx of Some a \<Rightarrow> actx_ClientID a | None \<Rightarrow> [])
          else False)"

definition Conditional ::
  "ConditionEvaluator \<Rightarrow> (mcp_ctx, 's, 'r) Middleware \<Rightarrow> (mcp_ctx, 's, 'r) Middleware" where
  "Conditional c m =
     Middleware (''conditional_'' @ mw_Name m) (mw_Priority m)
       (\<lambda>next ctx req w. if Evaluate c ctx req then mw_Apply m next ctx req w else next ctx req w)"

section \<open>The middlewares with their names and priorities\<close>

definition LoggingMW :: "('v, 'r) LoggingMiddleware \<Rightarrow> (mcp_ctx, ('l, 'v, 's) mw_world, 'r) Middleware" where
  "LoggingMW m = Middleware ''logging'' 1000 (Logging_Apply m)"

definition AuthenticationMW ::
  "(string \<Rightarrow> string) \<Rightarrow> (string \<Rightarrow> string) \<Rightarrow> AuthenticationMiddleware \<Rightarrow> (mcp_ctx, ('l, 'v, 's) mw_world, 'r) Middleware" where
  "AuthenticationMW sanitize ul m = Middleware ''authentication'' 900 (Authentication_Apply sanitize ul m)"

definition RateLimitMW :: "'l limiter_lib \<Rightarrow> RateLimitConfig \<Rightarrow> (mcp_ctx, ('l, 'v, 's) mw_world, 'r) Middleware" where
  "RateLimitMW lib c = Middleware ''rate_limit'' 800 (RateLimit_Apply lib c)"

definition TimeoutMW ::
  "(mcp_ctx \<Rightarrow> MCPRequest \<Rightarrow> ('l, 'v, 's) mw_world \<Rightarrow> race) \<Rightarrow> duration \<Rightarrow> (mcp_ctx, ('l, 'v, 's) mw_world, 'r) Middleware" where
  "TimeoutMW outcome timeout = Middleware ''timeout'' 700 (Timeout_Apply outcome timeout)"

definition RecoveryMW :: "('c, 's, 'r) Middleware" where
  "RecoveryMW = Middleware ''recovery'' 1100 Recovery_Apply"

definition MetricsMW :: "(mcp_ctx, ('l, 'v, 's) mw_world, 'r) Middleware" where
  "MetricsMW = Middleware ''metrics'' 600 Metrics_Apply"

definition CompressionMW :: "(bytes \<Rightarrow> mcp_error + bytes) \<Rightarrow> nat \<Rightarrow> ('c, 's, 'r) Middleware" where
  "CompressionMW compress minSize = Middleware ''compression'' 200 (Compression_Apply compress minSize)"

definition CachingMW :: "(bytes \<Rightarrow> bytes) \<Rightarrow> duration \<Rightarrow> (mcp_ctx, ('l, 'v, 's) mw_world, 'r) Middleware" where
  "CachingMW sha ttl = Middleware ''caching'' 300 (Caching_Apply sha ttl)"

definition ValidationMW :: "('r \<Rightarrow> JSON) \<Rightarrow> ValidationMiddleware \<Rightarrow> ('c, 's, 'r) Middleware" where
  "ValidationMW result_json m = Middleware ''validation'' 850 (Validation_Apply result_json m)"

definition CORSMW :: "('c, 's, 'r) Middleware" where
  "CORSMW = Middleware ''cors'' 950 CORS_Apply"

definition ContentTransformationMW :: "('r \<Rightarrow> string option) \<Rightarrow> (string \<Rightarrow> 'r) \<Rightarrow> ('c, 's, 'r) Middleware" where
  "ContentTransformationMW as_string of_string =
     Middleware ''content_transformation'' 100 (ContentTransformation_Apply as_string of_string)"

end
