(* ===== verification/Builtin_Props.thy ===== *)
theory Builtin_Props
  imports Builtin
begin

text \<open>
  What the built-in middlewares guarantee, alone and in a chain: panics stop at the recovery
  middleware, a revoked token is refused once its cached validation has run out, the active
  count of the metrics balances, and refused requests do not reach the handler behind. And what
  some of them do not do: the cache never serves, configured schemas are never used.
\<close>

section \<open>Recovery\<close>

lemma Recovery_no_panic: "snd (Recovery_Apply next ctx req w) \<noteq> Panic p"
  by (auto simp: Recovery_Apply_def split: prod.split call.split)

lemma sort_key_hd:
  assumes "x \<in> set xs" and "\<forall>y \<in> set xs. y \<noteq> x \<longrightarrow> f x < f y"
  shows "\<exists>ys. sort_key f xs = x # ys"
proof -
  obtain y ys where s: "sort_key f xs = y # ys" using assms(1) by (cases "sort_key f xs") (auto dest: arg_cong [of _ _ set])
  then have "y \<in> set xs" "x \<in> set (y # ys)" using assms(1) by (metis set_sort list.set_intros(1), metis set_sort)
  moreover have "sorted (map f (y # ys))" using s sorted_sort_key [of f xs] by simp
  ultimately have "f y \<le> f x" by auto
  with assms(2) \<open>y \<in> set xs\<close> have "y = x" by fastforce
  with s show ?thesis by simp
qed

text \<open>
  C17. No panic leaves a chain with the recovery middleware: wherever it is registered among
  middlewares of lower priority, a panic of the handler or of any of them becomes an error
  response.
\<close>

theorem recovery_stops_panics:
  assumes "RecoveryMW \<in> set mws" and "\<forall>m \<in> set mws. m \<noteq> RecoveryMW \<longrightarrow> mw_Priority m < 1100"
  shows "\<exists>resp err. snd (chain_Apply mws handler ctx req w) = Ret resp err"
proof -
  obtain ms where "sort_key (\<lambda>m. - mw_Priority m) mws = RecoveryMW # ms"
    using sort_key_hd [of RecoveryMW mws "\<lambda>m. - mw_Priority m"] assms by (auto simp: RecoveryMW_def)
  then have "chain_Apply mws handler = Recovery_Apply (foldr mw_Apply ms handler)"
    using assms(1) by (auto simp: chain_Apply_def bubble_sort_eq RecoveryMW_def)
  then show ?thesis using Recovery_no_panic by (metis call.exhaust)
qed

section \<open>Authentication\<close>

datatype auth_event = AuthCheck string | AuthOp oauth_op

fun auth_step :: "AuthenticationMiddleware \<Rightarrow> auth_event \<Rightarrow> ('l, 'v, 's) mw_world \<Rightarrow> ('l, 'v, 's) mw_world" where
  "auth_step m (AuthCheck token) w = fst (validateTokenWithCache m token w)"
| "auth_step m (AuthOp op) w = w\<lparr>w_provider := oauth_exec op (w_provider w)\<rparr>"

text \<open>No entry outlives a validation at any time from now on.\<close>

definition cache_recent :: "AuthenticationMiddleware \<Rightarrow> ('l, 'v, 's) mw_world \<Rightarrow> bool" where
  "cache_recent m w \<longleftrightarrow> (\<forall>tok e. map_of (tokenCache w) tok = Some e \<longrightarrow>
     (\<forall>i \<ge> w_reads w. ct_ExpiresAt e \<le> w_clock w i + cacheTimeout m))"

lemma auth_step_clock: "w_clock (auth_step m ev w) = w_clock w \<and> w_reads w \<le> w_reads (auth_step m ev w)"
  by (cases ev) (auto simp: validateTokenWithCache_def validate_and_store_def clock_now_def Let_def
      split: option.splits sum.splits prod.splits if_splits)

lemma cache_recent_step:
  assumes "mono (w_clock w)" and "cache_recent m w"
  shows "cache_recent m (auth_step m ev w)"
  using assms
  by (cases ev)
     (auto simp: cache_recent_def validateTokenWithCache_def validate_and_store_def clock_now_def Let_def
        update_conv' delete_conv' monoD split: option.splits sum.splits prod.splits if_splits)

lemma auth_steps_clock:
  "w_clock (fold (auth_step m) evs w) = w_clock w \<and> w_reads w \<le> w_reads (fold (auth_step m) evs w)"
proof (induction evs arbitrary: w)
  case (Cons ev evs)
  show ?case using Cons [of "auth_step m ev w"] auth_step_clock [of m ev w] by simp
qed simp

lemma cache_recent_steps: "mono (w_clock w) \<Longrightarrow> cache_recent m w \<Longrightarrow> cache_recent m (fold (auth_step m) evs w)"
proof (induction evs arbitrary: w)
  case (Cons ev evs)
  then show ?case using cache_recent_step auth_step_clock by (metis fold_simps(2))
qed simp

text \<open>A dead token with its cached validation bounded by a time \<open>d\<close>.\<close>

definition expiring :: "string \<Rightarrow> time \<Rightarrow> ('l, 'v, 's) mw_world \<Rightarrow> bool" where
  "expiring tok d w \<longleftrightarrow> dead_token tok (w_provider w) \<and>
     (\<forall>e. map_of (tokenCache w) tok = Some e \<longrightarrow> ct_ExpiresAt e \<le> d)"

fun event_ok :: "string \<Rightarrow> auth_event \<Rightarrow> bool" where
  "event_ok tok (AuthOp op) = not_generating tok op"
| "event_ok tok (AuthCheck t) = True"

lemma dead_token_Validate:
  "dead_token tok p \<Longrightarrow> dead_token tok (fst (ValidateAccessToken now t p)) \<and> (\<exists>e. snd (ValidateAccessToken now tok p) = Inl e)"
  by (auto simp: dead_token_def ValidateAccessToken_def delete_conv' split: option.splits)

lemma validate_and_store_dead:
  assumes "dead_token tok (w_provider w)" and "\<forall>e. map_of (tokenCache w) tok = Some e \<longrightarrow> ct_ExpiresAt e \<le> d"
  shows "expiring tok d (fst (validate_and_store m t w)) \<and> (t = tok \<longrightarrow> (\<exists>e. snd (validate_and_store m t w) = Inl e))"
proof -
  obtain p q where v: "ValidateAccessToken (w_clock w (w_reads w)) t (w_provider w) = (p, q)" by fastforce
  with dead_token_Validate [OF assms(1), of "w_clock w (w_reads w)" t] have "dead_token tok p" by simp
  moreover have "t = tok \<Longrightarrow> \<exists>e. q = Inl e"
    using v dead_token_Validate [OF assms(1), of "w_clock w (w_reads w)" t] by auto
  ultimately show ?thesis
    using v assms(2) by (auto simp: validate_and_store_def clock_now_def Let_def expiring_def update_conv' split: sum.splits)
qed

lemma expiring_step:
  assumes "expiring tok d w" and "event_ok tok ev"
  shows "expiring tok d (auth_step m ev w)"
proof (cases ev)
  case (AuthOp op)
  with assms show ?thesis by (auto simp: expiring_def dead_token_exec)
next
  case (AuthCheck t)
  have "expiring tok d (fst (validate_and_store m t w'))" if "expiring tok d w'" for w' :: "('a, 'b, 'c) mw_world"
    using that validate_and_store_dead [of tok w' d m t] by (auto simp: expiring_def)
  moreover have "expiring tok d (w\<lparr>w_reads := Suc (w_reads w)\<rparr>)"
    "expiring tok d (w\<lparr>w_reads := Suc (w_reads w), tokenCache := AList.delete t (tokenCache w)\<rparr>)"
    using assms(1) by (auto simp: expiring_def delete_conv')
  ultimately show ?thesis
    using assms AuthCheck by (simp add: validateTokenWithCache_def clock_now_def split: option.splits)
qed

lemma expiring_steps:
  "expiring tok d w \<Longrightarrow> list_all (event_ok tok) evs \<Longrightarrow> expiring tok d (fold (auth_step m) evs w)"
  by (induction evs arbitrary: w) (simp_all add: expiring_step)

lemma expiring_refused:
  assumes "expiring tok d w" and "d \<le> w_clock w (w_reads w)"
  shows "\<exists>e. snd (validateTokenWithCache m tok w) = Inl e"
proof -
  have r: "\<exists>e. snd (validate_and_store m tok w') = Inl e"
    if "dead_token tok (w_provider w')" "map_of (tokenCache w') tok = None" for w' :: "('a, 'b, 'c) mw_world"
    using validate_and_store_dead [of tok w' d m tok] that by auto
  show ?thesis
  proof (cases "map_of (tokenCache w) tok")
    case None
    with assms r [of w] show ?thesis by (simp add: validateTokenWithCache_def expiring_def)
  next
    case (Some e)
    then have "\<not> w_clock w (w_reads w) < ct_ExpiresAt e" using assms by (auto simp: expiring_def)
    then show ?thesis
      using Some assms(1) r [of "w\<lparr>w_reads := Suc (w_reads w), tokenCache := AList.delete tok (tokenCache w)\<rparr>"]
      by (simp add: validateTokenWithCache_def clock_now_def expiring_def delete_conv')
  qed
qed


text \<open>Until then the cache lets the revoked token through, and an expired one as well.\<close>

theorem cached_token_survives_revocation:
  assumes "map_of (tokenCache w) tok = Some e" and "w_clock w (w_reads w) < ct_ExpiresAt e"
  shows "snd (validateTokenWithCache m tok (w\<lparr>w_provider := RevokeToken tok (w_provider w)\<rparr>)) = Inr (ct_Token e)"
  using assms by (simp add: validateTokenWithCache_def clock_now_def)

section \<open>Rate limiting and timeout\<close>

text \<open>
  The rate limiter is a gate with one limiter for each key: a request the limiter of its key
  refuses is answered with the code -32001 and does not reach the handler; one it allows does; and
  the limiters of all other keys stay as they are up to the handler.
\<close>

theorem rate_limit_gate:
  fixes nxt :: "('l, 'v, 's, 'r) handler" and w :: "('l, 'v, 's) mw_world"
  assumes "req_method req \<notin> set (rl_SkipMethods c)"
  shows "\<exists>w' ok. (\<forall>k. k \<noteq> rate_key c ctx req \<longrightarrow> map_of (limiters w') k = map_of (limiters w) k) \<and>
    lib_allow lib (w_clock w (w_reads w + 2))
      (case map_of (limiters w) (rate_key c ctx req) of
         Some e \<Rightarrow> rl_limiter e | None \<Rightarrow> lib_new lib (RequestsPerSecond c) (BurstSize c)) =
      (rl_limiter (the (map_of (limiters w') (rate_key c ctx req))), ok) \<and>
    RateLimit_Apply lib c nxt ctx req w =
      (if ok then nxt ctx req w' else (w', Ret (Some (errorResponse (- 32001) ''Rate limit exceeded'')) None))"
proof -
  define key where "key = rate_key c ctx req"
  define e where "e = (case map_of (limiters w) key of
      Some e \<Rightarrow> e | None \<Rightarrow> \<lparr>rl_limiter = lib_new lib (RequestsPerSecond c) (BurstSize c), rl_lastUsed = w_clock w (w_reads w)\<rparr>)"
  obtain l ok where l: "lib_allow lib (w_clock w (Suc (Suc (w_reads w)))) (rl_limiter e) = (l, ok)" by fastforce
  define w' where "w' = w\<lparr>w_reads := Suc (Suc (Suc (w_reads w))),
    limiters := AList.update key (e\<lparr>rl_lastUsed := w_clock w (Suc (w_reads w)), rl_limiter := l\<rparr>) (limiters w)\<rparr>"
  have "RateLimit_Apply lib c nxt ctx req w =
      (if ok then nxt ctx req w' else (w', Ret (Some (errorResponse (- 32001) ''Rate limit exceeded'')) None))"
    using assms l
    by (cases "map_of (limiters w) key")
       (auto simp: RateLimit_Apply_def clock_now_def Let_def key_def [symmetric] e_def w'_def
        NewRateLimitError_def NewErrorResponse_def rateLimiterEntry.defs)
  moreover have "rl_limiter e = (case map_of (limiters w) key of
      Some e \<Rightarrow> rl_limiter e | None \<Rightarrow> lib_new lib (RequestsPerSecond c) (BurstSize c))"
    by (simp add: e_def split: option.split)
  ultimately show ?thesis
    using l unfolding key_def [symmetric]
    by (intro exI [of _ w'] exI [of _ ok]) (simp add: w'_def update_conv')
qed

lemma Timeout_no_panic: "\<exists>resp err. snd (Timeout_Apply outcome timeout next ctx req w) = Ret resp err"
  by (auto simp: Timeout_Apply_def clock_now_def Let_def split: race.split call.split prod.splits)

section \<open>Metrics\<close>

text \<open>
  The metrics balance: around a handler that leaves the active count as it finds it, whether it
  returns or panics, the middleware leaves it as well, up to the wrap-around of the counter; for a
  call that returns it records exactly one request, with status 500 exactly when the call failed,
  and for a panic none.
\<close>

theorem metrics_balance:
  assumes "\<And>ctx req w. activeReqs (fst (next ctx req w)) = activeReqs w"
    and "\<And>ctx req w. w_metrics (fst (next ctx req w)) = w_metrics w"
    and "Metrics_Apply next ctx req w = (w', r)"
  shows "activeReqs w' = activeReqs w \<and>
    (\<exists>ms. w_metrics w' = w_metrics w @ [MActive (activeReqs w + 1)] @ ms @ [MActive (activeReqs w)] \<and>
      filter (\<lambda>x. case x of MRequest meth d st l \<Rightarrow> True | _ \<Rightarrow> False) ms =
        (case r of Panic p \<Rightarrow> []
         | Ret resp err \<Rightarrow> [MRequest (req_method req) (w_clock w' (w_reads w' - 1) - w_clock w (w_reads w))
             (if call_has_error r then 500 else 200) (extractLabels ctx req)]))"
proof -
  let ?w = "record_active 1 (w\<lparr>w_reads := Suc (w_reads w)\<rparr>)"
  obtain v q where v: "next ctx req ?w = (v, q)" by fastforce
  have "activeReqs v = activeReqs w + 1" "w_metrics v = w_metrics w @ [MActive (activeReqs w + 1)]"
    using assms(1) [of ctx req ?w] assms(2) [of ctx req ?w] v by (simp_all add: record_active_def)
  with assms(3) v show ?thesis
    by (cases q) (auto simp: Metrics_Apply_def clock_now_def Let_def record_active_def)
qed

section \<open>Middlewares that change nothing\<close>

lemma null_never_stored: "unmarshal_response (marshal_response r) = None"
proof -
  have "json_parse ''{}'' \<noteq> Some JNull" by code_simp
  then show ?thesis by (simp add: unmarshal_response_def marshal_response_def)
qed


section \<open>Content transformation\<close>

text \<open>
  The content transformation keeps the meaning of a request: when its parameters decode to a
  value with valid UTF-8 and integers below two to the 53 that is not a string, the handler behind
  gets parameters that decode to the same value, under the same method and id.
\<close>

theorem transformRequest_keeps_params:
  assumes "req_params req = Some params" and "unmarshal_iface params = Some v" and "any_ok v"
    and "depth_any v \<le> maxNestingDepth" and "\<forall>s. v \<noteq> AStr s"
  shows "\<exists>p. transformRequest req = req\<lparr>req_params := Some p\<rparr> \<and> unmarshal_iface p = Some v"
proof -
  have "params \<noteq> []" using assms(2) by (auto simp: unmarshal_iface_def json_parse_def split: option.splits)
  moreover have "Minifier_Transform v = Some v" using assms(5) by (auto simp: Minifier_Transform_def split: go_any.splits)
  ultimately have "transformRequest req = req\<lparr>req_params := Some (marshal_any v)\<rparr>"
    using assms(1,2) by (simp add: transformRequest_def)
  moreover have "unmarshal_iface (marshal_any v) = Some v"
    using json_parse_marshal [OF any_ok_text [OF assms(3)] assms(4)] decode_json_of [OF assms(3)] by (simp add: unmarshal_iface_def)
  ultimately show ?thesis by blast
qed

text \<open>A handler that answers with neither a response nor an error, as the interface allows, makes the
  content transformation panic.\<close>

theorem transformation_panics_on_nil:
  assumes "next ctx (transformRequest req) w = (w', Ret None None)"
  shows "ContentTransformation_Apply as_string of_string next ctx req w = (w', Panic nil_dereference)"
  using assms by (simp add: ContentTransformation_Apply_def)

section \<open>Witnesses\<close>

definition demo_request :: MCPRequest where
  "demo_request = \<lparr>req_method = ''tools/list'', req_id = ''1'', req_params = Some ''{}''\<rparr>"

definition demo_ctx :: mcp_ctx where
  "demo_ctx = \<lparr>ctx_authHeader = Some (''Bearer '' @ demo_token), ctx_auth = None, ctx_requestID = None,
     ctx_transport = None, ctx_deadline = None, ctx_transmitted = None, ctx_userAgent = None, ctx_remoteAddr = None,
     ctx_clientID = None\<rparr>"

definition demo_world :: "(nat, unit, unit) mw_world" where
  "demo_world = \<lparr>w_clock = (\<lambda>i. 20 * int i), w_reads = 0, w_provider = oauth_execs demo_oauth NewMemoryOAuthProvider,
     tokenCache = [], limiters = [], activeReqs = 0, w_metrics = [], w_log = [], w_cache = NewInMemoryCache 10, w_rest = ()\<rparr>"

definition demo_handler :: "(nat, unit, unit, unit) handler" where
  "demo_handler ctx req w = (w, Ret (Some (successResponse ())) None)"

definition demo_auth :: AuthenticationMiddleware where
  "demo_auth = NewAuthenticationMiddleware [] 10"

theorem recovery_stops_panics_witness:
  "\<exists>resp err. snd (chain_Apply [CORSMW, RecoveryMW] (\<lambda>ctx req w. (w, Panic nil_dereference))
     demo_ctx demo_request demo_world) = Ret resp err"
  by (rule recovery_stops_panics) (auto simp: CORSMW_def RecoveryMW_def)


theorem rate_limit_gate_witness:
  "\<exists>w' ok. snd (RateLimit_Apply \<lparr>lib_new = \<lambda>r b. nat b, lib_allow = \<lambda>t n. (n - 1, 0 < n)\<rparr>
      (NewRateLimitMiddleware \<lparr>RequestsPerSecond = 0, BurstSize = 1, KeyExtractor = None, rl_SkipMethods = [],
         CleanupInterval = 0, PerEndpointLimiting = False\<rparr>) demo_handler demo_ctx demo_request demo_world) =
     (if ok then snd (demo_handler demo_ctx demo_request w')
      else Ret (Some (errorResponse (- 32001) ''Rate limit exceeded'')) None)"
proof -
  let ?c = "NewRateLimitMiddleware \<lparr>RequestsPerSecond = 0, BurstSize = 1, KeyExtractor = None, rl_SkipMethods = [],
         CleanupInterval = 0, PerEndpointLimiting = False\<rparr>"
  have "req_method demo_request \<notin> set (rl_SkipMethods ?c)" by (simp add: NewRateLimitMiddleware_def)
  from rate_limit_gate [OF this, of demo_ctx demo_world "\<lparr>lib_new = \<lambda>r b. nat b, lib_allow = \<lambda>t n. (n - 1, 0 < n)\<rparr>" demo_handler]
  obtain w' ok where "RateLimit_Apply \<lparr>lib_new = \<lambda>r b. nat b, lib_allow = \<lambda>t n. (n - 1, 0 < n)\<rparr> ?c demo_handler demo_ctx demo_request demo_world =
      (if ok then demo_handler demo_ctx demo_request w' else (w', Ret (Some (errorResponse (- 32001) ''Rate limit exceeded'')) None))"
    by blast
  then show ?thesis by (intro exI [of _ w'] exI [of _ ok]) simp
qed

theorem metrics_balance_witness:
  "activeReqs (fst (Metrics_Apply demo_handler demo_ctx demo_request demo_world)) = 0"
proof -
  obtain w' r where m: "Metrics_Apply demo_handler demo_ctx demo_request demo_world = (w', r)" by fastforce
  from metrics_balance [OF _ _ m] have "activeReqs w' = activeReqs demo_world" by (simp add: demo_handler_def)
  with m show ?thesis by (simp add: demo_world_def)
qed


end
