(* ===== verification/Client.thy ===== *)
theory Client
  imports Json_Roundtrip Server
begin

text \<open>
  Model of \<open>client.go\<close>, of the cancellation preempter of \<open>preempter.go\<close> and of the texts that go
  between a client and a server at the handshake. What the connection of
  \<open>golang.org/x/exp/jsonrpc2\<close> does in a call is an argument: the id it gives the call, what awaiting
  the answer returns, and whether the goroutine that watches the context took the cancellation.
  The log of a client records what it put on the connection.
\<close>

section \<open>State\<close>

datatype rpc_id = Int64ID int | StringID string

datatype wire =
    WCall "rpc_id option" string "bytes option"
  | WNotify string "bytes option"

text \<open>A handler of requests of the server: what it does to the client program and its answer.\<close>

type_synonym 'u RequestHandlerFunc = "bytes option \<Rightarrow> 'u \<Rightarrow> 'u \<times> (mcp_error + go_any)"

record 'u Client =
  cl_conn :: bool
  notifyHandler :: "(string \<Rightarrow> bytes option \<Rightarrow> 'u \<Rightarrow> 'u) option"
  requestHandlers :: "(string, 'u RequestHandlerFunc) gomap"
  advertise :: ClientCapabilities
  serverInfo :: Implementation
  serverCapabilities :: ServerCapabilities
  cl_initialized :: bool
  cl_sent :: "wire list"

definition WithNotificationHandler :: "(string \<Rightarrow> bytes option \<Rightarrow> 'u \<Rightarrow> 'u) option \<Rightarrow> 'u Client \<Rightarrow> 'u Client" where
  "WithNotificationHandler handler c = c\<lparr>notifyHandler := handler\<rparr>"

text \<open>\<open>dial\<close> is the error of dialling the transport, if any.\<close>

definition NewClient :: "mcp_error option \<Rightarrow> ('u Client \<Rightarrow> 'u Client) list \<Rightarrow> mcp_error + 'u Client" where
  "NewClient dial opts =
     (let c = fold (\<lambda>opt c. opt c) opts
            \<lparr>cl_conn = False, notifyHandler = None, requestHandlers = [], advertise = no_ClientCapabilities,
             serverInfo = \<lparr>impl_Name = [], impl_Version = []\<rparr>, serverCapabilities = no_ServerCapabilities,
             cl_initialized = False, cl_sent = []\<rparr>
      in case dial of
           Some err \<Rightarrow> Inl (WrapErr ''failed to create JSON-RPC connection'' err)
         | None \<Rightarrow> Inr (c\<lparr>cl_conn := True\<rparr>))"

section \<open>Messages from the server\<close>

definition handleMessage_client ::
  "'u Client \<Rightarrow> rpc_id option \<Rightarrow> string \<Rightarrow> bytes option \<Rightarrow> 'u \<Rightarrow> 'u \<times> (mcp_error + go_any)" where
  "handleMessage_client c i meth params u =
     (case i of
        None \<Rightarrow> (case notifyHandler c of Some h \<Rightarrow> (h meth params u, Inr ANil) | None \<Rightarrow> (u, Inr ANil))
      | Some _ \<Rightarrow>
          (case map_of (requestHandlers c) meth of
             None \<Rightarrow> (u, Inl (PlainErr ''method not implemented on client''))
           | Some h \<Rightarrow> h params u))"

definition OnNotification :: "(string \<Rightarrow> bytes option \<Rightarrow> 'u \<Rightarrow> 'u) option \<Rightarrow> 'u Client \<Rightarrow> 'u Client" where
  "OnNotification handler c = c\<lparr>notifyHandler := handler\<rparr>"

definition OnRequest :: "string \<Rightarrow> 'u RequestHandlerFunc option \<Rightarrow> 'u Client \<Rightarrow> 'u Client" where
  "OnRequest meth handler c =
     (case handler of
        None \<Rightarrow> c\<lparr>requestHandlers := AList.delete meth (requestHandlers c)\<rparr>
      | Some h \<Rightarrow> c\<lparr>requestHandlers := AList.update meth h (requestHandlers c)\<rparr>)"

definition setAdvertise :: "(ClientCapabilities \<Rightarrow> ClientCapabilities) \<Rightarrow> 'u Client \<Rightarrow> 'u Client" where
  "setAdvertise fn c = c\<lparr>advertise := fn (advertise c)\<rparr>"

text \<open>A typed handler: \<open>unmarshal\<close> is \<open>json.Unmarshal\<close> into the request type and \<open>zero\<close> its zero value.\<close>

definition typed_handler ::
  "string \<Rightarrow> (bytes \<Rightarrow> mcp_error + 'q) \<Rightarrow> 'q \<Rightarrow> ('q \<Rightarrow> 'u \<Rightarrow> 'u \<times> (mcp_error + go_any)) \<Rightarrow> 'u RequestHandlerFunc" where
  "typed_handler what unmarshal zero handler params u =
     (if raw params = [] then handler zero u
      else case unmarshal (raw params) of
             Inl err \<Rightarrow> (u, Inl (WrapErr (what @ '' params'') err))
           | Inr req \<Rightarrow> handler req u)"

definition OnSampling ::
  "(bytes \<Rightarrow> mcp_error + 'q) \<Rightarrow> 'q \<Rightarrow> ('q \<Rightarrow> 'u \<Rightarrow> 'u \<times> (mcp_error + go_any)) option \<Rightarrow> 'u Client \<Rightarrow> 'u Client" where
  "OnSampling unmarshal zero handler c =
     (case handler of
        None \<Rightarrow> setAdvertise (\<lambda>caps. caps\<lparr>Sampling := None\<rparr>) (OnRequest MethodSamplingCreateMessage None c)
      | Some h \<Rightarrow>
          setAdvertise (\<lambda>caps. caps\<lparr>Sampling := Some ()\<rparr>)
            (OnRequest MethodSamplingCreateMessage
              (Some (typed_handler ''sampling/createMessage'' unmarshal zero h)) c))"

definition ElicitModeForm :: string where "ElicitModeForm = ''form''"
definition ElicitModeURL :: string where "ElicitModeURL = ''url''"

definition OnElicit ::
  "(bytes \<Rightarrow> mcp_error + 'q) \<Rightarrow> 'q \<Rightarrow> ('q \<Rightarrow> 'u \<Rightarrow> 'u \<times> (mcp_error + go_any)) option \<Rightarrow> string list \<Rightarrow> 'u Client \<Rightarrow> 'u Client" where
  "OnElicit unmarshal zero handler modes c =
     (case handler of
        None \<Rightarrow> setAdvertise (\<lambda>caps. caps\<lparr>Elicitation := None\<rparr>) (OnRequest MethodElicitationCreate None c)
      | Some h \<Rightarrow>
          let modes = (if modes = [] then [ElicitModeForm] else modes);
              ec = fold (\<lambda>m ec. if m = ElicitModeForm then ec\<lparr>cap_Form := Some ()\<rparr>
                                else if m = ElicitModeURL then ec\<lparr>cap_URL := Some ()\<rparr> else ec)
                     modes \<lparr>cap_Form = None, cap_URL = None\<rparr>
          in setAdvertise (\<lambda>caps. caps\<lparr>Elicitation := Some ec\<rparr>)
               (OnRequest MethodElicitationCreate (Some (typed_handler ''elicitation/create'' unmarshal zero h)) c))"

definition OnListRoots :: "('u \<Rightarrow> 'u \<times> (mcp_error + go_any)) option \<Rightarrow> 'u Client \<Rightarrow> 'u Client" where
  "OnListRoots handler c =
     (case handler of
        None \<Rightarrow> setAdvertise (\<lambda>caps. caps\<lparr>Roots := None\<rparr>) (OnRequest MethodRootsList None c)
      | Some h \<Rightarrow>
          setAdvertise (\<lambda>caps. caps\<lparr>Roots := Some False\<rparr>) (OnRequest MethodRootsList (Some (\<lambda>_. h)) c))"

section \<open>Calls\<close>

text \<open>The cause of a cancelled context: \<open>context.Canceled\<close>, or another error by its text.\<close>

datatype cause = Canceled | Cause string

record call_run =
  run_id :: "rpc_id option"             \<comment> \<open>\<open>None\<close> when the call has no id\<close>
  run_await :: "mcp_error + bytes"      \<comment> \<open>what awaiting gives: the result or an error\<close>
  run_watch :: "cause option"           \<comment> \<open>the cause, if the watching goroutine took \<open>ctx.Done\<close>\<close>

fun id_Raw :: "rpc_id \<Rightarrow> go_any" where
  "id_Raw (Int64ID i) = ANum (of_int i)"
| "id_Raw (StringID s) = AStr s"

definition cancel_params :: "rpc_id \<Rightarrow> cause \<Rightarrow> go_any" where
  "cancel_params i cause =
     AObj ((case cause of Canceled \<Rightarrow> [] | Cause e \<Rightarrow> [(''reason'', AStr e)]) @ [(''requestId'', id_Raw i)])"

definition not_established :: mcp_error where
  "not_established = PlainErr ''client connection is not established''"

definition client_call :: "call_run \<Rightarrow> string \<Rightarrow> go_any option \<Rightarrow> 'u Client \<Rightarrow> 'u Client \<times> (mcp_error + bytes)" where
  "client_call run meth params c =
     (if \<not> cl_conn c then (c, Inl not_established)
      else let c = c\<lparr>cl_sent := cl_sent c @ [WCall (run_id run) meth (map_option marshal_any params)]\<rparr>;
               c = (case (run_watch run, run_id run) of
                      (Some cause, Some i) \<Rightarrow>
                        c\<lparr>cl_sent := cl_sent c @ [WNotify MethodNotificationCancelled (Some (marshal_any (cancel_params i cause)))]\<rparr>
                    | _ \<Rightarrow> c)
           in (c, run_await run))"

definition checkInitialized :: "'u Client \<Rightarrow> mcp_error option" where
  "checkInitialized c =
     (if cl_initialized c then None else Some (PlainErr ''client not initialized, call Initialize() first''))"

text \<open>The typed operations decode the result into their result types; the raw text of the result
  stands for it here.\<close>

definition checked_call :: "string \<Rightarrow> go_any option \<Rightarrow> call_run \<Rightarrow> 'u Client \<Rightarrow> 'u Client \<times> (mcp_error + bytes)" where
  "checked_call meth params run c =
     (case checkInitialized c of Some e \<Rightarrow> (c, Inl e) | None \<Rightarrow> client_call run meth params c)"

definition client_Ping :: "call_run \<Rightarrow> 'u Client \<Rightarrow> 'u Client \<times> (mcp_error + bytes)" where
  "client_Ping run = client_call run MethodPing None"

definition enc_cursor :: "string \<Rightarrow> go_any option" where
  "enc_cursor cursor = Some (AObj (if cursor = [] then [] else [(''cursor'', AStr cursor)]))"

definition ListTools :: "string \<Rightarrow> call_run \<Rightarrow> 'u Client \<Rightarrow> 'u Client \<times> (mcp_error + bytes)" where
  "ListTools cursor = checked_call MethodToolsList (enc_cursor cursor)"

definition ListPrompts :: "string \<Rightarrow> call_run \<Rightarrow> 'u Client \<Rightarrow> 'u Client \<times> (mcp_error + bytes)" where
  "ListPrompts cursor = checked_call MethodPromptsList (enc_cursor cursor)"

definition ListResources :: "string \<Rightarrow> call_run \<Rightarrow> 'u Client \<Rightarrow> 'u Client \<times> (mcp_error + bytes)" where
  "ListResources cursor = checked_call MethodResourcesList (enc_cursor cursor)"

definition ListResourceTemplates :: "string \<Rightarrow> call_run \<Rightarrow> 'u Client \<Rightarrow> 'u Client \<times> (mcp_error + bytes)" where
  "ListResourceTemplates cursor = checked_call MethodResourcesTemplatesList (enc_cursor cursor)"

definition enc_uri :: "string \<Rightarrow> go_any option" where
  "enc_uri uri = Some (AObj [(''uri'', AStr uri)])"

definition ReadResource :: "string \<Rightarrow> call_run \<Rightarrow> 'u Client \<Rightarrow> 'u Client \<times> (mcp_error + bytes)" where
  "ReadResource uri = checked_call MethodResourcesRead (enc_uri uri)"

definition SubscribeResource :: "string \<Rightarrow> call_run \<Rightarrow> 'u Client \<Rightarrow> 'u Client \<times> (mcp_error + bytes)" where
  "SubscribeResource uri = checked_call MethodResourcesSubscribe (enc_uri uri)"

definition UnsubscribeResource :: "string \<Rightarrow> call_run \<Rightarrow> 'u Client \<Rightarrow> 'u Client \<times> (mcp_error + bytes)" where
  "UnsubscribeResource uri = checked_call MethodResourcesUnsubscribe (enc_uri uri)"

text \<open>The requests of \<open>CallTool\<close>, \<open>GetPrompt\<close> and \<open>Complete\<close> as the values that are marshalled.\<close>

definition CallTool :: "go_any \<Rightarrow> call_run \<Rightarrow> 'u Client \<Rightarrow> 'u Client \<times> (mcp_error + bytes)" where
  "CallTool request = checked_call MethodToolsCall (Some request)"

definition GetPrompt :: "go_any \<Rightarrow> call_run \<Rightarrow> 'u Client \<Rightarrow> 'u Client \<times> (mcp_error + bytes)" where
  "GetPrompt request = checked_call MethodPromptsGet (Some request)"

definition client_Notify :: "mcp_error option \<Rightarrow> string \<Rightarrow> go_any option \<Rightarrow> 'u Client \<Rightarrow> 'u Client \<times> mcp_error option" where
  "client_Notify send_err meth params c =
     (if \<not> cl_conn c then (c, Some not_established)
      else (c\<lparr>cl_sent := cl_sent c @ [WNotify meth (map_option marshal_any params)]\<rparr>, send_err))"

definition Call :: "string \<Rightarrow> go_any option \<Rightarrow> call_run \<Rightarrow> 'u Client \<Rightarrow> 'u Client \<times> (mcp_error + bytes)" where
  "Call meth params run c =
     (case (if meth \<noteq> MethodInitialize then checkInitialized c else None) of
        Some e \<Rightarrow> (c, Inl e)
      | None \<Rightarrow> client_call run meth params c)"

definition CallRaw :: "string \<Rightarrow> go_any option \<Rightarrow> call_run \<Rightarrow> 'u Client \<Rightarrow> 'u Client \<times> (mcp_error + bytes)" where
  "CallRaw = Call"

definition Complete :: "go_any \<Rightarrow> call_run \<Rightarrow> 'u Client \<Rightarrow> 'u Client \<times> (mcp_error + bytes)" where
  "Complete request = Call MethodCompletionComplete (Some request)"

definition SetLoggingLevel :: "string \<Rightarrow> call_run \<Rightarrow> 'u Client \<Rightarrow> 'u Client \<times> (mcp_error + bytes)" where
  "SetLoggingLevel level = Call MethodLoggingSetLevel (Some (AObj [(''level'', AStr level)]))"

section \<open>The texts of the handshake\<close>

text \<open>\<open>omitempty\<close> on a pointer.\<close>

definition opt_field :: "string \<Rightarrow> ('a \<Rightarrow> go_any) \<Rightarrow> 'a option \<Rightarrow> (string \<times> go_any) list" where
  "opt_field name enc x = (case x of None \<Rightarrow> [] | Some y \<Rightarrow> [(name, enc y)])"

definition enc_empty :: "unit \<Rightarrow> go_any" where
  "enc_empty u = AObj []"

definition flag_field :: "string \<Rightarrow> bool \<Rightarrow> (string \<times> go_any) list" where
  "flag_field name b = (if b then [(name, ABool True)] else [])"

definition map_fields :: "json_members option \<Rightarrow> (string \<times> go_any) list" where
  "map_fields m = (case m of None \<Rightarrow> [] | Some ms \<Rightarrow> canon_members (map (\<lambda>(k, t, v). (k, decode_any v)) ms))"

definition map_field :: "string \<Rightarrow> json_members option \<Rightarrow> (string \<times> go_any) list" where
  "map_field name m = (if map_fields m = [] then [] else [(name, AObj (map_fields m))])"

definition enc_Implementation :: "Implementation \<Rightarrow> go_any" where
  "enc_Implementation i = AObj [(''name'', AStr (impl_Name i)), (''version'', AStr (impl_Version i))]"

definition enc_Elicitation :: "ElicitationCapabilities \<Rightarrow> go_any" where
  "enc_Elicitation e = AObj (opt_field ''form'' enc_empty (cap_Form e) @ opt_field ''url'' enc_empty (cap_URL e))"

definition enc_TaskRequests :: "TaskRequestCapabilities \<Rightarrow> go_any" where
  "enc_TaskRequests r =
     AObj (opt_field ''sampling'' (\<lambda>x. AObj (opt_field ''createMessage'' enc_empty x)) (task_Sampling r) @
           opt_field ''elicitation'' (\<lambda>x. AObj (opt_field ''create'' enc_empty x)) (task_Elicitation r))"

definition enc_Tasks :: "TaskCapabilities \<Rightarrow> go_any" where
  "enc_Tasks t =
     AObj (opt_field ''list'' enc_empty (task_List t) @ opt_field ''cancel'' enc_empty (task_Cancel t) @
           opt_field ''requests'' enc_TaskRequests (task_Requests t))"

definition enc_ClientCapabilities :: "ClientCapabilities \<Rightarrow> go_any" where
  "enc_ClientCapabilities c =
     AObj (map_field ''experimental'' (Experimental c) @
           opt_field ''roots'' (\<lambda>b. AObj (flag_field ''listChanged'' b)) (Roots c) @
           opt_field ''sampling'' enc_empty (Sampling c) @
           opt_field ''elicitation'' enc_Elicitation (Elicitation c) @
           opt_field ''tasks'' enc_Tasks (Tasks c))"

definition enc_InitializeRequest :: "InitializeRequest \<Rightarrow> go_any" where
  "enc_InitializeRequest r =
     AObj [(''protocolVersion'', AStr (ProtocolVersion r)), (''clientInfo'', enc_Implementation (ClientInfo r)),
           (''capabilities'', enc_ClientCapabilities (Capabilities r))]"

record InitializeResult =
  ir_ProtocolVersion :: string
  ir_ServerInfo :: Implementation
  ir_Capabilities :: ServerCapabilities
  ir_Instructions :: string

definition enc_ServerTasks :: "ServerTaskCapabilities \<Rightarrow> go_any" where
  "enc_ServerTasks t =
     AObj (opt_field ''list'' enc_empty (stask_List t) @ opt_field ''cancel'' enc_empty (stask_Cancel t) @
           opt_field ''requests'' (\<lambda>r. AObj (opt_field ''tools'' (\<lambda>x. AObj (opt_field ''call'' enc_empty x)) r)) (stask_Requests t))"

definition enc_ServerCapabilities :: "ServerCapabilities \<Rightarrow> go_any" where
  "enc_ServerCapabilities c =
     AObj (map_field ''experimental'' (scap_Experimental c) @
           opt_field ''logging'' enc_empty (scap_Logging c) @
           opt_field ''completions'' enc_empty (scap_Completions c) @
           opt_field ''tools'' (\<lambda>b. AObj (flag_field ''listChanged'' b)) (scap_Tools c) @
           opt_field ''resources'' (\<lambda>(s, l). AObj (flag_field ''subscribe'' s @ flag_field ''listChanged'' l)) (scap_Resources c) @
           opt_field ''prompts'' (\<lambda>b. AObj (flag_field ''listChanged'' b)) (scap_Prompts c) @
           opt_field ''tasks'' enc_ServerTasks (scap_Tasks c))"

definition enc_InitializeResult :: "InitializeResult \<Rightarrow> go_any" where
  "enc_InitializeResult r =
     AObj ([(''protocolVersion'', AStr (ir_ProtocolVersion r)), (''serverInfo'', enc_Implementation (ir_ServerInfo r)),
            (''capabilities'', enc_ServerCapabilities (ir_Capabilities r))] @
           (if ir_Instructions r = [] then [] else [(''instructions'', AStr (ir_Instructions r))]))"

definition dec_ServerTasks :: "ServerTaskCapabilities \<Rightarrow> json_members \<Rightarrow> mcp_error + ServerTaskCapabilities" where
  "dec_ServerTasks x ms =
     (let F = [''list'', ''cancel'', ''requests'']
      in sum_bind (field F ms ''list'' dec_empty (stask_List x)) (\<lambda>l.
         sum_bind (field F ms ''cancel'' dec_empty (stask_Cancel x)) (\<lambda>c.
         sum_bind (field F ms ''requests''
           (dec_ptr None (\<lambda>x ms. field [''tools''] ms ''tools''
              (dec_ptr None (\<lambda>x ms. field [''call''] ms ''call'' dec_empty x)) x)) (stask_Requests x)) (\<lambda>r.
         Inr \<lparr>stask_List = l, stask_Cancel = c, stask_Requests = r\<rparr>))))"

definition dec_resources :: "bool \<times> bool \<Rightarrow> json_members \<Rightarrow> mcp_error + bool \<times> bool" where
  "dec_resources x ms =
     (let F = [''subscribe'', ''listChanged'']
      in sum_bind (field F ms ''subscribe'' dec_bool (fst x)) (\<lambda>s.
         sum_bind (field F ms ''listChanged'' dec_bool (snd x)) (\<lambda>l. Inr (s, l))))"

definition dec_ServerCapabilities :: "ServerCapabilities \<Rightarrow> json_members \<Rightarrow> mcp_error + ServerCapabilities" where
  "dec_ServerCapabilities x ms =
     (let F = [''experimental'', ''logging'', ''completions'', ''tools'', ''resources'', ''prompts'', ''tasks''];
          flag = dec_ptr False (\<lambda>x ms. field [''listChanged''] ms ''listChanged'' dec_bool x)
      in sum_bind (field F ms ''experimental'' dec_map (scap_Experimental x)) (\<lambda>ex.
         sum_bind (field F ms ''logging'' dec_empty (scap_Logging x)) (\<lambda>lo.
         sum_bind (field F ms ''completions'' dec_empty (scap_Completions x)) (\<lambda>co.
         sum_bind (field F ms ''tools'' flag (scap_Tools x)) (\<lambda>to.
         sum_bind (field F ms ''resources'' (dec_ptr (False, False) dec_resources) (scap_Resources x)) (\<lambda>re.
         sum_bind (field F ms ''prompts'' flag (scap_Prompts x)) (\<lambda>pr.
         sum_bind (field F ms ''tasks''
           (dec_ptr \<lparr>stask_List = None, stask_Cancel = None, stask_Requests = None\<rparr> dec_ServerTasks) (scap_Tasks x)) (\<lambda>ta.
         Inr \<lparr>scap_Experimental = ex, scap_Logging = lo, scap_Completions = co, scap_Tools = to, scap_Resources = re,
              scap_Prompts = pr, scap_Tasks = ta\<rparr>))))))))"

definition zero_InitializeResult :: InitializeResult where
  "zero_InitializeResult = \<lparr>ir_ProtocolVersion = [], ir_ServerInfo = \<lparr>impl_Name = [], impl_Version = []\<rparr>,
     ir_Capabilities = no_ServerCapabilities, ir_Instructions = []\<rparr>"

definition dec_InitializeResult :: "InitializeResult \<Rightarrow> json_members \<Rightarrow> mcp_error + InitializeResult" where
  "dec_InitializeResult x ms =
     (let F = [''protocolVersion'', ''serverInfo'', ''capabilities'', ''instructions'', ''_meta'']
      in sum_bind (field F ms ''protocolVersion'' dec_string (ir_ProtocolVersion x)) (\<lambda>v.
         sum_bind (field F ms ''serverInfo'' (dec_struct dec_Implementation) (ir_ServerInfo x)) (\<lambda>i.
         sum_bind (field F ms ''capabilities'' (dec_struct dec_ServerCapabilities) (ir_Capabilities x)) (\<lambda>c.
         sum_bind (field F ms ''instructions'' dec_string (ir_Instructions x)) (\<lambda>t.
         sum_bind (field F ms ''_meta'' dec_map None) (\<lambda>m.
         Inr \<lparr>ir_ProtocolVersion = v, ir_ServerInfo = i, ir_Capabilities = c, ir_Instructions = t\<rparr>))))))"

section \<open>Initialize\<close>

definition merge_capabilities :: "ClientCapabilities \<Rightarrow> ClientCapabilities \<Rightarrow> ClientCapabilities" where
  "merge_capabilities own adv =
     own\<lparr>Sampling := (if Sampling own = None then Sampling adv else Sampling own),
         Elicitation := (if Elicitation own = None then Elicitation adv else Elicitation own),
         Roots := (if Roots own = None then Roots adv else Roots own)\<rparr>"

definition initialize_request :: "'u Client \<Rightarrow> InitializeRequest \<Rightarrow> InitializeRequest" where
  "initialize_request c request =
     (let request = (if ProtocolVersion request = [] then request\<lparr>ProtocolVersion := LATEST_PROTOCOL_VERSION\<rparr> else request)
      in request\<lparr>Capabilities := merge_capabilities (Capabilities request) (advertise c)\<rparr>)"

definition Initialize :: "InitializeRequest \<Rightarrow> call_run \<Rightarrow> 'u Client \<Rightarrow> 'u Client \<times> (mcp_error + InitializeResult)" where
  "Initialize request run c =
     (if cl_initialized c then (c, Inl (PlainErr ''client already initialized''))
      else case client_call run MethodInitialize (Some (enc_InitializeRequest (initialize_request c request))) c of
             (c, Inl err) \<Rightarrow> (c, Inl err)
           | (c, Inr text) \<Rightarrow>
               (case json_Unmarshal dec_InitializeResult zero_InitializeResult text of
                  Inl err \<Rightarrow> (c, Inl err)
                | Inr result \<Rightarrow>
                    (c\<lparr>serverInfo := ir_ServerInfo result, serverCapabilities := ir_Capabilities result,
                       cl_initialized := True\<rparr>, Inr result)))"

section \<open>Cancellation at the server\<close>

text \<open>\<open>jsonrpc2.ErrNotHandled\<close> lets the message go on to the handlers; \<open>cancelled\<close> are the ids given to
  \<open>Conn.Cancel\<close>.\<close>

definition ErrNotHandled :: mcp_error where
  "ErrNotHandled = Sentinel ''JSON RPC not handled''"

definition ErrInvalidRequest :: mcp_error where
  "ErrInvalidRequest = Sentinel ''JSON RPC invalid request''"

record CancelledNotificationParams =
  cn_RequestID :: go_any
  cn_Reason :: string

definition dec_Cancelled :: "CancelledNotificationParams \<Rightarrow> json_members \<Rightarrow> mcp_error + CancelledNotificationParams" where
  "dec_Cancelled x ms =
     (let F = [''requestId'', ''reason'']
      in sum_bind (field F ms ''requestId'' dec_iface (cn_RequestID x)) (\<lambda>i.
         sum_bind (field F ms ''reason'' dec_string (cn_Reason x)) (\<lambda>r.
         Inr \<lparr>cn_RequestID = i, cn_Reason = r\<rparr>)))"

text \<open>The name \<open>%T\<close> prints for a decoded value.\<close>

fun type_name :: "go_any \<Rightarrow> string" where
  "type_name ANil = ''<nil>''"
| "type_name (ABool b) = ''bool''"
| "type_name (ANum x) = ''float64''"
| "type_name (AStr s) = ''string''"
| "type_name (AArr vs) = ''[]interface {}''"
| "type_name (AObj ms) = ''map[string]interface {}''"

definition Preempt :: "bool \<Rightarrow> string \<Rightarrow> bytes option \<Rightarrow> rpc_id list \<Rightarrow> rpc_id list \<times> mcp_error" where
  "Preempt has_conn meth params cancelled =
     (if meth = MethodNotificationCancelled then
        if \<not> has_conn then (cancelled, ErrNotHandled)
        else case json_Unmarshal dec_Cancelled \<lparr>cn_RequestID = ANil, cn_Reason = []\<rparr> (raw params) of
               Inl err \<Rightarrow> (cancelled, ErrDetail ErrInvalidRequest (''invalid cancellation params: '' @ error_string err))
             | Inr p \<Rightarrow>
                 (case cn_RequestID p of
                    ANum v \<Rightarrow> (cancelled @ [Int64ID (int64_of_float v)], ErrNotHandled)
                  | AStr s \<Rightarrow> (cancelled @ [StringID s], ErrNotHandled)
                  | ANil \<Rightarrow> (cancelled, ErrDetail ErrInvalidRequest ''nil requestId in cancellation'')
                  | v \<Rightarrow> (cancelled, ErrDetail ErrInvalidRequest (''invalid requestId type '' @ type_name v)))
      else (cancelled, ErrNotHandled))"

end
