(* ===== verification/Json_Struct.thy ===== *)
theory Json_Struct
  imports Params Json_Roundtrip
begin

text \<open>
  How the text of a struct is read back into its fields: shared by the proofs about the messages
  of client and server and about encrypted tokens.
\<close>

section \<open>Structs read back\<close>

definition fields_in :: "string list \<Rightarrow> (string \<times> go_any) list \<Rightarrow> bool" where
  "fields_in names fs \<longleftrightarrow> list_all (\<lambda>(k, v). k \<in> set names) fs"

lemma fields_in_simps [simp]:
  "fields_in names []"
  "fields_in names ((k, v) # fs) \<longleftrightarrow> k \<in> set names \<and> fields_in names fs"
  "fields_in names (fs @ gs) \<longleftrightarrow> fields_in names fs \<and> fields_in names gs"
  by (simp_all add: fields_in_def)

lemma field_wire:
  assumes "fields_in names fs"
  shows "field names (wire_members fs) f dec x =
    decode_all dec x (map (\<lambda>(k, v). (marshal_any v, json_of v)) (filter (\<lambda>(k, v). k = f) fs))"
proof -
  have "set (map fst fs) \<subseteq> set names" using assms by (auto simp: fields_in_def list_all_iff)
  then show ?thesis by (simp only: field_def field_values_wire)
qed

lemma dec_ptr_struct: "dec_ptr zero dec None (t, JObj ms) = map_sum id Some (dec zero ms)"
  by (simp add: dec_ptr_def)

end
