(* ===== verification/Client_Props.thy ===== *)
theory Client_Props
  imports Client Json_Struct
begin

text \<open>
  What a client guarantees: the capabilities it declares at the handshake match the handlers it has,
  nothing but the handshake and pings goes out before the handshake is done, and a cancelled call
  cancels the same request at the server.
\<close>

section \<open>Structs read back\<close>

lemma fields_in_fields:
  "name \<in> set names \<Longrightarrow> fields_in names (opt_field name enc x)"
  "name \<in> set names \<Longrightarrow> fields_in names (flag_field name b)"
  "name \<in> set names \<Longrightarrow> fields_in names (map_field name m)"
  by (simp_all add: opt_field_def flag_field_def map_field_def split: option.split)

lemma dec_empty_wire [simp]: "dec_empty None (t, json_of (enc_empty u)) = Inr (Some ())"
  by (simp add: dec_empty_def dec_ptr_def enc_empty_def)

lemma filter_opt_field [simp]:
  "filter (\<lambda>(k, v). k = f) (opt_field name enc x) = (if name = f then opt_field name enc x else [])"
  by (simp add: opt_field_def split: option.split)

lemma filter_flag_field [simp]:
  "filter (\<lambda>(k, v). k = f) (flag_field name b) = (if name = f then flag_field name b else [])"
  by (simp add: flag_field_def)

lemma filter_map_field [simp]:
  "filter (\<lambda>(k, v). k = f) (map_field name m) = (if name = f then map_field name m else [])"
  by (simp add: map_field_def)

lemma decode_opt:
  assumes "\<And>y t. x = Some y \<Longrightarrow> dec None (t, json_of (enc y)) = Inr (Some y)"
  shows "decode_all dec None (map (\<lambda>(k, v). (marshal_any v, json_of v)) (opt_field name enc x)) = Inr x"
  using assms by (simp add: opt_field_def split: option.split)

lemma decode_flag:
  "decode_all dec_bool False (map (\<lambda>(k, v). (marshal_any v, json_of v)) (flag_field name b)) = Inr b"
  by (simp add: flag_field_def dec_bool_def)

text \<open>What the other side has of a map: its members with their texts.\<close>

definition wire_map :: "json_members option \<Rightarrow> json_members option" where
  "wire_map m = (if map_fields m = [] then None else Some (wire_members (map_fields m)))"

lemma decode_map:
  "decode_all dec_map None (map (\<lambda>(k, v). (marshal_any v, json_of v)) (map_field name m)) = Inr (wire_map m)"
  by (simp add: map_field_def wire_map_def dec_map_def)

lemmas read_struct = field_wire fields_in_fields decode_opt decode_flag decode_map Let_def

lemma read_Implementation: "dec_Implementation x (wire_members [(''name'', AStr n), (''version'', AStr v)]) = Inr \<lparr>impl_Name = n, impl_Version = v\<rparr>"
  by (simp add: dec_Implementation_def field_wire dec_string_def Let_def)

lemma read_Elicitation: "dec_ptr \<lparr>cap_Form = None, cap_URL = None\<rparr> dec_Elicitation None (t, json_of (enc_Elicitation e)) = Inr (Some e)"
  by (simp add: dec_ptr_struct enc_Elicitation_def dec_Elicitation_def read_struct)

lemma read_TaskRequests: "dec_ptr \<lparr>task_Sampling = None, task_Elicitation = None\<rparr> dec_TaskRequests None (t, json_of (enc_TaskRequests r)) = Inr (Some r)"
  by (simp add: dec_ptr_struct enc_TaskRequests_def dec_TaskRequests_def read_struct)

lemma read_Tasks:
  "dec_ptr \<lparr>task_List = None, task_Cancel = None, task_Requests = None\<rparr> dec_Tasks None (t, json_of (enc_Tasks r)) = Inr (Some r)"
  by (simp add: dec_ptr_struct enc_Tasks_def dec_Tasks_def read_struct read_TaskRequests)

lemma read_roots:
  "dec_ptr False (\<lambda>x ms. field [''listChanged''] ms ''listChanged'' dec_bool x) None
     (t, JObj (wire_members (flag_field ''listChanged'' b))) = Inr (Some b)"
  by (simp add: dec_ptr_struct read_struct)

lemma read_ClientCapabilities:
  "dec_struct dec_ClientCapabilities no_ClientCapabilities (t, json_of (enc_ClientCapabilities c)) =
     Inr (c\<lparr>Experimental := wire_map (Experimental c)\<rparr>)"
  by (simp add: dec_struct_def enc_ClientCapabilities_def dec_ClientCapabilities_def no_ClientCapabilities_def
      read_struct read_Elicitation read_Tasks read_roots)


lemma read_InitializeRequest:
  assumes "text_ok (enc_InitializeRequest r)" and "depth_any (enc_InitializeRequest r) \<le> maxNestingDepth"
  shows "json_Unmarshal dec_InitializeRequest zero_InitializeRequest (marshal_any (enc_InitializeRequest r)) =
    Inr (r\<lparr>Capabilities := (Capabilities r)\<lparr>Experimental := wire_map (Experimental (Capabilities r))\<rparr>\<rparr>)"
  unfolding enc_InitializeRequest_def json_Unmarshal_struct [OF assms [unfolded enc_InitializeRequest_def]]
  by (simp add: dec_InitializeRequest_def zero_InitializeRequest_def field_wire dec_string_def enc_Implementation_def
      dec_struct_def [of dec_Implementation] read_Implementation read_ClientCapabilities Let_def)

lemma read_ServerTasks:
  "dec_ptr \<lparr>stask_List = None, stask_Cancel = None, stask_Requests = None\<rparr> dec_ServerTasks None (t, json_of (enc_ServerTasks r)) = Inr (Some r)"
  by (simp add: dec_ptr_struct enc_ServerTasks_def dec_ServerTasks_def read_struct)

lemma read_resources:
  "dec_ptr (False, False) dec_resources None (t, JObj (wire_members (flag_field ''subscribe'' s @ flag_field ''listChanged'' l))) = Inr (Some (s, l))"
  by (simp add: dec_ptr_struct dec_resources_def read_struct)

lemma read_ServerCapabilities:
  "dec_struct dec_ServerCapabilities no_ServerCapabilities (t, json_of (enc_ServerCapabilities c)) =
     Inr (c\<lparr>scap_Experimental := wire_map (scap_Experimental c)\<rparr>)"
  by (simp add: dec_struct_def enc_ServerCapabilities_def dec_ServerCapabilities_def no_ServerCapabilities_def
      read_struct read_ServerTasks read_resources read_roots split: prod.split)

lemma read_InitializeResult:
  assumes "text_ok (enc_InitializeResult r)" and "depth_any (enc_InitializeResult r) \<le> maxNestingDepth"
  shows "json_Unmarshal dec_InitializeResult zero_InitializeResult (marshal_any (enc_InitializeResult r)) =
    Inr (r\<lparr>ir_Capabilities := (ir_Capabilities r)\<lparr>scap_Experimental := wire_map (scap_Experimental (ir_Capabilities r))\<rparr>\<rparr>)"
  unfolding enc_InitializeResult_def json_Unmarshal_struct [OF assms [unfolded enc_InitializeResult_def]]
  by (simp add: dec_InitializeResult_def zero_InitializeResult_def field_wire dec_string_def enc_Implementation_def
      dec_struct_def [of dec_Implementation] read_Implementation read_ServerCapabilities Let_def)


section \<open>The handshake\<close>

definition server_result :: "Server \<Rightarrow> InitializeResult" where
  "server_result s = \<lparr>ir_ProtocolVersion = LATEST_PROTOCOL_VERSION,
     ir_ServerInfo = \<lparr>impl_Name = srv_name s, impl_Version = srv_version s\<rparr>,
     ir_Capabilities = capabilities s, ir_Instructions = instructions s\<rparr>"

fun result_text :: "result \<Rightarrow> bytes" where
  "result_text (RInitialize v n ver caps instr) =
     marshal_any (enc_InitializeResult \<lparr>ir_ProtocolVersion = v, ir_ServerInfo = \<lparr>impl_Name = n, impl_Version = ver\<rparr>,
       ir_Capabilities = caps, ir_Instructions = instr\<rparr>)"
| "result_text r = ''{}''"

text \<open>A client and a server over a connection: the server gets the text the client sent and the
  client the text of the result. \<open>wire_error\<close> is what the client sees of an error.\<close>

definition handshake ::
  "bool \<Rightarrow> (mcp_error \<Rightarrow> mcp_error) \<Rightarrow> rpc_id \<Rightarrow> InitializeRequest \<Rightarrow> 'u Client \<Rightarrow> Server \<Rightarrow>
   'u Client \<times> Server \<times> (mcp_error + InitializeResult)" where
  "handshake swap wire_error i request c s =
     (let body = marshal_any (enc_InitializeRequest (initialize_request c request));
          (s', out) = handleRequest swap None \<lparr>req_method = MethodInitialize, req_id = [], req_params = Some body\<rparr> s;
          run = \<lparr>run_id = Some i, run_await = map_sum wire_error result_text out, run_watch = None\<rparr>;
          (c', r) = Initialize request run c
      in (c', s', r))"

datatype ('q, 'e, 'u) registration =
    RegSampling "bytes \<Rightarrow> mcp_error + 'q" 'q "('q \<Rightarrow> 'u \<Rightarrow> 'u \<times> (mcp_error + go_any)) option"
  | RegElicit "bytes \<Rightarrow> mcp_error + 'e" 'e "('e \<Rightarrow> 'u \<Rightarrow> 'u \<times> (mcp_error + go_any)) option" "string list"
  | RegListRoots "('u \<Rightarrow> 'u \<times> (mcp_error + go_any)) option"
  | RegNotification "(string \<Rightarrow> bytes option \<Rightarrow> 'u \<Rightarrow> 'u) option"
  | RegRequest string "'u RequestHandlerFunc option"

fun register :: "('q, 'e, 'u) registration \<Rightarrow> 'u Client \<Rightarrow> 'u Client" where
  "register (RegSampling un z h) c = OnSampling un z h c"
| "register (RegElicit un z h modes) c = OnElicit un z h modes c"
| "register (RegListRoots h) c = OnListRoots h c"
| "register (RegNotification h) c = OnNotification h c"
| "register (RegRequest m h) c = OnRequest m h c"

definition typed_methods :: "string list" where
  "typed_methods = [MethodSamplingCreateMessage, MethodElicitationCreate, MethodRootsList]"

fun typed_registration :: "('q, 'e, 'u) registration \<Rightarrow> bool" where
  "typed_registration (RegRequest m h) \<longleftrightarrow> m \<notin> set typed_methods"
| "typed_registration _ \<longleftrightarrow> True"

definition in_sync :: "'u Client \<Rightarrow> bool" where
  "in_sync c \<longleftrightarrow> \<not> cl_initialized c \<and> cl_conn c \<and>
     (Sampling (advertise c) = None \<longleftrightarrow> map_of (requestHandlers c) MethodSamplingCreateMessage = None) \<and>
     (Elicitation (advertise c) = None \<longleftrightarrow> map_of (requestHandlers c) MethodElicitationCreate = None) \<and>
     (Roots (advertise c) = None \<longleftrightarrow> map_of (requestHandlers c) MethodRootsList = None)"

lemma in_sync_new: "NewClient None (map WithNotificationHandler hs) = Inr c \<Longrightarrow> in_sync c"
proof -
  have "requestHandlers (fold (\<lambda>opt c. opt c) (map WithNotificationHandler hs) c0) = requestHandlers c0 \<and>
      advertise (fold (\<lambda>opt c. opt c) (map WithNotificationHandler hs) c0) = advertise c0 \<and>
      cl_initialized (fold (\<lambda>opt c. opt c) (map WithNotificationHandler hs) c0) = cl_initialized c0" for c0 :: "'a Client"
    by (induction hs arbitrary: c0) (simp_all add: WithNotificationHandler_def)
  moreover assume "NewClient None (map WithNotificationHandler hs) = Inr c"
  ultimately show ?thesis by (auto simp: NewClient_def Let_def in_sync_def no_ClientCapabilities_def)
qed

lemma typed_methods_distinct: "distinct typed_methods"
  by code_simp

lemma in_sync_register: "in_sync c \<Longrightarrow> typed_registration r \<Longrightarrow> in_sync (register r c)"
  using typed_methods_distinct
  by (cases r)
     (auto simp: in_sync_def OnSampling_def OnElicit_def OnListRoots_def OnNotification_def OnRequest_def setAdvertise_def
        typed_methods_def update_conv' delete_conv' Let_def split: option.splits)

lemma in_sync_registers: "in_sync c \<Longrightarrow> list_all typed_registration rs \<Longrightarrow> in_sync (fold register rs c)"
  by (induction rs arbitrary: c) (simp_all add: in_sync_register)

lemma initialize_request_version: "ProtocolVersion (initialize_request c request) \<noteq> []"
  by (simp add: initialize_request_def LATEST_PROTOCOL_VERSION_def Let_def)

lemma handle_initialize_text:
  fixes s :: Server and r :: InitializeRequest
  defines "body \<equiv> marshal_any (enc_InitializeRequest r)"
  assumes "text_ok (enc_InitializeRequest r)" and "depth_any (enc_InitializeRequest r) \<le> maxNestingDepth"
    and "ProtocolVersion r \<noteq> []" and "impl_Name (ClientInfo r) \<noteq> []" and "int (length body) \<le> MaxRequestSize (validator s)"
  shows "handleRequest swap None \<lparr>req_method = MethodInitialize, req_id = [], req_params = Some body\<rparr> s =
    (s\<lparr>clientCaps := (Capabilities r)\<lparr>Experimental := wire_map (Experimental (Capabilities r))\<rparr>\<rparr>,
     Inr (RInitialize LATEST_PROTOCOL_VERSION (srv_name s) (srv_version s) (capabilities s) (instructions s)))"
proof -
  have "json_Valid body" using json_parse_marshal [OF assms(2,3)] by (simp add: json_Valid_def body_def)
  with assms(6) have v: "ValidateRequest (validator s) MethodInitialize body = None"
    by (simp add: ValidateRequest_None)
  have valid: "ValidateInitializeRequest swap (validator s)
      (r\<lparr>Capabilities := (Capabilities r)\<lparr>Experimental := wire_map (Experimental (Capabilities r))\<rparr>\<rparr>) = None"
    using assms(4,5) by (simp only: ValidateInitialize_None) simp
  have "UnmarshalAndValidateInitialize swap (Some (validator s)) body =
      Inr (r\<lparr>Capabilities := (Capabilities r)\<lparr>Experimental := wire_map (Experimental (Capabilities r))\<rparr>\<rparr>)"
    unfolding UnmarshalAndValidateInitialize_def unmarshal_and_validate_def
    using v read_InitializeRequest [OF assms(2,3)] valid
    by (simp add: validate_opt_def body_def)
  moreover have "map_of (handlers swap) MethodInitialize = Some (handle_initialize swap)" by (simp add: handlers_def)
  ultimately show ?thesis using v by (simp add: handleRequest_def handle_initialize_def raw_def)
qed

lemma handshake_succeeds:
  fixes c :: "'u Client" and s :: Server and request :: InitializeRequest
  defines "r \<equiv> initialize_request c request"
  assumes "\<not> cl_initialized c" and "cl_conn c"
    and "text_ok (enc_InitializeRequest r)" and "depth_any (enc_InitializeRequest r) \<le> maxNestingDepth"
    and "impl_Name (ClientInfo request) \<noteq> []" and "int (length (marshal_any (enc_InitializeRequest r))) \<le> MaxRequestSize (validator s)"
    and "text_ok (enc_InitializeResult (server_result s))" and "depth_any (enc_InitializeResult (server_result s)) \<le> maxNestingDepth"
  shows "\<exists>res. handshake swap wire_error i request c s =
    (c\<lparr>cl_sent := cl_sent c @ [WCall (Some i) MethodInitialize (Some (marshal_any (enc_InitializeRequest r)))],
       serverInfo := \<lparr>impl_Name = srv_name s, impl_Version = srv_version s\<rparr>,
       serverCapabilities := (capabilities s)\<lparr>scap_Experimental := wire_map (scap_Experimental (capabilities s))\<rparr>,
       cl_initialized := True\<rparr>,
     s\<lparr>clientCaps := (Capabilities r)\<lparr>Experimental := wire_map (Experimental (Capabilities r))\<rparr>\<rparr>, Inr res)"
proof -
  have n: "impl_Name (ClientInfo r) \<noteq> []" using assms(6) by (simp add: r_def initialize_request_def Let_def)
  note h = handle_initialize_text [OF assms(4,5) initialize_request_version [of c request, folded r_def] n assms(7)]
  show ?thesis
    using read_InitializeResult [OF assms(8,9)] h assms(2,3)
    by (simp add: handshake_def Initialize_def client_call_def server_result_def r_def [symmetric] Let_def)
qed

text \<open>The text of a request without experimental capabilities is flat, and valid when its strings are.\<close>

lemma depth_opt_field: "(\<And>y. depth_any (enc y) \<le> n) \<Longrightarrow> depth_fields (opt_field name enc x) \<le> n"
  by (simp add: opt_field_def split: option.split)

lemma depth_flag_field: "depth_fields (flag_field name b) \<le> n"
  by (simp add: flag_field_def)

lemma depth_enc_empty: "depth_any (enc_empty u) \<le> Suc n"
  by (simp add: enc_empty_def)

lemmas depth_rules = depth_opt_field depth_flag_field depth_enc_empty

lemma depth_Elicitation: "depth_any (enc_Elicitation e) \<le> 2"
  by (simp add: enc_Elicitation_def depth_rules)

lemma depth_TaskRequests: "depth_any (enc_TaskRequests r) \<le> 3"
  by (simp add: enc_TaskRequests_def depth_rules)

lemma depth_Tasks: "depth_any (enc_Tasks t) \<le> 4"
  using depth_TaskRequests by (simp add: enc_Tasks_def depth_rules numeral_eq_Suc)

lemma depth_ClientCapabilities:
  assumes "Experimental c = None"
  shows "depth_any (enc_ClientCapabilities c) \<le> 5"
proof -
  have "depth_fields (map_field ''experimental'' (Experimental c)) = 0"
    by (simp add: assms map_field_def map_fields_def)
  then show ?thesis
    using depth_Elicitation depth_Tasks
    by (simp add: enc_ClientCapabilities_def depth_rules numeral_eq_Suc le_SucI)
qed

lemma depth_InitializeRequest:
  assumes "Experimental (Capabilities r) = None"
  shows "depth_any (enc_InitializeRequest r) \<le> maxNestingDepth"
  using depth_ClientCapabilities [OF assms]
  by (simp add: enc_InitializeRequest_def enc_Implementation_def maxNestingDepth_def)

lemma text_opt_field: "valid_utf8 name \<Longrightarrow> (\<And>y. text_ok (enc y)) \<Longrightarrow> text_fields (opt_field name enc x)"
  by (simp add: opt_field_def split: option.split)

lemma text_flag_field: "valid_utf8 name \<Longrightarrow> text_fields (flag_field name b)"
  by (simp add: flag_field_def)

lemma text_enc_empty: "text_ok (enc_empty u)"
  by (simp add: enc_empty_def)

lemma capability_names:
  "valid_utf8 ''form''" "valid_utf8 ''url''" "valid_utf8 ''sampling''" "valid_utf8 ''createMessage''" "valid_utf8 ''elicitation''"
  "valid_utf8 ''create''" "valid_utf8 ''list''" "valid_utf8 ''cancel''" "valid_utf8 ''requests''" "valid_utf8 ''roots''"
  "valid_utf8 ''tasks''" "valid_utf8 ''listChanged''" "valid_utf8 ''protocolVersion''" "valid_utf8 ''clientInfo''"
  "valid_utf8 ''capabilities''" "valid_utf8 ''name''" "valid_utf8 ''version''"
  by code_simp+

lemmas text_rules = text_opt_field text_flag_field text_enc_empty capability_names

lemma text_Elicitation: "text_ok (enc_Elicitation e)"
  by (simp add: enc_Elicitation_def text_rules)

lemma text_Tasks: "text_ok (enc_Tasks t)"
  by (simp add: enc_Tasks_def enc_TaskRequests_def text_rules)

lemma text_InitializeRequest:
  assumes "Experimental (Capabilities r) = None"
  shows "text_ok (enc_InitializeRequest r) \<longleftrightarrow>
    valid_utf8 (ProtocolVersion r) \<and> valid_utf8 (impl_Name (ClientInfo r)) \<and> valid_utf8 (impl_Version (ClientInfo r))"
proof -
  have "text_fields (map_field ''experimental'' (Experimental (Capabilities r)))"
    by (simp add: assms map_field_def map_fields_def)
  then have "text_ok (enc_ClientCapabilities (Capabilities r))"
    by (simp add: enc_ClientCapabilities_def text_rules text_Elicitation text_Tasks)
  then show ?thesis by (auto simp: enc_InitializeRequest_def enc_Implementation_def text_rules)
qed

text \<open>When a server refuses a request without sending it, whatever the answer would be.\<close>

lemma CreateMessage_refused:
  assumes "connected s"
  shows "(\<forall>reply. CreateMessage reply s = Inl (unsupported ''sampling'')) \<longleftrightarrow> Sampling (clientCaps s) = None"
proof
  assume "\<forall>reply. CreateMessage reply s = Inl (unsupported ''sampling'')"
  from spec [OF this, of "Inr JNull"] show "Sampling (clientCaps s) = None"
    using assms by (simp add: CreateMessage_def split: if_splits)
qed (use assms in \<open>simp add: CreateMessage_def\<close>)

lemma ListRoots_refused:
  assumes "connected s"
  shows "(\<forall>reply. ListRoots reply s = Inl (unsupported ''roots'')) \<longleftrightarrow> Roots (clientCaps s) = None"
proof
  assume "\<forall>reply. ListRoots reply s = Inl (unsupported ''roots'')"
  from spec [OF this, of "Inr JNull"] show "Roots (clientCaps s) = None"
    using assms by (simp add: ListRoots_def split: if_splits)
qed (use assms in \<open>simp add: ListRoots_def\<close>)

lemma Elicit_refused:
  assumes "connected s"
  shows "(\<forall>reply request. Elicit reply request s = Inl (unsupported ''elicitation'')) \<longleftrightarrow> Elicitation (clientCaps s) = None"
proof
  assume "\<forall>reply request. Elicit reply request s = Inl (unsupported ''elicitation'')"
  from spec [OF spec [OF this, of "\<lambda>_. Inr JNull"],
      of "\<lparr>el_Mode = ''other'', el_Message = [], el_URL = [], el_ElicitationID = []\<rparr>"]
  show "Elicitation (clientCaps s) = None"
    using assms by (auto simp: Elicit_def elicit_mode_def unsupported_def NewParameterError_def Let_def split: option.splits)
qed (use assms in \<open>simp add: Elicit_def\<close>)


text \<open>A raw registration is not declared: after it the server asks a client that cannot answer.\<close>

theorem raw_removal_keeps_capability:
  "Sampling (advertise (OnRequest MethodSamplingCreateMessage None (OnSampling un z (Some h) c))) = Some () \<and>
   snd (handleMessage_client (OnRequest MethodSamplingCreateMessage None (OnSampling un z (Some h) c)) (Some i)
     MethodSamplingCreateMessage params u) = Inl (PlainErr ''method not implemented on client'')"
  by (simp add: OnRequest_def OnSampling_def setAdvertise_def handleMessage_client_def delete_conv')

section \<open>Nothing before the handshake\<close>

datatype client_op =
    OpInitialize InitializeRequest call_run
  | OpPing call_run
  | OpListTools string call_run
  | OpListPrompts string call_run
  | OpListResources string call_run
  | OpListResourceTemplates string call_run
  | OpReadResource string call_run
  | OpSubscribe string call_run
  | OpUnsubscribe string call_run
  | OpCallTool go_any call_run
  | OpGetPrompt go_any call_run
  | OpComplete go_any call_run
  | OpSetLevel string call_run
  | OpCall string "go_any option" call_run
  | OpNotify "mcp_error option" string "go_any option"

fun client_exec :: "client_op \<Rightarrow> 'u Client \<Rightarrow> 'u Client" where
  "client_exec (OpInitialize r run) c = fst (Initialize r run c)"
| "client_exec (OpPing run) c = fst (client_Ping run c)"
| "client_exec (OpListTools cur run) c = fst (ListTools cur run c)"
| "client_exec (OpListPrompts cur run) c = fst (ListPrompts cur run c)"
| "client_exec (OpListResources cur run) c = fst (ListResources cur run c)"
| "client_exec (OpListResourceTemplates cur run) c = fst (ListResourceTemplates cur run c)"
| "client_exec (OpReadResource uri run) c = fst (ReadResource uri run c)"
| "client_exec (OpSubscribe uri run) c = fst (SubscribeResource uri run c)"
| "client_exec (OpUnsubscribe uri run) c = fst (UnsubscribeResource uri run c)"
| "client_exec (OpCallTool r run) c = fst (CallTool r run c)"
| "client_exec (OpGetPrompt r run) c = fst (GetPrompt r run c)"
| "client_exec (OpComplete r run) c = fst (Complete r run c)"
| "client_exec (OpSetLevel l run) c = fst (SetLoggingLevel l run c)"
| "client_exec (OpCall m p run) c = fst (Call m p run c)"
| "client_exec (OpNotify e m p) c = fst (client_Notify e m p c)"

lemmas client_op_defs = client_Ping_def ListTools_def ListPrompts_def ListResources_def ListResourceTemplates_def
  ReadResource_def SubscribeResource_def UnsubscribeResource_def CallTool_def GetPrompt_def Complete_def
  SetLoggingLevel_def checked_call_def Call_def client_Notify_def checkInitialized_def

text \<open>The messages that may go out at any time: handshakes, pings and notifications.\<close>

fun early :: "wire \<Rightarrow> bool" where
  "early (WCall i m p) \<longleftrightarrow> m = MethodInitialize \<or> m = MethodPing"
| "early (WNotify m p) \<longleftrightarrow> True"

lemma client_call_fields:
  "cl_initialized (fst (client_call run m p c)) = cl_initialized c"
  "list_all early (cl_sent c) \<Longrightarrow> m = MethodInitialize \<or> m = MethodPing \<Longrightarrow> list_all early (cl_sent (fst (client_call run m p c)))"
  by (simp_all add: client_call_def Let_def split: option.split)

lemma client_call_keeps: "client_call run m p c = (c', r) \<Longrightarrow> cl_initialized c' = cl_initialized c \<and>
   (\<exists>ws. cl_sent c' = cl_sent c @ ws \<and> (m = MethodInitialize \<or> m = MethodPing \<longrightarrow> list_all early ws))"
  by (auto simp: client_call_def Let_def split: if_splits option.splits)

lemma client_exec_early:
  "cl_initialized c \<or> list_all early (cl_sent c) \<Longrightarrow>
   cl_initialized (client_exec op c) \<or> list_all early (cl_sent (client_exec op c))"
  by (cases op)
     (auto simp: client_op_defs Initialize_def client_call_fields dest!: client_call_keeps split: prod.splits sum.splits)

text \<open>
  Before the handshake a client sends only handshakes, pings and notifications: after any
  operations on a client that has sent nothing yet, either an \<open>Initialize\<close> has succeeded or every
  call that went out was \<open>initialize\<close> or \<open>ping\<close>. Once it has succeeded, a further \<open>Initialize\<close> is
  refused and sends nothing.
\<close>

theorem nothing_before_handshake:
  assumes "cl_sent c = []" and "c' = fold client_exec ops c"
  shows "(cl_initialized c' \<or> list_all early (cl_sent c')) \<and>
    (cl_initialized c' \<longrightarrow> Initialize r run c' = (c', Inl (PlainErr ''client already initialized'')))"
proof -
  have "cl_initialized (fold client_exec ops d) \<or> list_all early (cl_sent (fold client_exec ops d))"
    if "cl_initialized d \<or> list_all early (cl_sent d)" for d :: "'a Client"
    using that by (induction ops arbitrary: d) (simp_all add: client_exec_early)
  from this [of c] assms show ?thesis by (simp add: Initialize_def)
qed

section \<open>Cancellation\<close>

fun id_ok :: "rpc_id \<Rightarrow> bool" where
  "id_ok (Int64ID i) \<longleftrightarrow> \<bar>i\<bar> < 2 ^ 53"
| "id_ok (StringID s) \<longleftrightarrow> valid_utf8 s"

fun cause_ok :: "cause \<Rightarrow> bool" where
  "cause_ok (Cause e) \<longleftrightarrow> valid_utf8 e"
| "cause_ok Canceled \<longleftrightarrow> True"

lemma id_Raw_ok: "id_ok i \<Longrightarrow> any_ok (id_Raw i)"
  by (cases i) simp_all

lemma int64_of_int: "\<bar>i\<bar> < 2 ^ 53 \<Longrightarrow> int64_of_float (of_int i) = i"
  by (simp add: int64_of_float_def trunc_def abs_less_iff)

lemma read_cancel_params:
  assumes "id_ok i" and "cause_ok cause"
  shows "json_Unmarshal dec_Cancelled \<lparr>cn_RequestID = ANil, cn_Reason = []\<rparr> (marshal_any (cancel_params i cause)) =
    Inr \<lparr>cn_RequestID = id_Raw i, cn_Reason = (case cause of Canceled \<Rightarrow> [] | Cause e \<Rightarrow> e)\<rparr>"
proof -
  let ?fs = "(case cause of Canceled \<Rightarrow> [] | Cause e \<Rightarrow> [(''reason'', AStr e)]) @ [(''requestId'', id_Raw i)]"
  have names: "valid_utf8 ''reason''" "valid_utf8 ''requestId''" by code_simp+
  have t: "text_ok (AObj ?fs)"
    using names assms(2) any_ok_text [OF id_Raw_ok [OF assms(1)]] by (cases cause) simp_all
  have "depth_any (id_Raw i) = 0" by (cases i) simp_all
  then have d: "depth_any (AObj ?fs) \<le> maxNestingDepth" by (cases cause) (simp_all add: maxNestingDepth_def)
  have "dec_iface ANil (x, json_of (id_Raw i)) = Inr (id_Raw i)" for x
    using decode_json_of [OF id_Raw_ok [OF assms(1)]] by (simp add: dec_iface_def)
  then show ?thesis
    unfolding cancel_params_def json_Unmarshal_struct [OF t d]
    by (cases cause) (simp_all add: dec_Cancelled_def field_wire dec_string_def Let_def)
qed

text \<open>
  C10. A cancelled call cancels the same request at the server: when the watching goroutine of a call
  sees the context end, the client sends the call and then a notification whose text the preempter
  of the server reads as exactly the id of that call, whatever the cause. This holds for ids that
  are strings or integers below two to the 53.
\<close>

theorem cancellation_reaches_server:
  assumes "cl_conn c" and "run_id run = Some i" and "run_watch run = Some cause" and "id_ok i" and "cause_ok cause"
  shows "\<exists>body. cl_sent (fst (client_call run m p c)) =
      cl_sent c @ [WCall (Some i) m (map_option marshal_any p), WNotify MethodNotificationCancelled (Some body)] \<and>
    Preempt True MethodNotificationCancelled (Some body) cancelled = (cancelled @ [i], ErrNotHandled)"
proof -
  have "Preempt True MethodNotificationCancelled (Some (marshal_any (cancel_params i cause))) cancelled =
      (cancelled @ [i], ErrNotHandled)"
    using read_cancel_params [OF assms(4,5)] assms(4)
    by (cases i) (simp_all add: Preempt_def raw_def int64_of_int)
  then show ?thesis using assms(1-3) by (simp add: client_call_def)
qed

text \<open>Other numbers are truncated: a fraction cancels the request below it.\<close>

theorem preempt_truncates_ids:
  assumes "json_Unmarshal dec_Cancelled \<lparr>cn_RequestID = ANil, cn_Reason = []\<rparr> body = Inr p" and "cn_RequestID p = ANum (3 / 2)"
  shows "Preempt True MethodNotificationCancelled (Some body) cancelled = (cancelled @ [Int64ID 1], ErrNotHandled)"
proof -
  have "\<lfloor>3 / 2 :: rat\<rfloor> = 1" by (simp add: floor_eq_iff)
  then have "int64_of_float (3 / 2) = 1" by (simp add: int64_of_float_def trunc_def)
  with assms show ?thesis by (simp add: Preempt_def raw_def)
qed

section \<open>Witnesses\<close>

definition demo_client_new :: "unit Client" where
  "demo_client_new = \<lparr>cl_conn = True, notifyHandler = None, requestHandlers = [], advertise = no_ClientCapabilities,
     serverInfo = \<lparr>impl_Name = [], impl_Version = []\<rparr>, serverCapabilities = no_ServerCapabilities,
     cl_initialized = False, cl_sent = []\<rparr>"

definition demo_registrations :: "(unit, unit, unit) registration list" where
  "demo_registrations = [RegListRoots (Some (\<lambda>u. (u, Inr (AArr []))))]"

definition demo_initialize :: InitializeRequest where
  "demo_initialize = \<lparr>ProtocolVersion = [], ClientInfo = \<lparr>impl_Name = ''app'', impl_Version = ''1''\<rparr>,
     Capabilities = no_ClientCapabilities\<rparr>"

definition demo_server :: Server where
  "demo_server = (NewServer [] [] ''srv'' ''2'' [])\<lparr>connected := True\<rparr>"

definition demo_run :: call_run where
  "demo_run = \<lparr>run_id = Some (Int64ID 7), run_await = Inr ''{}'', run_watch = Some (Cause ''stopped'')\<rparr>"


theorem nothing_before_handshake_witness:
  "list_all early (cl_sent (fold client_exec [OpListTools [] demo_run, OpPing demo_run] demo_client_new)) \<or>
   cl_initialized (fold client_exec [OpListTools [] demo_run, OpPing demo_run] demo_client_new)"
proof -
  have "cl_sent demo_client_new = []" by (simp add: demo_client_new_def)
  from nothing_before_handshake [OF this refl, of "[OpListTools [] demo_run, OpPing demo_run]" demo_initialize demo_run]
  show ?thesis by blast
qed

theorem cancellation_reaches_server_witness:
  "\<exists>body. last (cl_sent (fst (client_call demo_run MethodPing None demo_client_new))) = WNotify MethodNotificationCancelled (Some body) \<and>
     Preempt True MethodNotificationCancelled (Some body) [] = ([Int64ID 7], ErrNotHandled)"
proof -
  have "cause_ok (Cause ''stopped'')" by code_simp
  then obtain body where "cl_sent (fst (client_call demo_run MethodPing None demo_client_new)) = cl_sent demo_client_new @
      [WCall (Some (Int64ID 7)) MethodPing None, WNotify MethodNotificationCancelled (Some body)]"
    and "Preempt True MethodNotificationCancelled (Some body) [] = ([Int64ID 7], ErrNotHandled)"
    using cancellation_reaches_server [of demo_client_new demo_run "Int64ID 7" "Cause ''stopped''" MethodPing None "[]"]
    by (auto simp: demo_run_def demo_client_new_def)
  then show ?thesis by auto
qed

end
