(* ===== verification/Secure.thy ===== *)
theory Secure
  imports Builtin TokenGuard
begin

text \<open>
  Model of the secure OAuth provider of \<open>auth_security.go\<close> with the encrypted token storage of
  \<open>security.go\<close> and the secure authentication middleware, over the memory provider. AES-GCM, SHA-256,
  HMAC, Argon2id and PBKDF2 are arguments, as are random bytes, clock readings and the text of a time.

  The provider hands out the token object it keeps. Writing the encrypted text into the returned
  object therefore also changes the object in the tables of the memory provider, under its old
  key; the model makes this assignment on the stored token too.
\<close>

section \<open>Encrypted tokens\<close>

record aead =
  NonceSize :: nat
  Seal :: "bytes \<Rightarrow> bytes \<Rightarrow> bytes"          \<comment> \<open>nonce and plain text\<close>
  Open :: "bytes \<Rightarrow> bytes \<Rightarrow> bytes option"   \<comment> \<open>nonce and cipher text\<close>

text \<open>What the library offers: a cipher for a key of 32 bytes, and the text of a time.\<close>

record crypto =
  new_GCM :: "bytes \<Rightarrow> mcp_error + aead"
  sha256 :: "bytes \<Rightarrow> bytes"
  hmac256 :: "bytes \<Rightarrow> bytes \<Rightarrow> bytes"
  argon2_IDKey :: "bytes \<Rightarrow> bytes \<Rightarrow> bytes"
  pbkdf2_Key :: "bytes \<Rightarrow> bytes \<Rightarrow> bytes"
  time_text :: "time \<Rightarrow> string"
  parse_time :: "string \<Rightarrow> time option"

definition ErrTokenEncryptionFailed :: mcp_error where
  "ErrTokenEncryptionFailed = Sentinel ''security: token encryption failed''"
definition ErrTokenDecryptionFailed :: mcp_error where
  "ErrTokenDecryptionFailed = Sentinel ''security: token decryption failed''"
definition ErrTokenExpired :: mcp_error where
  "ErrTokenExpired = Sentinel ''security: token expired''"
definition ErrInvalidTokenFormat :: mcp_error where
  "ErrInvalidTokenFormat = Sentinel ''security: invalid token format''"
definition ErrTokenRotationRequired :: mcp_error where
  "ErrTokenRotationRequired = Sentinel ''auth: token rotation required''"
definition ErrTokenRevoked :: mcp_error where
  "ErrTokenRevoked = Sentinel ''auth: token has been revoked''"
definition ErrTokenTampered :: mcp_error where
  "ErrTokenTampered = Sentinel ''auth: token integrity check failed''"

record SecureTokenStorage =
  ts_cipher :: aead
  rotationTime :: time

definition storage_key :: "crypto \<Rightarrow> bytes \<Rightarrow> bytes" where
  "storage_key lib key = (if length key \<noteq> 32 then sha256 lib key else key)"

definition NewSecureTokenStorage :: "crypto \<Rightarrow> time \<Rightarrow> bytes \<Rightarrow> mcp_error + SecureTokenStorage" where
  "NewSecureTokenStorage lib now key =
     (case new_GCM lib (storage_key lib key) of
        Inl err \<Rightarrow> Inl (WrapErr ''failed to create cipher'' err)
      | Inr c \<Rightarrow> Inr \<lparr>ts_cipher = c, rotationTime = now + 24 * hour\<rparr>)"

text \<open>The JSON text of an access token; an empty slice of scopes and a nil one decode alike.\<close>

definition enc_AccessToken :: "crypto \<Rightarrow> AccessToken \<Rightarrow> go_any" where
  "enc_AccessToken lib t =
     AObj ([(''access_token'', AStr (at_AccessToken t)), (''token_type'', AStr (at_TokenType t))] @
           (if at_ExpiresIn t = 0 then [] else [(''expires_in'', ANum (of_int (at_ExpiresIn t)))]) @
           (if at_RefreshToken t = [] then [] else [(''refresh_token'', AStr (at_RefreshToken t))]) @
           (if at_Scope t = [] then [] else [(''scope'', AStr (at_Scope t))]) @
           [(''client_id'', AStr (at_ClientID t)), (''scopes'', AArr (map AStr (at_Scopes t))),
            (''expires_at'', AStr (time_text lib (at_ExpiresAt t)))])"

text \<open>Decoding an integer, a slice of strings and a time.\<close>

definition dec_int :: "int decoder" where
  "dec_int x v =
     (case snd v of
        JNum s \<Rightarrow> (case num_parts s of (neg, n, e) \<Rightarrow>
                    if e = 0 \<and> (if neg then int n \<le> 2 ^ 63 else int n < 2 ^ 63) \<and> list_all (\<lambda>c. is_digit c \<or> c = CHR ''-'') s
                    then Inr (if neg then - int n else int n) else Inl json_error)
      | JNull \<Rightarrow> Inr x
      | _ \<Rightarrow> Inl json_error)"

fun string_items :: "JSON list \<Rightarrow> string list option" where
  "string_items [] = Some []"
| "string_items (JStr s # vs) = map_option (Cons s) (string_items vs)"
| "string_items (JNull # vs) = map_option (Cons []) (string_items vs)"
| "string_items (v # vs) = None"

definition dec_strings :: "string list decoder" where
  "dec_strings x v =
     (case snd v of
        JArr vs \<Rightarrow> (case string_items vs of Some ss \<Rightarrow> Inr ss | None \<Rightarrow> Inl json_error)
      | JNull \<Rightarrow> Inr []
      | _ \<Rightarrow> Inl json_error)"

definition dec_time :: "crypto \<Rightarrow> time decoder" where
  "dec_time lib x v =
     (case snd v of
        JStr s \<Rightarrow> (case parse_time lib s of Some t \<Rightarrow> Inr t | None \<Rightarrow> Inl json_error)
      | JNull \<Rightarrow> Inr x
      | _ \<Rightarrow> Inl json_error)"

definition token_names :: "string list" where
  "token_names = [''access_token'', ''token_type'', ''expires_in'', ''refresh_token'', ''scope'', ''client_id'', ''scopes'', ''expires_at'']"

definition dec_AccessToken :: "crypto \<Rightarrow> AccessToken \<Rightarrow> json_members \<Rightarrow> mcp_error + AccessToken" where
  "dec_AccessToken lib x ms =
     (let F = token_names
      in sum_bind (field F ms ''access_token'' dec_string (at_AccessToken x)) (\<lambda>a.
         sum_bind (field F ms ''token_type'' dec_string (at_TokenType x)) (\<lambda>ty.
         sum_bind (field F ms ''expires_in'' dec_int (at_ExpiresIn x)) (\<lambda>ei.
         sum_bind (field F ms ''refresh_token'' dec_string (at_RefreshToken x)) (\<lambda>r.
         sum_bind (field F ms ''scope'' dec_string (at_Scope x)) (\<lambda>sc.
         sum_bind (field F ms ''client_id'' dec_string (at_ClientID x)) (\<lambda>ci.
         sum_bind (field F ms ''scopes'' dec_strings (at_Scopes x)) (\<lambda>ss.
         sum_bind (field F ms ''expires_at'' (dec_time lib) (at_ExpiresAt x)) (\<lambda>ea.
         Inr \<lparr>at_AccessToken = a, at_TokenType = ty, at_ExpiresIn = ei, at_RefreshToken = r, at_Scope = sc,
              at_ClientID = ci, at_Scopes = ss, at_ExpiresAt = ea\<rparr>)))))))))"

text \<open>The zero time is before every reading of the clock.\<close>

definition zero_AccessToken :: "time \<Rightarrow> AccessToken" where
  "zero_AccessToken zero_time = \<lparr>at_AccessToken = [], at_TokenType = [], at_ExpiresIn = 0, at_RefreshToken = [], at_Scope = [],
     at_ClientID = [], at_Scopes = [], at_ExpiresAt = zero_time\<rparr>"

definition EncryptToken :: "crypto \<Rightarrow> random_source \<Rightarrow> AccessToken \<Rightarrow> SecureTokenStorage \<Rightarrow> mcp_error + string" where
  "EncryptToken lib rnd token s =
     (case rnd (NonceSize (ts_cipher s)) of
        Inl err \<Rightarrow> Inl (ErrDetail ErrTokenEncryptionFailed (error_string err))
      | Inr nonce \<Rightarrow>
          Inr (URLEncoding_EncodeToString (nonce @ Seal (ts_cipher s) nonce (marshal_any (enc_AccessToken lib token)))))"

definition DecryptToken :: "crypto \<Rightarrow> time \<Rightarrow> time \<Rightarrow> string \<Rightarrow> SecureTokenStorage \<Rightarrow> mcp_error + AccessToken" where
  "DecryptToken lib zero_time now encrypted s =
     (case URLEncoding_DecodeString encrypted of
        None \<Rightarrow> Inl (ErrDetail ErrTokenDecryptionFailed ''illegal base64 data'')
      | Some data \<Rightarrow>
          let n = NonceSize (ts_cipher s)
          in if length data < n then Inl ErrInvalidTokenFormat
             else case Open (ts_cipher s) (take n data) (drop n data) of
                    None \<Rightarrow> Inl (ErrDetail ErrTokenDecryptionFailed ''cipher: message authentication failed'')
                  | Some plaintext \<Rightarrow>
                      (case json_Unmarshal (dec_AccessToken lib) (zero_AccessToken zero_time) plaintext of
                         Inl err \<Rightarrow> Inl (ErrDetail ErrTokenDecryptionFailed (error_string err))
                       | Inr token \<Rightarrow> if at_ExpiresAt token < now then Inl ErrTokenExpired else Inr token))"

definition storage_NeedsRotation :: "time \<Rightarrow> SecureTokenStorage \<Rightarrow> bool" where
  "storage_NeedsRotation now s \<longleftrightarrow> rotationTime s < now"

definition RotateKey :: "crypto \<Rightarrow> time \<Rightarrow> bytes \<Rightarrow> SecureTokenStorage \<Rightarrow> SecureTokenStorage \<times> mcp_error option" where
  "RotateKey lib now newKey s =
     (case new_GCM lib (storage_key lib newKey) of
        Inl err \<Rightarrow> (s, Some (WrapErr ''failed to create cipher'' err))
      | Inr c \<Rightarrow> (s\<lparr>ts_cipher := c, rotationTime := now + 24 * hour\<rparr>, None))"

section \<open>The provider\<close>

record SecureToken =
  st_AccessToken :: AccessToken
  st_Version :: int
  st_Fingerprint :: string
  st_IssuedAt :: time
  st_LastUsed :: time
  st_UseCount :: int64
  st_RotationCount :: int
  st_Signature :: string
  st_Metadata :: go_any
  st_OriginalTokenStr :: string

record TokenRotationPolicy =
  MaxAgePolicy :: duration
  MaxUseCount :: int64
  InactivityPeriod :: duration
  ForceRotateAfter :: duration

definition DefaultTokenRotationPolicy :: TokenRotationPolicy where
  "DefaultTokenRotationPolicy = \<lparr>MaxAgePolicy = 24 * hour, MaxUseCount = 10000, InactivityPeriod = 2 * hour,
     ForceRotateAfter = 7 * 24 * hour\<rparr>"

record SecureOAuthProvider =
  sp_provider :: MemoryOAuthProvider
  sp_storage :: SecureTokenStorage
  rotationPolicy :: TokenRotationPolicy
  revokedTokens :: "(string, time) gomap"
  tokenMetadata :: "(string, SecureToken) gomap"
  signingKey :: bytes

definition deriveKey :: "crypto \<Rightarrow> bytes \<Rightarrow> bytes \<Rightarrow> string \<Rightarrow> string \<Rightarrow> bytes" where
  "deriveKey lib masterKey salt purpose how =
     (if how = ''argon2'' then argon2_IDKey lib masterKey (salt @ purpose) else pbkdf2_Key lib masterKey (salt @ purpose))"

definition NewSecureOAuthProvider ::
  "crypto \<Rightarrow> time \<Rightarrow> random_source \<Rightarrow> MemoryOAuthProvider option \<Rightarrow> bytes \<Rightarrow> TokenRotationPolicy option \<Rightarrow>
   mcp_error + SecureOAuthProvider" where
  "NewSecureOAuthProvider lib now rnd provider key policy =
     (case provider of
        None \<Rightarrow> Inl (PlainErr ''provider cannot be nil'')
      | Some p \<Rightarrow>
          (case NewSecureTokenStorage lib now key of
             Inl err \<Rightarrow> Inl (WrapErr ''failed to create secure storage'' err)
           | Inr storage \<Rightarrow>
               (case rnd 32 of
                  Inl err \<Rightarrow> Inl (WrapErr ''failed to generate salt'' err)
                | Inr salt \<Rightarrow>
                    Inr \<lparr>sp_provider = p, sp_storage = storage,
                         rotationPolicy = (case policy of Some r \<Rightarrow> r | None \<Rightarrow> DefaultTokenRotationPolicy),
                         revokedTokens = [], tokenMetadata = [],
                         signingKey = deriveKey lib key salt ''signing'' ''argon2''\<rparr>)))"

definition html_EscapeString :: "string \<Rightarrow> string" where
  "html_EscapeString s =
     concat (map (\<lambda>c. if c = CHR ''&'' then ''&amp;'' else if c = CHR 0x27 then ''&#39;'' else if c = CHR ''<'' then ''&lt;''
                      else if c = CHR ''>'' then ''&gt;'' else if c = CHR 0x22 then ''&#34;'' else [c]) s)"

definition sanitizeClientMetadataValue :: "string \<Rightarrow> string" where
  "sanitizeClientMetadataValue s = take 1024 (html_EscapeString (strings_ReplaceAll s [CHR 0x00] []))"

definition extractClientInfo :: "mcp_ctx \<Rightarrow> go_any" where
  "extractClientInfo ctx =
     AObj (canon_members
       ((case ctx_userAgent ctx of Some v \<Rightarrow> [(''userAgent'', AStr (sanitizeClientMetadataValue v))] | None \<Rightarrow> []) @
        (case ctx_remoteAddr ctx of Some v \<Rightarrow> [(''remoteAddr'', AStr (sanitizeClientMetadataValue v))] | None \<Rightarrow> []) @
        (case ctx_clientID ctx of Some v \<Rightarrow> [(''clientId'', AStr (sanitizeClientMetadataValue v))] | None \<Rightarrow> [])))"

text \<open>\<open>now_text\<close> is the clock reading as \<open>String\<close> prints it.\<close>

definition generateFingerprint :: "crypto \<Rightarrow> string \<Rightarrow> random_source \<Rightarrow> mcp_ctx \<Rightarrow> string" where
  "generateFingerprint lib now_text rnd ctx =
     take 32 (hex_EncodeToString (sha256 lib
       (now_text @ marshal_any (extractClientInfo ctx) @
        (case rnd 16 of Inr bs \<Rightarrow> hex_EncodeToString bs | Inl e \<Rightarrow> []))))"

definition signToken :: "crypto \<Rightarrow> SecureToken \<Rightarrow> SecureOAuthProvider \<Rightarrow> string" where
  "signToken lib token p =
     (let tokenStr = (if st_OriginalTokenStr token = [] then at_AccessToken (st_AccessToken token) else st_OriginalTokenStr token)
      in hex_EncodeToString (hmac256 lib (signingKey p)
           (tokenStr @ ''|'' @ show_int (st_Version token) @ ''|'' @ st_Fingerprint token @ ''|'' @
            show_int (st_IssuedAt token div second) @ ''|'' @ show_int (st_RotationCount token))))"

definition ValidateTokenIntegrity :: "SecureToken \<Rightarrow> mcp_error option" where
  "ValidateTokenIntegrity token =
     (if st_Version token \<noteq> 1 then Some (PlainErr (''unsupported version: '' @ show_int (st_Version token)))
      else if st_Fingerprint token = [] then Some (PlainErr ''fingerprint is empty'')
      else if st_Signature token = [] then Some (PlainErr ''signature is empty'')
      else None)"

definition needsRotation :: "time \<Rightarrow> SecureToken \<Rightarrow> SecureOAuthProvider \<Rightarrow> bool" where
  "needsRotation now token p \<longleftrightarrow>
     MaxAgePolicy (rotationPolicy p) < time_Sub now (st_IssuedAt token) \<or>
     \<not> st_UseCount token <s MaxUseCount (rotationPolicy p) \<or>
     InactivityPeriod (rotationPolicy p) < time_Sub now (st_LastUsed token) \<or>
     ForceRotateAfter (rotationPolicy p) < time_Sub now (st_IssuedAt token)"

text \<open>What the secure provider does with a new token of the memory provider: metadata, signature,
  encryption, and the assignment to the shared object.\<close>

definition secure_new_token ::
  "crypto \<Rightarrow> random_source \<Rightarrow> SecureToken \<Rightarrow> SecureOAuthProvider \<Rightarrow> SecureOAuthProvider \<times> (mcp_error + AccessToken)" where
  "secure_new_token lib rnd secureToken p =
     (let base = st_AccessToken secureToken;
          secureToken = secureToken\<lparr>st_Signature := signToken lib secureToken p\<rparr>
      in case EncryptToken lib rnd base (sp_storage p) of
           Inl err \<Rightarrow> (p, Inl (WrapErr ''failed to encrypt token'' err))
         | Inr encrypted \<Rightarrow>
             let shared = base\<lparr>at_AccessToken := encrypted\<rparr>
             in (p\<lparr>tokenMetadata := AList.update (at_AccessToken base) (secureToken\<lparr>st_AccessToken := shared\<rparr>) (tokenMetadata p),
                   sp_provider := (sp_provider p)\<lparr>accessTokens := AList.update (at_AccessToken base) shared (accessTokens (sp_provider p))\<rparr>\<rparr>,
                 Inr shared))"

record secure_reads =
  rd_now :: "nat \<Rightarrow> time"
  rd_rnd :: "nat \<Rightarrow> random_source"
  rd_text :: string
  rd_zero :: time

definition secure_CreateAccessToken ::
  "crypto \<Rightarrow> secure_reads \<Rightarrow> mcp_ctx \<Rightarrow> AuthorizationCode \<Rightarrow> SecureOAuthProvider \<Rightarrow>
   SecureOAuthProvider \<times> (mcp_error + AccessToken)" where
  "secure_CreateAccessToken lib rd ctx authCode p =
     (case CreateAccessToken (rd_rnd rd 0) (rd_rnd rd 1) (rd_now rd 0) (rd_now rd 1) authCode (sp_provider p) of
        (q, Inl err) \<Rightarrow> (p\<lparr>sp_provider := q\<rparr>, Inl err)
      | (q, Inr base) \<Rightarrow>
          let now = rd_now rd 2
          in secure_new_token lib (rd_rnd rd 3)
               \<lparr>st_AccessToken = base, st_Version = 1, st_Fingerprint = generateFingerprint lib (rd_text rd) (rd_rnd rd 2) ctx,
                st_IssuedAt = now, st_LastUsed = now, st_UseCount = 0, st_RotationCount = 0, st_Signature = [],
                st_Metadata = AObj [(''clientInfo'', extractClientInfo ctx), (''grantType'', AStr ''authorization_code'')],
                st_OriginalTokenStr = at_AccessToken base\<rparr>
               (p\<lparr>sp_provider := q\<rparr>))"

text \<open>The checks on the metadata of a decrypted token, the use of it, and the check of the memory provider.\<close>

definition use_token ::
  "crypto \<Rightarrow> secure_reads \<Rightarrow> string \<Rightarrow> SecureToken \<Rightarrow> SecureOAuthProvider \<Rightarrow> SecureOAuthProvider \<times> (mcp_error + AccessToken)" where
  "use_token lib rd a st p =
     (if ValidateTokenIntegrity st \<noteq> None then (p, Inl ErrTokenTampered)
      else if st_Signature st \<noteq> signToken lib st p then (p, Inl ErrTokenTampered)
      else if needsRotation (rd_now rd 1) st p then (p, Inl ErrTokenRotationRequired)
      else let st = st\<lparr>st_LastUsed := rd_now rd 2, st_UseCount := st_UseCount st + 1\<rparr>;
               p = p\<lparr>tokenMetadata := AList.update a st (tokenMetadata p)\<rparr>
           in (case ValidateAccessToken (rd_now rd 3) a (sp_provider p) of
                 (q, r) \<Rightarrow> (p\<lparr>sp_provider := q\<rparr>, r)))"

definition secure_ValidateAccessToken ::
  "crypto \<Rightarrow> secure_reads \<Rightarrow> string \<Rightarrow> SecureOAuthProvider \<Rightarrow> SecureOAuthProvider \<times> (mcp_error + AccessToken)" where
  "secure_ValidateAccessToken lib rd encryptedToken p =
     (if map_of (revokedTokens p) encryptedToken \<noteq> None then (p, Inl ErrTokenRevoked)
      else case DecryptToken lib (rd_zero rd) (rd_now rd 0) encryptedToken (sp_storage p) of
             Inl err \<Rightarrow> (p, Inl err)
           | Inr token \<Rightarrow>
               (case map_of (tokenMetadata p) (at_AccessToken token) of
                  None \<Rightarrow> (p, Inl ErrTokenTampered)
                | Some st \<Rightarrow>
                    let st = (if st_OriginalTokenStr st = [] then st\<lparr>st_OriginalTokenStr := at_AccessToken token\<rparr> else st)
                    in use_token lib rd (at_AccessToken token) st
                         (p\<lparr>tokenMetadata := AList.update (at_AccessToken token) st (tokenMetadata p)\<rparr>)))"

definition isEncryptedToken :: "string \<Rightarrow> SecureOAuthProvider \<Rightarrow> bool" where
  "isEncryptedToken token p \<longleftrightarrow>
     (case URLEncoding_DecodeString token of
        None \<Rightarrow> False
      | Some decoded \<Rightarrow>
          let c = ts_cipher (sp_storage p); n = NonceSize c
          in \<not> (length decoded \<le> n \<or> length decoded < 100) \<and> Open c (take n decoded) (drop n decoded) \<noteq> None)"

definition secure_RefreshAccessToken ::
  "crypto \<Rightarrow> secure_reads \<Rightarrow> mcp_ctx \<Rightarrow> string \<Rightarrow> SecureOAuthProvider \<Rightarrow> SecureOAuthProvider \<times> (mcp_error + AccessToken)" where
  "secure_RefreshAccessToken lib rd ctx refreshToken p =
     (case (if isEncryptedToken refreshToken p
            then map_sum id at_RefreshToken (DecryptToken lib (rd_zero rd) (rd_now rd 0) refreshToken (sp_storage p))
            else Inr refreshToken) of
        Inl err \<Rightarrow> (p, Inl err)
      | Inr refresh \<Rightarrow>
          (case RefreshAccessToken (rd_now rd 1) (rd_rnd rd 0) (rd_now rd 2) refresh (sp_provider p) of
             (q, Inl err) \<Rightarrow> (p\<lparr>sp_provider := q\<rparr>, Inl err)
           | (q, Inr newToken) \<Rightarrow>
               let rotationCount = (case map_of (tokenMetadata p) refresh of Some old \<Rightarrow> st_RotationCount old + 1 | None \<Rightarrow> 0)
               in secure_new_token lib (rd_rnd rd 2)
                    \<lparr>st_AccessToken = newToken, st_Version = 1,
                     st_Fingerprint = generateFingerprint lib (rd_text rd) (rd_rnd rd 1) ctx,
                     st_IssuedAt = rd_now rd 3, st_LastUsed = rd_now rd 4, st_UseCount = 0, st_RotationCount = rotationCount,
                     st_Signature = [],
                     st_Metadata = AObj [(''clientInfo'', extractClientInfo ctx), (''grantType'', AStr ''refresh_token''),
                       (''rotatedAt'', AStr (time_text lib (rd_now rd 5)))],
                     st_OriginalTokenStr = at_AccessToken newToken\<rparr>
                    (p\<lparr>sp_provider := q\<rparr>)))"

definition secure_RevokeToken :: "crypto \<Rightarrow> secure_reads \<Rightarrow> string \<Rightarrow> SecureOAuthProvider \<Rightarrow> SecureOAuthProvider" where
  "secure_RevokeToken lib rd token p =
     (let p = p\<lparr>revokedTokens := AList.update token (rd_now rd 0) (revokedTokens p)\<rparr>
      in case (if isEncryptedToken token p
               then DecryptToken lib (rd_zero rd) (rd_now rd 1) token (sp_storage p) else Inl ErrInvalidTokenFormat) of
           Inr decrypted \<Rightarrow> p\<lparr>sp_provider := RevokeToken (at_AccessToken decrypted) (sp_provider p)\<rparr>
         | Inl _ \<Rightarrow> p\<lparr>sp_provider := RevokeToken token (sp_provider p)\<rparr>)"

text \<open>The remaining operations of the interface are those of the provider inside.\<close>

definition secure_RegisterClient ::
  "random_source \<Rightarrow> random_source \<Rightarrow> OAuthClientInfo \<Rightarrow> SecureOAuthProvider \<Rightarrow> SecureOAuthProvider \<times> (mcp_error + OAuthClientInfo)" where
  "secure_RegisterClient rnd rnd' req p =
     (case RegisterClient rnd rnd' req (sp_provider p) of (q, r) \<Rightarrow> (p\<lparr>sp_provider := q\<rparr>, r))"

definition secure_GetClient :: "string \<Rightarrow> SecureOAuthProvider \<Rightarrow> mcp_error + OAuthClientInfo" where
  "secure_GetClient clientID p = GetClient clientID (sp_provider p)"

definition secure_ValidateClient :: "string \<Rightarrow> string \<Rightarrow> SecureOAuthProvider \<Rightarrow> mcp_error option" where
  "secure_ValidateClient clientID clientSecret p = ValidateClient clientID clientSecret (sp_provider p)"

definition secure_CreateAuthorizationCode ::
  "random_source \<Rightarrow> time \<Rightarrow> AuthorizationRequest \<Rightarrow> SecureOAuthProvider \<Rightarrow> SecureOAuthProvider \<times> (mcp_error + AuthorizationCode)" where
  "secure_CreateAuthorizationCode rnd now req p =
     (case CreateAuthorizationCode rnd now req (sp_provider p) of (q, r) \<Rightarrow> (p\<lparr>sp_provider := q\<rparr>, r))"

definition secure_GetAuthorizationCode ::
  "time \<Rightarrow> string \<Rightarrow> SecureOAuthProvider \<Rightarrow> SecureOAuthProvider \<times> (mcp_error + AuthorizationCode)" where
  "secure_GetAuthorizationCode now code p =
     (case GetAuthorizationCode now code (sp_provider p) of (q, r) \<Rightarrow> (p\<lparr>sp_provider := q\<rparr>, r))"

definition secure_RevokeAuthorizationCode :: "string \<Rightarrow> SecureOAuthProvider \<Rightarrow> SecureOAuthProvider" where
  "secure_RevokeAuthorizationCode code p = p\<lparr>sp_provider := RevokeAuthorizationCode code (sp_provider p)\<rparr>"

definition secure_ValidateScopes :: "string \<Rightarrow> string list \<Rightarrow> SecureOAuthProvider \<Rightarrow> mcp_error option" where
  "secure_ValidateScopes clientID scopes p = ValidateScopes clientID scopes (sp_provider p)"

lemmas secure_delegates = secure_RegisterClient_def secure_CreateAuthorizationCode_def secure_GetAuthorizationCode_def
  secure_RevokeAuthorizationCode_def

section \<open>The middleware\<close>

record secure_state =
  ss_provider :: SecureOAuthProvider
  ss_guard :: TokenTransmissionGuard

definition NewSecureAuthenticationMiddleware :: "string list \<Rightarrow> SecureOAuthProvider \<Rightarrow> string list \<times> secure_state" where
  "NewSecureAuthenticationMiddleware skipMethods p =
     ([''initialize'', ''initialized'', ''ping''] @ skipMethods,
      \<lparr>ss_provider = p, ss_guard = NewTokenTransmissionGuard (5 * minute)\<rparr>)"

definition secure_middleware_Close :: "secure_state \<Rightarrow> secure_state" where
  "secure_middleware_Close s = s\<lparr>ss_guard := guard_Close (ss_guard s)\<rparr>"

text \<open>\<open>src\<close> gives what a check reads of the clock and the random source when it starts at a given reading.\<close>

definition SecureAuthentication_Apply ::
  "crypto \<Rightarrow> (time \<Rightarrow> secure_reads) \<Rightarrow> (string \<Rightarrow> string) \<Rightarrow> (string \<Rightarrow> string) \<Rightarrow> string list \<Rightarrow>
   ('l, 'v, secure_state, 'r) handler \<Rightarrow> ('l, 'v, secure_state, 'r) handler" where
  "SecureAuthentication_Apply lib src sanitize ul skipMethods next ctx req w =
     (if req_method req \<in> set skipMethods then next ctx req w
      else case extractToken ul ctx req of
             Inl err \<Rightarrow> (w, Ret None (Some (NewAuthError sanitize ''Authentication required'' ErrorInvalidRequest)))
           | Inr token \<Rightarrow>
               let (w, t0) = clock_now w; (w, t1) = clock_now w; (w, t2) = clock_now w;
                   s = w_rest w;
                   (g, checked) = (case ctx_transmitted ctx of
                      Some transmitted \<Rightarrow> ValidateTokenTransmission t0 t1 transmitted (ss_guard s)
                    | None \<Rightarrow> (ss_guard s, Inr token));
                   w = w\<lparr>w_rest := s\<lparr>ss_guard := g\<rparr>\<rparr>
               in case checked of
                    Inl err \<Rightarrow> (w, Ret None (Some (NewAuthError sanitize ''Invalid token transmission'' ErrorInvalidClient)))
                  | Inr token \<Rightarrow>
                      (case secure_ValidateAccessToken lib (src t2) token (ss_provider s) of
                         (p, res) \<Rightarrow>
                           let w = w\<lparr>w_rest := (w_rest w)\<lparr>ss_provider := p\<rparr>\<rparr>
                           in case res of
                                Inl err \<Rightarrow>
                                  (w, Ret None (Some (if err = ErrTokenRotationRequired
                                     then NewAuthError sanitize ''Token rotation required'' ErrorInvalidGrant
                                     else NewAuthError sanitize ''Invalid authentication'' ErrorInvalidClient)))
                              | Inr t \<Rightarrow>
                                  next (WithAuthContext \<lparr>actx_AccessToken = t, actx_ClientID = at_ClientID t, actx_Scopes = at_Scopes t\<rparr> ctx)
                                    req w))"

definition SecureAuthenticationMW ::
  "crypto \<Rightarrow> (time \<Rightarrow> secure_reads) \<Rightarrow> (string \<Rightarrow> string) \<Rightarrow> (string \<Rightarrow> string) \<Rightarrow> string list \<Rightarrow>
   (mcp_ctx, ('l, 'v, secure_state) mw_world, 'r) Middleware" where
  "SecureAuthenticationMW lib src sanitize ul skipMethods =
     Middleware ''secure_authentication'' 900 (SecureAuthentication_Apply lib src sanitize ul skipMethods)"

end
