(* ===== verification/Secure_Props.thy ===== *)
theory Secure_Props
  imports Secure Json_Struct
begin

text \<open>
  What the secure provider guarantees: an encrypted token decrypts to the token it was made of, a
  new token is accepted within the limits of the policy, a revoked one is refused in every encoding
  of it, and no token is used more often than the policy allows.
\<close>

section \<open>Tokens survive encryption\<close>

text \<open>What the code relies on: opening what was sealed, hashes of 32 bytes, and times that parse back.\<close>

definition aead_ok :: "aead \<Rightarrow> bool" where
  "aead_ok c \<longleftrightarrow> (\<forall>nonce p. length nonce = NonceSize c \<longrightarrow> Open c nonce (Seal c nonce p) = Some p)"

definition hashes_ok :: "crypto \<Rightarrow> bool" where
  "hashes_ok lib \<longleftrightarrow> (\<forall>x. length (sha256 lib x) = 32) \<and> (\<forall>k x. length (hmac256 lib k x) = 32)"

definition time_ok :: "crypto \<Rightarrow> time \<Rightarrow> bool" where
  "time_ok lib t \<longleftrightarrow> valid_utf8 (time_text lib t) \<and> parse_time lib (time_text lib t) = Some t"

definition token_text_ok :: "crypto \<Rightarrow> AccessToken \<Rightarrow> bool" where
  "token_text_ok lib t \<longleftrightarrow> valid_utf8 (at_AccessToken t) \<and> valid_utf8 (at_TokenType t) \<and> \<bar>at_ExpiresIn t\<bar> < 2 ^ 53 \<and>
     valid_utf8 (at_RefreshToken t) \<and> valid_utf8 (at_Scope t) \<and> valid_utf8 (at_ClientID t) \<and>
     list_all valid_utf8 (at_Scopes t) \<and> time_ok lib (at_ExpiresAt t)"

lemma string_items_wire: "string_items (map (json_of \<circ> AStr) ss) = Some ss"
  by (induction ss) simp_all

lemma dec_int_wire:
  assumes "\<bar>i\<bar> < 2 ^ 53"
  shows "dec_int x (t, JNum (format_float (of_int i))) = Inr i"
proof -
  have "list_all (\<lambda>c. is_digit c \<or> c = CHR ''-'') (show_int i)"
    using show_nat_digits [of "nat i"] show_nat_digits [of "nat (- i)"] by (auto simp: show_int_def list_all_iff)
  then show ?thesis using assms by (auto simp: dec_int_def format_float_int num_parts_show_int)
qed

lemma token_names_ok: "list_all valid_utf8 token_names"
  by code_simp

lemma read_AccessToken:
  assumes "token_text_ok lib t"
  shows "json_Unmarshal (dec_AccessToken lib) (zero_AccessToken z) (marshal_any (enc_AccessToken lib t)) = Inr t"
proof -
  have ok: "text_ok (enc_AccessToken lib t)"
    using assms token_names_ok
    by (simp add: enc_AccessToken_def token_text_ok_def time_ok_def token_names_def list_all_iff)
  have "depth_any (AArr (map AStr ss)) \<le> 1" for ss by (induction ss) simp_all
  then have d: "depth_any (enc_AccessToken lib t) \<le> maxNestingDepth"
    by (simp add: enc_AccessToken_def maxNestingDepth_def)
  show ?thesis
    using assms
    unfolding enc_AccessToken_def json_Unmarshal_struct [OF ok [unfolded enc_AccessToken_def] d [unfolded enc_AccessToken_def]]
    by (simp add: dec_AccessToken_def zero_AccessToken_def token_names_def field_wire dec_string_def dec_int_wire
        dec_strings_def string_items_wire dec_time_def token_text_ok_def time_ok_def Let_def)
qed

lemma decrypt_encrypt:
  assumes "aead_ok (ts_cipher s)" and "rnd (NonceSize (ts_cipher s)) = Inr nonce" and "length nonce = NonceSize (ts_cipher s)"
    and "token_text_ok lib t" and "now \<le> at_ExpiresAt t" and "EncryptToken lib rnd t s = Inr enc"
  shows "DecryptToken lib z now enc s = Inr t"
proof -
  have "enc = URLEncoding_EncodeToString (nonce @ Seal (ts_cipher s) nonce (marshal_any (enc_AccessToken lib t)))"
    using assms(2,6) by (simp add: EncryptToken_def)
  moreover have "Open (ts_cipher s) nonce (Seal (ts_cipher s) nonce p) = Some p" for p
    using assms(1,3) by (simp add: aead_ok_def)
  ultimately show ?thesis
    using assms(3,5) by (simp add: DecryptToken_def URLEncoding_roundtrip read_AccessToken [OF assms(4)])
qed


section \<open>A new token is accepted\<close>

lemma hex_length: "length (hex_EncodeToString bs) = 2 * length bs"
  by (induction bs) (simp_all add: hex_EncodeToString_def)

lemma fingerprint_nonempty: "hashes_ok lib \<Longrightarrow> generateFingerprint lib now rnd ctx \<noteq> []"
  by (auto simp: generateFingerprint_def hashes_ok_def hex_length simp flip: length_greater_0_conv)

lemma signature_nonempty: "hashes_ok lib \<Longrightarrow> signToken lib st p \<noteq> []"
  by (auto simp: signToken_def hashes_ok_def hex_length Let_def simp flip: length_greater_0_conv)

lemma verbatim_utf8: "list_all verbatim_char s \<Longrightarrow> valid_utf8 s"
proof -
  assume s: "list_all verbatim_char s"
  then have "list_all is_ascii s" by (rule list.pred_mono_strong) (simp add: verbatim_char_def plain_char_ascii)
  then have "runes s = map (\<lambda>c. [c]) s" by (rule runes_ascii)
  with s show ?thesis
    by (auto simp: valid_utf8_def valid_rune_def verbatim_char_def plain_char_def list_all_iff)
qed

lemma generateRandomString_props:
  assumes "generateRandomString rnd 64 = Inr a"
  shows "valid_utf8 a" and "rnd 32 = Inr bs \<Longrightarrow> bs \<noteq> [] \<Longrightarrow> a \<noteq> []"
proof -
  obtain b where "a = take 64 (hex_EncodeToString b)" using assms by (auto simp: generateRandomString_def split: sum.splits)
  then have "list_all verbatim_char a" using hex_verbatim [of b] by (auto simp: list_all_iff dest: in_set_takeD)
  then show "valid_utf8 a" by (rule verbatim_utf8)
  show "rnd 32 = Inr bs \<Longrightarrow> bs \<noteq> [] \<Longrightarrow> a \<noteq> []"
    using assms by (cases bs) (auto simp: generateRandomString_def hex_EncodeToString_def)
qed

text \<open>What a successful creation leaves behind.\<close>

lemma secure_new_token_Inr:
  assumes "secure_new_token lib rnd st p = (p', Inr t)" and "st_OriginalTokenStr st \<noteq> []"
  defines "a \<equiv> at_AccessToken (st_AccessToken st)"
  shows "\<exists>enc. EncryptToken lib rnd (st_AccessToken st) (sp_storage p) = Inr enc \<and> t = (st_AccessToken st)\<lparr>at_AccessToken := enc\<rparr> \<and>
    map_of (accessTokens (sp_provider p')) a = Some t \<and> sp_storage p' = sp_storage p \<and>
    rotationPolicy p' = rotationPolicy p \<and> revokedTokens p' = revokedTokens p \<and> signingKey p' = signingKey p \<and>
    map_of (tokenMetadata p') a = Some (st\<lparr>st_Signature := signToken lib st p, st_AccessToken := t\<rparr>)"
  using assms(1) by (auto simp: secure_new_token_def a_def Let_def update_conv' split: sum.splits)

lemma CreateAccessToken_Inr:
  assumes "CreateAccessToken rnd rnd' now now' authCode q = (q', Inr base)"
  shows "generateRandomString rnd 64 = Inr (at_AccessToken base)" and "generateRandomString rnd' 64 = Inr (at_RefreshToken base)"
    and "at_TokenType base = TokenTypeBearer" and "at_ExpiresIn base = DefaultAccessTokenExpirationSeconds"
    and "at_ClientID base = ac_ClientID authCode" and "at_Scopes base = ac_Scopes authCode"
  using assms by (auto simp: CreateAccessToken_def Let_def split: sum.splits)

lemma secure_Validate_ok:
  assumes "map_of (revokedTokens p) enc = None" and "DecryptToken lib (rd_zero rd) (rd_now rd 0) enc (sp_storage p) = Inr token"
    and "map_of (tokenMetadata p) (at_AccessToken token) = Some st" and "st_OriginalTokenStr st \<noteq> []"
    and "ValidateTokenIntegrity st = None" and "st_Signature st = signToken lib st p" and "\<not> needsRotation (rd_now rd 1) st p"
  shows "snd (secure_ValidateAccessToken lib rd enc p) = snd (ValidateAccessToken (rd_now rd 3) (at_AccessToken token) (sp_provider p))"
proof -
  have "signToken lib st (p\<lparr>tokenMetadata := m\<rparr>) = signToken lib st p"
    "needsRotation (rd_now rd 1) st (p\<lparr>tokenMetadata := m\<rparr>) = needsRotation (rd_now rd 1) st p" for m
    by (simp_all add: signToken_def needsRotation_def)
  with assms show ?thesis by (simp add: secure_ValidateAccessToken_def use_token_def Let_def split: prod.split)
qed

text \<open>
  C33. A new secure token works: the encrypted text that \<open>CreateAccessToken\<close> returns is accepted by
  \<open>ValidateAccessToken\<close> as long as the token has not expired and is within the maximum age, the
  inactivity period and the use count of the policy, and gives the token of the memory provider.
\<close>

theorem secure_token_accepted:
  assumes "secure_CreateAccessToken lib rd ctx authCode p = (p', Inr t)"
    and "aead_ok (ts_cipher (sp_storage p))" and "hashes_ok lib"
    and "rd_rnd rd 3 (NonceSize (ts_cipher (sp_storage p))) = Inr nonce" and "length nonce = NonceSize (ts_cipher (sp_storage p))"
    and "rd_rnd rd 0 32 = Inr bs" and "bs \<noteq> []"
    and "valid_utf8 (ac_ClientID authCode)" and "list_all valid_utf8 (ac_Scopes authCode)" and "valid_utf8 (at_Scope t)"
    and "time_ok lib (at_ExpiresAt t)" and "map_of (revokedTokens p) (at_AccessToken t) = None"
    and "rd_now rd' 0 \<le> at_ExpiresAt t" and "rd_now rd' 3 \<le> at_ExpiresAt t"
    and "time_Sub (rd_now rd' 1) (rd_now rd 2) \<le> min (MaxAgePolicy (rotationPolicy p)) (min (InactivityPeriod (rotationPolicy p)) (ForceRotateAfter (rotationPolicy p)))"
    and "0 <s MaxUseCount (rotationPolicy p)"
  shows "snd (secure_ValidateAccessToken lib rd' (at_AccessToken t) p') = Inr t"
proof -
  obtain q base where c: "CreateAccessToken (rd_rnd rd 0) (rd_rnd rd 1) (rd_now rd 0) (rd_now rd 1) authCode (sp_provider p) = (q, Inr base)"
    using assms(1) by (auto simp: secure_CreateAccessToken_def split: prod.splits sum.splits)
  note base = CreateAccessToken_Inr [OF c]
  define st where "st = \<lparr>st_AccessToken = base, st_Version = 1,
      st_Fingerprint = generateFingerprint lib (rd_text rd) (rd_rnd rd 2) ctx, st_IssuedAt = rd_now rd 2, st_LastUsed = rd_now rd 2,
      st_UseCount = 0, st_RotationCount = 0, st_Signature = [],
      st_Metadata = AObj [(''clientInfo'', extractClientInfo ctx), (''grantType'', AStr ''authorization_code'')],
      st_OriginalTokenStr = at_AccessToken base\<rparr>"
  have n: "secure_new_token lib (rd_rnd rd 3) st (p\<lparr>sp_provider := q\<rparr>) = (p', Inr t)"
    using assms(1) c by (simp add: secure_CreateAccessToken_def st_def Let_def)
  have a: "at_AccessToken base \<noteq> []" using generateRandomString_props(2) [OF base(1) assms(6,7)] .
  from secure_new_token_Inr [OF n] a obtain enc where e: "EncryptToken lib (rd_rnd rd 3) base (sp_storage p) = Inr enc"
    and t: "t = base\<lparr>at_AccessToken := enc\<rparr>" and p': "map_of (accessTokens (sp_provider p')) (at_AccessToken base) = Some t"
      "sp_storage p' = sp_storage p" "rotationPolicy p' = rotationPolicy p" "revokedTokens p' = revokedTokens p" "signingKey p' = signingKey p"
      "map_of (tokenMetadata p') (at_AccessToken base) = Some (st\<lparr>st_Signature := signToken lib st p, st_AccessToken := t\<rparr>)"
    by (auto simp: st_def signToken_def)
  have "valid_utf8 TokenTypeBearer" by code_simp
  then have ok: "token_text_ok lib base"
    using base assms(8-11) t generateRandomString_props(1)
    by (simp add: token_text_ok_def DefaultAccessTokenExpirationSeconds_def)
  have d: "DecryptToken lib (rd_zero rd') (rd_now rd' 0) enc (sp_storage p') = Inr base"
    using decrypt_encrypt [OF assms(2,4,5) ok _ e] assms(13) t p'(2) by simp
  define st' where "st' = st\<lparr>st_Signature := signToken lib st p, st_AccessToken := t\<rparr>"
  have s: "st_Signature st' = signToken lib st' p'" using p'(5) a by (simp add: signToken_def st'_def st_def)
  have i: "ValidateTokenIntegrity st' = None"
    using fingerprint_nonempty [OF assms(3)] signature_nonempty [OF assms(3)] by (simp add: ValidateTokenIntegrity_def st'_def st_def)
  have r: "\<not> needsRotation (rd_now rd' 1) st' p'" "st_OriginalTokenStr st' \<noteq> []"
    using p'(3) assms(15,16) a by (simp_all add: needsRotation_def st'_def st_def)
  have "snd (secure_ValidateAccessToken lib rd' enc p') = snd (ValidateAccessToken (rd_now rd' 3) (at_AccessToken base) (sp_provider p'))"
    using assms(12) t p'(4,6) d by (intro secure_Validate_ok [OF _ _ _ r(2) i s r(1)]) (simp_all add: st'_def)
  then show ?thesis using t p'(1) assms(14) by (simp add: ValidateAccessToken_def)
qed


section \<open>Operations in sequence\<close>

datatype secure_op =
    SOpRegister random_source random_source OAuthClientInfo
  | SOpAuthorize random_source time AuthorizationRequest
  | SOpGetCode time string
  | SOpRevokeCode string
  | SOpCreate secure_reads mcp_ctx AuthorizationCode
  | SOpRefresh secure_reads mcp_ctx string
  | SOpValidate secure_reads string
  | SOpRevoke secure_reads string
  | SOpRotateKey time bytes

fun secure_exec :: "crypto \<Rightarrow> secure_op \<Rightarrow> SecureOAuthProvider \<Rightarrow> SecureOAuthProvider" where
  "secure_exec lib (SOpRegister rnd rnd' req) p = fst (secure_RegisterClient rnd rnd' req p)"
| "secure_exec lib (SOpAuthorize rnd now req) p = fst (secure_CreateAuthorizationCode rnd now req p)"
| "secure_exec lib (SOpGetCode now code) p = fst (secure_GetAuthorizationCode now code p)"
| "secure_exec lib (SOpRevokeCode code) p = secure_RevokeAuthorizationCode code p"
| "secure_exec lib (SOpCreate rd ctx code) p = fst (secure_CreateAccessToken lib rd ctx code p)"
| "secure_exec lib (SOpRefresh rd ctx tok) p = fst (secure_RefreshAccessToken lib rd ctx tok p)"
| "secure_exec lib (SOpValidate rd tok) p = fst (secure_ValidateAccessToken lib rd tok p)"
| "secure_exec lib (SOpRevoke rd tok) p = secure_RevokeToken lib rd tok p"
| "secure_exec lib (SOpRotateKey now key) p = p\<lparr>sp_storage := fst (RotateKey lib now key (sp_storage p))\<rparr>"

text \<open>No operation draws the string \<open>a\<close> as a new access token.\<close>

fun not_drawing :: "string \<Rightarrow> secure_op \<Rightarrow> bool" where
  "not_drawing a (SOpCreate rd ctx code) \<longleftrightarrow> generateRandomString (rd_rnd rd 0) 64 \<noteq> Inr a"
| "not_drawing a (SOpRefresh rd ctx tok) \<longleftrightarrow> generateRandomString (rd_rnd rd 0) 64 \<noteq> Inr a"
| "not_drawing a _ \<longleftrightarrow> True"

definition access_dead :: "string \<Rightarrow> SecureOAuthProvider \<Rightarrow> bool" where
  "access_dead a p \<longleftrightarrow> map_of (accessTokens (sp_provider p)) a = None"

lemma RefreshAccessToken_Inr:
  assumes "RefreshAccessToken now rnd now' r q = (q', Inr base)"
  shows "generateRandomString rnd 64 = Inr (at_AccessToken base)"
  using assms by (auto simp: RefreshAccessToken_def Let_def split: sum.splits option.splits if_splits)

lemma base_access_dead:
  "CreateAccessToken rnd rnd' now now' code q = (q', r) \<Longrightarrow> generateRandomString rnd 64 \<noteq> Inr a \<Longrightarrow>
     map_of (accessTokens q) a = None \<Longrightarrow> map_of (accessTokens q') a = None"
  "RefreshAccessToken t rnd t' tok q = (q', r) \<Longrightarrow> generateRandomString rnd 64 \<noteq> Inr a \<Longrightarrow>
     map_of (accessTokens q) a = None \<Longrightarrow> map_of (accessTokens q') a = None"
  "map_of (accessTokens q) a = None \<Longrightarrow> map_of (accessTokens (RevokeToken tok q)) a = None"
  "map_of (accessTokens q) a = None \<Longrightarrow> map_of (accessTokens (fst (ValidateAccessToken t tok q))) a = None"
  "map_of (accessTokens q) a = None \<Longrightarrow> map_of (accessTokens (fst (RegisterClient rnd rnd' req q))) a = None"
  "map_of (accessTokens q) a = None \<Longrightarrow> map_of (accessTokens (fst (CreateAuthorizationCode rnd t areq q))) a = None"
  "accessTokens (fst (GetAuthorizationCode t c q)) = accessTokens q"
  "accessTokens (RevokeAuthorizationCode c q) = accessTokens q"
  by (auto simp: CreateAccessToken_def RefreshAccessToken_def RevokeToken_def ValidateAccessToken_def RegisterClient_def
      CreateAuthorizationCode_def GetAuthorizationCode_def RevokeAuthorizationCode_def update_conv' delete_conv' Let_def split: sum.splits option.splits if_splits)

text \<open>How creation and refresh change the provider: they draw one access token.\<close>

definition drawn :: "crypto \<Rightarrow> secure_reads \<Rightarrow> SecureOAuthProvider \<Rightarrow> SecureOAuthProvider \<Rightarrow> bool" where
  "drawn lib rd p p' \<longleftrightarrow> p' = p \<or>
     (\<exists>q. (\<forall>a. generateRandomString (rd_rnd rd 0) 64 \<noteq> Inr a \<longrightarrow> map_of (accessTokens (sp_provider p)) a = None \<longrightarrow>
             map_of (accessTokens q) a = None) \<and>
          (p' = p\<lparr>sp_provider := q\<rparr> \<or>
           (\<exists>rnd st. generateRandomString (rd_rnd rd 0) 64 = Inr (at_AccessToken (st_AccessToken st)) \<and>
                     p' = fst (secure_new_token lib rnd st (p\<lparr>sp_provider := q\<rparr>)))))"

lemma drawnI:
  assumes "\<And>a. generateRandomString (rd_rnd rd 0) 64 \<noteq> Inr a \<Longrightarrow> map_of (accessTokens (sp_provider p)) a = None \<Longrightarrow> map_of (accessTokens q) a = None"
  shows "drawn lib rd p (p\<lparr>sp_provider := q\<rparr>)"
    and "generateRandomString (rd_rnd rd 0) 64 = Inr (at_AccessToken (st_AccessToken st)) \<Longrightarrow>
      drawn lib rd p (fst (secure_new_token lib rnd st (p\<lparr>sp_provider := q\<rparr>)))"
  using assms unfolding drawn_def by blast+

lemma create_drawn: "drawn lib rd p (fst (secure_CreateAccessToken lib rd ctx code p))"
proof -
  obtain q r where c: "CreateAccessToken (rd_rnd rd 0) (rd_rnd rd 1) (rd_now rd 0) (rd_now rd 1) code (sp_provider p) = (q, r)" by fastforce
  note drawn = drawnI [OF base_access_dead(1) [OF c]]
  show ?thesis
  proof (cases r)
    case (Inr base)
    then show ?thesis using c CreateAccessToken_Inr(1) [of "rd_rnd rd 0"] by (auto simp: secure_CreateAccessToken_def Let_def intro!: drawn(2))
  qed (use c drawn(1) in \<open>simp add: secure_CreateAccessToken_def\<close>)
qed

lemma refresh_drawn: "drawn lib rd p (fst (secure_RefreshAccessToken lib rd ctx tok p))"
proof (cases "if isEncryptedToken tok p
            then map_sum id at_RefreshToken (DecryptToken lib (rd_zero rd) (rd_now rd 0) tok (sp_storage p))
            else Inr tok")
  case (Inl e)
  then show ?thesis by (simp add: secure_RefreshAccessToken_def drawn_def)
next
  case (Inr refresh)
  obtain q r where c: "RefreshAccessToken (rd_now rd 1) (rd_rnd rd 0) (rd_now rd 2) refresh (sp_provider p) = (q, r)" by fastforce
  note drawn = drawnI [OF base_access_dead(2) [OF c]]
  have "drawn lib rd p (fst (case RefreshAccessToken (rd_now rd 1) (rd_rnd rd 0) (rd_now rd 2) refresh (sp_provider p) of
             (q, Inl err) \<Rightarrow> (p\<lparr>sp_provider := q\<rparr>, Inl err)
           | (q, Inr base) \<Rightarrow> secure_new_token lib rnd (mk base) (p\<lparr>sp_provider := q\<rparr>)))"
    if "\<And>base. st_AccessToken (mk base) = base" for rnd mk
  proof (cases r)
    case (Inr base)
    with c that have "generateRandomString (rd_rnd rd 0) 64 = Inr (at_AccessToken (st_AccessToken (mk base)))"
      by (simp add: RefreshAccessToken_Inr)
    from drawn(2) [OF _ _ this, of p] c Inr show ?thesis by simp
  qed (use c drawn(1) in simp)
  then show ?thesis unfolding secure_RefreshAccessToken_def Inr by (simp add: Let_def)
qed

lemma drawn_dead:
  assumes "drawn lib rd p p'" and "access_dead a p" and "generateRandomString (rd_rnd rd 0) 64 \<noteq> Inr a"
  shows "access_dead a p'"
proof -
  have "access_dead a (fst (secure_new_token lib rnd st p))" if "at_AccessToken (st_AccessToken st) \<noteq> a" "access_dead a p" for rnd st p
    using that by (auto simp: secure_new_token_def access_dead_def update_conv' Let_def split: sum.splits)
  with assms show ?thesis unfolding drawn_def by (auto simp: access_dead_def)
qed

lemma access_dead_exec:
  assumes "access_dead a p" and "not_drawing a op"
  shows "access_dead a (secure_exec lib op p)"
proof (cases op)
  case (SOpValidate rd tok)
  then show ?thesis
    using assms(1) base_access_dead(4) [of "sp_provider p" a]
    by (auto simp: secure_ValidateAccessToken_def use_token_def access_dead_def Let_def case_prod_unfold split: sum.split option.split)
next
  case (SOpRevoke rd tok)
  then show ?thesis using assms(1) base_access_dead(3) by (auto simp: secure_RevokeToken_def access_dead_def Let_def split: sum.split)
next
  case (SOpCreate rd ctx code)
  then show ?thesis using drawn_dead [OF create_drawn assms(1)] assms(2) by simp
next
  case (SOpRefresh rd ctx tok)
  then show ?thesis using drawn_dead [OF refresh_drawn assms(1)] assms(2) by simp
qed (use assms base_access_dead in \<open>auto simp: access_dead_def secure_delegates case_prod_unfold\<close>)

lemma access_dead_execs:
  "access_dead a p \<Longrightarrow> list_all (not_drawing a) ops \<Longrightarrow> access_dead a (fold (secure_exec lib) ops p)"
  by (induction ops arbitrary: p) (simp_all add: access_dead_exec)

section \<open>Revocation\<close>

text \<open>
  C34. Revoking an encrypted token revokes it in every encoding: once \<open>RevokeToken\<close> was called with an
  encrypted text that decrypts to a token, every text that decrypts to the same access token is
  refused for ever, however it is written and whatever operations follow, key rotations
  included, unless the same random string is drawn again.
\<close>

theorem secure_revocation:
  assumes "isEncryptedToken enc p" and "DecryptToken lib (rd_zero rd) (rd_now rd 1) enc (sp_storage p) = Inr token"
    and "list_all (not_drawing (at_AccessToken token)) ops"
    and "p' = fold (secure_exec lib) ops (secure_RevokeToken lib rd enc p)"
    and "DecryptToken lib (rd_zero rd') (rd_now rd' 0) other (sp_storage p') = Inr token'"
    and "at_AccessToken token' = at_AccessToken token"
  shows "\<exists>err. snd (secure_ValidateAccessToken lib rd' other p') = Inl err"
proof -
  have "isEncryptedToken enc (p\<lparr>revokedTokens := r\<rparr>)" for r using assms(1) by (simp add: isEncryptedToken_def Let_def cong: option.case_cong)
  then have "access_dead (at_AccessToken token) (secure_RevokeToken lib rd enc p)"
    using assms(2) by (simp add: secure_RevokeToken_def access_dead_def RevokeToken_def delete_conv' Let_def)
  from access_dead_execs [OF this assms(3)] have "access_dead (at_AccessToken token) p'" by (simp add: assms(4))
  then show ?thesis
    using assms(5,6)
    by (auto simp: secure_ValidateAccessToken_def use_token_def access_dead_def ValidateAccessToken_def Let_def split: option.split)
qed

section \<open>Use counts\<close>

definition accepts :: "crypto \<Rightarrow> string \<Rightarrow> secure_op \<Rightarrow> SecureOAuthProvider \<Rightarrow> bool" where
  "accepts lib a op p \<longleftrightarrow>
     (case op of
        SOpValidate rd tok \<Rightarrow>
          (case (DecryptToken lib (rd_zero rd) (rd_now rd 0) tok (sp_storage p), snd (secure_ValidateAccessToken lib rd tok p)) of
             (Inr token, Inr t) \<Rightarrow> at_AccessToken token = a
           | _ \<Rightarrow> False)
      | _ \<Rightarrow> False)"

fun uses :: "crypto \<Rightarrow> string \<Rightarrow> secure_op list \<Rightarrow> SecureOAuthProvider \<Rightarrow> nat" where
  "uses lib a [] p = 0"
| "uses lib a (op # ops) p = (if accepts lib a op p then 1 else 0) + uses lib a ops (secure_exec lib op p)"

text \<open>One step of the use count of a token: unchanged, or one more while it was below the limit.\<close>

definition use_step :: "SecureOAuthProvider \<Rightarrow> SecureToken \<Rightarrow> SecureToken \<Rightarrow> bool" where
  "use_step p st st' \<longleftrightarrow> st_UseCount st' = st_UseCount st \<or>
     (st_UseCount st' = st_UseCount st + 1 \<and> st_UseCount st <s MaxUseCount (rotationPolicy p))"

lemma use_token_counts:
  assumes "use_token lib rd a st p = (p', r)" and "map_of (tokenMetadata p) b = Some st'" and "b = a \<Longrightarrow> st_UseCount st' = st_UseCount st"
  shows "\<exists>st''. map_of (tokenMetadata p') b = Some st'' \<and> use_step p st' st'' \<and>
    (b = a \<and> \<not> isl r \<longrightarrow> st_UseCount st'' = st_UseCount st' + 1 \<and> st_UseCount st' <s MaxUseCount (rotationPolicy p))"
  using assms
  by (auto simp: use_token_def use_step_def needsRotation_def update_conv' Let_def split: if_splits prod.splits)

lemma validate_counts:
  assumes "map_of (tokenMetadata p) b = Some st"
  shows "\<exists>st'. map_of (tokenMetadata (fst (secure_ValidateAccessToken lib rd tok p))) b = Some st' \<and> use_step p st st' \<and>
    (accepts lib b (SOpValidate rd tok) p \<longrightarrow>
       st_UseCount st' = st_UseCount st + 1 \<and> st_UseCount st <s MaxUseCount (rotationPolicy p))"
proof (cases "\<exists>token m. map_of (revokedTokens p) tok = None \<and> DecryptToken lib (rd_zero rd) (rd_now rd 0) tok (sp_storage p) = Inr token \<and>
    map_of (tokenMetadata p) (at_AccessToken token) = Some m")
  case False
  then show ?thesis
    using assms by (auto simp: secure_ValidateAccessToken_def use_step_def accepts_def split: sum.split option.split)
next
  case True
  then obtain token m where m: "map_of (revokedTokens p) tok = None"
    "DecryptToken lib (rd_zero rd) (rd_now rd 0) tok (sp_storage p) = Inr token"
    "map_of (tokenMetadata p) (at_AccessToken token) = Some m" by blast
  define m' where "m' = (if st_OriginalTokenStr m = [] then m\<lparr>st_OriginalTokenStr := at_AccessToken token\<rparr> else m)"
  let ?p = "p\<lparr>tokenMetadata := AList.update (at_AccessToken token) m' (tokenMetadata p)\<rparr>"
  obtain p' r where u: "use_token lib rd (at_AccessToken token) m' ?p = (p', r)" by fastforce
  have v: "secure_ValidateAccessToken lib rd tok p = (p', r)"
    using m u by (simp add: secure_ValidateAccessToken_def m'_def Let_def)
  define st' where "st' = (if b = at_AccessToken token then m' else st)"
  have "map_of (tokenMetadata ?p) b = Some st'" using assms by (simp add: update_conv' st'_def)
  moreover have c: "st_UseCount st' = st_UseCount st" using assms m(3) by (auto simp: st'_def m'_def)
  ultimately show ?thesis
    using use_token_counts [OF u, of b st'] m(2)
    by (auto simp: v st'_def use_step_def accepts_def split: sum.splits)
qed

lemma new_token_keeps:
  "at_AccessToken (st_AccessToken st) \<noteq> a \<Longrightarrow>
   map_of (tokenMetadata (fst (secure_new_token lib rnd st p))) a = map_of (tokenMetadata p) a \<and>
   rotationPolicy (fst (secure_new_token lib rnd st p)) = rotationPolicy p"
  by (auto simp: secure_new_token_def update_conv' Let_def split: sum.split)

lemma drawn_keeps:
  assumes "drawn lib rd p p'" and "generateRandomString (rd_rnd rd 0) 64 \<noteq> Inr a"
  shows "map_of (tokenMetadata p') a = map_of (tokenMetadata p) a \<and> rotationPolicy p' = rotationPolicy p"
  using assms unfolding drawn_def by (auto simp: new_token_keeps)

lemma use_token_policy: "rotationPolicy (fst (use_token lib rd a st p)) = rotationPolicy p"
  by (simp add: use_token_def Let_def split: prod.split)

lemma exec_counts:
  assumes "map_of (tokenMetadata p) a = Some st" and "not_drawing a op"
  shows "rotationPolicy (secure_exec lib op p) = rotationPolicy p \<and>
    (\<exists>st'. map_of (tokenMetadata (secure_exec lib op p)) a = Some st' \<and> use_step p st st' \<and>
      (accepts lib a op p \<longrightarrow> st_UseCount st' = st_UseCount st + 1 \<and> st_UseCount st <s MaxUseCount (rotationPolicy p)))"
proof (cases op)
  case (SOpValidate rd tok)
  have "rotationPolicy (fst (secure_ValidateAccessToken lib rd tok p)) = rotationPolicy p"
    by (simp add: secure_ValidateAccessToken_def use_token_policy Let_def split: sum.split option.split)
  with SOpValidate validate_counts [OF assms(1)] show ?thesis by simp
next
  case (SOpCreate rd ctx code)
  then show ?thesis using drawn_keeps [OF create_drawn] assms by (simp add: accepts_def use_step_def)
next
  case (SOpRefresh rd ctx tok)
  then show ?thesis using drawn_keeps [OF refresh_drawn] assms by (simp add: accepts_def use_step_def)
next
  case (SOpRevoke rd tok)
  then show ?thesis using assms by (simp add: accepts_def use_step_def secure_RevokeToken_def Let_def split: sum.split)
qed (use assms in \<open>simp_all add: accepts_def use_step_def secure_delegates case_prod_unfold\<close>)

lemma sint_succ: "x <s y \<Longrightarrow> sint (x + 1) = sint x + 1" for x y :: int64
  using sint_lt [of y] sint_ge [of x]
  by (simp add: word_sless_alt sint_word_ariths(1) signed_take_bit_int_eq_self)


text \<open>The rotation count of a refreshed token is read under the refresh token, where no metadata is ever
  stored: it is zero however often a token was rotated.\<close>

theorem rotation_count_zero:
  assumes "map_of (tokenMetadata p) r = None" and "\<not> isEncryptedToken r p"
    and "secure_RefreshAccessToken lib rd ctx r p = (p', Inr t)"
  shows "\<exists>a st. map_of (tokenMetadata p') a = Some st \<and> st_RotationCount st = 0 \<and> generateRandomString (rd_rnd rd 0) 64 = Inr a"
  using assms RefreshAccessToken_Inr
  by (auto simp: secure_RefreshAccessToken_def secure_new_token_def update_conv' Let_def split: prod.splits sum.splits)

section \<open>Witnesses\<close>

definition demo_aead :: aead where
  "demo_aead = \<lparr>NonceSize = 1, Seal = (\<lambda>nonce p. replicate 100 CHR ''#'' @ p), Open = (\<lambda>nonce c. Some (drop 100 c))\<rparr>"

definition demo_expiry :: time where
  "demo_expiry = DefaultAccessTokenExpirationSeconds * second"

definition demo_crypto :: crypto where
  "demo_crypto = \<lparr>new_GCM = (\<lambda>k. Inr demo_aead), sha256 = (\<lambda>x. replicate 32 CHR ''h''), hmac256 = (\<lambda>k x. replicate 32 CHR ''m''),
     argon2_IDKey = (\<lambda>k s. k), pbkdf2_Key = (\<lambda>k s. k), time_text = (\<lambda>t. ''t''), parse_time = (\<lambda>s. Some demo_expiry)\<rparr>"

definition demo_reads :: secure_reads where
  "demo_reads = \<lparr>rd_now = (\<lambda>i. 0), rd_rnd = (\<lambda>i n. Inr (replicate n CHR ''r'')), rd_text = ''now'', rd_zero = 0\<rparr>"

definition demo_secure :: SecureOAuthProvider where
  "demo_secure = \<lparr>sp_provider = NewMemoryOAuthProvider, sp_storage = \<lparr>ts_cipher = demo_aead, rotationTime = 0\<rparr>,
     rotationPolicy = \<lparr>MaxAgePolicy = 10, MaxUseCount = 2, InactivityPeriod = 10, ForceRotateAfter = 10\<rparr>,
     revokedTokens = [], tokenMetadata = [], signingKey = ''k''\<rparr>"

definition demo_authcode :: AuthorizationCode where
  "demo_authcode = \<lparr>ac_Code = ''c'', ac_ClientID = ''app'', ac_RedirectURI = [], ac_Scopes = [''read''],
     ac_CodeChallenge = [], ac_ExpiresAt = 0, ac_RedirectURIExplicit = False\<rparr>"

definition demo_info :: mcp_ctx where
  "demo_info = \<lparr>ctx_authHeader = None, ctx_auth = None, ctx_requestID = None, ctx_transport = None, ctx_deadline = None,
     ctx_transmitted = None, ctx_userAgent = Some ''ua'', ctx_remoteAddr = None, ctx_clientID = None\<rparr>"

lemma demo_lib_ok: "aead_ok demo_aead" "hashes_ok demo_crypto" "time_ok demo_crypto demo_expiry"
proof -
  have "valid_utf8 ''t''" by code_simp
  then show "aead_ok demo_aead" "hashes_ok demo_crypto" "time_ok demo_crypto demo_expiry"
    by (simp_all add: aead_ok_def demo_aead_def hashes_ok_def demo_crypto_def time_ok_def)
qed

lemma demo_created:
  obtains p' t where "secure_CreateAccessToken demo_crypto demo_reads demo_info demo_authcode demo_secure = (p', Inr t)"
    and "at_Scope t = ''read''" and "at_ExpiresAt t = demo_expiry"
proof -
  have "\<exists>p' t. secure_CreateAccessToken demo_crypto demo_reads demo_info demo_authcode demo_secure = (p', Inr t) \<and>
      at_Scope t = ''read'' \<and> at_ExpiresAt t = demo_expiry"
    by (simp add: secure_CreateAccessToken_def CreateAccessToken_def generateRandomString_def demo_reads_def demo_authcode_def
        secure_new_token_def EncryptToken_def demo_expiry_def Let_def)
  then show thesis using that by blast
qed

theorem secure_token_accepted_witness:
  "\<exists>p' t. secure_CreateAccessToken demo_crypto demo_reads demo_info demo_authcode demo_secure = (p', Inr t) \<and>
     snd (secure_ValidateAccessToken demo_crypto demo_reads (at_AccessToken t) p') = Inr t"
proof -
  obtain p' t where c: "secure_CreateAccessToken demo_crypto demo_reads demo_info demo_authcode demo_secure = (p', Inr t)"
    and t: "at_Scope t = ''read''" "at_ExpiresAt t = demo_expiry" by (rule demo_created)
  have u: "valid_utf8 ''app''" "valid_utf8 ''read''" by code_simp+
  have "snd (secure_ValidateAccessToken demo_crypto demo_reads (at_AccessToken t) p') = Inr t"
    by (rule secure_token_accepted [OF c, of "''r''" "replicate 32 CHR ''r''"])
       (use u demo_lib_ok t in \<open>simp_all add: demo_secure_def demo_reads_def demo_authcode_def demo_aead_def time_Sub_def
          demo_expiry_def DefaultAccessTokenExpirationSeconds_def word_sless_alt numeral_eq_Suc\<close>)
  with c show ?thesis by blast
qed

definition demo_token_value :: AccessToken where
  "demo_token_value = \<lparr>at_AccessToken = ''abc'', at_TokenType = TokenTypeBearer, at_ExpiresIn = 3600, at_RefreshToken = ''r'', at_Scope = [],
     at_ClientID = ''app'', at_Scopes = [], at_ExpiresAt = demo_expiry\<rparr>"

definition demo_text :: string where
  "demo_text = URLEncoding_EncodeToString (''r'' @ Seal demo_aead ''r'' (marshal_any (enc_AccessToken demo_crypto demo_token_value)))"

lemma demo_decrypts:
  "DecryptToken demo_crypto 0 0 demo_text (sp_storage demo_secure) = Inr demo_token_value"
  "isEncryptedToken demo_text demo_secure"
proof -
  have "valid_utf8 ''abc''" "valid_utf8 TokenTypeBearer" "valid_utf8 ''r''" "valid_utf8 []" "valid_utf8 ''app''" by code_simp+
  then have ok: "token_text_ok demo_crypto demo_token_value"
    using demo_lib_ok(3) by (simp add: token_text_ok_def demo_token_value_def)
  have "EncryptToken demo_crypto (\<lambda>n. Inr ''r'') demo_token_value (sp_storage demo_secure) = Inr demo_text"
    by (simp add: EncryptToken_def demo_text_def demo_secure_def)
  from decrypt_encrypt [OF _ _ _ ok _ this, of "''r''" 0 0] show "DecryptToken demo_crypto 0 0 demo_text (sp_storage demo_secure) = Inr demo_token_value"
    using demo_lib_ok(1)
    by (simp add: demo_secure_def demo_aead_def demo_token_value_def demo_expiry_def DefaultAccessTokenExpirationSeconds_def)
  show "isEncryptedToken demo_text demo_secure"
    by (simp add: isEncryptedToken_def demo_text_def URLEncoding_roundtrip demo_secure_def demo_aead_def Let_def)
qed

theorem secure_revocation_witness:
  "\<exists>err. snd (secure_ValidateAccessToken demo_crypto demo_reads demo_text (secure_RevokeToken demo_crypto demo_reads demo_text demo_secure)) = Inl err"
proof -
  have d: "DecryptToken demo_crypto (rd_zero demo_reads) (rd_now demo_reads i) demo_text (sp_storage demo_secure) = Inr demo_token_value" for i
    using demo_decrypts(1) by (simp add: demo_reads_def)
  have "sp_storage (secure_RevokeToken demo_crypto demo_reads demo_text demo_secure) = sp_storage demo_secure"
    by (simp add: secure_RevokeToken_def Let_def split: sum.split)
  with d secure_revocation [OF demo_decrypts(2) d, of "[]" _ demo_reads demo_text demo_token_value] show ?thesis by simp
qed


end
