(* ===== verification/Server_Types.thy ===== *)
theory Server_Types
  imports Server_Props
begin

text \<open>
  A typing judgement for the answers of the server. \<open>src/server.go\<close> keeps its handlers in one map
  from method names to functions that return an untyped result; the judgement \<open>answer_type\<close>
  says which result belongs to which method and what it may hold, and the theorem shows that
  \<open>handleRequest\<close> never answers outside it and keeps the registries well formed.
\<close>

section \<open>Pages\<close>

text \<open>A page of a registry: at most \<open>defaultPageSize\<close> registered items in strictly ascending order of
  their names, and a cursor that is empty or names a registered item.\<close>

definition page_type :: "'a list \<Rightarrow> ('a \<Rightarrow> string) \<Rightarrow> 'a list \<Rightarrow> string \<Rightarrow> bool" where
  "page_type items key page nxt \<longleftrightarrow>
     set page \<subseteq> set items \<and> sorted_wrt (<) (map key page) \<and> length page \<le> defaultPageSize \<and>
     nxt \<in> insert [] (encodeCursor ` key ` set items)"

lemma page_typeI:
  assumes "distinct (map key items)" and "paginate items cursor key = (page, nxt)"
  shows "page_type items key page nxt"
proof -
  let ?xs = "sort_key key items"
  have "mset (map key ?xs) = mset (map key items)" by simp
  with assms(1) have "distinct (map key ?xs)" by (metis mset_eq_imp_distinct_iff)
  then have s: "sorted_wrt (<) (map key ?xs)" by (simp add: strict_sorted_iff)
  have "sorted_wrt (<) (map key (items_after key after items))" for after
    using s unfolding items_after_def sorted_wrt_map by (rule sorted_wrt_filter)
  with s have o: "sorted_wrt (<) (map key (fst (paginate items cursor key)))"
    by (cases "cursor = []"; cases "decodeCursor cursor") (simp_all add: paginate_cases take_map [symmetric] sorted_wrt_take)
  have m: "set (fst (paginate items cursor key)) \<subseteq> set items"
    by (cases "cursor = []"; cases "decodeCursor cursor")
       (auto simp: paginate_cases items_after_def dest!: in_set_takeD)
  show ?thesis
    using o m paginate_page_size [of items cursor key] paginate_next [of items cursor key] assms(2)
    by (simp add: page_type_def)
qed

section \<open>Answers\<close>

inductive answer_type :: "Server \<Rightarrow> string \<Rightarrow> bytes \<Rightarrow> result \<Rightarrow> bool" where
  ty_initialize: "answer_type s MethodInitialize ps
     (RInitialize LATEST_PROTOCOL_VERSION (srv_name s) (srv_version s) (capabilities s) (instructions s))"
| ty_empty: "m \<in> {MethodPing, MethodLoggingSetLevel, MethodResourcesSubscribe, MethodResourcesUnsubscribe} \<Longrightarrow>
     answer_type s m ps REmpty"
| ty_tools: "page_type (tools_of s) tool_Name page nxt \<Longrightarrow> answer_type s MethodToolsList ps (RTools page nxt)"
| ty_prompts: "page_type (prompts_of s) prompt_Name page nxt \<Longrightarrow> answer_type s MethodPromptsList ps (RPrompts page nxt)"
| ty_resources: "page_type (resources_of s) res_URI page nxt \<Longrightarrow> answer_type s MethodResourcesList ps (RResources page nxt)"
| ty_templates: "page_type (templates_of s) tmpl_Template page nxt \<Longrightarrow>
     answer_type s MethodResourcesTemplatesList ps (RTemplates page nxt)"
| ty_call: "UnmarshalAndValidateCallTool (Some (validator s)) ps = Inr p \<Longrightarrow> map_of (tools s) (call_Name p) = Some (tool, h) \<Longrightarrow>
     tool_Name tool = call_Name p \<Longrightarrow> h p = Returns j \<Longrightarrow> answer_type s MethodToolsCall ps (RCall j)"
| ty_prompt: "UnmarshalAndValidateGetPrompt (Some (validator s)) ps = Inr q \<Longrightarrow> map_of (prompts s) (get_Name q) = Some (prompt, g) \<Longrightarrow>
     prompt_Name prompt = get_Name q \<Longrightarrow> g q = Returns j \<Longrightarrow> answer_type s MethodPromptsGet ps (RPrompt j)"
| ty_read: "UnmarshalAndValidateReadResource (Some (validator s)) ps = Inr uri \<Longrightarrow> map_of (resources s) uri = Some (res, f) \<Longrightarrow>
     res_URI res = uri \<Longrightarrow> f uri = Returns js \<Longrightarrow> answer_type s MethodResourcesRead ps (RContents js)"
| ty_read_template: "UnmarshalAndValidateReadResource (Some (validator s)) ps = Inr uri \<Longrightarrow> map_of (resources s) uri = None \<Longrightarrow>
     map_of (resourceTmpls s) uri = Some (tmpl, f) \<Longrightarrow> f uri = Returns js \<Longrightarrow> answer_type s MethodResourcesRead ps (RContents js)"
| ty_complete: "completion s = Some c \<Longrightarrow> json_Unmarshal dec_CompleteRequest zero_CompleteRequest ps = Inr r \<Longrightarrow>
     c r = Returns j \<Longrightarrow> answer_type s MethodCompletionComplete ps (RComplete j)"

inductive_cases answer_type_EmptyE: "answer_type s m ps REmpty"
inductive_cases answer_type_CallE: "answer_type s m ps (RCall j)"
inductive_cases answer_type_ToolsE: "answer_type s m ps (RTools page nxt)"

lemma map_outcome_Returns: "map_outcome c out = Returns r \<longleftrightarrow> (\<exists>j. out = Returns j \<and> r = c j)"
  by (cases out) auto

lemma keyed_lookup:
  assumes "registries_ok s"
  shows "map_of (tools s) n = Some (t, h) \<Longrightarrow> tool_Name t = n"
    and "map_of (prompts s) n = Some (p, g) \<Longrightarrow> prompt_Name p = n"
    and "map_of (resources s) n = Some (r, f) \<Longrightarrow> res_URI r = n"
  using assms by (fastforce simp: registries_ok_def keyed_defs list_all_iff dest!: map_of_SomeD)+

text \<open>The search through the templates finds the template that is registered under the URI.\<close>

lemma find_template:
  assumes "registries_ok s" and "List.find (\<lambda>(k, tmpl, h). tmpl_Template tmpl = uri) (resourceTmpls s) = Some (k, tmpl, f)"
  shows "map_of (resourceTmpls s) uri = Some (tmpl, f)"
proof -
  have "(k, tmpl, f) \<in> set (resourceTmpls s)" "tmpl_Template tmpl = uri"
    using assms(2) by (auto simp: find_Some_iff in_set_conv_nth)
  with assms(1) show ?thesis by (auto simp: registries_ok_def keyed_defs list_all_iff)
qed

lemma handler_typed:
  assumes "registries_ok s" and "(m, h) \<in> set (handlers swap)" and "snd (h ps s) = Returns r"
  shows "answer_type s m (raw ps) r"
proof -
  note d = listed_distinct [OF assms(1)]
  have lists:
    "snd (handle_tools_list ps s) = Returns r \<Longrightarrow> answer_type s MethodToolsList (raw ps) r"
    "snd (handle_prompts_list ps s) = Returns r \<Longrightarrow> answer_type s MethodPromptsList (raw ps) r"
    "snd (handle_resources_list ps s) = Returns r \<Longrightarrow> answer_type s MethodResourcesList (raw ps) r"
    "snd (handle_templates_list ps s) = Returns r \<Longrightarrow> answer_type s MethodResourcesTemplatesList (raw ps) r"
    using d by (auto simp: handler_defs split: sum.splits prod.splits intro!: answer_type.intros page_typeI)
  have calls:
    "snd (handle_tools_call ps s) = Returns r \<Longrightarrow> answer_type s MethodToolsCall (raw ps) r"
    "snd (handle_prompts_get ps s) = Returns r \<Longrightarrow> answer_type s MethodPromptsGet (raw ps) r"
    "snd (handle_complete ps s) = Returns r \<Longrightarrow> answer_type s MethodCompletionComplete (raw ps) r"
    using keyed_lookup [OF assms(1)]
    by (auto simp: handler_defs map_outcome_Returns split: sum.splits option.splits prod.splits if_splits intro: answer_type.intros)
  have "snd (handle_resources_read ps s) = Returns r \<Longrightarrow> answer_type s MethodResourcesRead (raw ps) r"
    using keyed_lookup(3) [OF assms(1)] find_template [OF assms(1)]
    by (auto simp: handler_defs map_outcome_Returns split: sum.splits option.splits prod.splits intro: answer_type.intros)
  moreover have
    "snd (handle_initialize swap ps s) = Returns r \<Longrightarrow> answer_type s MethodInitialize (raw ps) r"
    "snd (handle_ping ps s) = Returns r \<Longrightarrow> answer_type s MethodPing (raw ps) r"
    "snd (handle_setLevel ps s) = Returns r \<Longrightarrow> answer_type s MethodLoggingSetLevel (raw ps) r"
    "snd (handle_subscribe ps s) = Returns r \<Longrightarrow> answer_type s MethodResourcesSubscribe (raw ps) r"
    "snd (handle_unsubscribe ps s) = Returns r \<Longrightarrow> answer_type s MethodResourcesUnsubscribe (raw ps) r"
    by (auto simp: handler_defs split: sum.splits option.splits if_splits intro: answer_type.intros)
  ultimately show ?thesis using assms(2,3) lists calls unfolding handlers_def by (simp, elim disjE) simp_all
qed

text \<open>
  C8. Every answer has the type of its method. On every reachable server, when \<open>handleRequest\<close>
  answers a request with a result, the method is one of the thirteen and the result is the one
  the protocol gives to it: \<open>initialize\<close> reports the protocol version and the server's own name,
  version, capabilities and instructions; a list method gives a page of registered items in strictly
  ascending order with a usable cursor; \<open>tools/call\<close>, \<open>prompts/get\<close> and \<open>resources/read\<close> give what the
  handler registered under exactly the requested name returned for the decoded parameters. The
  state after the request is again well formed.
\<close>

theorem answers_well_typed:
  assumes "reachable s" and "handleRequest swap cancel req s = (s', Inr r)"
  shows "answer_type s (req_method req) (raw (req_params req)) r \<and> registries_ok s'"
proof -
  have ok: "registries_ok s" by (rule reachable_registries_ok) fact
  obtain h where h: "map_of (handlers swap) (req_method req) = Some h" "snd (h (req_params req) s) = Returns r"
    using assms(2) by (auto simp: handleRequest_def split: option.splits prod.splits outcome.splits)
  have "framed s s'" using handleRequest_frame [of s swap cancel req] assms(2) by simp
  then have "registries_ok s'" using ok by (blast intro: registries_ok_same same_registries_framed)
  with handler_typed [OF ok map_of_SomeD [OF h(1)] h(2)] show ?thesis by blast
qed

theorem answers_well_typed_witness:
  "\<exists>s'. handleRequest False None (request MethodToolsCall (Some (one_string_object ''name'' ''echo''))) echo_server
      = (s', Inr (RCall (JStr ''echo''))) \<and>
    answer_type echo_server MethodToolsCall (one_string_object ''name'' ''echo'') (RCall (JStr ''echo''))"
proof -
  have u: "UnmarshalAndValidateCallTool (Some (validator echo_server)) (one_string_object ''name'' ''echo'') = Inr echo_call"
    by (simp add: unmarshal_echo)
  have v: "ValidateRequest (validator echo_server) MethodToolsCall (one_string_object ''name'' ''echo'') = None"
    using u by (simp add: UnmarshalAndValidateCallTool_def unmarshal_and_validate_def validate_opt_def split: option.splits)
  have "handleRequest False None (request MethodToolsCall (Some (one_string_object ''name'' ''echo''))) echo_server =
      (echo_server, Inr (RCall (JStr ''echo'')))"
    using u v by (subst handleRequest_request [where h = handle_tools_call])
      (simp_all add: handlers_lookup handle_tools_call_def raw_def reported_def echo_def echo_call_def)
  with answers_well_typed [OF reachable_echo this] show ?thesis by (simp add: raw_def)
qed

end
