(* ===== verification/WebSocket.thy ===== *)
theory WebSocket
  imports Errors
begin

text \<open>
  The WebSocket transport (\<open>src/transport_websocket.go\<close>): a byte stream over the messages of a
  WebSocket connection. The connection is a library: what its \<open>ReadMessage\<close> returns, one after
  the other, is the list \<open>ws_in\<close>, the messages given to \<open>WriteMessage\<close> are \<open>ws_out\<close>, and
  which errors it calls close errors is an argument. \<open>Read\<close> holds the mutex of the wrapper while it
  waits for a message, so it is split in two at that point.
\<close>

datatype ws_event = WsMessage int bytes | WsError mcp_error

record WebSocketConn =
  ws_in :: "ws_event list"
  ws_out :: "bytes list"
  readBuffer :: bytes
  readPos :: nat
  ws_closed :: bool
  ws_mu :: bool

definition TextMessage :: int where "TextMessage = 1"

definition ws_Dial :: "mcp_error + ws_event list \<Rightarrow> mcp_error + WebSocketConn" where
  "ws_Dial dialled =
     (case dialled of
        Inl err \<Rightarrow> Inl err
      | Inr evs \<Rightarrow> Inr \<lparr>ws_in = evs, ws_out = [], readBuffer = [], readPos = 0, ws_closed = False, ws_mu = False\<rparr>)"

definition wrapWebSocketTransportClosed :: "(mcp_error \<Rightarrow> bool) \<Rightarrow> string \<Rightarrow> mcp_error option \<Rightarrow> mcp_error option" where
  "wrapWebSocketTransportClosed is_close op err =
     (case err of
        Some e \<Rightarrow> if is_close e then Some (transportClosedError op) else wrapTransportClosed op err
      | None \<Rightarrow> wrapTransportClosed op err)"

text \<open>Entering \<open>Read\<close> with room for \<open>n\<close> bytes: buffered bytes are returned at once, otherwise the call
  waits in \<open>ReadMessage\<close> and keeps the mutex.\<close>

definition ws_read_enter :: "nat \<Rightarrow> WebSocketConn \<Rightarrow> WebSocketConn \<times> bytes option" where
  "ws_read_enter n c =
     (if readPos c < length (readBuffer c)
      then let out = take n (drop (readPos c) (readBuffer c));
               pos = readPos c + length out
           in (if length (readBuffer c) \<le> pos then c\<lparr>readBuffer := [], readPos := 0\<rparr> else c\<lparr>readPos := pos\<rparr>, Some out)
      else (c\<lparr>ws_mu := True\<rparr>, None))"

definition ws_read_return ::
  "(mcp_error \<Rightarrow> bool) \<Rightarrow> nat \<Rightarrow> ws_event \<Rightarrow> WebSocketConn \<Rightarrow> WebSocketConn \<times> (mcp_error option + bytes)" where
  "ws_read_return is_close n ev c =
     (let c = c\<lparr>ws_mu := False\<rparr>
      in case ev of
           WsError e \<Rightarrow> (c, Inl (wrapWebSocketTransportClosed is_close ''websocket read'' (Some e)))
         | WsMessage messageType message \<Rightarrow>
             if messageType \<noteq> TextMessage
             then (c, Inl (Some (PlainErr (''websocket: unexpected message type '' @ show_int messageType))))
             else let out = take n message
                  in (if length out < length message
                      then c\<lparr>readBuffer := drop (length out) message, readPos := 0\<rparr> else c, Inr out))"

text \<open>A whole call; \<open>None\<close> while nothing arrives.\<close>

definition ws_Read :: "(mcp_error \<Rightarrow> bool) \<Rightarrow> nat \<Rightarrow> WebSocketConn \<Rightarrow> (WebSocketConn \<times> (mcp_error option + bytes)) option" where
  "ws_Read is_close n c =
     (case ws_read_enter n c of
        (c, Some out) \<Rightarrow> Some (c, Inr out)
      | (c, None) \<Rightarrow>
          (case ws_in c of
             [] \<Rightarrow> None
           | ev # evs \<Rightarrow> Some (ws_read_return is_close n ev (c\<lparr>ws_in := evs\<rparr>))))"

definition ws_Write :: "(mcp_error \<Rightarrow> bool) \<Rightarrow> mcp_error option \<Rightarrow> bytes \<Rightarrow> WebSocketConn \<Rightarrow> WebSocketConn \<times> (mcp_error option + nat)" where
  "ws_Write is_close send_err p c =
     (if ws_closed c then (c, Inl (Some (transportClosedError ''websocket write'')))
      else case send_err of
             Some e \<Rightarrow> (c, Inl (wrapWebSocketTransportClosed is_close ''websocket write'' (Some e)))
           | None \<Rightarrow> (c\<lparr>ws_out := ws_out c @ [p]\<rparr>, Inr (length p)))"

definition ws_Close :: "(mcp_error \<Rightarrow> bool) \<Rightarrow> mcp_error option \<Rightarrow> WebSocketConn \<Rightarrow> WebSocketConn \<times> mcp_error option" where
  "ws_Close is_close close_err c =
     (c\<lparr>ws_closed := True\<rparr>, wrapWebSocketTransportClosed is_close ''websocket close'' close_err)"

section \<open>The stream of bytes\<close>

fun event_text :: "ws_event \<Rightarrow> bytes" where
  "event_text (WsMessage ty m) = (if ty = TextMessage then m else [])"
| "event_text (WsError e) = []"

definition unread :: "WebSocketConn \<Rightarrow> bytes" where
  "unread c = drop (readPos c) (readBuffer c) @ concat (map event_text (ws_in c))"

definition read_text :: "mcp_error option + bytes \<Rightarrow> bytes" where
  "read_text r = (case r of Inr bs \<Rightarrow> bs | Inl e \<Rightarrow> [])"

text \<open>A wrapper keeps a buffer only while it holds unread bytes.\<close>

definition buffer_ok :: "WebSocketConn \<Rightarrow> bool" where
  "buffer_ok c \<longleftrightarrow> readPos c < length (readBuffer c) \<or> readBuffer c = []"

lemma take_drop_unread: "pos < length buf \<Longrightarrow> take n (drop pos buf) @ drop (pos + length (take n (drop pos buf))) buf = drop pos buf"
  by (cases "n \<le> length buf - pos") (simp_all add: drop_drop [symmetric] add.commute del: drop_drop)

lemma ws_Read_text:
  assumes "ws_Read is_close n c = Some (c', r)" and "buffer_ok c"
  shows "read_text r @ unread c' = unread c \<and> buffer_ok c' \<and> ws_out c' = ws_out c \<and> ws_closed c' = ws_closed c \<and> ws_mu c' = (ws_mu c \<and> readPos c < length (readBuffer c))"
proof (cases "readPos c < length (readBuffer c)")
  case True
  then show ?thesis
    using assms(1) take_drop_unread [OF True, of n]
    by (auto simp: ws_Read_def ws_read_enter_def unread_def read_text_def buffer_ok_def Let_def split: if_splits)
next
  case False
  then show ?thesis
    using assms
    by (cases "ws_in c"; cases "hd (ws_in c)")
       (auto simp: ws_Read_def ws_read_enter_def ws_read_return_def unread_def read_text_def buffer_ok_def Let_def split: if_splits)
qed

text \<open>Calls of one connection in any order; the calls of \<open>Read\<close> that would wait are left out.\<close>

datatype ws_op = WsRead nat | WsWrite "mcp_error option" bytes | WsClose "mcp_error option"

fun ws_run :: "(mcp_error \<Rightarrow> bool) \<Rightarrow> ws_op list \<Rightarrow> WebSocketConn \<Rightarrow> bytes \<times> WebSocketConn" where
  "ws_run is_close [] c = ([], c)"
| "ws_run is_close (WsRead n # ops) c =
     (case ws_Read is_close n c of
        None \<Rightarrow> ws_run is_close ops c
      | Some (c, r) \<Rightarrow> apfst (\<lambda>bs. read_text r @ bs) (ws_run is_close ops c))"
| "ws_run is_close (WsWrite e p # ops) c = ws_run is_close ops (fst (ws_Write is_close e p c))"
| "ws_run is_close (WsClose e # ops) c = ws_run is_close ops (fst (ws_Close is_close e c))"

lemma ws_write_close:
  "unread (fst (ws_Write is_close e p c)) = unread c" "buffer_ok (fst (ws_Write is_close e p c)) = buffer_ok c"
  "unread (fst (ws_Close is_close e c)) = unread c" "buffer_ok (fst (ws_Close is_close e c)) = buffer_ok c"
  by (simp_all add: ws_Write_def ws_Close_def unread_def buffer_ok_def split: option.split)

lemma ws_run_text:
  "buffer_ok c \<Longrightarrow> fst (ws_run is_close ops c) @ unread (snd (ws_run is_close ops c)) = unread c \<and> buffer_ok (snd (ws_run is_close ops c))"
proof (induction is_close ops c rule: ws_run.induct)
  case (2 is_close n ops c)
  show ?case
  proof (cases "ws_Read is_close n c")
    case None
    with 2 show ?thesis by simp
  next
    case (Some x)
    obtain c' r where x: "x = (c', r)" by fastforce
    from ws_Read_text [OF Some [unfolded x] 2(3)] 2(2) [OF Some x [symmetric]] show ?thesis by (simp add: Some x)
  qed
qed (simp_all add: ws_write_close)

text \<open>Enough reads with room for at least one byte take in everything: each one consumes a byte or an event.\<close>

definition ws_work :: "WebSocketConn \<Rightarrow> nat" where
  "ws_work c = length (unread c) + length (ws_in c)"

lemma ws_Read_work:
  assumes "0 < n" and "buffer_ok c" and "0 < ws_work c"
  shows "\<exists>c' r. ws_Read is_close n c = Some (c', r) \<and> ws_work c' < ws_work c \<and> buffer_ok c'"
proof (cases "readPos c < length (readBuffer c)")
  case True
  then obtain c' r where r: "ws_Read is_close n c = Some (c', Inr r)" "r = take n (drop (readPos c) (readBuffer c))" "ws_in c' = ws_in c"
    by (auto simp: ws_Read_def ws_read_enter_def Let_def)
  from ws_Read_text [OF r(1) assms(2)] have "r @ unread c' = unread c" "buffer_ok c'" by (simp_all add: read_text_def)
  moreover have "0 < length r" using True assms(1) r(2) by simp
  moreover have "length (unread c) = length r + length (unread c')" using calculation(1) by (metis length_append)
  ultimately show ?thesis using r by (auto simp: ws_work_def)
next
  case False
  with assms(2,3) obtain ev evs where e: "ws_in c = ev # evs" by (cases "ws_in c") (auto simp: ws_work_def unread_def buffer_ok_def)
  define x where "x = ws_read_return is_close n ev (c\<lparr>ws_mu := True, ws_in := evs\<rparr>)"
  have "ws_in (fst x) = evs" by (simp add: x_def ws_read_return_def Let_def split: ws_event.split)
  moreover have "ws_Read is_close n c = Some x" using False e by (simp add: ws_Read_def ws_read_enter_def x_def)
  ultimately obtain c' r where r: "ws_Read is_close n c = Some (c', r)" "ws_in c' = evs" by (cases x) simp
  from ws_Read_text [OF r(1) assms(2)] have u: "read_text r @ unread c' = unread c" "buffer_ok c'" by auto
  have "length (unread c) = length (read_text r) + length (unread c')" using u(1) by (metis length_append)
  then show ?thesis using r u(2) e by (auto simp: ws_work_def)
qed

lemma ws_reads_all:
  assumes "0 < n" and "buffer_ok c" and "ws_work c \<le> k"
  shows "ws_work (snd (ws_run is_close (replicate k (WsRead n)) c)) = 0"
  using assms(2,3)
proof (induction k arbitrary: c)
  case (Suc k)
  show ?case
  proof (cases "0 < ws_work c")
    case True
    from ws_Read_work [OF assms(1) Suc.prems(1) this] obtain c' r where
      "ws_Read is_close n c = Some (c', r)" "ws_work c' < ws_work c" "buffer_ok c'" by blast
    with Suc.IH [of c'] Suc.prems(2) show ?thesis by simp
  next
    case False
    then have "ws_in c = []" "\<not> readPos c < length (readBuffer c)" by (auto simp: ws_work_def unread_def)
    then have "ws_Read is_close n c = None" by (simp add: ws_Read_def ws_read_enter_def)
    with Suc.IH [OF Suc.prems(1)] False show ?thesis by simp
  qed
qed simp

text \<open>
  The bytes a reader gets from a WebSocket are the text messages one after the other, whatever the
  sizes of the reads and whatever writes, errors, other messages and closes come between; and reads
  with room for at least one byte get all of them, after at most one read per byte and event.
\<close>

theorem websocket_reads_stream:
  assumes "ws_Dial (Inr evs) = Inr c" and "ws_run is_close ops c = (bs, c')"
    and "0 < n" and "length (concat (map event_text evs)) + length evs \<le> k"
  shows "bs @ unread c' = concat (map event_text evs) \<and>
    fst (ws_run is_close (replicate k (WsRead n)) c) = concat (map event_text evs)"
proof -
  have c: "buffer_ok c" "unread c = concat (map event_text evs)" "ws_in c = evs"
    using assms(1) by (auto simp: ws_Dial_def buffer_ok_def unread_def)
  let ?r = "ws_run is_close (replicate k (WsRead n)) c"
  have "ws_work (snd ?r) = 0" using ws_reads_all [OF assms(3) c(1)] assms(4) c by (simp add: ws_work_def)
  then have "unread (snd ?r) = []" by (simp add: ws_work_def)
  with ws_run_text [OF c(1)] c(2) have "fst ?r = concat (map event_text evs)" by (metis append_Nil2)
  with ws_run_text [OF c(1), of is_close ops] assms(2) c(2) show ?thesis by simp
qed

definition demo_events :: "ws_event list" where
  "demo_events = [WsMessage 1 ''{1}'', WsMessage 2 ''x'', WsMessage 1 ''[]'']"

theorem websocket_reads_stream_witness:
  "\<exists>c. ws_Dial (Inr demo_events) = Inr c \<and>
     fst (ws_run (\<lambda>e. False) [WsRead 2, WsWrite None ''q'', WsRead 9] c) = ''{1}'' \<and>
     fst (ws_run (\<lambda>e. False) (replicate 8 (WsRead 1)) c) = ''{1}[]''"
proof -
  obtain c where c: "ws_Dial (Inr demo_events) = Inr c" by (simp add: ws_Dial_def)
  have e: "concat (map event_text demo_events) = ''{1}[]''" by (simp add: demo_events_def TextMessage_def)
  obtain bs c' where r: "ws_run (\<lambda>e. False) [WsRead 2, WsWrite None ''q'', WsRead 9] c = (bs, c')" by fastforce
  have "bs = ''{1}''"
    using r c by (auto simp: ws_Dial_def ws_Read_def ws_read_enter_def ws_read_return_def ws_Write_def read_text_def
        demo_events_def TextMessage_def Let_def numeral_eq_Suc)
  with websocket_reads_stream [OF c r, of 1 8] r e c show ?thesis by (simp add: demo_events_def)
qed

section \<open>Readers block writers\<close>

text \<open>
  A client and a peer that only answers. The client has one reader, which calls \<open>Read\<close> again and
  again as \<open>jsonrpc2\<close> connections do, and any number of writers; a call starts only when the mutex
  is free. The peer sends at most one message for every message it received.
\<close>

record ws_system =
  sys_conn :: WebSocketConn
  sys_reading :: "nat option"     \<comment> \<open>the room of the \<open>Read\<close> that waits in \<open>ReadMessage\<close>\<close>
  sys_answered :: nat

inductive ws_step :: "(mcp_error \<Rightarrow> bool) \<Rightarrow> ws_system \<Rightarrow> ws_system \<Rightarrow> bool" for is_close where
  step_buffered: "sys_reading s = None \<Longrightarrow> \<not> ws_mu (sys_conn s) \<Longrightarrow> ws_read_enter n (sys_conn s) = (c, Some out) \<Longrightarrow>
     ws_step is_close s (s\<lparr>sys_conn := c\<rparr>)"
| step_wait: "sys_reading s = None \<Longrightarrow> \<not> ws_mu (sys_conn s) \<Longrightarrow> ws_read_enter n (sys_conn s) = (c, None) \<Longrightarrow>
     ws_step is_close s (s\<lparr>sys_conn := c, sys_reading := Some n\<rparr>)"
| step_message: "sys_reading s = Some n \<Longrightarrow> ws_in (sys_conn s) = ev # evs \<Longrightarrow>
     ws_step is_close s (s\<lparr>sys_conn := fst (ws_read_return is_close n ev (sys_conn s\<lparr>ws_in := evs\<rparr>)), sys_reading := None\<rparr>)"
| step_write: "\<not> ws_mu (sys_conn s) \<Longrightarrow> ws_step is_close s (s\<lparr>sys_conn := fst (ws_Write is_close e p (sys_conn s))\<rparr>)"
| step_close: "\<not> ws_mu (sys_conn s) \<Longrightarrow> ws_step is_close s (s\<lparr>sys_conn := fst (ws_Close is_close e (sys_conn s))\<rparr>)"
| step_answer: "sys_answered s < length (ws_out (sys_conn s)) \<Longrightarrow>
     ws_step is_close s (s\<lparr>sys_conn := sys_conn s\<lparr>ws_in := ws_in (sys_conn s) @ [WsMessage ty m]\<rparr>, sys_answered := Suc (sys_answered s)\<rparr>)"

inductive_cases ws_stepE: "ws_step is_close s s'"

text \<open>
  A reader that waits while no answer is outstanding blocks the connection for good. Once \<open>Read\<close> waits for a message
  of a peer that has answered everything it received, no step is possible: no request is ever written, the
  connection cannot be closed, and the reader waits for ever. This state is reached from a new
  connection by a single step, the first \<open>Read\<close>.
\<close>

theorem websocket_reader_blocks_writer:
  assumes "ws_Dial (Inr []) = Inr c" and "s0 = \<lparr>sys_conn = c, sys_reading = None, sys_answered = 0\<rparr>"
  shows "ws_step is_close s0 (s0\<lparr>sys_conn := fst (ws_read_enter n c), sys_reading := Some n\<rparr>) \<and>
    (\<forall>s. sys_reading s \<noteq> None \<and> ws_mu (sys_conn s) \<and> ws_in (sys_conn s) = [] \<and>
         sys_answered s = length (ws_out (sys_conn s)) \<longrightarrow> (\<nexists>s'. ws_step is_close s s')) \<and>
    (\<nexists>s'. ws_step is_close (s0\<lparr>sys_conn := fst (ws_read_enter n c), sys_reading := Some n\<rparr>) s')"
proof -
  have c: "c = \<lparr>ws_in = [], ws_out = [], readBuffer = [], readPos = 0, ws_closed = False, ws_mu = False\<rparr>"
    using assms(1) by (simp add: ws_Dial_def)
  have stuck: "\<not> ws_step is_close s s'"
    if "sys_reading s \<noteq> None" "ws_mu (sys_conn s)" "ws_in (sys_conn s) = []" "sys_answered s = length (ws_out (sys_conn s))" for s s'
    using that by (auto elim!: ws_stepE)
  have enter: "ws_read_enter n c = (c\<lparr>ws_mu := True\<rparr>, None)" by (simp add: ws_read_enter_def c)
  have "ws_step is_close s0 (s0\<lparr>sys_conn := c\<lparr>ws_mu := True\<rparr>, sys_reading := Some n\<rparr>)"
    by (rule step_wait) (use enter c assms(2) in simp_all)
  moreover have "\<not> ws_step is_close (s0\<lparr>sys_conn := c\<lparr>ws_mu := True\<rparr>, sys_reading := Some n\<rparr>) s'" for s'
    by (rule stuck) (simp_all add: c assms(2))
  ultimately show ?thesis using stuck enter by auto
qed

theorem websocket_reader_blocks_writer_witness:
  "\<exists>c. ws_Dial (Inr []) = Inr c \<and>
     (\<nexists>s'. ws_step (\<lambda>e. False) \<lparr>sys_conn = fst (ws_read_enter 512 c), sys_reading = Some 512, sys_answered = 0\<rparr> s')"
proof -
  obtain c where c: "ws_Dial (Inr []) = Inr c" by (simp add: ws_Dial_def)
  from websocket_reader_blocks_writer [OF this refl, of "\<lambda>e. False" 512] c show ?thesis by simp
qed

end
