(* ===== verification/Dispatcher.thy ===== *)
theory Dispatcher
  imports Json_Struct Server
begin

text \<open>
  The notification dispatcher (\<open>src/dispatcher.go\<close>): handlers per method, called in the order they were
  registered, and the notifications it builds. A handler works on a state of its own, returns or
  fails, or panics; \<open>Dispatch\<close> does not recover, so a panic ends it.
\<close>

type_synonym 'u NotificationHandlerFunc = "string \<Rightarrow> bytes \<Rightarrow> 'u \<Rightarrow> 'u \<times> unit outcome"

record 'u Dispatcher =
  d_handlers :: "(string, 'u NotificationHandlerFunc list) gomap"

definition NewDispatcher :: "'u Dispatcher" where
  "NewDispatcher = \<lparr>d_handlers = []\<rparr>"

definition Handle :: "string \<Rightarrow> 'u NotificationHandlerFunc \<Rightarrow> 'u Dispatcher \<Rightarrow> 'u Dispatcher" where
  "Handle meth h d =
     d\<lparr>d_handlers := AList.update meth ((case map_of (d_handlers d) meth of None \<Rightarrow> [] | Some hs \<Rightarrow> hs) @ [h]) (d_handlers d)\<rparr>"

fun dispatch_loop ::
  "string \<Rightarrow> bytes \<Rightarrow> 'u NotificationHandlerFunc list \<Rightarrow> mcp_error list \<Rightarrow> 'u \<Rightarrow> 'u \<times> (panic_value + mcp_error list)" where
  "dispatch_loop meth params [] allErrors u = (u, Inr allErrors)"
| "dispatch_loop meth params (h # hs) allErrors u =
     (case h meth params u of
        (u, Returns _) \<Rightarrow> dispatch_loop meth params hs allErrors u
      | (u, Fails err) \<Rightarrow> dispatch_loop meth params hs (allErrors @ [WrapErr (''handler error for '' @ meth) err]) u
      | (u, Panics v) \<Rightarrow> (u, Inl v))"

definition multiple_errors :: "mcp_error list \<Rightarrow> mcp_error" where
  "multiple_errors errs = PlainErr (''multiple handler errors: ['' @ strings_Join (map error_string errs) '' '' @ '']'')"

definition Dispatch :: "string \<Rightarrow> bytes \<Rightarrow> 'u Dispatcher \<Rightarrow> 'u \<Rightarrow> 'u \<times> unit outcome" where
  "Dispatch meth params d u =
     (case map_of (d_handlers d) meth of
        None \<Rightarrow> (u, Returns ())
      | Some hs \<Rightarrow>
          (case dispatch_loop meth params hs [] u of
             (u, Inl v) \<Rightarrow> (u, Panics v)
           | (u, Inr allErrors) \<Rightarrow> (u, if allErrors = [] then Returns () else Fails (multiple_errors allErrors))))"

text \<open>The notifications. Numbers that JSON has no text for (\<open>NaN\<close> and the infinities, for which
  \<open>json.Marshal\<close> fails) are not values of the model.\<close>

definition d_NotifyListChanged :: "string \<Rightarrow> 'u Dispatcher \<Rightarrow> 'u \<Rightarrow> 'u \<times> unit outcome" where
  "d_NotifyListChanged meth = Dispatch meth (marshal_any (AObj []))"

definition d_NotifyProgress :: "go_any \<Rightarrow> rat \<Rightarrow> rat option \<Rightarrow> 'u Dispatcher \<Rightarrow> 'u \<Rightarrow> 'u \<times> unit outcome" where
  "d_NotifyProgress token progress tot =
     Dispatch MethodProgress
       (marshal_any (AObj ([(''progressToken'', token), (''progress'', ANum progress)] @
          (case tot of None \<Rightarrow> [] | Some t \<Rightarrow> [(''total'', ANum t)]))))"

definition d_NotifyLoggingMessage :: "string \<Rightarrow> string \<Rightarrow> go_any \<Rightarrow> 'u Dispatcher \<Rightarrow> 'u \<Rightarrow> 'u \<times> unit outcome" where
  "d_NotifyLoggingMessage level logger data =
     Dispatch MethodLogging (marshal_any (AObj [(''level'', AStr level), (''logger'', AStr logger), (''data'', data)]))"

definition d_NotifyElicitationComplete :: "string \<Rightarrow> 'u Dispatcher \<Rightarrow> 'u \<Rightarrow> 'u \<times> unit outcome" where
  "d_NotifyElicitationComplete elicitationID d u =
     (if elicitationID = []
      then (u, Fails (NewParameterError MethodElicitationComplete ''elicitationId'' ''missing required elicitation id'' None))
      else Dispatch MethodElicitationComplete (marshal_any (AObj [(''elicitationId'', AStr elicitationID)])) d u)"

section \<open>Routing\<close>

text \<open>The table holds the handlers of a method in the order of registration.\<close>

definition registered_for :: "(string \<times> 'u NotificationHandlerFunc) list \<Rightarrow> string \<Rightarrow> 'u NotificationHandlerFunc list" where
  "registered_for regs meth = map snd (filter (\<lambda>r. fst r = meth) regs)"

definition handled :: "(string \<times> 'u NotificationHandlerFunc) list \<Rightarrow> 'u Dispatcher" where
  "handled regs = fold (\<lambda>(m, h). Handle m h) regs NewDispatcher"

lemma handled_lookup:
  "map_of (d_handlers (handled regs)) meth = (if registered_for regs meth = [] then None else Some (registered_for regs meth))"
proof (induction regs rule: rev_induct)
  case (snoc r regs)
  obtain m h where r: "r = (m, h)" by fastforce
  have "handled (regs @ [r]) = Handle m h (handled regs)" by (simp add: handled_def r)
  with snoc show ?case by (cases "m = meth") (auto simp: Handle_def registered_for_def r update_conv' split: if_splits)
qed (simp add: handled_def NewDispatcher_def registered_for_def)

text \<open>What a run of handlers does: each gets the state the one before it left.\<close>

fun run_all :: "string \<Rightarrow> bytes \<Rightarrow> 'u NotificationHandlerFunc list \<Rightarrow> 'u \<Rightarrow> 'u \<times> unit outcome list" where
  "run_all meth params [] u = (u, [])"
| "run_all meth params (h # hs) u =
     (case h meth params u of (u, out) \<Rightarrow> apsnd (\<lambda>outs. out # outs) (run_all meth params hs u))"

definition failures :: "string \<Rightarrow> unit outcome list \<Rightarrow> mcp_error list" where
  "failures meth outs = concat (map (\<lambda>out. case out of Fails e \<Rightarrow> [WrapErr (''handler error for '' @ meth) e] | _ \<Rightarrow> []) outs)"

lemma dispatch_loop_eq:
  assumes "\<forall>v. Panics v \<notin> set (snd (run_all meth params hs u))"
  shows "dispatch_loop meth params hs acc u =
    (fst (run_all meth params hs u), Inr (acc @ failures meth (snd (run_all meth params hs u))))"
  using assms
proof (induction hs arbitrary: acc u)
  case (Cons h hs)
  obtain u' out where h: "h meth params u = (u', out)" by fastforce
  with Cons.prems have "\<forall>v. Panics v \<notin> set (snd (run_all meth params hs u'))" "\<forall>v. out \<noteq> Panics v" by auto
  with Cons.IH [of u'] h show ?case by (cases out) (simp_all add: failures_def)
qed (simp add: failures_def)

lemma failures_none: "\<forall>v. Panics v \<notin> set outs \<Longrightarrow> failures meth outs = [] \<longleftrightarrow> (\<forall>out \<in> set outs. out = Returns ())"
  by (induction outs) (auto simp: failures_def split: outcome.splits)

text \<open>
  A notification reaches every handler of its method and no other: after any registrations, as long
  as none of them panics, \<open>Dispatch\<close> runs exactly the handlers registered for the method, each
  once and in the order of registration, also after one of them failed; it returns without error exactly
  when all of them did, and otherwise an error that lists all failures in order.
\<close>

theorem dispatch_runs_all:
  assumes "run_all meth params (registered_for regs meth) u = (u', outs)" and "\<forall>v. Panics v \<notin> set outs"
  shows "fst (Dispatch meth params (handled regs) u) = u' \<and>
    (snd (Dispatch meth params (handled regs) u) = Returns () \<longleftrightarrow> (\<forall>out \<in> set outs. out = Returns ())) \<and>
    (snd (Dispatch meth params (handled regs) u) \<noteq> Returns () \<longrightarrow>
       snd (Dispatch meth params (handled regs) u) = Fails (multiple_errors (failures meth outs)))"
proof (cases "registered_for regs meth = []")
  case True
  then show ?thesis using assms by (simp add: Dispatch_def handled_lookup)
next
  case False
  then show ?thesis
    using assms dispatch_loop_eq [of meth params "registered_for regs meth" u "[]"] failures_none [OF assms(2), of meth]
    by (simp add: Dispatch_def handled_lookup)
qed

definition log_handler :: "char \<Rightarrow> unit outcome \<Rightarrow> string NotificationHandlerFunc" where
  "log_handler c out meth params u = (u @ [c], out)"

theorem dispatch_runs_all_witness:
  "fst (Dispatch ''m'' [] (handled [(''m'', log_handler CHR ''a'' (Fails (PlainErr ''x''))), (''n'', log_handler CHR ''b'' (Returns ())),
     (''m'', log_handler CHR ''c'' (Returns ()))]) []) = ''ac'' \<and>
   snd (Dispatch ''m'' [] (handled [(''m'', log_handler CHR ''a'' (Fails (PlainErr ''x''))), (''n'', log_handler CHR ''b'' (Returns ())),
     (''m'', log_handler CHR ''c'' (Returns ()))]) []) =
     Fails (PlainErr ''multiple handler errors: [handler error for m: x]'')"
proof -
  let ?regs = "[(''m'', log_handler CHR ''a'' (Fails (PlainErr ''x''))), (''n'', log_handler CHR ''b'' (Returns ())),
     (''m'', log_handler CHR ''c'' (Returns ()))]"
  have r: "run_all ''m'' [] (registered_for ?regs ''m'') [] = (''ac'', [Fails (PlainErr ''x''), Returns ()])"
    by (simp add: registered_for_def log_handler_def)
  have "multiple_errors (failures ''m'' [Fails (PlainErr ''x''), Returns ()]) = PlainErr ''multiple handler errors: [handler error for m: x]''"
    by (simp add: multiple_errors_def failures_def)
  with dispatch_runs_all [OF r] show ?thesis by auto
qed

text \<open>The handlers of a finished elicitation read its id from the text they get.\<close>

lemma elicitation_id_read:
  assumes "valid_utf8 ident" and "ident \<noteq> []"
  shows "d_NotifyElicitationComplete ident = Dispatch MethodElicitationComplete (marshal_any (AObj [(''elicitationId'', AStr ident)])) \<and>
    json_Unmarshal (dec_one_string ''elicitationId'') [] (marshal_any (AObj [(''elicitationId'', AStr ident)])) = Inr ident"
proof -
  have "valid_utf8 ''elicitationId''" by code_simp
  with assms(1) have t: "text_ok (AObj [(''elicitationId'', AStr ident)])" by simp
  have d: "depth_any (AObj [(''elicitationId'', AStr ident)]) \<le> maxNestingDepth" by (simp add: maxNestingDepth_def)
  show ?thesis
    using assms(2) unfolding json_Unmarshal_struct [OF t d]
    by (simp add: dec_one_string_def field_wire dec_string_def d_NotifyElicitationComplete_def fun_eq_iff)
qed

end
