(* ===== verification/Performance.thy ===== *)
theory Performance
  imports Go_Float Client
begin

text \<open>
  The performance helpers (\<open>src/performance.go\<close>): the monitor that counts requests and computes
  percentiles of their response times, the client that records its calls, the pools of
  reusable objects and the pooled JSON encoder. The two goroutines of the monitor are its steps; a
  panic in one of them, which nothing recovers, ends the program and is \<open>None\<close>.
\<close>

section \<open>Metrics\<close>

record PerformanceMetrics =
  pm_TotalRequests :: int64
  pm_ActiveRequests :: int64
  pm_AverageResponseTime :: duration
  pm_MedianResponseTime :: duration
  pm_P95ResponseTime :: duration
  pm_P99ResponseTime :: duration
  pm_MaxResponseTime :: duration
  pm_TotalErrors :: int64
  pm_ErrorRate :: rat
  pm_TimeoutErrors :: int64
  pm_ConnectionErrors :: int64
  pm_RequestsPerSecond :: rat
  pm_BytesPerSecond :: rat
  pm_AllocatedMemory :: "64 word"
  pm_TotalAllocations :: "64 word"
  pm_GCPauses :: "64 word"
  pm_MaxConcurrency :: int64
  pm_AvgConcurrency :: rat
  pm_BytesSent :: int64
  pm_BytesReceived :: int64
  pm_ConnectionsOpened :: int64
  pm_ConnectionsClosed :: int64

record requestMetric =
  rm_startTime :: time
  rm_endTime :: time
  rm_success :: bool
  rm_error :: "mcp_error option"
  rm_bytesSent :: int64
  rm_bytesReceived :: int64

record PerformanceMonitor =
  pm_startTime :: time
  responseTimes :: "duration list"
  pm_metrics :: PerformanceMetrics
  requestChan :: "requestMetric list"
  pm_stopped :: bool
  samplingRate :: rat
  maxSamples :: int

definition zero_PerformanceMetrics :: PerformanceMetrics where
  "zero_PerformanceMetrics =
     \<lparr>pm_TotalRequests = 0, pm_ActiveRequests = 0, pm_AverageResponseTime = 0, pm_MedianResponseTime = 0,
      pm_P95ResponseTime = 0, pm_P99ResponseTime = 0, pm_MaxResponseTime = 0, pm_TotalErrors = 0, pm_ErrorRate = 0,
      pm_TimeoutErrors = 0, pm_ConnectionErrors = 0, pm_RequestsPerSecond = 0, pm_BytesPerSecond = 0,
      pm_AllocatedMemory = 0, pm_TotalAllocations = 0, pm_GCPauses = 0, pm_MaxConcurrency = 0, pm_AvgConcurrency = 0,
      pm_BytesSent = 0, pm_BytesReceived = 0, pm_ConnectionsOpened = 0, pm_ConnectionsClosed = 0\<rparr>"

text \<open>\<open>make\<close> panics for a negative capacity.\<close>

definition NewPerformanceMonitor :: "time \<Rightarrow> rat \<Rightarrow> int \<Rightarrow> PerformanceMonitor option" where
  "NewPerformanceMonitor now rate samples =
     (if samples < 0 then None
      else Some \<lparr>pm_startTime = now, responseTimes = [], pm_metrics = zero_PerformanceMetrics, requestChan = [],
                 pm_stopped = False, samplingRate = rate, maxSamples = samples\<rparr>)"

definition RecordRequest :: "requestMetric \<Rightarrow> PerformanceMonitor \<Rightarrow> PerformanceMonitor" where
  "RecordRequest m pm = (if length (requestChan pm) < 1000 then pm\<lparr>requestChan := requestChan pm @ [m]\<rparr> else pm)"

definition GetMetrics :: "PerformanceMonitor \<Rightarrow> PerformanceMetrics" where
  "GetMetrics pm = pm_metrics pm"

text \<open>\<open>close\<close> panics for a channel that is closed already.\<close>

definition pm_Stop :: "PerformanceMonitor \<Rightarrow> PerformanceMonitor option" where
  "pm_Stop pm = (if pm_stopped pm then None else Some (pm\<lparr>pm_stopped := True\<rparr>))"

definition context_DeadlineExceeded :: string where
  "context_DeadlineExceeded = ''context deadline exceeded''"

definition isTimeoutError :: "mcp_error \<Rightarrow> bool" where
  "isTimeoutError err \<longleftrightarrow> err = Sentinel context_DeadlineExceeded \<or> error_string err = ''context deadline exceeded''"

definition isConnectionError :: "mcp_error \<Rightarrow> bool" where
  "isConnectionError err \<longleftrightarrow>
     error_string err = ''connection refused'' \<or> error_string err = ''connection reset'' \<or> error_string err = ''broken pipe''"

definition count_errors :: "requestMetric \<Rightarrow> PerformanceMetrics \<Rightarrow> PerformanceMetrics" where
  "count_errors m ms =
     (if rm_success m then ms
      else let ms = ms\<lparr>pm_TotalErrors := pm_TotalErrors ms + 1\<rparr>
           in case rm_error m of
                None \<Rightarrow> ms
              | Some err \<Rightarrow>
                  if isTimeoutError err then ms\<lparr>pm_TimeoutErrors := pm_TimeoutErrors ms + 1\<rparr>
                  else if isConnectionError err then ms\<lparr>pm_ConnectionErrors := pm_ConnectionErrors ms + 1\<rparr>
                  else ms)"

definition processRequestMetric :: "requestMetric \<Rightarrow> PerformanceMonitor \<Rightarrow> PerformanceMonitor option" where
  "processRequestMetric m pm =
     (let duration = time_Sub (rm_endTime m) (rm_startTime m);
          ms = (pm_metrics pm)\<lparr>pm_TotalRequests := pm_TotalRequests (pm_metrics pm) + 1\<rparr>
      in if maxSamples pm \<le> int (length (responseTimes pm)) \<and> responseTimes pm = [] then None
         else let times = (if maxSamples pm \<le> int (length (responseTimes pm)) then tl (responseTimes pm) else responseTimes pm) @ [duration];
                  ms = (if pm_MaxResponseTime ms < duration then ms\<lparr>pm_MaxResponseTime := duration\<rparr> else ms);
                  ms = count_errors m ms;
                  ms = ms\<lparr>pm_BytesSent := pm_BytesSent ms + rm_bytesSent m, pm_BytesReceived := pm_BytesReceived ms + rm_bytesReceived m\<rparr>
              in Some (pm\<lparr>responseTimes := times, pm_metrics := ms\<rparr>))"

text \<open>The sort of the percentiles exchanges the element at a position with every smaller one after it.\<close>

fun exchange_pass :: "int \<Rightarrow> int list \<Rightarrow> int \<times> int list" where
  "exchange_pass x [] = (x, [])"
| "exchange_pass x (y # ys) =
     (if y < x then apsnd (\<lambda>r. x # r) (exchange_pass y ys) else apsnd (\<lambda>r. y # r) (exchange_pass x ys))"

lemma length_exchange_pass [simp]: "length (snd (exchange_pass x ys)) = length ys"
  by (induction x ys rule: exchange_pass.induct) simp_all

function exchange_sort :: "int list \<Rightarrow> int list" where
  "exchange_sort [] = []"
| "exchange_sort (x # xs) = (case exchange_pass x xs of (m, rest) \<Rightarrow> m # exchange_sort rest)"
  by pat_completeness auto
termination
proof (relation "measure length")
  fix x :: int and xs m rest assume "(m, rest) = exchange_pass x xs"
  then show "(rest, x # xs) \<in> measure length" using length_exchange_pass [of x xs] by (metis in_measure le_imp_less_Suc length_Cons order_refl snd_conv)
qed simp

definition percentile_index :: "rat \<Rightarrow> nat \<Rightarrow> int" where
  "percentile_index q n = int64_of_float (fl64 (float_of_int (int n) * fl64 q))"

text \<open>Indexing panics out of range.\<close>

definition index_slice :: "'a list \<Rightarrow> int \<Rightarrow> 'a option" where
  "index_slice xs i = (if 0 \<le> i \<and> i < int (length xs) then Some (xs ! nat i) else None)"

definition calculateDerivedMetrics :: "time \<Rightarrow> PerformanceMonitor \<Rightarrow> PerformanceMonitor option" where
  "calculateDerivedMetrics now pm =
     (if responseTimes pm = [] then Some pm
      else let sortedTimes = exchange_sort (responseTimes pm);
               count = length sortedTimes
           in case (index_slice sortedTimes (int count sdiv 2), index_slice sortedTimes (percentile_index (95 / 100) count),
                    index_slice sortedTimes (percentile_index (99 / 100) count)) of
                (Some median, Some p95, Some p99) \<Rightarrow>
                  let ms = (pm_metrics pm)\<lparr>pm_MedianResponseTime := median, pm_P95ResponseTime := p95, pm_P99ResponseTime := p99\<rparr>;
                      tot = (\<Sum>t \<leftarrow> responseTimes pm. word_of_int t) :: int64;
                      ms = ms\<lparr>pm_AverageResponseTime := sint tot sdiv int (length (responseTimes pm))\<rparr>;
                      elapsed = Duration_Seconds (time_Sub now (pm_startTime pm));
                      ms = (if 0 < elapsed
                            then ms\<lparr>pm_RequestsPerSecond := fl64 (float_of_int (sint (pm_TotalRequests ms)) / elapsed),
                                    pm_BytesPerSecond := fl64 (float_of_int (sint (pm_BytesSent ms + pm_BytesReceived ms)) / elapsed)\<rparr>
                            else ms);
                      ms = (if 0 <s pm_TotalRequests ms
                            then ms\<lparr>pm_ErrorRate := fl64 (float_of_int (sint (pm_TotalErrors ms)) / float_of_int (sint (pm_TotalRequests ms)))\<rparr>
                            else ms)
                  in Some (pm\<lparr>pm_metrics := ms\<rparr>)
              | _ \<Rightarrow> None)"

definition updateMemoryMetrics :: "64 word \<Rightarrow> 64 word \<Rightarrow> 32 word \<Rightarrow> PerformanceMonitor \<Rightarrow> PerformanceMonitor" where
  "updateMemoryMetrics Alloc TotalAlloc NumGC pm =
     pm\<lparr>pm_metrics := (pm_metrics pm)\<lparr>pm_AllocatedMemory := Alloc, pm_TotalAllocations := TotalAlloc, pm_GCPauses := ucast NumGC\<rparr>\<rparr>"

text \<open>One round of \<open>collectMetrics\<close>: which case its \<open>select\<close> takes is an argument.\<close>

datatype collect_case = CollectRequest | CollectTick time | CollectStop

definition collectMetrics_round :: "collect_case \<Rightarrow> PerformanceMonitor \<Rightarrow> PerformanceMonitor option" where
  "collectMetrics_round c pm =
     (case c of
        CollectRequest \<Rightarrow>
          (case requestChan pm of [] \<Rightarrow> Some pm | m # ms \<Rightarrow> processRequestMetric m (pm\<lparr>requestChan := ms\<rparr>))
      | CollectTick now \<Rightarrow> calculateDerivedMetrics now pm
      | CollectStop \<Rightarrow> Some pm)"

section \<open>The recording client\<close>

text \<open>\<open>result_len\<close> gives the length of the JSON of a result.\<close>

definition pac_CallTool ::
  "time \<Rightarrow> time \<Rightarrow> (bytes \<Rightarrow> nat) \<Rightarrow> go_any \<Rightarrow> call_run \<Rightarrow> 'u Client \<times> PerformanceMonitor \<Rightarrow>
   ('u Client \<times> PerformanceMonitor) \<times> (mcp_error + bytes)" where
  "pac_CallTool startTime endTime result_len request run s =
     (case CallTool request run (fst s) of
        (c, res) \<Rightarrow>
          ((c, RecordRequest
                 \<lparr>rm_startTime = startTime, rm_endTime = endTime, rm_success = (\<not> isl res),
                  rm_error = (case res of Inl e \<Rightarrow> Some e | Inr _ \<Rightarrow> None),
                  rm_bytesSent = of_nat (length (marshal_any request)),
                  rm_bytesReceived = (case res of Inl _ \<Rightarrow> 0 | Inr r \<Rightarrow> of_nat (result_len r))\<rparr> (snd s)), res))"

section \<open>Pools\<close>

definition request_reset :: "CallToolRequest \<Rightarrow> CallToolRequest" where
  "request_reset r = r\<lparr>call_Name := [], call_Arguments := None\<rparr>"

definition GetRequest :: "nat \<Rightarrow> CallToolRequest ObjectPool \<Rightarrow> CallToolRequest \<times> CallToolRequest ObjectPool" where
  "GetRequest = ObjectPool_Get request_reset zero_CallToolRequest"

definition PutRequest :: "CallToolRequest \<Rightarrow> CallToolRequest ObjectPool \<Rightarrow> CallToolRequest ObjectPool" where
  "PutRequest = ObjectPool_Put"

text \<open>A buffer is its bytes and its capacity; large ones are not kept.\<close>

definition GetBuffer :: "nat \<Rightarrow> (bytes \<times> nat) ObjectPool \<Rightarrow> (bytes \<times> nat) \<times> (bytes \<times> nat) ObjectPool" where
  "GetBuffer = ObjectPool_Get (\<lambda>(b, cap). ([], cap)) ([], 4096)"

definition PutBuffer :: "bytes \<times> nat \<Rightarrow> (bytes \<times> nat) ObjectPool \<Rightarrow> (bytes \<times> nat) ObjectPool" where
  "PutBuffer buf pool = (if snd buf \<le> 65536 then ObjectPool_Put buf pool else pool)"

definition bufferWriter_Write :: "bytes \<Rightarrow> bytes \<Rightarrow> bytes" where
  "bufferWriter_Write buf p = buf @ p"

text \<open>\<open>Encode\<close> writes the text of the value and a newline. The deferred \<open>PutBuffer\<close> has the slice as it was
  before the writes, so its bytes are none and its capacity is the old one.\<close>

definition oje_Marshal :: "nat \<Rightarrow> go_any \<Rightarrow> (bytes \<times> nat) ObjectPool \<Rightarrow> bytes \<times> (bytes \<times> nat) ObjectPool" where
  "oje_Marshal i v pool =
     (case GetBuffer i pool of (buf, pool) \<Rightarrow>
        (bufferWriter_Write (fst buf) (marshal_any v @ [CHR 0x0A]), PutBuffer buf pool))"


section \<open>Sorting and percentiles\<close>

lemma exchange_pass_min:
  assumes "exchange_pass x ys = (m, r)"
  shows "mset (m # r) = mset (x # ys) \<and> m \<le> x \<and> (\<forall>z \<in> set r. m \<le> z)"
  using assms
proof (induction x ys arbitrary: m r rule: exchange_pass.induct)
  case (2 x y ys)
  obtain m' r' where p: "exchange_pass (min x y) ys = (m', r')" by fastforce
  with 2 show ?case by (cases "y < x") (auto simp: min_def split: if_splits)
qed simp

lemma exchange_sort_eq: "exchange_sort xs = sort xs"
proof -
  have "mset (exchange_sort xs) = mset xs \<and> sorted (exchange_sort xs)"
  proof (induction xs rule: exchange_sort.induct)
    case (2 x xs)
    obtain m r where p: "exchange_pass x xs = (m, r)" by fastforce
    from 2 [OF p [symmetric]] have ih: "mset (exchange_sort r) = mset r" "sorted (exchange_sort r)" by auto
    then have "set (exchange_sort r) = set r" by (metis set_mset_mset)
    with ih exchange_pass_min [OF p] p show ?case by auto
  qed simp
  then show ?thesis by (metis properties_for_sort)
qed

lemma fl64_percentiles: "94 / 100 \<le> fl64 (95 / 100)" "fl64 (95 / 100) \<le> fl64 (99 / 100)" "fl64 (99 / 100) \<le> 995 / 1000"
  by code_simp+

lemma int64_of_float_trunc: "0 \<le> trunc x \<Longrightarrow> trunc x < 2 ^ 63 \<Longrightarrow> int64_of_float x = trunc x"
  by (simp add: int64_of_float_def)

lemma percentile_index_bounds:
  assumes "0 < n" and "n < 2 ^ 53" and "94 / 100 \<le> fl64 q" and "fl64 q \<le> 995 / 1000"
  shows "int n div 2 \<le> percentile_index q n \<and> percentile_index q n < int n"
proof -
  let ?x = "of_int (int n) * fl64 q"
  have e: "float_of_int (int n) = of_int (int n)" "float_of_int (int n div 2) = of_int (int n div 2)"
    using assms(1,2) by (simp_all add: float_of_int_exact)
  have n: "(1 :: rat) \<le> of_int (int n)" using assms(1) by simp
  have "of_int (int n div 2) \<le> (of_int (int n) :: rat) / 2" by linarith
  also have "\<dots> \<le> ?x" using mult_left_mono [OF assms(3), of "of_int (int n)"] n by simp
  finally have lo: "of_int (int n div 2) \<le> fl64 ?x"
    using fl64.fl_mono [of "of_int (int n div 2)" ?x] e(2) by (simp add: float_of_int_def)
  have hi: "?x \<le> of_int (int n) * (995 / 1000)" using mult_left_mono [OF assms(4), of "of_int (int n)"] n by simp
  have "1 / 2 ^ 100 \<le> (94 / 100 :: rat)" by simp
  also have "\<dots> \<le> 1 * fl64 q" using assms(3) by simp
  also have "\<dots> \<le> ?x" using n assms(3) by (intro mult_right_mono) linarith+
  finally have "fl64 ?x \<le> ?x * (1 + fl_eps)" by (intro fl64_rel_le) blast
  also have "\<dots> \<le> of_int (int n) * (995 / 1000) * (1 + fl_eps)" using hi by (intro mult_right_mono) simp_all
  also have "\<dots> < of_int (int n)" using n by simp
  finally have up: "fl64 ?x < of_int (int n)" .
  have "0 \<le> fl64 ?x" using lo by (rule order_trans [rotated]) simp
  then have "trunc (fl64 ?x) = \<lfloor>fl64 ?x\<rfloor>" by (simp add: trunc_def)
  moreover have "int n div 2 \<le> \<lfloor>fl64 ?x\<rfloor>" using lo by (simp add: le_floor_iff)
  moreover have "\<lfloor>fl64 ?x\<rfloor> < int n" using up by (simp add: floor_less_iff)
  ultimately have "int n div 2 \<le> trunc (fl64 ?x) \<and> trunc (fl64 ?x) < int n" by (simp only:)
  moreover have "0 \<le> int n div 2" "int n < 2 ^ 63" using assms(2) by simp_all
  ultimately show ?thesis unfolding percentile_index_def e(1) using int64_of_float_trunc [of "fl64 ?x"] by linarith
qed

lemma percentile_index_mono:
  assumes "0 < n" and "n < 2 ^ 53"
  shows "percentile_index (95 / 100) n \<le> percentile_index (99 / 100) n"
proof -
  have e: "float_of_int (int n) = of_int (int n)" using assms by (simp add: float_of_int_exact)
  have "of_int (int n) * fl64 (95 / 100) \<le> of_int (int n) * fl64 (99 / 100)"
    by (rule mult_left_mono [OF fl64_percentiles(2)]) simp
  then have "fl64 (of_int (int n) * fl64 (95 / 100)) \<le> fl64 (of_int (int n) * fl64 (99 / 100))" by (rule fl64.fl_mono)
  then have t: "trunc (fl64 (of_int (int n) * fl64 (95 / 100))) \<le> trunc (fl64 (of_int (int n) * fl64 (99 / 100)))"
    by (auto simp: trunc_def floor_mono ceiling_mono intro: order_trans [of _ 0])
  note b = percentile_index_bounds [OF assms, of "95 / 100"] percentile_index_bounds [OF assms, of "99 / 100"]
  show ?thesis using t b fl64_percentiles unfolding percentile_index_def e int64_of_float_def by (auto split: if_splits)
qed


section \<open>The monitor\<close>

text \<open>Calls and rounds of the goroutines in any order, with the response times processed so far.\<close>

datatype pm_op = PmRecord requestMetric | PmRound collect_case | PmMemory "64 word" "64 word" "32 word"

definition taken_in :: "collect_case \<Rightarrow> PerformanceMonitor \<Rightarrow> duration list" where
  "taken_in c pm =
     (case (c, requestChan pm) of
        (CollectRequest, m # ms) \<Rightarrow> [time_Sub (rm_endTime m) (rm_startTime m)]
      | _ \<Rightarrow> [])"

fun pm_run :: "pm_op list \<Rightarrow> PerformanceMonitor \<times> duration list \<Rightarrow> (PerformanceMonitor \<times> duration list) option" where
  "pm_run [] s = Some s"
| "pm_run (PmRecord m # ops) (pm, ds) = pm_run ops (RecordRequest m pm, ds)"
| "pm_run (PmMemory a b c # ops) (pm, ds) = pm_run ops (updateMemoryMetrics a b c pm, ds)"
| "pm_run (PmRound c # ops) (pm, ds) =
     (case collectMetrics_round c pm of
        None \<Rightarrow> None
      | Some pm' \<Rightarrow> pm_run ops (pm', ds @ taken_in c pm))"

definition last_n :: "nat \<Rightarrow> 'a list \<Rightarrow> 'a list" where
  "last_n k xs = drop (length xs - k) xs"

lemma last_n_snoc: "0 < k \<Longrightarrow> last_n k (xs @ [x]) = (if k \<le> length (last_n k xs) then tl (last_n k xs) else last_n k xs) @ [x]"
  by (auto simp: last_n_def drop_Suc tl_drop Suc_diff_le)

definition pm_inv :: "int \<Rightarrow> PerformanceMonitor \<times> duration list \<Rightarrow> bool" where
  "pm_inv k s \<longleftrightarrow> (case s of (pm, ds) \<Rightarrow>
     maxSamples pm = k \<and> responseTimes pm = last_n (nat k) ds \<and>
     pm_TotalRequests (pm_metrics pm) = of_nat (length ds) \<and> (\<forall>d \<in> set ds. d \<le> pm_MaxResponseTime (pm_metrics pm)))"

text \<open>The counters and the window do not depend on the derived figures.\<close>

definition same_samples :: "PerformanceMonitor \<Rightarrow> PerformanceMonitor \<Rightarrow> bool" where
  "same_samples pm pm' \<longleftrightarrow> maxSamples pm' = maxSamples pm \<and> responseTimes pm' = responseTimes pm \<and>
     pm_TotalRequests (pm_metrics pm') = pm_TotalRequests (pm_metrics pm) \<and>
     pm_MaxResponseTime (pm_metrics pm') = pm_MaxResponseTime (pm_metrics pm)"

lemma pm_inv_same: "same_samples pm pm' \<Longrightarrow> pm_inv k (pm, ds) \<Longrightarrow> pm_inv k (pm', ds)"
  by (simp add: same_samples_def pm_inv_def)

lemma process_inv:
  assumes "pm_inv k (pm, ds)" and "1 \<le> k"
  shows "\<exists>pm'. processRequestMetric m (pm\<lparr>requestChan := q\<rparr>) = Some pm' \<and>
    pm_inv k (pm', ds @ [time_Sub (rm_endTime m) (rm_startTime m)])"
proof -
  let ?d = "time_Sub (rm_endTime m) (rm_startTime m)"
  have k: "maxSamples pm = k" "responseTimes pm = last_n (nat k) ds" using assms(1) by (simp_all add: pm_inv_def)
  have c: "pm_TotalRequests (count_errors m ms) = pm_TotalRequests ms" "pm_MaxResponseTime (count_errors m ms) = pm_MaxResponseTime ms" for ms
    by (simp_all add: count_errors_def Let_def split: option.split)
  have "last_n (nat k) (ds @ [?d]) =
      (if k \<le> int (length (last_n (nat k) ds)) then tl (last_n (nat k) ds) else last_n (nat k) ds) @ [?d]"
    using last_n_snoc [of "nat k" ds ?d] assms(2) by (simp add: nat_le_iff)
  with assms k c show ?thesis
    by (auto simp: processRequestMetric_def pm_inv_def Let_def intro: order_trans less_imp_le)
qed

lemma index_sliceI: "0 \<le> i \<Longrightarrow> i < int (length xs) \<Longrightarrow> index_slice xs i = Some (xs ! nat i)"
  by (simp add: index_slice_def)

lemma derived_percentiles:
  assumes "responseTimes pm \<noteq> []" and "length (responseTimes pm) < 2 ^ 53"
  shows "\<exists>pm' i j. calculateDerivedMetrics now pm = Some pm' \<and> same_samples pm pm' \<and>
    length (responseTimes pm) div 2 \<le> i \<and> i \<le> j \<and> j < length (responseTimes pm) \<and>
    pm_MedianResponseTime (pm_metrics pm') = sort (responseTimes pm) ! (length (responseTimes pm) div 2) \<and>
    pm_P95ResponseTime (pm_metrics pm') = sort (responseTimes pm) ! i \<and>
    pm_P99ResponseTime (pm_metrics pm') = sort (responseTimes pm) ! j"
proof -
  let ?n = "length (responseTimes pm)"
  have n: "0 < ?n" using assms(1) by simp
  note b = percentile_index_bounds [OF n assms(2), of "95 / 100"] percentile_index_bounds [OF n assms(2), of "99 / 100"]
    percentile_index_mono [OF n assms(2)] fl64_percentiles
  define i j where "i = nat (percentile_index (95 / 100) ?n)" and "j = nat (percentile_index (99 / 100) ?n)"
  have ij: "int ?n div 2 \<le> int i" "i \<le> j" "j < ?n" "percentile_index (95 / 100) ?n = int i" "percentile_index (99 / 100) ?n = int j"
    using b unfolding i_def j_def by auto
  have h: "int ?n sdiv 2 = int ?n div 2" using n by (simp add: signed_divide_int_def)
  have s: "index_slice (sort (responseTimes pm)) (int ?n div 2) = Some (sort (responseTimes pm) ! (?n div 2))"
    "index_slice (sort (responseTimes pm)) (int i) = Some (sort (responseTimes pm) ! i)"
    "index_slice (sort (responseTimes pm)) (int j) = Some (sort (responseTimes pm) ! j)"
    using n ij by (simp_all add: index_slice_def nat_div_distrib)
  have "?n div 2 \<le> i" using ij(1) by (simp add: zdiv_int [symmetric])
  moreover have "\<exists>pm'. calculateDerivedMetrics now pm = Some pm' \<and> same_samples pm pm' \<and>
      pm_MedianResponseTime (pm_metrics pm') = sort (responseTimes pm) ! (?n div 2) \<and>
      pm_P95ResponseTime (pm_metrics pm') = sort (responseTimes pm) ! i \<and> pm_P99ResponseTime (pm_metrics pm') = sort (responseTimes pm) ! j"
    using assms(1) s ij(4,5) h by (simp add: calculateDerivedMetrics_def exchange_sort_eq same_samples_def Let_def)
  ultimately show ?thesis using ij(2,3) by blast
qed

lemma pm_inv_window: "pm_inv k (pm, ds) \<Longrightarrow> length (responseTimes pm) \<le> nat k \<and> set (responseTimes pm) \<subseteq> set ds"
  by (auto simp: pm_inv_def last_n_def dest: in_set_dropD)

lemma pm_inv_count: "pm_inv k (pm, ds) \<Longrightarrow> k < 2 ^ 53 \<Longrightarrow> length (responseTimes pm) < 2 ^ 53"
  using pm_inv_window [of k pm ds] nat_less_iff [of k "2 ^ 53"] zless_nat_conj [of k "2 ^ 53"] by (simp add: nat_less_eq_zless)

lemma round_inv:
  assumes "pm_inv k (pm, ds)" and "1 \<le> k" and "k < 2 ^ 53"
  shows "\<exists>pm'. collectMetrics_round c pm = Some pm' \<and> pm_inv k (pm', ds @ taken_in c pm)"
proof (cases c)
  case CollectRequest
  then show ?thesis
    using assms process_inv [OF assms(1,2)] by (cases "requestChan pm") (simp_all add: collectMetrics_round_def taken_in_def)
next
  case (CollectTick now)
  show ?thesis
  proof (cases "responseTimes pm = []")
    case False
    have "length (responseTimes pm) < 2 ^ 53" using pm_inv_count [OF assms(1,3)] .
    from derived_percentiles [OF False this, of now] show ?thesis
      using CollectTick pm_inv_same assms(1) by (force simp: collectMetrics_round_def taken_in_def)
  qed (use CollectTick assms(1) in \<open>simp add: collectMetrics_round_def calculateDerivedMetrics_def taken_in_def\<close>)
qed (use assms(1) in \<open>simp add: collectMetrics_round_def taken_in_def\<close>)

lemma pm_run_inv:
  assumes "pm_inv k (pm, ds)" and "1 \<le> k" and "k < 2 ^ 53"
  shows "\<exists>pm' ds'. pm_run ops (pm, ds) = Some (pm', ds') \<and> pm_inv k (pm', ds')"
  using assms(1)
proof (induction ops arbitrary: pm ds)
  case (Cons op ops)
  show ?case
  proof (cases op)
    case (PmRecord m)
    have "pm_inv k (RecordRequest m pm, ds)"
      by (rule pm_inv_same [OF _ Cons.prems]) (simp add: same_samples_def RecordRequest_def)
    from Cons.IH [OF this] PmRecord show ?thesis by simp
  next
    case (PmMemory a b c)
    have "pm_inv k (updateMemoryMetrics a b c pm, ds)"
      by (rule pm_inv_same [OF _ Cons.prems]) (simp add: same_samples_def updateMemoryMetrics_def)
    from Cons.IH [OF this] PmMemory show ?thesis by simp
  next
    case (PmRound c)
    from round_inv [OF Cons.prems assms(2,3), of c] Cons.IH PmRound show ?thesis by fastforce
  qed
qed simp

text \<open>
  The figures of the monitor are those of the last samples: whatever calls and rounds of its goroutines
  came before, a monitor that keeps between one and less than two to the 53 samples has not
  panicked, counts every processed request (modulo the width of the counter) and keeps exactly the latest response
  times; a tick then reports the median of these, with median, 95th and 99th percentile among them and
  in order, none above the reported maximum.
\<close>

theorem monitor_reports_percentiles:
  assumes "NewPerformanceMonitor start rate k = Some pm0" and "1 \<le> k" and "k < 2 ^ 53"
  shows "\<exists>pm ds. pm_run ops (pm0, []) = Some (pm, ds) \<and> responseTimes pm = last_n (nat k) ds \<and>
    pm_TotalRequests (GetMetrics pm) = of_nat (length ds) \<and>
    (\<exists>pm'. calculateDerivedMetrics now pm = Some pm' \<and>
      (ds \<noteq> [] \<longrightarrow>
        pm_MedianResponseTime (GetMetrics pm') = sort (last_n (nat k) ds) ! (length (last_n (nat k) ds) div 2) \<and>
        sorted [pm_MedianResponseTime (GetMetrics pm'), pm_P95ResponseTime (GetMetrics pm'), pm_P99ResponseTime (GetMetrics pm'),
                pm_MaxResponseTime (GetMetrics pm')] \<and>
        {pm_P95ResponseTime (GetMetrics pm'), pm_P99ResponseTime (GetMetrics pm')} \<subseteq> set (last_n (nat k) ds)))"
proof -
  have "pm_inv k (pm0, [])" using assms(1,2) by (auto simp: NewPerformanceMonitor_def pm_inv_def last_n_def zero_PerformanceMetrics_def)
  from pm_run_inv [OF this assms(2,3), of ops] obtain pm ds where run: "pm_run ops (pm0, []) = Some (pm, ds)" and inv: "pm_inv k (pm, ds)"
    by blast
  have w: "responseTimes pm = last_n (nat k) ds" and tot: "pm_TotalRequests (GetMetrics pm) = of_nat (length ds)"
    and mx: "\<forall>d \<in> set ds. d \<le> pm_MaxResponseTime (pm_metrics pm)" using inv by (simp_all add: pm_inv_def GetMetrics_def)
  let ?w = "responseTimes pm"
  show ?thesis
  proof (cases "ds = []")
    case True
    then show ?thesis using run w tot by (simp add: last_n_def calculateDerivedMetrics_def)
  next
    case False
    then have ne: "?w \<noteq> []" using assms(2) by (cases ds) (simp_all add: w last_n_def, linarith?)
    have "length ?w < 2 ^ 53" using pm_inv_count [OF inv assms(3)] .
    from derived_percentiles [OF ne this, of now] obtain pm' i j where p: "calculateDerivedMetrics now pm = Some pm'"
      "same_samples pm pm'" "length ?w div 2 \<le> i" "i \<le> j" "j < length ?w"
      "pm_MedianResponseTime (pm_metrics pm') = sort ?w ! (length ?w div 2)"
      "pm_P95ResponseTime (pm_metrics pm') = sort ?w ! i" "pm_P99ResponseTime (pm_metrics pm') = sort ?w ! j" by blast
    have "sort ?w ! (length ?w div 2) \<le> sort ?w ! i" "sort ?w ! i \<le> sort ?w ! j"
      using p(3-5) by (auto intro!: sorted_nth_mono)
    moreover have mem: "sort ?w ! i \<in> set ?w" "sort ?w ! j \<in> set ?w" using p(4,5) nth_mem [of _ "sort ?w"] by auto
    moreover have "sort ?w ! j \<le> pm_MaxResponseTime (pm_metrics pm')"
      using mem(2) mx pm_inv_window [OF inv] p(2) by (auto simp: same_samples_def)
    ultimately have "sorted [sort ?w ! (length ?w div 2), sort ?w ! i, sort ?w ! j, pm_MaxResponseTime (pm_metrics pm')]"
      by (auto intro: order_trans)
    with run w tot p mem show ?thesis by (auto simp: GetMetrics_def)
  qed
qed

theorem monitor_reports_percentiles_witness:
  "\<exists>pm0 pm ds. NewPerformanceMonitor 0 1 2 = Some pm0 \<and>
     pm_run [PmRecord \<lparr>rm_startTime = 0, rm_endTime = 7, rm_success = True, rm_error = None, rm_bytesSent = 1, rm_bytesReceived = 1\<rparr>,
       PmRound CollectRequest] (pm0, []) = Some (pm, ds) \<and> pm_TotalRequests (GetMetrics pm) = 1 \<and> responseTimes pm = [7]"
proof -
  obtain pm0 where n: "NewPerformanceMonitor 0 1 2 = Some pm0" by (simp add: NewPerformanceMonitor_def)
  let ?m = "\<lparr>rm_startTime = 0, rm_endTime = 7, rm_success = True, rm_error = None, rm_bytesSent = 1, rm_bytesReceived = 1\<rparr>"
  obtain pm where r: "pm_run [PmRecord ?m, PmRound CollectRequest] (pm0, []) = Some (pm, [7])"
    using n by (auto simp: NewPerformanceMonitor_def RecordRequest_def collectMetrics_round_def processRequestMetric_def taken_in_def
        time_Sub_def Let_def)
  from monitor_reports_percentiles [OF n, of "[PmRecord ?m, PmRound CollectRequest]" 0] r
  have "responseTimes pm = last_n 2 [7]" "pm_TotalRequests (GetMetrics pm) = 1" by auto
  with n r show ?thesis by (auto simp: last_n_def)
qed

text \<open>
  A monitor that is to keep no samples crashes the program at the first request it processes: the slice that
  drops the oldest sample is out of range.
\<close>

theorem no_samples_crashes:
  assumes "NewPerformanceMonitor start rate 0 = Some pm0"
  shows "pm_run [PmRecord m, PmRound CollectRequest] (pm0, []) = None"
  using assms by (auto simp: NewPerformanceMonitor_def RecordRequest_def collectMetrics_round_def processRequestMetric_def)

section \<open>Reused objects\<close>

text \<open>
  A pooled request keeps the metadata of its last user: \<open>GetRequest\<close> clears the name and the
  arguments only.
\<close>

theorem pooled_request_keeps_meta:
  assumes "GetRequest 0 (PutRequest r pool) = (r', pool')"
  shows "call_Meta r' = call_Meta r \<and> call_Name r' = [] \<and> call_Arguments r' = None"
  using assms by (auto simp: GetRequest_def PutRequest_def ObjectPool_Get_def ObjectPool_Put_def request_reset_def)

text \<open>The pooled encoder gives the text of \<open>json.Marshal\<close> and a newline, whatever the pool holds.\<close>

lemma oje_Marshal_text: "fst (oje_Marshal i v pool) = marshal_any v @ [CHR 0x0A]"
  by (simp add: oje_Marshal_def GetBuffer_def ObjectPool_Get_def bufferWriter_Write_def split: prod.split)

end
