(* ===== verification/Schema.thy ===== *)
theory Schema
  imports Json_Struct Sse TokenGuard
begin

text \<open>
  The JSON schemas of Go types (\<open>src/mcp.go\<close>): \<open>generateSchemaForType\<close> walks a type with
  \<open>reflect\<close> and the results are cached by the name of the type. Types are a datatype with the
  kinds the code distinguishes; a named type stands for its entry in an environment, so that types
  may be recursive, and the walk has fuel. Embedded fields are not modelled.
\<close>

section \<open>Types and schemas\<close>

datatype go_type =
    GString | GNum | GByte | GBool | GInterface | GOther
  | GSlice go_type | GArray go_type | GMap go_type | GPtr go_type
  | GStruct "go_field list"
  | GNamed string
and go_field = Field (fld_name: string) (fld_exported: bool) (fld_json: string) (fld_desc: string) (fld_type: go_type)

text \<open>The maps the generator builds, by their shape; \<open>schema_any\<close> is the map.\<close>

datatype schema =
    SType string
  | SArray schema
  | SMap schema
  | SStruct "(string \<times> schema) list" "string list"  \<comment> \<open>properties, later ones overwrite; required\<close>
  | SDesc string schema

fun schema_members :: "schema \<Rightarrow> (string \<times> go_any) list" where
  "schema_members (SType t) = [(''type'', AStr t)]"
| "schema_members (SArray s) = [(''type'', AStr ''array''), (''items'', AObj (canon_members (schema_members s)))]"
| "schema_members (SMap s) = [(''type'', AStr ''object''), (''additionalProperties'', AObj (canon_members (schema_members s)))]"
| "schema_members (SStruct ps req) =
     [(''type'', AStr ''object''),
      (''properties'', AObj (canon_members (map (\<lambda>(k, s). (k, AObj (canon_members (schema_members s)))) ps)))] @
     (if req = [] then [] else [(''required'', AArr (map AStr req))])"
| "schema_members (SDesc d s) = schema_members s @ [(''description'', AStr d)]"

definition schema_any :: "schema \<Rightarrow> go_any" where
  "schema_any s = AObj (canon_members (schema_members s))"

text \<open>The kind of a named type is the kind of its definition.\<close>

type_synonym type_env = "string \<Rightarrow> go_type"

fun under :: "type_env \<Rightarrow> go_type \<Rightarrow> go_type" where
  "under env (GNamed n) = env n"
| "under env t = t"

text \<open>The name of a field and whether it is required; \<open>None\<close> for a field that is skipped.\<close>

definition tag_parts :: "go_field \<Rightarrow> string list" where
  "tag_parts f = split_byte CHR '','' (fld_json f)"

definition field_info :: "go_field \<Rightarrow> (string \<times> bool) option" where
  "field_info f =
     (if \<not> fld_exported f then None
      else if fld_json f = [] then Some (fld_name f, True)
      else let parts = tag_parts f
           in if hd parts = ''-'' then None
              else Some (if hd parts \<noteq> [] then hd parts else fld_name f, ''omitempty'' \<notin> set (tl parts)))"

definition field_schema :: "go_field \<Rightarrow> schema \<Rightarrow> schema" where
  "field_schema f s = (if fld_desc f \<noteq> [] then SDesc (fld_desc f) s else s)"

definition seen_fields :: "go_field list \<Rightarrow> go_field list" where
  "seen_fields fs = filter (\<lambda>f. field_info f \<noteq> None) fs"

definition struct_schema :: "go_field list \<Rightarrow> schema list \<Rightarrow> schema" where
  "struct_schema fs ss =
     SStruct (map2 (\<lambda>f s. (fst (the (field_info f)), field_schema f s)) (seen_fields fs) ss)
       (map (\<lambda>f. fst (the (field_info f))) (filter (\<lambda>f. snd (the (field_info f))) (seen_fields fs)))"

fun generateSchemaForType :: "type_env \<Rightarrow> nat \<Rightarrow> go_type \<Rightarrow> schema option" where
  "generateSchemaForType env 0 t = None"
| "generateSchemaForType env (Suc n) t =
     (case (case under env t of GPtr u \<Rightarrow> under env u | t \<Rightarrow> t) of
        GString \<Rightarrow> Some (SType ''string'')
      | GNum \<Rightarrow> Some (SType ''number'')
      | GByte \<Rightarrow> Some (SType ''number'')
      | GBool \<Rightarrow> Some (SType ''boolean'')
      | GSlice u \<Rightarrow> map_option SArray (generateSchemaForType env n u)
      | GArray u \<Rightarrow> map_option SArray (generateSchemaForType env n u)
      | GMap u \<Rightarrow> map_option SMap (generateSchemaForType env n u)
      | GStruct fs \<Rightarrow> map_option (struct_schema fs) (those (map (\<lambda>f. generateSchemaForType env n (fld_type f)) (seen_fields fs)))
      | _ \<Rightarrow> Some (SType ''object''))"

text \<open>\<open>reflect.TypeOf\<close> of the zero value of an interface type is nil, whose \<open>Kind\<close> panics.\<close>

definition generateJSONSchemaReflection :: "type_env \<Rightarrow> nat \<Rightarrow> go_type \<Rightarrow> (panic_value + bytes) option" where
  "generateJSONSchemaReflection env n t =
     (if under env t = GInterface
      then Some (Inl (PanicOther ''runtime error: invalid memory address or nil pointer dereference''))
      else map_option (\<lambda>s. Inr (marshal_any (schema_any s))) (generateSchemaForType env n t))"

text \<open>The cache of schemas and the key of a type, the text of \<open>%T\<close>, which names the package of a type
  but not its path; \<open>type_key\<close> is an argument.\<close>

definition GetOrCreate :: "string \<Rightarrow> (panic_value + bytes) option \<Rightarrow> (string, bytes) gomap \<Rightarrow> ((string, bytes) gomap \<times> (panic_value + bytes)) option" where
  "GetOrCreate typeKey generated c =
     (case map_of c typeKey of
        Some schema \<Rightarrow> Some (c, Inr schema)
      | None \<Rightarrow>
          (case generated of
             None \<Rightarrow> None
           | Some (Inl p) \<Rightarrow> Some (c, Inl p)
           | Some (Inr schema) \<Rightarrow> Some (AList.update typeKey schema c, Inr schema)))"

definition createJSONSchema ::
  "type_env \<Rightarrow> (go_type \<Rightarrow> string) \<Rightarrow> nat \<Rightarrow> go_type \<Rightarrow> (string, bytes) gomap \<Rightarrow> ((string, bytes) gomap \<times> (panic_value + bytes)) option" where
  "createJSONSchema env type_key n t c = GetOrCreate (type_key t) (generateJSONSchemaReflection env n t) c"

section \<open>Values\<close>

text \<open>Values of Go types, and their JSON as \<open>encoding/json\<close> gives it: bytes of a slice as a base64 string, nil
  slices, maps and pointers as null, fields without \<open>omitempty\<close> always.\<close>

datatype go_val =
    VStr string | VNum rat | VBool bool | VBytes bytes | VNil | VAny go_any
  | VList "go_val list" | VMap "(string \<times> go_val) list" | VPtr go_val
  | VStruct "(go_field \<times> go_val) list"

definition json_name :: "go_field \<Rightarrow> (string \<times> bool) option" where
  "json_name f =
     (if \<not> fld_exported f \<or> fld_json f = ''-'' then None
      else Some (if hd (tag_parts f) \<noteq> [] then hd (tag_parts f) else fld_name f, ''omitempty'' \<in> set (tl (tag_parts f))))"

fun is_empty_val :: "go_val \<Rightarrow> bool" where
  "is_empty_val (VStr s) \<longleftrightarrow> s = []"
| "is_empty_val (VNum x) \<longleftrightarrow> x = 0"
| "is_empty_val (VBool b) \<longleftrightarrow> \<not> b"
| "is_empty_val (VBytes b) \<longleftrightarrow> b = []"
| "is_empty_val VNil \<longleftrightarrow> True"
| "is_empty_val (VAny a) \<longleftrightarrow> a = ANil"
| "is_empty_val (VList vs) \<longleftrightarrow> vs = []"
| "is_empty_val (VMap kvs) \<longleftrightarrow> kvs = []"
| "is_empty_val _ \<longleftrightarrow> False"

definition omitted :: "go_field \<Rightarrow> go_val \<Rightarrow> bool" where
  "omitted f v \<longleftrightarrow> (case json_name f of None \<Rightarrow> True | Some (k, omitempty) \<Rightarrow> omitempty \<and> is_empty_val v)"

definition StdEncoding_EncodeToString :: "bytes \<Rightarrow> string" where
  "StdEncoding_EncodeToString b =
     map (\<lambda>c. if c = CHR ''-'' then CHR ''+'' else if c = CHR ''_'' then CHR ''/'' else c) (URLEncoding_EncodeToString b)"

fun enc_val :: "go_val \<Rightarrow> go_any" where
  "enc_val (VStr s) = AStr s"
| "enc_val (VNum x) = ANum x"
| "enc_val (VBool b) = ABool b"
| "enc_val (VBytes b) = AStr (StdEncoding_EncodeToString b)"
| "enc_val VNil = ANil"
| "enc_val (VAny a) = a"
| "enc_val (VList vs) = AArr (map enc_val vs)"
| "enc_val (VMap kvs) = AObj (canon_members (map (\<lambda>(k, v). (k, enc_val v)) kvs))"
| "enc_val (VPtr v) = enc_val v"
| "enc_val (VStruct fvs) =
     AObj (map (\<lambda>(f, v). (fst (the (json_name f)), enc_val v)) (filter (\<lambda>(f, v). \<not> omitted f v) fvs))"


section \<open>Schemas accept values\<close>

text \<open>The meaning of a schema.\<close>

fun accepts_schema :: "schema \<Rightarrow> go_any \<Rightarrow> bool" where
  "accepts_schema (SType t) j \<longleftrightarrow>
     (case j of AStr s \<Rightarrow> t = ''string'' | ANum x \<Rightarrow> t = ''number'' | ABool b \<Rightarrow> t = ''boolean'' | AObj ms \<Rightarrow> t = ''object''
      | AArr js \<Rightarrow> t = ''array'' | ANil \<Rightarrow> False)"
| "accepts_schema (SArray s) j \<longleftrightarrow> (case j of AArr js \<Rightarrow> list_all (accepts_schema s) js | _ \<Rightarrow> False)"
| "accepts_schema (SMap s) j \<longleftrightarrow> (case j of AObj ms \<Rightarrow> list_all (\<lambda>m. accepts_schema s (snd m)) ms | _ \<Rightarrow> False)"
| "accepts_schema (SStruct ps req) j \<longleftrightarrow>
     (case j of
        AObj ms \<Rightarrow> list_all (\<lambda>k. k \<in> fst ` set ms) req \<and>
                  list_all (\<lambda>m. list_all (\<lambda>p. fst p = fst m \<longrightarrow> accepts_schema (snd p) (snd m)) ps) ms
      | _ \<Rightarrow> False)"
| "accepts_schema (SDesc d s) j \<longleftrightarrow> accepts_schema s j"

text \<open>
  Which values of a type are shown as the schema says: no nil except in fields that leave it out, no
  bytes, no pointer to a pointer, and objects where the type is an interface. Structs have
  fields with distinct JSON names and without the tag \<open>-,\<close>.
\<close>

definition plain_fields :: "go_field list \<Rightarrow> bool" where
  "plain_fields fs \<longleftrightarrow> distinct (map (\<lambda>f. fst (the (field_info f))) (seen_fields fs)) \<and>
     list_all (\<lambda>f. hd (tag_parts f) = ''-'' \<longrightarrow> fld_json f = ''-'') fs"

inductive shown_as :: "type_env \<Rightarrow> go_val \<Rightarrow> go_type \<Rightarrow> bool" for env where
  sh_str: "under env t = GString \<Longrightarrow> shown_as env (VStr s) t"
| sh_num: "under env t \<in> {GNum, GByte} \<Longrightarrow> shown_as env (VNum x) t"
| sh_bool: "under env t = GBool \<Longrightarrow> shown_as env (VBool b) t"
| sh_any: "under env t = GInterface \<Longrightarrow> shown_as env (VAny (AObj ms)) t"
| sh_list: "under env t \<in> {GSlice u, GArray u} \<Longrightarrow> \<forall>v \<in> set vs. shown_as env v u \<Longrightarrow> shown_as env (VList vs) t"
| sh_map: "under env t = GMap u \<Longrightarrow> \<forall>v \<in> snd ` set kvs. shown_as env v u \<Longrightarrow> shown_as env (VMap kvs) t"
| sh_ptr: "under env t = GPtr u \<Longrightarrow> \<forall>u'. under env u \<noteq> GPtr u' \<Longrightarrow> shown_as env v u \<Longrightarrow> shown_as env (VPtr v) t"
| sh_struct: "under env t = GStruct fs \<Longrightarrow> plain_fields fs \<Longrightarrow> map fst fvs = fs \<Longrightarrow>
     \<forall>fv \<in> set fvs. omitted (fst fv) (snd fv) \<or> shown_as env (snd fv) (fld_type (fst fv)) \<Longrightarrow> shown_as env (VStruct fvs) t"

inductive_cases shown_asE: "shown_as env v t"

lemma tag_empty: "fld_json f = [] \<Longrightarrow> tag_parts f = [[]]"
  by (simp add: tag_parts_def)

lemma tag_dash: "fld_json f = ''-'' \<Longrightarrow> tag_parts f = [''-'']"
  by (simp add: tag_parts_def)

lemma json_name_info:
  assumes "hd (tag_parts f) = ''-'' \<longrightarrow> fld_json f = ''-''"
  shows "json_name f = map_option (\<lambda>(k, required). (k, \<not> required)) (field_info f)"
proof (cases "fld_json f = [] \<or> fld_json f = ''-''")
  case True
  then show ?thesis using tag_empty [of f] tag_dash [of f] by (elim disjE) (simp_all add: json_name_def field_info_def)
next
  case False
  with assms have "hd (tag_parts f) \<noteq> ''-''" by blast
  with False show ?thesis by (simp add: json_name_def field_info_def Let_def)
qed

lemma those_SomeD: "those (map f xs) = Some ys \<Longrightarrow> length ys = length xs \<and> (\<forall>i < length xs. f (xs ! i) = Some (ys ! i))"
proof (induction xs arbitrary: ys)
  case (Cons x xs)
  then show ?case by (cases ys) (auto split: option.splits simp: nth_Cons split: nat.splits)
qed simp

text \<open>The schema of a field, through the list of schemas.\<close>

lemma struct_schema_field:
  assumes "those (map g (seen_fields fs)) = Some ss" and "(k, s) \<in> set (map2 (\<lambda>f s. (fst (the (field_info f)), field_schema f s)) (seen_fields fs) ss)"
  shows "\<exists>f s'. f \<in> set (seen_fields fs) \<and> k = fst (the (field_info f)) \<and> s = field_schema f s' \<and> g f = Some s'"
proof -
  obtain i where i: "i < length (seen_fields fs)" "k = fst (the (field_info (seen_fields fs ! i)))" "s = field_schema (seen_fields fs ! i) (ss ! i)"
    using assms(2) those_SomeD [OF assms(1)] by (auto simp: in_set_conv_nth)
  with those_SomeD [OF assms(1)] nth_mem [OF i(1)] show ?thesis by blast
qed

lemma accepts_field_schema [simp]: "accepts_schema (field_schema f s) j = accepts_schema s j"
  by (simp add: field_schema_def)

lemma canon_members_values: "snd ` set (canon_members ms) \<subseteq> snd ` set ms"
proof -
  have "(the (map_of (rev ms) k)) \<in> snd ` set ms" if "k \<in> fst ` set ms" for k
  proof -
    from that obtain v where "map_of (rev ms) k = Some v"
      by (metis map_of_eq_None_iff not_None_eq set_rev)
    then show ?thesis by (metis map_of_SomeD image_eqI option.sel set_rev snd_conv)
  qed
  then show ?thesis by (force simp: canon_members_def)
qed

lemma struct_accepts:
  assumes "plain_fields fs" and "map fst fvs = fs" and "those (map g (seen_fields fs)) = Some ss"
    and "\<And>f v s. (f, v) \<in> set fvs \<Longrightarrow> \<not> omitted f v \<Longrightarrow> f \<in> set (seen_fields fs) \<Longrightarrow> g f = Some s \<Longrightarrow> accepts_schema s (enc_val v)"
  shows "accepts_schema (struct_schema fs ss) (enc_val (VStruct fvs))"
proof -
  have names: "json_name f = map_option (\<lambda>(k, required). (k, \<not> required)) (field_info f)" if "f \<in> set fs" for f
    using that assms(1) by (intro json_name_info) (simp add: plain_fields_def list_all_iff)
  have fields: "f \<in> set fs" if "(f, v) \<in> set fvs" for f v using that assms(2) by force
  have seen: "f \<in> set (seen_fields fs)" "fst (the (json_name f)) = fst (the (field_info f))" if "(f, v) \<in> set fvs" "\<not> omitted f v" for f v
    using fields [OF that(1)] that(2) names [OF fields [OF that(1)]]
    by (auto simp: seen_fields_def omitted_def split: option.splits prod.splits)
  have req: "\<exists>v. (f, v) \<in> set fvs \<and> \<not> omitted f v"
    if "f \<in> set (seen_fields fs)" "snd (the (field_info f))" for f
  proof -
    have "f \<in> set fs" using that(1) by (simp add: seen_fields_def)
    then obtain v where "(f, v) \<in> set fvs" using assms(2) by force
    moreover have "\<not> omitted f v" using that names [OF \<open>f \<in> set fs\<close>] by (auto simp: omitted_def seen_fields_def)
    ultimately show ?thesis by blast
  qed
  have each: "accepts_schema s (enc_val v)"
    if "(f, v) \<in> set fvs" "\<not> omitted f v"
      "(fst (the (json_name f)), s) \<in> set (map2 (\<lambda>f s. (fst (the (field_info f)), field_schema f s)) (seen_fields fs) ss)" for f v s
  proof -
    from struct_schema_field [OF assms(3) that(3)] obtain f' s' where f': "f' \<in> set (seen_fields fs)"
      "fst (the (json_name f)) = fst (the (field_info f'))" "s = field_schema f' s'" "g f' = Some s'" by blast
    have "f' = f" using assms(1) f'(1,2) seen [OF that(1,2)] by (auto simp: plain_fields_def distinct_map dest: inj_onD)
    with f' assms(4) [OF that(1,2) seen(1) [OF that(1,2)]] show ?thesis by simp
  qed
  show ?thesis
    unfolding struct_schema_def
    using req seen(2) each by (force simp: list_all_iff image_iff)
qed


section \<open>When the generator returns\<close>

fun names_in :: "go_type \<Rightarrow> string set" and names_of_field :: "go_field \<Rightarrow> string set" where
  "names_in (GNamed n) = {n}"
| "names_in (GSlice t) = names_in t"
| "names_in (GArray t) = names_in t"
| "names_in (GMap t) = names_in t"
| "names_in (GPtr t) = names_in t"
| "names_in (GStruct fs) = (\<Union>f \<in> set fs. names_of_field f)"
| "names_in t = {}"
| "names_of_field (Field n e j d t) = names_in t"

lemma names_of_field_type: "names_of_field f = names_in (fld_type f)"
  by (cases f) simp

lemma those_Some_iff: "(\<exists>ys. those xs = Some ys) \<longleftrightarrow> None \<notin> set xs"
  by (induction xs) (auto split: option.split)

lemma those_mono:
  assumes "those (map f xs) = Some ys" and "\<And>x y. f x = Some y \<Longrightarrow> g x = Some y"
  shows "those (map g xs) = Some ys"
  using assms(1)
proof (induction xs arbitrary: ys)
  case (Cons x xs)
  then show ?case using assms(2) by (fastforce split: option.splits)
qed simp

lemma schema_fuel_Suc: "generateSchemaForType env n t = Some s \<Longrightarrow> generateSchemaForType env (Suc n) t = Some s"
proof (induction n arbitrary: t s)
  case (Suc n)
  let ?k = "case under env t of GPtr u \<Rightarrow> under env u | t \<Rightarrow> t"
  show ?case
  proof (cases ?k)
    case (GStruct fs)
    then obtain ss where ss: "those (map (\<lambda>f. generateSchemaForType env n (fld_type f)) (seen_fields fs)) = Some ss" "s = struct_schema fs ss"
      using Suc.prems by auto
    have "those (map (\<lambda>f. generateSchemaForType env (Suc n) (fld_type f)) (seen_fields fs)) = Some ss"
      by (rule those_mono [OF ss(1)]) (rule Suc.IH)
    with GStruct ss(2) show ?thesis by (simp only: generateSchemaForType.simps) simp
  next
    case (GSlice u)
    then show ?thesis using Suc by (simp only: generateSchemaForType.simps) auto
  next
    case (GArray u)
    then show ?thesis using Suc by (simp only: generateSchemaForType.simps) auto
  next
    case (GMap u)
    then show ?thesis using Suc by (simp only: generateSchemaForType.simps) auto
  qed (use Suc.prems in simp_all)
qed simp

lemma schema_fuel_mono: "n \<le> m \<Longrightarrow> generateSchemaForType env n t = Some s \<Longrightarrow> generateSchemaForType env m t = Some s"
  by (induction m rule: dec_induct) (simp_all add: schema_fuel_Suc del: generateSchemaForType.simps)

lemma schema_named:
  assumes "\<forall>m. env n \<noteq> GNamed m"
  shows "generateSchemaForType env k (GNamed n) = generateSchemaForType env k (env n)"
  using assms by (cases k; cases "env n") auto

lemma struct_returns:
  assumes "\<And>f. f \<in> set fs \<Longrightarrow> \<exists>k s. generateSchemaForType env k (fld_type f) = Some s"
  shows "\<exists>k s. generateSchemaForType env k (GStruct fs) = Some s"
proof -
  from assms obtain K where K: "\<And>f. f \<in> set fs \<Longrightarrow> \<exists>s. generateSchemaForType env (K f) (fld_type f) = Some s" by metis
  define k where "k = Max (insert 0 (K ` set fs))"
  have "\<exists>s. generateSchemaForType env k (fld_type f) = Some s" if "f \<in> set fs" for f
    using K [OF that] schema_fuel_mono [of "K f" k] that by (force simp: k_def)
  then have "None \<notin> set (map (\<lambda>f. generateSchemaForType env k (fld_type f)) (seen_fields fs))" by (force simp: seen_fields_def)
  then obtain ss where "those (map (\<lambda>f. generateSchemaForType env k (fld_type f)) (seen_fields fs)) = Some ss"
    using those_Some_iff by blast
  then have "generateSchemaForType env (Suc k) (GStruct fs) = Some (struct_schema fs ss)" by simp
  then show ?thesis by blast
qed

text \<open>A literal type returns when its parts do.\<close>

lemma literal_returns:
  "(\<forall>m \<in> names_in t. \<exists>k s. generateSchemaForType env k (GNamed m) = Some s) \<Longrightarrow> \<exists>k s. generateSchemaForType env k t = Some s"
  "(\<forall>m \<in> names_of_field f. \<exists>k s. generateSchemaForType env k (GNamed m) = Some s) \<Longrightarrow>
     \<exists>k s. generateSchemaForType env k (fld_type f) = Some s"
proof (induction t and f)
  case (GPtr u)
  then obtain k s where k: "generateSchemaForType env k u = Some s" by auto
  then obtain j where "k = Suc j" by (cases k) simp_all
  with k have "\<exists>s. generateSchemaForType env (Suc j) (GPtr u) = Some s" by (cases "under env u") auto
  then show ?case by blast
next
  case (GStruct fs)
  then show ?case by (intro struct_returns) auto
next
  case (GSlice u)
  then obtain k s where "generateSchemaForType env k u = Some s" by auto
  then have "generateSchemaForType env (Suc k) (GSlice u) = Some (SArray s)" by simp
  then show ?case by blast
next
  case (GArray u)
  then obtain k s where "generateSchemaForType env k u = Some s" by auto
  then have "generateSchemaForType env (Suc k) (GArray u) = Some (SArray s)" by simp
  then show ?case by blast
next
  case (GMap u)
  then obtain k s where "generateSchemaForType env k u = Some s" by auto
  then have "generateSchemaForType env (Suc k) (GMap u) = Some (SMap s)" by simp
  then show ?case by blast
qed (auto intro: exI [of _ "Suc 0"])

text \<open>
  C39. The generator returns for every type that does not contain itself: when the named types can be ranked so
  that the definition of each mentions only lower ones, there is a fuel from which on the
  result is always the same schema.
\<close>

theorem schema_generation_terminates:
  assumes "\<And>n m. env n \<noteq> GNamed m" and "\<And>n m. m \<in> names_in (env n) \<Longrightarrow> rank m < (rank n :: nat)"
  shows "\<exists>k s. \<forall>k' \<ge> k. generateSchemaForType env k' t = Some s"
proof -
  have "\<exists>k s. generateSchemaForType env k (GNamed n) = Some s" for n
  proof (induction "rank n" arbitrary: n rule: less_induct)
    case less
    then have "\<exists>k s. generateSchemaForType env k (env n) = Some s" using assms(2) by (intro literal_returns(1)) blast
    then show ?case using schema_named [of env n] assms(1) by metis
  qed
  then obtain k s where "generateSchemaForType env k t = Some s" using literal_returns(1) by blast
  then show ?thesis using schema_fuel_mono by blast
qed

section \<open>Where schemas and values part\<close>

lemma those_None: "None \<in> set xs \<Longrightarrow> those xs = None"
  using those_Some_iff [of xs] by (cases "those xs") auto

definition node_type :: go_type where
  "node_type = GStruct [Field ''Value'' True [] [] GNum, Field ''Next'' True ''next,omitempty'' [] (GPtr (GNamed ''Node''))]"

text \<open>
  For a type that contains itself the generator never returns, whatever the fuel: a linked list, say,
  overflows the stack when a tool with it is registered.
\<close>

theorem recursive_type_never_returns:
  assumes "env ''Node'' = node_type"
  shows "generateSchemaForType env n (GNamed ''Node'') = None"
proof -
  have seen: "Field ''Next'' True ''next,omitempty'' [] (GPtr (GNamed ''Node'')) \<in>
      set (seen_fields [Field ''Value'' True [] [] GNum, Field ''Next'' True ''next,omitempty'' [] (GPtr (GNamed ''Node''))])"
    by (auto simp: seen_fields_def field_info_def tag_parts_def Let_def)
  have "generateSchemaForType env n (GNamed ''Node'') = None \<and> generateSchemaForType env n (GPtr (GNamed ''Node'')) = None"
  proof (induction n)
    case (Suc n)
    then have "None \<in> set (map (\<lambda>f. generateSchemaForType env n (fld_type f))
        (seen_fields [Field ''Value'' True [] [] GNum, Field ''Next'' True ''next,omitempty'' [] (GPtr (GNamed ''Node''))]))"
      using seen by force
    note those_None [OF this]
    then show ?case using assms by (simp add: node_type_def)
  qed simp
  then show ?thesis by blast
qed

text \<open>
  Types with the same printed name share the schema of the first: the cache is keyed by \<open>%T\<close>, which prints
  the last element of the package path only.
\<close>

theorem schema_cache_confuses_types:
  assumes "type_key t = type_key u" and "createJSONSchema env type_key n t [] = Some (c, Inr schema)"
  shows "createJSONSchema env type_key m u c = Some (c, Inr schema)"
  using assms by (auto simp: createJSONSchema_def GetOrCreate_def split: option.splits sum.splits)

text \<open>
  Two kinds of values are not what their schema says: a byte slice is announced as an array and sent as a string,
  and a nil slice is sent as null; and a tool with an interface type as input or output panics at registration.
\<close>

lemma byte_slice_not_accepted:
  "generateSchemaForType env (Suc (Suc n)) (GSlice GByte) = Some (SArray (SType ''number'')) \<and>
   \<not> accepts_schema (SArray (SType ''number'')) (enc_val (VBytes b)) \<and> \<not> accepts_schema (SArray (SType ''number'')) (enc_val VNil)"
  by simp

lemma interface_schema_panics: "\<exists>p. createJSONSchema env type_key n GInterface [] = Some ([], Inl p)"
  by (simp add: createJSONSchema_def GetOrCreate_def generateJSONSchemaReflection_def)

section \<open>Witnesses\<close>

definition point_env :: type_env where
  "point_env n = (if n = ''Shape'' then GSlice (GNamed ''Point'')
     else if n = ''Point'' then GStruct [Field ''X'' True ''x'' ''abscissa'' GNum, Field ''Label'' True ''label,omitempty'' [] (GPtr GString)]
     else GOther)"

definition point_rank :: "string \<Rightarrow> nat" where
  "point_rank n = (if n = ''Shape'' then 1 else 0)"

definition demo_shape :: go_val where
  "demo_shape = VList [VStruct [(Field ''X'' True ''x'' ''abscissa'' GNum, VNum 3), (Field ''Label'' True ''label,omitempty'' [] (GPtr GString), VNil)]]"

definition demo_schema :: schema where
  "demo_schema = SArray (SStruct [(''x'', SDesc ''abscissa'' (SType ''number'')), (''label'', SType ''string'')] [''x''])"

lemma demo_generated: "generateSchemaForType point_env 3 (GNamed ''Shape'') = Some demo_schema"
  by (auto simp: point_env_def demo_schema_def struct_schema_def seen_fields_def field_info_def field_schema_def tag_parts_def
      numeral_eq_Suc Let_def)

lemma demo_shown: "shown_as point_env demo_shape (GNamed ''Shape'')"
  unfolding demo_shape_def
proof (rule sh_list [where u = "GNamed ''Point''"]; (intro ballI)?)
  fix v assume "v \<in> set [VStruct [(Field ''X'' True ''x'' ''abscissa'' GNum, VNum 3), (Field ''Label'' True ''label,omitempty'' [] (GPtr GString), VNil)]]"
  moreover have "shown_as point_env (VNum 3) GNum" by (rule sh_num) simp
  ultimately show "shown_as point_env v (GNamed ''Point'')"
    by (auto intro!: sh_struct simp: point_env_def plain_fields_def seen_fields_def field_info_def tag_parts_def omitted_def json_name_def Let_def)
qed (simp add: point_env_def)


theorem schema_generation_terminates_witness:
  "\<exists>k. generateSchemaForType point_env (k + 3) (GNamed ''Shape'') = Some demo_schema"
proof -
  have a: "point_env n \<noteq> GNamed m" for n m by (simp add: point_env_def)
  have "m \<in> names_in (point_env n) \<Longrightarrow> point_rank m < point_rank n" for n m
    by (auto simp: point_env_def point_rank_def split: if_splits)
  from schema_generation_terminates [of point_env point_rank "GNamed ''Shape''", OF a this] obtain k s where
    k: "\<forall>k' \<ge> k. generateSchemaForType point_env k' (GNamed ''Shape'') = Some s" by blast
  have "generateSchemaForType point_env (k + 3) (GNamed ''Shape'') = Some demo_schema"
    by (rule schema_fuel_mono [OF _ demo_generated]) simp
  then show ?thesis by blast
qed

end
