(* ===== verification/Typed.thy ===== *)
theory Typed
  imports Client Server_Props Schema
begin

text \<open>
  Typed tools and typed calls (\<open>src/typed.go\<close>): a Go function as a tool, with its schemas and the
  JSON of its input and output, the client call that gets its result back, the handler chain and
  the comparison of schemas. The JSON decoders and encoders of the user's types are arguments; an
  encoder gives the JSON value.
\<close>

section \<open>Tool results\<close>

record CallToolResult =
  ctr_Content :: "go_any list"
  ctr_StructuredContent :: "go_any option"
  ctr_IsError :: bool
  ctr_Meta :: "json_members option"

definition enc_CallToolResult :: "CallToolResult \<Rightarrow> go_any" where
  "enc_CallToolResult r =
     AObj ([(''content'', AArr (ctr_Content r))] @ opt_field ''structuredContent'' id (ctr_StructuredContent r) @
       flag_field ''isError'' (ctr_IsError r) @ map_field ''_meta'' (ctr_Meta r))"

definition dec_anys :: "go_any list decoder" where
  "dec_anys x v =
     (case snd v of
        JArr js \<Rightarrow> if list_all any_decodes js then Inr (map decode_any js) else Inl json_error
      | JNull \<Rightarrow> Inr [] | _ \<Rightarrow> Inl json_error)"

definition dec_iface_option :: "go_any option decoder" where
  "dec_iface_option x v =
     (case dec_iface ANil v of Inl e \<Rightarrow> Inl e | Inr ANil \<Rightarrow> Inr None | Inr a \<Rightarrow> Inr (Some a))"

definition dec_CallToolResult :: "CallToolResult \<Rightarrow> json_members \<Rightarrow> mcp_error + CallToolResult" where
  "dec_CallToolResult x ms =
     (let F = [''content'', ''structuredContent'', ''isError'', ''_meta'']
      in sum_bind (field F ms ''content'' dec_anys (ctr_Content x)) (\<lambda>c.
         sum_bind (field F ms ''structuredContent'' dec_iface_option (ctr_StructuredContent x)) (\<lambda>s.
         sum_bind (field F ms ''isError'' dec_bool (ctr_IsError x)) (\<lambda>e.
         sum_bind (field F ms ''_meta'' dec_map (ctr_Meta x)) (\<lambda>m.
         Inr \<lparr>ctr_Content = c, ctr_StructuredContent = s, ctr_IsError = e, ctr_Meta = m\<rparr>)))))"

definition zero_CallToolResult :: CallToolResult where
  "zero_CallToolResult = \<lparr>ctr_Content = [], ctr_StructuredContent = None, ctr_IsError = False, ctr_Meta = None\<rparr>"

section \<open>Typed tools\<close>

text \<open>\<open>%q\<close> of a name: in double quotes, with quotes and backslashes escaped. Names with characters that Go
  does not print are outside the model.\<close>

definition go_quote :: "string \<Rightarrow> string" where
  "go_quote s = CHR 0x22 # concat (map (\<lambda>c. if c = CHR 0x22 \<or> c = CHR 0x5C then [CHR 0x5C, c] else [c]) s) @ [CHR 0x22]"

definition tool_error_result :: "string \<Rightarrow> CallToolResult" where
  "tool_error_result text' =
     \<lparr>ctr_Content = [AObj [(''text'', AStr text'), (''type'', AStr ''text'')]], ctr_StructuredContent = None, ctr_IsError = True, ctr_Meta = None\<rparr>"

definition typed_tool_handler ::
  "string \<Rightarrow> (bytes \<Rightarrow> mcp_error + 'a) \<Rightarrow> 'a \<Rightarrow> ('a \<Rightarrow> 'r outcome) \<Rightarrow> ('r \<Rightarrow> mcp_error + go_any) \<Rightarrow>
   CallToolRequest \<Rightarrow> CallToolResult outcome" where
  "typed_tool_handler name dec zero handler enc req =
     (case (case call_Arguments req of Some args \<Rightarrow> if args \<noteq> [] then dec args else Inr zero | None \<Rightarrow> Inr zero) of
        Inl err \<Rightarrow> Returns (tool_error_result (''Invalid input for tool '' @ go_quote name @ '': '' @ error_string err))
      | Inr input \<Rightarrow>
          (case handler input of
             Panics v \<Rightarrow> Panics v
           | Fails err \<Rightarrow> Returns (tool_error_result (''Tool '' @ go_quote name @ '' error: '' @ error_string err))
           | Returns output \<Rightarrow>
               (case enc output of
                  Inl err \<Rightarrow> Returns (tool_error_result (''Failed to marshal output for tool '' @ go_quote name @ '': '' @ error_string err))
                | Inr v \<Rightarrow>
                    Returns \<lparr>ctr_Content = [AObj [(''format'', AStr ''json''), (''text'', AStr (marshal_any v)), (''type'', AStr ''text'')]],
                             ctr_StructuredContent = Some v, ctr_IsError = False, ctr_Meta = None\<rparr>)))"

text \<open>Registration on a server that is not nil: the schemas of both types, then the tool. \<open>None\<close> when a
  schema is never finished.\<close>

definition RegisterTypedToolWithServer ::
  "type_env \<Rightarrow> (go_type \<Rightarrow> string) \<Rightarrow> nat \<Rightarrow> go_type \<Rightarrow> go_type \<Rightarrow> string \<Rightarrow> string \<Rightarrow>
   (CallToolRequest \<Rightarrow> CallToolResult outcome) \<Rightarrow> (string, bytes) gomap \<times> Server \<Rightarrow>
   ((string, bytes) gomap \<times> Server \<times> (panic_value + mcp_error option)) option" where
  "RegisterTypedToolWithServer env type_key fuel targ tresult name description toolHandler st =
     (case createJSONSchema env type_key fuel targ (fst st) of
        None \<Rightarrow> None
      | Some (c, Inl p) \<Rightarrow> Some (c, snd st, Inl p)
      | Some (c, Inr inputSchema) \<Rightarrow>
          (case createJSONSchema env type_key fuel tresult c of
             None \<Rightarrow> None
           | Some (c, Inl p) \<Rightarrow> Some (c, snd st, Inl p)
           | Some (c, Inr outputSchema) \<Rightarrow>
               (case RegisterTool \<lparr>tool_Name = name, tool_Description = description, tool_InputSchema = Some inputSchema,
                                  tool_OutputSchema = Some outputSchema\<rparr>
                       (\<lambda>req. map_outcome (\<lambda>r. json_of (enc_CallToolResult r)) (toolHandler req)) (snd st) of
                  (s, err) \<Rightarrow> Some (c, s, Inr err))))"

section \<open>Typed calls\<close>

definition tool_request :: "string \<Rightarrow> go_any \<Rightarrow> go_any" where
  "tool_request name args = AObj [(''name'', AStr name), (''arguments'', args)]"

definition first_text :: "go_any list \<Rightarrow> string option" where
  "first_text content =
     (case content of
        AObj ms # _ \<Rightarrow> (case map_of ms ''text'' of Some (AStr t) \<Rightarrow> Some t | _ \<Rightarrow> None)
      | _ \<Rightarrow> None)"

definition typed_content :: "string \<Rightarrow> (bytes \<Rightarrow> mcp_error + 'r) \<Rightarrow> go_any list \<Rightarrow> mcp_error + 'r" where
  "typed_content toolName dec content =
     (case content of
        [] \<Rightarrow> Inl (PlainErr (''tool '' @ go_quote toolName @ '' returned no content''))
      | AObj ms # _ \<Rightarrow>
          (case map_of ms ''text'' of
             Some (AStr t) \<Rightarrow>
               (case dec t of
                  Inl err \<Rightarrow> Inl (WrapErr (''failed to unmarshal result from tool '' @ go_quote toolName) err)
                | Inr x \<Rightarrow> Inr x)
           | _ \<Rightarrow> Inl (PlainErr (''tool '' @ go_quote toolName @ '' returned no text content'')))
      | _ \<Rightarrow> Inl (PlainErr (''tool '' @ go_quote toolName @ '' returned invalid content format'')))"

definition typed_result :: "string \<Rightarrow> (bytes \<Rightarrow> mcp_error + 'r) \<Rightarrow> CallToolResult \<Rightarrow> mcp_error + 'r" where
  "typed_result toolName dec r =
     (if ctr_IsError r
      then Inl (case first_text (ctr_Content r) of
                  Some t \<Rightarrow> PlainErr (''tool error: '' @ t)
                | None \<Rightarrow> PlainErr (''tool '' @ go_quote toolName @ '' returned error''))
      else case ctr_StructuredContent r of
             Some sc \<Rightarrow>
               if marshal_any sc \<noteq> ''null''
               then (case dec (marshal_any sc) of
                       Inl err \<Rightarrow> Inl (WrapErr (''failed to unmarshal structured result from tool '' @ go_quote toolName) err)
                     | Inr x \<Rightarrow> Inr x)
               else typed_content toolName dec (ctr_Content r)
           | None \<Rightarrow> typed_content toolName dec (ctr_Content r))"

definition CallToolTyped ::
  "string \<Rightarrow> mcp_error + go_any \<Rightarrow> (bytes \<Rightarrow> mcp_error + 'r) \<Rightarrow> call_run \<Rightarrow> 'u Client \<Rightarrow> 'u Client \<times> (mcp_error + 'r)" where
  "CallToolTyped toolName args dec run c =
     (case checkInitialized c of
        Some e \<Rightarrow> (c, Inl e)
      | None \<Rightarrow>
          (case args of
             Inl err \<Rightarrow> (c, Inl (WrapErr (''failed to marshal arguments for tool '' @ go_quote toolName) err))
           | Inr args \<Rightarrow>
               (case CallTool (tool_request toolName args) run c of
                  (c, Inl e) \<Rightarrow> (c, Inl e)
                | (c, Inr body) \<Rightarrow>
                    (c, case json_Unmarshal dec_CallToolResult zero_CallToolResult body of
                          Inl e \<Rightarrow> Inl e
                        | Inr r \<Rightarrow> typed_result toolName dec r))))"

section \<open>Handler chains and schema comparison\<close>

record ('q, 'p) HandlerChain =
  hc_handler :: "'q \<Rightarrow> mcp_error + 'p"
  hc_middlewares :: "(('q \<Rightarrow> mcp_error + 'q) \<Rightarrow> 'q \<Rightarrow> mcp_error + 'q) list"
  hc_validators :: "('q \<Rightarrow> mcp_error option) list"

definition NewHandlerChain :: "('q \<Rightarrow> mcp_error + 'p) \<Rightarrow> ('q, 'p) HandlerChain" where
  "NewHandlerChain h = \<lparr>hc_handler = h, hc_middlewares = [], hc_validators = []\<rparr>"

definition WithMiddleware :: "(('q \<Rightarrow> mcp_error + 'q) \<Rightarrow> 'q \<Rightarrow> mcp_error + 'q) \<Rightarrow> ('q, 'p) HandlerChain \<Rightarrow> ('q, 'p) HandlerChain" where
  "WithMiddleware m hc = hc\<lparr>hc_middlewares := hc_middlewares hc @ [m]\<rparr>"

definition WithValidation :: "('q \<Rightarrow> mcp_error option) \<Rightarrow> ('q, 'p) HandlerChain \<Rightarrow> ('q, 'p) HandlerChain" where
  "WithValidation v hc = hc\<lparr>hc_validators := hc_validators hc @ [v]\<rparr>"

fun first_error :: "('q \<Rightarrow> mcp_error option) list \<Rightarrow> 'q \<Rightarrow> mcp_error option" where
  "first_error [] req = None"
| "first_error (v # vs) req = (case v req of Some e \<Rightarrow> Some e | None \<Rightarrow> first_error vs req)"

definition hc_Handle :: "('q, 'p) HandlerChain \<Rightarrow> 'q \<Rightarrow> mcp_error + 'p" where
  "hc_Handle hc req =
     (case first_error (hc_validators hc) req of
        Some e \<Rightarrow> Inl (WrapErr ''validation failed'' e)
      | None \<Rightarrow> hc_handler hc req)"

text \<open>A chain runs its handler exactly on the requests all validators pass; middlewares are stored and never run.\<close>

lemma first_error_None: "first_error vs req = None \<longleftrightarrow> (\<forall>v \<in> set vs. v req = None)"
  by (induction vs) (auto split: option.split)

lemma chain_middlewares_ignored: "hc_Handle (WithMiddleware m hc) = hc_Handle hc"
  by (simp add: WithMiddleware_def hc_Handle_def fun_eq_iff split: option.split)

definition strings_in :: "go_any list \<Rightarrow> string list" where
  "strings_in xs = concat (map (\<lambda>x. case x of AStr s \<Rightarrow> [s] | _ \<Rightarrow> []) xs)"

definition compareSchemaObjects :: "string \<Rightarrow> (string \<times> go_any) list \<Rightarrow> (string \<times> go_any) list \<Rightarrow> bool \<times> string list" where
  "compareSchemaObjects path obj1 obj2 =
     (let types = (case (map_of obj1 ''type'', map_of obj2 ''type'') of
                     (Some (AStr t1), Some (AStr t2)) \<Rightarrow>
                       if t1 \<noteq> t2 then [path @ '': type mismatch ('' @ t1 @ '' vs '' @ t2 @ '')''] else []
                   | _ \<Rightarrow> []);
          req = (case (map_of obj1 ''required'', map_of obj2 ''required'') of
                   (Some (AArr r1), Some (AArr r2)) \<Rightarrow>
                     map (\<lambda>s. path @ '': new required field '' @ s) (filter (\<lambda>s. s \<notin> set (strings_in r1)) (strings_in r2))
                 | _ \<Rightarrow> [])
      in (types @ req = [], types @ req))"

text \<open>A schema that requires a field compares as compatible with one that requires none at all.\<close>

lemma compare_misses_first_requirement:
  assumes "map_of obj1 ''required'' = None" and "map_of obj1 ''type'' = map_of obj2 ''type''"
  shows "compareSchemaObjects path obj1 (obj2 @ [(''required'', AArr [AStr f])]) = (True, [])"
proof -
  have "map_of (obj2 @ [(''required'', x)]) ''type'' = map_of obj2 ''type''" for x
    by (simp add: map_add_def split: option.split)
  with assms show ?thesis by (simp add: compareSchemaObjects_def Let_def split: option.split go_any.split)
qed

section \<open>A typed call gives the result of the function\<close>

lemma read_tool_request:
  assumes "valid_utf8 name" and "text_ok args" and "depth_any args < maxNestingDepth"
  shows "json_Unmarshal dec_CallToolRequest zero_CallToolRequest (marshal_any (tool_request name args)) =
    Inr \<lparr>call_Name = name, call_Arguments = Some (marshal_any args), call_Meta = None\<rparr>"
proof -
  let ?fs = "[(''name'', AStr name), (''arguments'', args)]"
  have "valid_utf8 ''name''" "valid_utf8 ''arguments''" by code_simp+
  with assms have t: "text_ok (AObj ?fs)" by simp
  have d: "depth_any (AObj ?fs) \<le> maxNestingDepth" using assms(3) by simp
  show ?thesis
    unfolding tool_request_def json_Unmarshal_struct [OF t d]
    by (simp add: dec_CallToolRequest_def zero_CallToolRequest_def field_wire dec_string_def dec_raw_def Let_def)
qed

lemma read_tool_result:
  assumes "list_all any_ok content" and "case sc of None \<Rightarrow> True | Some v \<Rightarrow> any_ok v"
    and "json_parse body = Some (json_of (enc_CallToolResult
      \<lparr>ctr_Content = content, ctr_StructuredContent = sc, ctr_IsError = b, ctr_Meta = None\<rparr>))"
  shows "json_Unmarshal dec_CallToolResult zero_CallToolResult body =
    Inr \<lparr>ctr_Content = content, ctr_StructuredContent = (if sc = Some ANil then None else sc), ctr_IsError = b, ctr_Meta = None\<rparr>"
proof -
  have c: "list_all any_decodes (map json_of content)" "map decode_any (map json_of content) = content"
    using assms(1) by (auto simp: list_all_iff decode_json_of intro!: map_idI)
  have s: "dec_iface_option x (t, json_of v) = Inr (if v = ANil then None else Some v)" if "sc = Some v" for x t v
    using assms(2) that decode_json_of [of v] by (cases v) (auto simp: dec_iface_option_def dec_iface_def)
  show ?thesis
    using assms(3) c s
    by (cases sc) (auto simp: json_Unmarshal_def dec_struct_def dec_CallToolResult_def zero_CallToolResult_def enc_CallToolResult_def
        field_wire dec_anys_def dec_bool_def opt_field_def flag_field_def map_field_def map_fields_def Let_def)
qed

lemma typed_result_ok:
  assumes "dec (marshal_any v) = Inr y"
  shows "typed_result name dec \<lparr>ctr_Content = [AObj [(''format'', AStr ''json''), (''text'', AStr (marshal_any v)), (''type'', AStr ''text'')]],
      ctr_StructuredContent = (if Some v = Some ANil then None else Some v), ctr_IsError = False, ctr_Meta = None\<rparr> = Inr y"
  using assms by (cases "v = ANil") (auto simp: typed_result_def typed_content_def)

abbreviation output_result :: "go_any \<Rightarrow> CallToolResult" where
  "output_result v \<equiv>
     \<lparr>ctr_Content = [AObj [(''format'', AStr ''json''), (''text'', AStr (marshal_any v)), (''type'', AStr ''text'')]],
      ctr_StructuredContent = Some v, ctr_IsError = False, ctr_Meta = None\<rparr>"

lemma content_names: "valid_utf8 ''format''" "valid_utf8 ''text''" "valid_utf8 ''type''" "valid_utf8 ''json''"
  by code_simp+

lemma read_output:
  assumes "json_parse body = Some (json_of (enc_CallToolResult (output_result v)))"
    and "any_ok v" and "valid_utf8 (marshal_any v)" and "dec (marshal_any v) = Inr y"
  shows "\<exists>r. json_Unmarshal dec_CallToolResult zero_CallToolResult body = Inr r \<and> typed_result name dec r = Inr y"
proof -
  have "list_all any_ok [AObj [(''format'', AStr ''json''), (''text'', AStr (marshal_any v)), (''type'', AStr ''text'')]]"
    using content_names assms(3) by (simp add: less_char_def)
  from read_tool_result [OF this _ assms(1)] assms(2) typed_result_ok [of dec v y name, OF assms(4)] show ?thesis by simp
qed

lemma read_failure:
  assumes "json_parse body = Some (json_of (enc_CallToolResult (tool_error_result msg)))" and "valid_utf8 msg"
  shows "\<exists>r. json_Unmarshal dec_CallToolResult zero_CallToolResult body = Inr r \<and>
    typed_result name dec r = Inl (PlainErr (''tool error: '' @ msg))"
proof -
  have "list_all any_ok [AObj [(''text'', AStr msg), (''type'', AStr ''text'')]]"
    using content_names assms(2) by (simp add: less_char_def)
  from read_tool_result [OF this _ assms(1) [unfolded tool_error_result_def]] show ?thesis
    by (simp add: typed_result_def first_text_def)
qed

lemma typed_tool_handler_runs:
  assumes "text_ok args" and "dec_in (marshal_any args) = Inr x"
  shows "typed_tool_handler name dec_in zero h enc \<lparr>call_Name = name, call_Arguments = Some (marshal_any args), call_Meta = None\<rparr> =
      (case h x of Panics v \<Rightarrow> Panics v
       | Fails err \<Rightarrow> Returns (tool_error_result (''Tool '' @ go_quote name @ '' error: '' @ error_string err))
       | Returns output \<Rightarrow>
           (case enc output of
              Inl err \<Rightarrow> Returns (tool_error_result (''Failed to marshal output for tool '' @ go_quote name @ '': '' @ error_string err))
            | Inr v \<Rightarrow> Returns (output_result v)))"
proof -
  have "marshal_any args \<noteq> []" using marshal_any_starts [OF assms(1)] by auto
  with assms(2) show ?thesis by (simp add: typed_tool_handler_def)
qed

text \<open>What a connection may give the client for an answer of the server: any text of the result, or some
  error for an error.\<close>

definition delivers :: "call_run \<Rightarrow> mcp_error + result \<Rightarrow> bool" where
  "delivers run ans \<longleftrightarrow>
     (case ans of
        Inr (RCall j) \<Rightarrow> (\<exists>body. run_await run = Inr body \<and> json_parse body = Some j)
      | Inl e \<Rightarrow> isl (run_await run)
      | _ \<Rightarrow> False)"

lemma CallToolTyped_ready:
  assumes "cl_initialized c" and "cl_conn c"
  shows "snd (CallToolTyped name (Inr args) dec run c) =
    (case run_await run of
       Inl e \<Rightarrow> Inl e
     | Inr body \<Rightarrow> (case json_Unmarshal dec_CallToolResult zero_CallToolResult body of Inl e \<Rightarrow> Inl e | Inr r \<Rightarrow> typed_result name dec r))"
  using assms
  by (simp add: CallToolTyped_def CallTool_def checked_call_def checkInitialized_def client_call_def Let_def split: sum.split)

lemma typed_tool_answer:
  assumes "RegisterTypedToolWithServer env type_key fuel targ tresult name desc th st = Some (cache, s1, Inr None)"
    and "srv_step\<^sup>*\<^sup>* s1 s" and "UnmarshalAndValidateCallTool (Some (validator s)) body = Inr p" and "call_Name p = name"
  shows "snd (handleRequest swap None (request MethodToolsCall (Some body)) s) =
    reported MethodToolsCall (map_outcome RCall (map_outcome (\<lambda>r. json_of (enc_CallToolResult r)) (th p)))"
proof -
  obtain t where t: "tool_Name t = name" "RegisterTool t (\<lambda>req. map_outcome (\<lambda>r. json_of (enc_CallToolResult r)) (th req)) (snd st) = (s1, None)"
  proof -
    obtain i out where "RegisterTool \<lparr>tool_Name = name, tool_Description = desc, tool_InputSchema = i, tool_OutputSchema = out\<rparr>
        (\<lambda>req. map_outcome (\<lambda>r. json_of (enc_CallToolResult r)) (th req)) (snd st) = (s1, None)"
      using assms(1) by (auto simp: RegisterTypedToolWithServer_def split: option.splits sum.splits prod.splits)
    then show thesis by (rule that [rotated]) simp
  qed
  have "map_of (tools s1) name = Some (t, \<lambda>req. map_outcome (\<lambda>r. json_of (enc_CallToolResult r)) (th req))"
    using tools_reg.add_lookup [of "(t, \<lambda>req. map_outcome (\<lambda>r. json_of (enc_CallToolResult r)) (th req))" "snd st"] t by simp
  then have b: "map_of (tools s) name = Some (t, \<lambda>req. map_outcome (\<lambda>r. json_of (enc_CallToolResult r)) (th req))"
    using bindings_kept_steps [OF assms(2)] by (auto simp: bindings_kept_def map_le_def dom_def)
  have v: "ValidateRequest (validator s) MethodToolsCall body = None"
    using assms(3) by (simp add: UnmarshalAndValidateCallTool_def unmarshal_and_validate_def validate_opt_def split: option.splits)
  have "snd (handleRequest swap None (request MethodToolsCall (Some body)) s) = reported MethodToolsCall (snd (handle_tools_call (Some body) s))"
    by (subst handleRequest_request [where h = handle_tools_call]) (simp_all add: v handlers_lookup)
  then show ?thesis using assms(3,4) b by (simp add: handle_tools_call_def raw_def)
qed


text \<open>
  Larger integers do not survive: the client decodes the structured result into an untyped value, whose
  numbers are floats, before it decodes it into the type.
\<close>


lemma structured_result_rounds_integers:
  "decode_any (JNum (show_nat 9007199254740993)) = ANum 9007199254740992"
proof -
  have "ilog2 9007199254740993 = 53" by (rule ilog2_unique) simp_all
  then have "ulp_exp 9007199254740993 = 1" by (simp add: ulp_exp_def)
  moreover have "\<lfloor>9007199254740993 / 2 :: rat\<rfloor> = 4503599627370496" by (simp add: floor_eq_iff)
  ultimately have "fl64 9007199254740993 = 9007199254740992" by (simp add: fl64_def fl_pos_def round_even_def Let_def)
  then show ?thesis using num_parts_show_nat [of 9007199254740993] by (simp add: num_value_def del: show_nat.simps)
qed

definition demo_typed :: "CallToolRequest \<Rightarrow> CallToolResult outcome" where
  "demo_typed = typed_tool_handler ''echo'' Inr [] Returns (\<lambda>s. Inr (AStr ''hi''))"

definition demo_caller :: "unit Client" where
  "demo_caller = (case NewClient None [] of Inr c \<Rightarrow> c\<lparr>cl_initialized := True, cl_conn := True\<rparr>)"

definition demo_answer :: CallToolResult where
  "demo_answer = \<lparr>ctr_Content = [AObj [(''format'', AStr ''json''), (''text'', AStr (marshal_any (AStr ''hi''))), (''type'', AStr ''text'')]],
     ctr_StructuredContent = Some (AStr ''hi''), ctr_IsError = False, ctr_Meta = None\<rparr>"

definition demo_run :: call_run where
  "demo_run = \<lparr>run_id = None, run_await = Inr (marshal_any (enc_CallToolResult demo_answer)), run_watch = None\<rparr>"


end
