(* ===== verification/Spec2Isabelle.thy ===== *)
theory Spec2Isabelle
  imports Pagination Errors RateLimit_Props ConnPool Cache Params Middleware Server_Props Progress TokenGuard
    Sse_Client Builtin_Props Client_Props Secure_Props Server_Types WebSocket Dispatcher Performance
    Schema Typed
begin

text \<open>
  A verification development of the Go library for the Model Context Protocol (the package \<open>mcp\<close>
  at the top of the repository).

  \<^bold>\<open>The program.\<close> A \<^emph>\<open>server\<close> keeps registries of tools, prompts, resources and templates and answers
  JSON-RPC requests: it decodes and validates parameters, runs the registered handler through a
  chain of middlewares, and answers with a result or an error whose text is sanitized. Lists are
  paginated by opaque cursors. Around it stand rate limiters, a cache, a pool of client
  connections, an OAuth provider with a guard for tokens in transit, input validation, progress
  tracking and cancellation, and transports, of which the streamable HTTP transport keeps sessions
  with resumable event streams. A \<^emph>\<open>client\<close> advertises the requests it can handle, calls the server
  and answers it. Typed tools wrap Go functions, with JSON schemas generated from their types.

  \<^bold>\<open>Conventions.\<close> A struct is a record, a map is an association list with distinct keys (the order is
  the order of a range over the map, which theorems quantify over by quantifying over the list),
  an error is a value of \<open>mcp_error\<close>, and a call returns a sum, an option or a datatype with a
  branch for every early return and panic. Clock readings, random bytes, the choice of a \<open>select\<close>
  and code outside the repository (dialling, regular expressions, SHA-256, request handlers) are
  arguments. Mutexes are implicit: what the code does under one lock is one step, and what happens
  between two critical sections is an argument or a separate step. Durations and times are
  integers of nanoseconds; counters that may wrap are 64-bit words; float64 values are rationals
  rounded by \<open>fl64\<close>. Loops that wait use fuel, and the theorems that speak of them say how much is
  enough; loops over data are structural or have a termination proof.

  \<^bold>\<open>Libraries of the model.\<close> \<open>Go_Prelude\<close> (time, maps as association lists and their laws, helper
  lemmas), \<open>Go_Strings\<close> (byte strings, runes, white space, splitting), \<open>Go_Float\<close> (rounding to
  float64 and its error bounds), \<open>Go_Json\<close> (the parser of \<open>encoding/json\<close>; its fuel is the length of
  the text and \<open>json_parse_terminates\<close> shows that more never changes the result), \<open>Go_Marshal\<close>
  (decoding into \<open>interface{}\<close> and marshalling) and \<open>Json_Roundtrip\<close> (what is marshalled is read back).

  \<^bold>\<open>Components.\<close>

  \<^item> \<open>Pagination\<close>: \<open>pagination.go\<close>. Cursors round-trip, following cursors visits every item once.

  \<^item> \<open>Errors\<close>: \<open>errors.go\<close>, \<open>transport.go\<close>, \<open>safego.go\<close> and the error types of \<open>types.go\<close>. The
  sanitizer never lets a sensitive pattern through outside development mode.

  \<^item> \<open>RateLimit\<close>, \<open>RateLimit_Props\<close>: \<open>ratelimit.go\<close>. Both limiters and the composite; the contract of a
  limiter is a locale that both interpret; burst and window limits, throughput up to rounding,
  accounting, and the waiting loop.

  \<^item> \<open>ConnPool\<close>: \<open>connection_pool.go\<close>. Connections are used by one client at a time and closed once;
  graceful shutdown returns.

  \<^item> \<open>Cache\<close>: the in-memory cache of \<open>middleware_advanced.go\<close>.

  \<^item> \<open>Params\<close>: request types and validation of \<open>types.go\<close>, with and without object pools; \<open>Json_Struct\<close>
  decodes structs field by field.

  \<^item> \<open>Middleware\<close>: chain and group of \<open>middleware.go\<close>, \<open>middleware_integration.go\<close> and
  \<open>middleware_registry.go\<close>. The chain is a stable sort by priority.

  \<^item> \<open>Builtin\<close>, \<open>Builtin_Props\<close>: the middlewares of \<open>middleware.go\<close> and \<open>middleware_advanced.go\<close>. Recovery
  stops panics; compression, CORS, caching and schema validation turn out to be transparent; a revoked
  token is refused once the token cache has timed out; metrics balance.

  \<^item> \<open>Server\<close>, \<open>Server_Props\<close>, \<open>Server_Types\<close>: \<open>server.go\<close> and \<open>options.go\<close>. Registries, all request
  handlers, \<open>handleRequest\<close>, notifications, requests to the client. Registrations last, listings are
  complete, failed requests change nothing, and every answer has the type of its method.

  \<^item> \<open>Client\<close>, \<open>Client_Props\<close>: \<open>client.go\<close> and \<open>preempter.go\<close>. After the handshake the server sends
  exactly the requests the client has handlers for; a cancelled call cancels itself on the server.

  \<^item> \<open>Dispatcher\<close>: \<open>dispatcher.go\<close>. Every handler of a notification runs whatever the others do.

  \<^item> \<open>Schema\<close>, \<open>Typed\<close>: \<open>mcp.go\<close> and \<open>typed.go\<close>. The schema of a type accepts the JSON of its values and
  is found for every type that does not contain itself; a typed call gives the result of the function.
  The recursion over types uses fuel, of which \<open>schema_generation_terminates\<close> shows that some is enough.

  \<^item> \<open>Progress\<close>: \<open>progress.go\<close>, over a store of trackers and contexts.

  \<^item> \<open>Auth\<close> and \<open>TokenGuard\<close>: \<open>auth.go\<close> and the transmission guard of \<open>auth_security.go\<close>.

  \<^item> \<open>Secure\<close>, \<open>Secure_Props\<close>: the encrypted token storage of \<open>security.go\<close> and the secure provider and
  middleware of \<open>auth_security.go\<close>. New tokens are accepted, revoked ones never again, and a token is used
  a bounded number of times.

  \<^item> \<open>Security\<close>: the validators and the sanitizer of \<open>security.go\<close>.

  \<^item> \<open>Sse\<close>, \<open>Streamable\<close>, \<open>Streamable_Props\<close>, \<open>Streamable_Handler\<close>: \<open>transport_streamable.go\<close>. Events
  and their scanner; one session with the connections that deliver its streams as a step relation;
  delivery, resumption, wake-ups and routing proved by rule induction over it; the handler with
  its table of sessions, the cap, the reaper and the HTTP methods.

  \<^item> \<open>Stream_Client\<close>, \<open>Sse_Client\<close>: \<open>transport_streamable_client.go\<close> and \<open>transport_sse.go\<close>. What a server
  wrote to a stream is what the client reads, however the bytes are cut into chunks.

  \<^item> \<open>WebSocket\<close>: \<open>transport_websocket.go\<close>. Reads give the messages of the peer as one stream; a waiting
  reader blocks writes and the close.

  \<^item> \<open>Performance\<close>: \<open>performance.go\<close>. The monitor, its percentiles, and the pools of reused objects.

  \<^bold>\<open>Not modelled.\<close> Logging and metrics output, goroutine scheduling beyond the interleavings named
  above, HTTP headers other than those the code decides on, listeners and framing; the registry of middleware
  factories with its JSON configuration; \<open>Wait\<close> and \<open>WaitN\<close> of the composite limiter and the enhanced rate
  limiting middleware; the helpers of \<open>marshaling.go\<close>, the validator of struct tags, typed reads of resources and
  prompts, embedded struct fields in schemas; examples. The commands under \<open>exp\<close> and \<open>cmd\<close> are programs of
  their own.
\<close>

end
